(* ===== verification/Prelude.thy ===== *)
theory Prelude
  imports Main "HOL-Library.Word"
begin

text \<open>
  Shared material of the development: the machine types of the 64-bit target, the
  result type in which failed assertions and exceptions are values, and the generic
  lemmas on results and on word-indexed ranges that the component theories use.
  \<^item> \<open>addr\<close> is \<open>uintptr_t\<close> (and \<open>size_t\<close>) of a 64-bit build, \<open>byte\<close> is \<open>uint8_t\<close>.
  \<^item> \<open>'a result\<close> is the outcome of code that can fail: \<open>Inl\<close> carries the fault,
    \<open>Inr\<close> the value. \<open>bind_result\<close> runs the rest of a function unless it has failed.
  \<^item> \<open>in_region a n b\<close> says that address \<open>b\<close> is one of the \<open>n\<close> addresses from \<open>a\<close>
    on, with the address arithmetic of the machine (it may wrap around).
\<close>

unbundle bit_operations_syntax

type_synonym addr = "64 word"
type_synonym byte = "8 word"
type_synonym u32 = "32 word"
type_synonym u64 = "64 word"

datatype fault =
  Assert_failed   \<comment> \<open>an \<open>assert\<close> of the source does not hold\<close>
| Null_expression \<comment> \<open>a null \<open>SymExpr\<close> reaches a backend call that dereferences it\<close>
| Out_of_range    \<comment> \<open>\<open>std::map::at\<close> finds no such key and throws \<open>std::out_of_range\<close>\<close>
| Unregistered_pointer \<comment> \<open>an expression pointer is used after its last reference is gone\<close>

type_synonym 'a result = "fault + 'a"

definition bind_result :: "'e + 'a \<Rightarrow> ('a \<Rightarrow> 'e + 'b) \<Rightarrow> 'e + 'b" where
  "bind_result r f = (case r of Inl e \<Rightarrow> Inl e | Inr x \<Rightarrow> f x)"

definition assert_that :: "bool \<Rightarrow> unit result" where
  "assert_that b = (if b then Inr () else Inl Assert_failed)"

text \<open>Using a global pointer: a fault before its initialisation.\<close>

definition global :: "'a option \<Rightarrow> 'a result" where
  "global g = (case g of None \<Rightarrow> Inl Null_expression | Some x \<Rightarrow> Inr x)"

named_theorems result_simps "evaluation of results"
named_theorems word_range "word arithmetic on address ranges"

lemma bind_result_simps [simp, result_simps]:
  "bind_result (Inl e) f = Inl e"
  "bind_result (Inr x) f = f x"
  by (simp_all add: bind_result_def)

lemma bind_result_eq_Inr:
  "bind_result r f = Inr y \<longleftrightarrow> (\<exists>x. r = Inr x \<and> f x = Inr y)"
  by (cases r) auto

lemma bind_result_eq_Inl:
  "bind_result r f = Inl e \<longleftrightarrow> r = Inl e \<or> (\<exists>x. r = Inr x \<and> f x = Inl e)"
  by (cases r) auto

lemma bind_result_cong [fundef_cong]:
  "r = r' \<Longrightarrow> (\<And>x. r' = Inr x \<Longrightarrow> f x = g x) \<Longrightarrow> bind_result r f = bind_result r' g"
  by (cases r') auto

lemma bind_result_assoc:
  "bind_result (bind_result r f) g = bind_result r (\<lambda>x. bind_result (f x) g)"
  by (cases r) auto

lemma assert_that_simps [simp, result_simps]:
  "assert_that True = Inr ()"
  "assert_that False = Inl Assert_failed"
  by (simp_all add: assert_that_def)

lemma global_simps [simp, result_simps]:
  "global None = Inl Null_expression"
  "global (Some x) = Inr x"
  by (simp_all add: global_def)

lemma assert_that_eq_Inr [simp]: "assert_that b = Inr u \<longleftrightarrow> b"
  by (simp add: assert_that_def)

subsection \<open>Address ranges\<close>

definition in_region :: "addr \<Rightarrow> nat \<Rightarrow> addr \<Rightarrow> bool" where
  "in_region a n b \<longleftrightarrow> unat (b - a) < n"

lemma in_region_0 [simp]: "\<not> in_region a 0 b"
  by (simp add: in_region_def)

lemma in_region_self [simp]: "in_region a n a \<longleftrightarrow> 0 < n"
  by (simp add: in_region_def)

lemma unat_addr_less [word_range]: "unat (a :: addr) < 2 ^ 64"
  by (rule order_less_le_trans [OF unsigned_less]) simp

lemma unat_of_nat_small [word_range]:
  "n < 2 ^ 64 \<Longrightarrow> unat (of_nat n :: addr) = n"
  by (simp add: unat_of_nat take_bit_nat_eq_self)

lemma eq_of_nat_unat: "unat (a :: addr) = n \<Longrightarrow> a = of_nat n"
  by auto

lemma in_region_iff:
  assumes "n \<le> 2 ^ 64"
  shows "in_region a n b \<longleftrightarrow> (\<exists>k<n. b = a + of_nat k)"
proof
  assume "in_region a n b"
  then have "unat (b - a) < n" "b = a + of_nat (unat (b - a))"
    by (simp_all add: in_region_def)
  then show "\<exists>k<n. b = a + of_nat k" by blast
next
  assume "\<exists>k<n. b = a + of_nat k"
  then obtain k where "k < n" "b = a + of_nat k" by blast
  with assms show "in_region a n b"
    by (simp add: in_region_def unat_of_nat_small)
qed

lemma unat_minus_1_less [word_range]:
  fixes x :: addr
  assumes "x \<noteq> 0"
  shows "Suc (unat (x - 1)) = unat x"
  using assms by (simp add: unat_minus_one unat_gt_0)

lemma range_step_Suc [word_range]:
  fixes a b :: addr
  assumes "a \<noteq> b"
  shows "Suc (unat (b - (a + 1))) = unat (b - a)"
  using unat_minus_1_less [of "b - a"] assms by (simp add: algebra_simps)

lemma range_step_less [word_range]:
  fixes a b :: addr
  shows "a \<noteq> b \<Longrightarrow> unat (b - (a + 1)) < unat (b - a)"
  using range_step_Suc [of a b] by simp

lemma range_step_back_less [word_range]:
  fixes a b :: addr
  assumes "a \<noteq> b"
  shows "unat ((b - 1) - a) < unat (b - a)"
  using range_step_less [OF assms] by (simp add: algebra_simps)

lemma region_end_neq [word_range]:
  fixes a :: addr
  assumes "Suc n < 2 ^ 64"
  shows "a \<noteq> a + of_nat (Suc n)"
proof
  assume "a = a + of_nat (Suc n)"
  then have "(of_nat (Suc n) :: addr) = 0" by (metis add_cancel_right_right)
  then have "unat (of_nat (Suc n) :: addr) = 0" by simp
  with assms show False by (simp add: unat_of_nat_small del: of_nat_Suc)
qed

lemma in_region_Suc [word_range]:
  assumes "Suc n < 2 ^ 64"
  shows "in_region a (Suc n) b \<longleftrightarrow> b = a \<or> in_region (a + 1) n b"
proof (cases "b = a")
  case False
  then have "Suc (unat (b - (a + 1))) = unat (b - a)"
    by (intro range_step_Suc) simp
  with False show ?thesis by (auto simp: in_region_def)
qed (simp add: in_region_def)

lemma in_region_Suc_last [word_range]:
  assumes "Suc n < 2 ^ 64"
  shows "in_region a (Suc n) b \<longleftrightarrow> b = a + of_nat n \<or> in_region a n b"
proof -
  have "unat (b - a) = n \<longleftrightarrow> b = a + of_nat n"
    using assms by (auto simp: unat_of_nat_small)
  then show ?thesis by (auto simp: in_region_def less_Suc_eq)
qed

end
