(* ===== verification/StdMap.thy ===== *)
theory StdMap
  imports Prelude
begin

text \<open>
  The containers of the C++ standard library that the runtime keeps its state in:
  \<open>std::map\<close> as a list of key/value pairs sorted by key (the order in which the code
  iterates), with lookup, \<open>operator[]\<close> assignment, and the erase-while-iterating loop of
  the garbage collectors. The locale \<open>map_interface\<close> states what clients rely on.
\<close>

type_synonym ('k, 'v) std_map = "('k \<times> 'v) list"

definition map_find :: "('k, 'v) std_map \<Rightarrow> 'k \<Rightarrow> 'v option" where
  "map_find m k = map_of m k"

definition map_count :: "('k, 'v) std_map \<Rightarrow> 'k \<Rightarrow> nat" where
  "map_count m k = (if map_find m k = None then 0 else 1)"

definition map_at :: "('k, 'v) std_map \<Rightarrow> 'k \<Rightarrow> 'v result" where
  "map_at m k = (case map_find m k of None \<Rightarrow> Inl Out_of_range | Some v \<Rightarrow> Inr v)"

fun map_set :: "('k::linorder, 'v) std_map \<Rightarrow> 'k \<Rightarrow> 'v \<Rightarrow> ('k, 'v) std_map" where
  "map_set [] k v = [(k, v)]"
| "map_set ((k', v') # m) k v =
     (if k < k' then (k, v) # (k', v') # m
      else if k = k' then (k, v) # m
      else (k', v') # map_set m k v)"

fun map_erase_if :: "('k \<Rightarrow> bool) \<Rightarrow> ('k, 'v) std_map \<Rightarrow> ('k, 'v) std_map" where
  "map_erase_if P [] = []"
| "map_erase_if P ((k, v) # m) =
     (if P k then map_erase_if P m else (k, v) # map_erase_if P m)"

definition map_wf :: "('k::linorder, 'v) std_map \<Rightarrow> bool" where
  "map_wf m \<longleftrightarrow> sorted_wrt (<) (map fst m)"

definition map_dom :: "('k, 'v) std_map \<Rightarrow> 'k set" where
  "map_dom m = fst ` set m"

named_theorems std_map_simps "lookup after update in a std::map"

lemma map_find_Nil [simp, std_map_simps]: "map_find [] k = None"
  by (simp add: map_find_def)

lemma map_find_set: "map_find (map_set m k v) = (map_find m)(k \<mapsto> v)"
  by (induction m k v rule: map_set.induct) (auto simp: map_find_def fun_eq_iff)

lemma map_find_set_apply [simp, std_map_simps]:
  "map_find (map_set m k v) k' = (if k' = k then Some v else map_find m k')"
  by (simp add: map_find_set)

lemma map_dom_simps [simp, std_map_simps]:
  "map_dom [] = {}" "map_dom ((k, v) # m) = insert k (map_dom m)"
  by (simp_all add: map_dom_def)

lemma map_dom_set [simp, std_map_simps]: "map_dom (map_set m k v) = insert k (map_dom m)"
  by (induction m k v rule: map_set.induct) auto

lemma map_dom_find: "map_dom m = dom (map_find m)"
proof -
  have "map_find m = map_of m" by (rule ext) (simp add: map_find_def)
  then show ?thesis by (simp add: map_dom_def dom_map_of_conv_image_fst)
qed

lemma map_dom_iff: "k \<in> map_dom m \<longleftrightarrow> (\<exists>v. map_find m k = Some v)"
  by (auto simp: map_dom_find)

lemma map_count_simps [simp, std_map_simps]:
  "map_count m k = 0 \<longleftrightarrow> map_find m k = None"
  "map_count m k = Suc 0 \<longleftrightarrow> map_find m k \<noteq> None"
  "0 < map_count m k \<longleftrightarrow> map_find m k \<noteq> None"
  by (simp_all add: map_count_def)

lemma map_at_simps [simp, std_map_simps]:
  "map_find m k = Some v \<Longrightarrow> map_at m k = Inr v"
  "map_find m k = None \<Longrightarrow> map_at m k = Inl Out_of_range"
  by (simp_all add: map_at_def)

lemma map_at_eq_Inr: "map_at m k = Inr v \<longleftrightarrow> map_find m k = Some v"
  by (simp add: map_at_def split: option.splits)

lemma map_find_erase_if [simp, std_map_simps]:
  "map_find (map_erase_if P m) k = (if P k then None else map_find m k)"
  by (induction P m rule: map_erase_if.induct) (auto simp: map_find_def)

lemma map_dom_erase_if [simp, std_map_simps]:
  "map_dom (map_erase_if P m) = map_dom m - {k. P k}"
  by (auto simp: map_dom_find dom_def split: if_splits)

lemma map_wf_Nil [simp]: "map_wf []"
  by (simp add: map_wf_def)

lemma map_wf_Cons [simp]:
  "map_wf ((k, v) # m) \<longleftrightarrow> (\<forall>k' \<in> map_dom m. k < k') \<and> map_wf m"
  by (simp add: map_wf_def map_dom_def)

lemma map_wf_set [simp, intro]: "map_wf m \<Longrightarrow> map_wf (map_set m k v)"
  by (induction m k v rule: map_set.induct) (auto dest: order.strict_trans)

lemma map_wf_erase_if [simp, intro]: "map_wf m \<Longrightarrow> map_wf (map_erase_if P m)"
  by (induction P m rule: map_erase_if.induct) auto

lemma map_find_in_set: "map_wf m \<Longrightarrow> map_find m k = Some v \<longleftrightarrow> (k, v) \<in> set m"
  by (simp add: map_find_def map_wf_def strict_sorted_iff map_of_eq_Some_iff)

text \<open>Two well-formed maps with the same lookups are the same list.\<close>

lemma map_wf_ext:
  assumes "map_wf m" "map_wf m'" "map_find m = map_find m'"
  shows "m = m'"
proof -
  have "sorted (map fst m)" "distinct (map fst m)" "sorted (map fst m')" "distinct (map fst m')"
    using assms(1,2) by (simp_all add: map_wf_def strict_sorted_iff)
  moreover have "set m = set m'"
    using map_find_in_set [OF assms(1)] map_find_in_set [OF assms(2)] assms(3) by fastforce
  moreover from calculation have "inj_on fst (set m \<union> set m')"
    by (simp add: distinct_map)
  ultimately show ?thesis by (intro map_sorted_distinct_set_unique [of fst m m'])
qed

subsection \<open>What clients of a map rely on\<close>

locale map_interface =
  fixes empty :: 'm
    and lookup :: "'m \<Rightarrow> 'k \<Rightarrow> 'v option"
    and update :: "'m \<Rightarrow> 'k \<Rightarrow> 'v \<Rightarrow> 'm"
    and invar :: "'m \<Rightarrow> bool"
  assumes lookup_empty: "lookup empty k = None"
    and lookup_update: "invar m \<Longrightarrow> lookup (update m k v) k' = (if k' = k then Some v else lookup m k')"
    and invar_empty: "invar empty"
    and invar_update: "invar m \<Longrightarrow> invar (update m k v)"
    and extensional: "invar m \<Longrightarrow> invar m' \<Longrightarrow> (\<And>k. lookup m k = lookup m' k) \<Longrightarrow> m = m'"
begin

lemma update_overwrite: "invar m \<Longrightarrow> update (update m k v) k v' = update m k v'"
  by (rule extensional) (auto simp: lookup_update invar_update)

lemma update_commute:
  "invar m \<Longrightarrow> k \<noteq> k' \<Longrightarrow> update (update m k v) k' v' = update (update m k' v') k v"
  by (rule extensional) (auto simp: lookup_update invar_update)

lemma update_same: "invar m \<Longrightarrow> lookup m k = Some v \<Longrightarrow> update m k v = m"
  by (rule extensional) (auto simp: lookup_update invar_update)

lemma invar_fold: "invar m \<Longrightarrow> invar (fold (\<lambda>(k, v) m. update m k v) kvs m)"
  by (induction kvs arbitrary: m) (auto simp: invar_update)

lemma lookup_fold_notin:
  "invar m \<Longrightarrow> k \<notin> fst ` set kvs \<Longrightarrow> lookup (fold (\<lambda>(k, v) m. update m k v) kvs m) k = lookup m k"
  by (induction kvs arbitrary: m) (auto simp: invar_update lookup_update)

lemma lookup_fold_distinct:
  "invar m \<Longrightarrow> distinct (map fst kvs) \<Longrightarrow>
   lookup (fold (\<lambda>(k, v) m. update m k v) kvs m) k =
     (case map_of kvs k of None \<Rightarrow> lookup m k | Some v \<Rightarrow> Some v)"
proof (induction kvs arbitrary: m)
  case (Cons kv kvs)
  obtain k' v' where [simp]: "kv = (k', v')" by force
  have "k' \<notin> fst ` set kvs" using Cons.prems by simp
  then have "map_of kvs k' = None" by (simp add: map_of_eq_None_iff)
  then show ?case using Cons
    by (auto simp: invar_update lookup_update split: option.splits)
qed simp

end

interpretation sorted_map: map_interface "[] :: ('k::linorder, 'v) std_map" map_find map_set map_wf
  by unfold_locales (auto intro: map_wf_ext simp: fun_eq_iff)

end
