(* ===== verification/Shadow.thy ===== *)
theory Shadow
  imports StdMap
begin

text \<open>
  runtime/Shadow.h and runtime/Shadow.cpp: the shadow memory. A shadow page is an array
  of \<open>kPageSize\<close> expression pointers (\<open>None\<close> is the null pointer, a concrete byte), and
  \<open>g_shadow_pages\<close> maps page addresses to shadow pages. The iterators walk over shadow
  bytes and cache a pointer into the current page; \<open>shadow_\<close> is the pair of the page
  whose array it points into and the element index. Dereferencing a read iterator checks
  the source's assertion that the expression has 8 bits (\<open>bits\<close> is \<open>_sym_bits_helper\<close>).
\<close>

definition kPageSize :: addr where
  "kPageSize = 4096"

definition pageStart :: "addr \<Rightarrow> addr" where
  "pageStart a = a AND NOT (kPageSize - 1)"

definition pageOffset :: "addr \<Rightarrow> addr" where
  "pageOffset a = a AND (kPageSize - 1)"

type_synonym 'e shadow_page = "int \<Rightarrow> 'e option"
type_synonym 'e shadow_pages = "(addr, 'e shadow_page) std_map"
type_synonym shadow_ptr = "addr \<times> int"

record shadow_iterator =
  address :: addr
  shadow :: "shadow_ptr option"

subsection \<open>Iterators\<close>

definition getShadow :: "'e shadow_pages \<Rightarrow> addr \<Rightarrow> shadow_ptr option" where
  "getShadow g_shadow_pages a =
     (case map_find g_shadow_pages (pageStart a) of
        Some page \<Rightarrow> Some (pageStart a, uint (pageOffset a))
      | None \<Rightarrow> None)"

definition ReadShadowIterator :: "'e shadow_pages \<Rightarrow> addr \<Rightarrow> shadow_iterator" where
  "ReadShadowIterator pages a = \<lparr>address = a, shadow = getShadow pages a\<rparr>"

definition read_increment :: "'e shadow_pages \<Rightarrow> shadow_iterator \<Rightarrow> shadow_iterator" where
  "read_increment pages it =
     (let previousAddress = address it;
          a = previousAddress + 1;
          s = (case shadow it of Some (p, i) \<Rightarrow> Some (p, i + 1) | None \<Rightarrow> None)
      in \<lparr>address = a,
          shadow = (if pageStart a \<noteq> pageStart previousAddress then getShadow pages a else s)\<rparr>)"

definition read_decrement :: "'e shadow_pages \<Rightarrow> shadow_iterator \<Rightarrow> shadow_iterator" where
  "read_decrement pages it =
     (let previousAddress = address it;
          a = previousAddress - 1;
          s = (case shadow it of Some (p, i) \<Rightarrow> Some (p, i - 1) | None \<Rightarrow> None)
      in \<lparr>address = a,
          shadow = (if pageStart a \<noteq> pageStart previousAddress then getShadow pages a else s)\<rparr>)"

text \<open>
  What a pointer into a shadow page reads. Shadow pages are allocated once and never
  freed, so the page of a pointer is always present (\<open>iter_view_Some\<close> below).
\<close>

definition load_shadow :: "'e shadow_pages \<Rightarrow> shadow_ptr \<Rightarrow> 'e option" where
  "load_shadow pages p =
     (case map_find pages (fst p) of Some page \<Rightarrow> page (snd p) | None \<Rightarrow> None)"

definition store_shadow :: "'e shadow_pages \<Rightarrow> shadow_ptr \<Rightarrow> 'e option \<Rightarrow> 'e shadow_pages" where
  "store_shadow pages p v =
     (case map_find pages (fst p) of
        Some page \<Rightarrow> map_set pages (fst p) (page(snd p := v))
      | None \<Rightarrow> pages)"

definition read_deref ::
  "('e \<Rightarrow> addr) \<Rightarrow> 'e shadow_pages \<Rightarrow> shadow_iterator \<Rightarrow> 'e option result" where
  "read_deref bits pages it =
     (case shadow it of
        None \<Rightarrow> Inr None
      | Some p \<Rightarrow>
          (case load_shadow pages p of
             None \<Rightarrow> Inr None
           | Some e \<Rightarrow> bind_result (assert_that (bits e = 8)) (\<lambda>_. Inr (Some e))))"

definition getOrCreateShadow :: "'e shadow_pages \<Rightarrow> addr \<Rightarrow> shadow_ptr \<times> 'e shadow_pages" where
  "getOrCreateShadow pages a =
     (case getShadow pages a of
        Some p \<Rightarrow> (p, pages)
      | None \<Rightarrow>
          let newShadow = (\<lambda>_. None)
          in ((pageStart a, uint (pageOffset a)), map_set pages (pageStart a) newShadow))"

definition WriteShadowIterator ::
  "'e shadow_pages \<Rightarrow> addr \<Rightarrow> shadow_iterator \<times> 'e shadow_pages" where
  "WriteShadowIterator pages a =
     (let (p, pages') = getOrCreateShadow pages a
      in (\<lparr>address = a, shadow = Some p\<rparr>, pages'))"

definition write_increment ::
  "'e shadow_pages \<Rightarrow> shadow_iterator \<Rightarrow> shadow_iterator \<times> 'e shadow_pages" where
  "write_increment pages it =
     (let previousAddress = address it;
          a = previousAddress + 1;
          s = map_option (\<lambda>(p, i). (p, i + 1)) (shadow it)
      in if pageStart a \<noteq> pageStart previousAddress
         then (let (p, pages') = getOrCreateShadow pages a
               in (\<lparr>address = a, shadow = Some p\<rparr>, pages'))
         else (\<lparr>address = a, shadow = s\<rparr>, pages))"

definition write_decrement ::
  "'e shadow_pages \<Rightarrow> shadow_iterator \<Rightarrow> shadow_iterator \<times> 'e shadow_pages" where
  "write_decrement pages it =
     (let previousAddress = address it;
          a = previousAddress - 1;
          s = map_option (\<lambda>(p, i). (p, i - 1)) (shadow it)
      in if pageStart a \<noteq> pageStart previousAddress
         then (let (p, pages') = getOrCreateShadow pages a
               in (\<lparr>address = a, shadow = Some p\<rparr>, pages'))
         else (\<lparr>address = a, shadow = s\<rparr>, pages))"

definition write_deref_assign ::
  "'e shadow_pages \<Rightarrow> shadow_iterator \<Rightarrow> 'e option \<Rightarrow> 'e shadow_pages" where
  "write_deref_assign pages it v =
     (case shadow it of Some p \<Rightarrow> store_shadow pages p v | None \<Rightarrow> pages)"


subsection \<open>Walks over a shadow range\<close>

text \<open>
  The standard algorithms the runtime runs on these iterators, written as the loops they
  are: \<open>std::all_of\<close> with the null test of \<open>isConcrete\<close>, \<open>std::copy\<close>,
  \<open>std::copy_backward\<close> and \<open>std::fill\<close>. The end of a range is compared by address only
  (\<open>operator==\<close> of the iterators), and every loop stops because the distance to the end
  address shrinks, even where the range wraps around.
\<close>

lemma address_read_increment [simp]: "address (read_increment pages it) = address it + 1"
  by (simp add: read_increment_def Let_def)

lemma address_read_decrement [simp]: "address (read_decrement pages it) = address it - 1"
  by (simp add: read_decrement_def Let_def)

lemma address_write_increment [simp]: "address (fst (write_increment pages it)) = address it + 1"
  by (simp add: write_increment_def Let_def split: prod.splits)

lemma address_write_decrement [simp]: "address (fst (write_decrement pages it)) = address it - 1"
  by (simp add: write_decrement_def Let_def split: prod.splits)

lemma address_ReadShadowIterator [simp]: "address (ReadShadowIterator pages a) = a"
  by (simp add: ReadShadowIterator_def)

lemma address_WriteShadowIterator [simp]: "address (fst (WriteShadowIterator pages a)) = a"
  by (simp add: WriteShadowIterator_def split: prod.splits)

function all_null ::
  "('e \<Rightarrow> addr) \<Rightarrow> 'e shadow_pages \<Rightarrow> shadow_iterator \<Rightarrow> addr \<Rightarrow> bool result" where
  "all_null bits pages first stop =
     (if address first = stop then Inr True
      else bind_result (read_deref bits pages first) (\<lambda>expr.
        if expr = None then all_null bits pages (read_increment pages first) stop
        else Inr False))"
  by pat_completeness auto
termination
  by (relation "measure (\<lambda>(bits, pages, first, stop). unat (stop - address first))")
    (auto intro: range_step_less)

function shadow_copy ::
  "('e \<Rightarrow> addr) \<Rightarrow> shadow_iterator \<Rightarrow> addr \<Rightarrow> shadow_iterator \<Rightarrow> 'e shadow_pages \<Rightarrow>
   'e shadow_pages result" where
  "shadow_copy bits first stop res pages =
     (if address first = stop then Inr pages
      else bind_result (read_deref bits pages first) (\<lambda>expr.
        let pages1 = write_deref_assign pages res expr;
            wr = write_increment pages1 res
        in shadow_copy bits (read_increment (snd wr) first) stop (fst wr) (snd wr)))"
  by pat_completeness auto
termination
  by (relation "measure (\<lambda>(bits, first, stop, res, pages). unat (stop - address first))")
    (auto intro: range_step_less)

function shadow_copy_backward ::
  "('e \<Rightarrow> addr) \<Rightarrow> addr \<Rightarrow> shadow_iterator \<Rightarrow> shadow_iterator \<Rightarrow> 'e shadow_pages \<Rightarrow>
   'e shadow_pages result" where
  "shadow_copy_backward bits first stop res pages =
     (if first = address stop then Inr pages
      else let stop' = read_decrement pages stop
        in bind_result (read_deref bits pages stop') (\<lambda>expr.
          let wr = write_decrement pages res
          in shadow_copy_backward bits first stop' (fst wr)
               (write_deref_assign (snd wr) (fst wr) expr)))"
  by pat_completeness auto
termination
  by (relation "measure (\<lambda>(bits, first, stop, res, pages). unat (address stop - first))")
    (auto intro: range_step_back_less)

function shadow_fill ::
  "shadow_iterator \<Rightarrow> addr \<Rightarrow> 'e option \<Rightarrow> 'e shadow_pages \<Rightarrow> 'e shadow_pages" where
  "shadow_fill first stop v pages =
     (if address first = stop then pages
      else let wr = write_increment (write_deref_assign pages first v) first
        in shadow_fill (fst wr) stop v (snd wr))"
  by pat_completeness auto
termination
  by (relation "measure (\<lambda>(first, stop, v, pages). unat (stop - address first))")
    (auto intro: range_step_less)

declare all_null.simps [simp del] shadow_copy.simps [simp del]
  shadow_copy_backward.simps [simp del] shadow_fill.simps [simp del]

definition isConcrete :: "('e \<Rightarrow> addr) \<Rightarrow> 'e shadow_pages \<Rightarrow> addr \<Rightarrow> addr \<Rightarrow> bool result" where
  "isConcrete bits pages a nbytes =
     (let byteBuf = a
      in if pageStart byteBuf = pageStart (byteBuf + nbytes)
            \<and> map_count pages (pageStart byteBuf) = 0
         then Inr True
         else all_null bits pages (ReadShadowIterator pages a) (a + nbytes))"

subsection \<open>Page arithmetic\<close>

lemma uint_pageOffset: "uint (pageOffset a) = uint a mod 4096"
proof -
  have "pageOffset a = take_bit 12 a"
    by (simp add: pageOffset_def kPageSize_def take_bit_eq_mask mask_eq_exp_minus_1)
  then have "uint (pageOffset a) = take_bit 12 (uint a)"
    by (simp only: unsigned_take_bit_eq)
  then show ?thesis by (simp add: take_bit_eq_mod)
qed

lemma pageStart_plus_pageOffset: "pageStart a + pageOffset a = a"
proof -
  have "(a AND NOT (kPageSize - 1)) AND (a AND (kPageSize - 1)) = 0"
    by (rule bit_eqI) (auto simp: bit_simps)
  then have "pageStart a + pageOffset a = (a AND NOT (kPageSize - 1)) OR (a AND (kPageSize - 1))"
    by (simp add: pageStart_def pageOffset_def disjunctive_add_eq_or)
  also have "\<dots> = a" by (rule bit_eqI) (auto simp: bit_simps)
  finally show ?thesis .
qed

lemma uint_pageStart: "uint (pageStart a) = uint a - uint a mod 4096"
proof -
  have "pageStart a = a - pageOffset a"
    using pageStart_plus_pageOffset [of a] by (metis add_diff_cancel_right')
  moreover have "uint (pageOffset a) \<le> uint a"
    by (simp add: uint_pageOffset zmod_le_nonneg_dividend)
  ultimately show ?thesis
    by (simp add: uint_sub_if' uint_pageOffset)
qed

lemma pageStart_eq_iff: "pageStart a = pageStart b \<longleftrightarrow> uint a div 4096 = uint b div 4096"
proof -
  have "pageStart a = pageStart b \<longleftrightarrow> uint (pageStart a) = uint (pageStart b)"
    by (rule word_uint_eq_iff)
  also have "\<dots> \<longleftrightarrow> uint a div 4096 = uint b div 4096"
    by (simp add: uint_pageStart minus_mod_eq_mult_div)
  finally show ?thesis .
qed

lemma page_address_eq:
  "pageStart a = pageStart b \<Longrightarrow> uint (pageOffset a) = uint (pageOffset b) \<Longrightarrow> a = b"
  by (metis pageStart_plus_pageOffset word_uint_eq_iff)

lemma pageOffset_bounds: "0 \<le> uint (pageOffset a)" "uint (pageOffset a) < 4096"
  by (simp_all add: uint_pageOffset)

lemma uint_plus_1: "uint (a + 1 :: addr) = (if uint a = 2 ^ 64 - 1 then 0 else uint a + 1)"
  using uint_lt2p [of a] by (simp add: uint_word_ariths mod_pos_pos_trivial)

lemma pageOffset_succ:
  assumes "pageStart (a + 1) = pageStart a"
  shows "uint (pageOffset (a + 1)) = uint (pageOffset a) + 1"
proof -
  have d: "uint (a + 1) div 4096 = uint a div 4096"
    using assms by (simp add: pageStart_eq_iff)
  then have "uint (a + 1) = uint a + 1"
    using uint_plus_1 [of a] by (auto split: if_splits)
  with d show ?thesis by (simp add: uint_pageOffset) presburger
qed

lemma pageOffset_pred:
  assumes "pageStart (a - 1) = pageStart a"
  shows "uint (pageOffset (a - 1)) = uint (pageOffset a) - 1"
  using pageOffset_succ [of "a - 1"] assms by simp

lemma uint_plus_of_nat:
  assumes "unat a + k < 2 ^ 64"
  shows "uint (a + of_nat k :: addr) = uint a + int k"
proof -
  have "k < 2 ^ 64" using assms by linarith
  then have "unat (of_nat k :: addr) = k" by (rule unat_of_nat_small)
  then have "unat (a + of_nat k) = unat a + k"
    using assms unat_add_lem [of a "of_nat k"] by simp
  then have "int (unat (a + of_nat k)) = int (unat a) + int k" by linarith
  then show ?thesis by (simp only: uint_nat)
qed

lemma pageStart_between:
  assumes page: "pageStart a = pageStart (a + m)" and wrap: "unat a + unat m < 2 ^ 64"
    and k: "k \<le> unat m"
  shows "pageStart (a + of_nat k) = pageStart a"
proof -
  have "uint (a + m) = uint a + uint m"
    using uint_plus_of_nat [OF wrap] by simp
  then have hi: "(uint a + uint m) div 4096 = uint a div 4096"
    using page by (simp add: pageStart_eq_iff)
  have "int k \<le> int (unat m)" using k by (simp only: of_nat_le_iff)
  then have "int k \<le> uint m" by simp
  then have "(uint a + int k) div 4096 \<le> (uint a + uint m) div 4096"
    by (intro zdiv_mono1) simp_all
  moreover have "uint a div 4096 \<le> (uint a + int k) div 4096"
    by (intro zdiv_mono1) simp_all
  ultimately have "(uint a + int k) div 4096 = uint a div 4096" using hi by linarith
  moreover have "uint (a + of_nat k) = uint a + int k"
    by (rule uint_plus_of_nat) (use wrap k in linarith)
  ultimately show ?thesis by (simp only: pageStart_eq_iff)
qed

subsection \<open>The abstract shadow: one expression per address\<close>

text \<open>
  \<open>shadow_at pages\<close> is what the shadow memory means: a partial map from addresses to
  byte expressions. A valid iterator (\<open>iter_view\<close> for writing, \<open>read_view\<close> for reading
  the addresses in \<open>S\<close>) points at the cell of its own address; a read iterator may keep
  a null pointer for a page that got its shadow meanwhile, as long as everything it is
  still going to read there is concrete.
\<close>

definition shadow_at :: "'e shadow_pages \<Rightarrow> addr \<Rightarrow> 'e option" where
  "shadow_at pages a =
     (case map_find pages (pageStart a) of
        None \<Rightarrow> None
      | Some page \<Rightarrow> page (uint (pageOffset a)))"

definition shadow_bytes :: "('e \<Rightarrow> addr) \<Rightarrow> 'e shadow_pages \<Rightarrow> bool" where
  "shadow_bytes bits pages \<longleftrightarrow> (\<forall>a e. shadow_at pages a = Some e \<longrightarrow> bits e = 8)"

definition bytes_on :: "('e \<Rightarrow> addr) \<Rightarrow> 'e shadow_pages \<Rightarrow> addr set \<Rightarrow> bool" where
  "bytes_on bits pages S \<longleftrightarrow> (\<forall>a\<in>S. \<forall>e. shadow_at pages a = Some e \<longrightarrow> bits e = 8)"

definition cell :: "addr \<Rightarrow> shadow_ptr" where
  "cell a = (pageStart a, uint (pageOffset a))"

definition iter_view :: "'e shadow_pages \<Rightarrow> shadow_iterator \<Rightarrow> bool" where
  "iter_view pages it \<longleftrightarrow>
     shadow it = Some (cell (address it)) \<and> pageStart (address it) \<in> map_dom pages"

definition read_view :: "'e shadow_pages \<Rightarrow> shadow_iterator \<Rightarrow> addr set \<Rightarrow> bool" where
  "read_view pages it S \<longleftrightarrow>
     (if shadow it = None
      then \<forall>a\<in>S. pageStart a = pageStart (address it) \<longrightarrow> shadow_at pages a = None
      else iter_view pages it)"

named_theorems shadow_simps "the abstract shadow after each iterator operation"

lemma load_shadow_cell: "load_shadow pages (cell a) = shadow_at pages a"
  by (simp add: load_shadow_def cell_def shadow_at_def split: option.split)

lemma getShadow_eq:
  "getShadow pages a = (if pageStart a \<in> map_dom pages then Some (cell a) else None)"
  by (auto simp: getShadow_def cell_def map_dom_iff split: option.splits)

lemma shadow_at_no_page [simp]: "pageStart a \<notin> map_dom pages \<Longrightarrow> shadow_at pages a = None"
  by (auto simp: shadow_at_def map_dom_iff split: option.splits)

lemma shadow_at_store:
  assumes "pageStart a \<in> map_dom pages"
  shows "shadow_at (store_shadow pages (cell a) v) b = (if b = a then v else shadow_at pages b)"
  using assms page_address_eq [of b a]
  by (auto simp: store_shadow_def cell_def shadow_at_def map_dom_iff)

lemma map_dom_store [simp]: "map_dom (store_shadow pages p v) = map_dom pages"
  by (auto simp: store_shadow_def map_dom_iff split: option.splits)

lemma iter_view_Some: "iter_view pages it \<Longrightarrow> \<exists>page. map_find pages (fst (cell (address it))) = Some page"
  by (auto simp: iter_view_def cell_def map_dom_iff)

lemma shadow_at_write_deref_assign [shadow_simps]:
  "iter_view pages it \<Longrightarrow>
   shadow_at (write_deref_assign pages it v) b = (if b = address it then v else shadow_at pages b)"
  by (simp add: write_deref_assign_def iter_view_def shadow_at_store)

lemma map_dom_write_deref_assign [simp]: "map_dom (write_deref_assign pages it v) = map_dom pages"
  by (simp add: write_deref_assign_def split: option.splits)

lemma iter_view_write_deref_assign [simp, shadow_simps]:
  "iter_view (write_deref_assign pages it v) it' = iter_view pages it'"
  by (simp add: iter_view_def)

lemma getOrCreateShadow_props:
  "fst (getOrCreateShadow pages a) = cell a"
  "map_dom (snd (getOrCreateShadow pages a)) = insert (pageStart a) (map_dom pages)"
  "shadow_at (snd (getOrCreateShadow pages a)) b = shadow_at pages b"
  by (auto simp: getOrCreateShadow_def getShadow_eq cell_def shadow_at_def map_dom_iff
      split: option.splits)

lemma WriteShadowIterator_props [simp, shadow_simps]:
  "iter_view (snd (WriteShadowIterator pages a)) (fst (WriteShadowIterator pages a))"
  "map_dom (snd (WriteShadowIterator pages a)) = insert (pageStart a) (map_dom pages)"
  "shadow_at (snd (WriteShadowIterator pages a)) b = shadow_at pages b"
  using getOrCreateShadow_props [of pages a]
  by (auto simp: WriteShadowIterator_def iter_view_def split: prod.splits)

lemma cell_succ: "pageStart (a + 1) = pageStart a \<Longrightarrow> cell (a + 1) = (fst (cell a), snd (cell a) + 1)"
  by (simp add: cell_def pageOffset_succ)

lemma cell_pred: "pageStart (a - 1) = pageStart a \<Longrightarrow> cell (a - 1) = (fst (cell a), snd (cell a) - 1)"
  by (simp add: cell_def pageOffset_pred)

lemma write_increment_props [shadow_simps]:
  assumes "iter_view pages it"
  shows "iter_view (snd (write_increment pages it)) (fst (write_increment pages it))"
    "map_dom pages \<subseteq> map_dom (snd (write_increment pages it))"
    "shadow_at (snd (write_increment pages it)) b = shadow_at pages b"
  using assms getOrCreateShadow_props [of pages "address it + 1"] cell_succ [of "address it"]
  by (auto simp: write_increment_def iter_view_def Let_def split: prod.splits)

lemma write_decrement_props [shadow_simps]:
  assumes "iter_view pages it"
  shows "iter_view (snd (write_decrement pages it)) (fst (write_decrement pages it))"
    "map_dom pages \<subseteq> map_dom (snd (write_decrement pages it))"
    "shadow_at (snd (write_decrement pages it)) b = shadow_at pages b"
  using assms getOrCreateShadow_props [of pages "address it - 1"] cell_pred [of "address it"]
  by (auto simp: write_decrement_def iter_view_def Let_def split: prod.splits)

lemma read_view_ReadShadowIterator [simp, intro]: "read_view pages (ReadShadowIterator pages a) S"
  by (auto simp: read_view_def ReadShadowIterator_def getShadow_eq iter_view_def)

lemma read_view_increment:
  assumes "read_view pages it S" "S' \<subseteq> S"
  shows "read_view pages (read_increment pages it) S'"
  using assms cell_succ [of "address it"]
  by (auto simp: read_view_def read_increment_def Let_def getShadow_eq iter_view_def
      split: if_splits option.splits prod.splits)

lemma read_view_decrement:
  assumes "read_view pages it S" "S' \<subseteq> S"
  shows "read_view pages (read_decrement pages it) S'"
  using assms cell_pred [of "address it"]
  by (auto simp: read_view_def read_decrement_def Let_def getShadow_eq iter_view_def
      split: if_splits option.splits prod.splits)

lemma read_view_mono:
  assumes "read_view pages it S" "map_dom pages \<subseteq> map_dom pages'"
    "\<And>a. a \<in> S \<Longrightarrow> shadow_at pages' a = shadow_at pages a"
  shows "read_view pages' it S"
  using assms by (auto simp: read_view_def iter_view_def split: if_splits)

lemma read_view_subset: "read_view pages it S \<Longrightarrow> S' \<subseteq> S \<Longrightarrow> read_view pages it S'"
  by (auto simp: read_view_def)

lemma read_deref_view:
  assumes "read_view pages it S" "address it \<in> S" "bytes_on bits pages S"
  shows "read_deref bits pages it = Inr (shadow_at pages (address it))"
proof (cases "shadow it")
  case None
  with assms show ?thesis by (auto simp: read_deref_def read_view_def)
next
  case (Some p)
  with assms have "p = cell (address it)" by (simp add: read_view_def iter_view_def)
  with Some assms show ?thesis
    by (auto simp: read_deref_def load_shadow_cell bytes_on_def split: option.split)
qed

subsection \<open>What the walks compute\<close>

abbreviation region :: "addr \<Rightarrow> nat \<Rightarrow> addr set" where
  "region a n \<equiv> {b. in_region a n b}"

lemma region_Suc_sub: "Suc n < 2 ^ 64 \<Longrightarrow> region (a + 1) n \<subseteq> region a (Suc n)"
  by (auto simp: in_region_Suc)

lemma bytes_on_mono: "bytes_on bits pages S \<Longrightarrow> S' \<subseteq> S \<Longrightarrow>
  (\<And>a. a \<in> S' \<Longrightarrow> shadow_at pages' a = shadow_at pages a) \<Longrightarrow> bytes_on bits pages' S'"
  by (auto simp: bytes_on_def)

lemma shadow_bytes_on: "shadow_bytes bits pages \<Longrightarrow> bytes_on bits pages S"
  by (simp add: shadow_bytes_def bytes_on_def)

lemma all_null_correct:
  "n < 2 ^ 64 \<Longrightarrow> read_view pages it (region (address it) n) \<Longrightarrow>
   bytes_on bits pages (region (address it) n) \<Longrightarrow>
   all_null bits pages it (address it + of_nat n) =
     Inr (\<forall>b \<in> region (address it) n. shadow_at pages b = None)"
proof (induction n arbitrary: it)
  case 0
  then show ?case by (simp add: all_null.simps [of _ _ it])
next
  case (Suc n)
  let ?a = "address it" and ?it' = "read_increment pages it"
  have sub: "region (?a + 1) n \<subseteq> region ?a (Suc n)" by (rule region_Suc_sub) (use Suc in simp)
  have deref: "read_deref bits pages it = Inr (shadow_at pages ?a)"
    using Suc.prems by (intro read_deref_view) auto
  have "all_null bits pages ?it' (address ?it' + of_nat n) =
      Inr (\<forall>b \<in> region (address ?it') n. shadow_at pages b = None)"
    using Suc.prems sub by (intro Suc.IH) (auto intro: read_view_increment bytes_on_mono)
  moreover have "?a \<noteq> ?a + of_nat (Suc n)" using Suc.prems by (intro region_end_neq)
  moreover have "?a + of_nat (Suc n) = address ?it' + of_nat n" by simp
  ultimately show ?case using Suc.prems deref
    by (subst all_null.simps) (auto simp: in_region_Suc add.assoc)
qed

lemma shadow_fill_correct:
  "n < 2 ^ 64 \<Longrightarrow> iter_view pages it \<Longrightarrow>
   shadow_at (shadow_fill it (address it + of_nat n) v pages) b =
     (if in_region (address it) n b then v else shadow_at pages b)"
proof (induction n arbitrary: it pages)
  case 0
  then show ?case by (simp add: shadow_fill.simps [of it])
next
  case (Suc n)
  let ?a = "address it" and ?pages1 = "write_deref_assign pages it v"
  let ?wr = "write_increment ?pages1 it"
  have view: "iter_view ?pages1 it" using Suc.prems by simp
  have "?a \<noteq> ?a + of_nat (Suc n)" using Suc.prems by (intro region_end_neq)
  then have "shadow_fill it (?a + of_nat (Suc n)) v pages =
      shadow_fill (fst ?wr) (address (fst ?wr) + of_nat n) v (snd ?wr)"
    by (subst shadow_fill.simps) (simp add: Let_def add.assoc)
  also have "shadow_at \<dots> b =
      (if in_region (?a + 1) n b then v else shadow_at (snd ?wr) b)"
    using Suc.IH [of "snd ?wr" "fst ?wr"] Suc.prems write_increment_props [OF view] by simp
  finally show ?case
    using Suc.prems write_increment_props(3) [OF view]
    by (simp add: in_region_Suc shadow_at_write_deref_assign)
qed

text \<open>
  A forward copy reads each source byte before anything is written to it, unless the
  destination starts strictly inside the source range.
\<close>

lemma shadow_copy_correct:
  assumes "n < 2 ^ 64" "address first = s" "address res = d" "iter_view pages res"
    "read_view pages first (region s n)" "bytes_on bits pages (region s n)"
    "d = s \<or> n \<le> unat (d - s)"
  shows "\<exists>pages'. shadow_copy bits first (s + of_nat n) res pages = Inr pages' \<and>
    (\<forall>b. shadow_at pages' b =
      (if in_region d n b then shadow_at pages (s + (b - d)) else shadow_at pages b))"
  using assms
proof (induction n arbitrary: first res pages s d)
  case 0
  then show ?case by (simp add: shadow_copy.simps [of _ first])
next
  case (Suc n)
  note [simp] = Suc.prems(2,3)
  let ?e = "shadow_at pages s" and ?pages1 = "write_deref_assign pages res (shadow_at pages s)"
  let ?wr = "write_increment ?pages1 res"
  let ?first' = "read_increment (snd ?wr) first"
  have view: "iter_view ?pages1 res" using Suc.prems by simp
  have at: "shadow_at (snd ?wr) b = (if b = d then ?e else shadow_at pages b)" for b
    using write_increment_props(3) [OF view] Suc.prems(4) by (simp add: shadow_at_write_deref_assign)
  have dom: "map_dom pages \<subseteq> map_dom (snd ?wr)"
    using write_increment_props(2) [OF view] by simp
  have sub: "region (s + 1) n \<subseteq> region s (Suc n)" by (rule region_Suc_sub) (use Suc in simp)
  have notd: "\<not> in_region (s + 1) n d"
  proof (cases "d = s")
    case True
    then show ?thesis using Suc.prems(1) by (simp add: in_region_def unsigned_minus_1_eq_mask mask_eq_exp_minus_1)
  next
    case False
    then have "Suc (unat (d - (s + 1))) = unat (d - s)" by (intro range_step_Suc) simp
    with Suc.prems(7) False show ?thesis by (simp add: in_region_def)
  qed
  then have same: "a \<in> region (s + 1) n \<Longrightarrow> shadow_at (snd ?wr) a = shadow_at pages a" for a
    using at by auto
  have deref: "read_deref bits pages first = Inr ?e"
    using read_deref_view [OF Suc.prems(5)] Suc.prems by auto
  have "s \<noteq> s + of_nat (Suc n)" using Suc.prems(1) by (rule region_end_neq)
  then have step: "shadow_copy bits first (s + of_nat (Suc n)) res pages =
      shadow_copy bits ?first' ((s + 1) + of_nat n) (fst ?wr) (snd ?wr)"
    using deref by (subst shadow_copy.simps) (simp add: Let_def add.assoc)
  have "\<exists>pages'. shadow_copy bits ?first' ((s + 1) + of_nat n) (fst ?wr) (snd ?wr) = Inr pages' \<and>
    (\<forall>b. shadow_at pages' b = (if in_region (d + 1) n b
       then shadow_at (snd ?wr) ((s + 1) + (b - (d + 1))) else shadow_at (snd ?wr) b))"
  proof (rule Suc.IH)
    show "read_view (snd ?wr) ?first' (region (s + 1) n)"
      by (rule read_view_increment [OF read_view_mono [OF Suc.prems(5)[THEN read_view_subset, OF sub]]])
        (use dom same in auto)
    show "bytes_on bits (snd ?wr) (region (s + 1) n)"
      by (rule bytes_on_mono [OF Suc.prems(6) sub same])
    show "d + 1 = s + 1 \<or> n \<le> unat (d + 1 - (s + 1))"
      using Suc.prems(7) by auto
  qed (use Suc.prems(1) write_increment_props(1) [OF view] in simp_all)
  then obtain pages' where copied: "shadow_copy bits ?first' ((s + 1) + of_nat n) (fst ?wr) (snd ?wr) = Inr pages'"
    and pages': "\<And>b. shadow_at pages' b = (if in_region (d + 1) n b
       then shadow_at (snd ?wr) (s + (b - d)) else shadow_at (snd ?wr) b)"
    by auto
  have "shadow_at (snd ?wr) (s + (b - d)) = shadow_at pages (s + (b - d))"
    if "in_region (d + 1) n b" for b
    using that by (intro same) (simp add: in_region_def algebra_simps)
  then show ?case
    using step copied Suc.prems(1) pages' at by (auto simp: in_region_Suc)
qed

text \<open>A backward copy is safe unless the source starts strictly inside the destination.\<close>

lemma shadow_copy_backward_correct:
  assumes "n < 2 ^ 64" "address stop = s + of_nat n" "address res = d + of_nat n"
    "iter_view pages res" "read_view pages stop (region s n)" "bytes_on bits pages (region s n)"
    "s = d \<or> n \<le> unat (s - d)"
  shows "\<exists>pages'. shadow_copy_backward bits s stop res pages = Inr pages' \<and>
    (\<forall>b. shadow_at pages' b =
      (if in_region d n b then shadow_at pages (s + (b - d)) else shadow_at pages b))"
  using assms
proof (induction n arbitrary: stop res pages)
  case 0
  then show ?case by (simp add: shadow_copy_backward.simps [of _ s stop])
next
  case (Suc n)
  let ?e = "shadow_at pages (s + of_nat n)"
  let ?stop' = "read_decrement pages stop" and ?wr = "write_decrement pages res"
  let ?pages' = "write_deref_assign (snd ?wr) (fst ?wr) ?e"
  have addr: "address ?stop' = s + of_nat n" "address (fst ?wr) = d + of_nat n"
    using Suc.prems(2,3) by simp_all
  note wr = write_decrement_props [OF Suc.prems(4)]
  have at: "shadow_at ?pages' b = (if b = d + of_nat n then ?e else shadow_at pages b)" for b
    using wr(3) addr(2) by (simp add: shadow_at_write_deref_assign [OF wr(1)])
  have sub: "region s n \<subseteq> region s (Suc n)" by (auto simp: in_region_def)
  have notd: "\<not> in_region s n (d + of_nat n)"
  proof
    assume "in_region s n (d + of_nat n)"
    then obtain k where k: "k < n" "d + of_nat n = s + of_nat k"
      using Suc.prems(1) by (auto simp: in_region_iff)
    then have sd: "s - d = of_nat (n - k)" by (simp add: algebra_simps)
    then have "unat (s - d) = n - k" using Suc.prems(1) by (simp add: unat_of_nat_small)
    with k Suc.prems(7) sd show False by auto
  qed
  then have same: "a \<in> region s n \<Longrightarrow> shadow_at ?pages' a = shadow_at pages a" for a
    using at by auto
  have view': "read_view pages ?stop' (region s (Suc n))"
    by (rule read_view_decrement [OF Suc.prems(5)]) simp
  have mem: "address ?stop' \<in> region s (Suc n)"
    using Suc.prems(1) addr by (simp add: in_region_Suc_last)
  have deref: "read_deref bits pages ?stop' = Inr ?e"
    using read_deref_view [OF view' mem Suc.prems(6)] addr by simp
  have "s \<noteq> s + of_nat (Suc n)" using Suc.prems(1) by (rule region_end_neq)
  then have step: "shadow_copy_backward bits s stop res pages =
      shadow_copy_backward bits s ?stop' (fst ?wr) ?pages'"
    using deref Suc.prems(2) by (subst shadow_copy_backward.simps) (simp add: Let_def)
  have "\<exists>pages'. shadow_copy_backward bits s ?stop' (fst ?wr) ?pages' = Inr pages' \<and>
    (\<forall>b. shadow_at pages' b = (if in_region d n b
       then shadow_at ?pages' (s + (b - d)) else shadow_at ?pages' b))"
  proof (rule Suc.IH)
    show "read_view ?pages' ?stop' (region s n)"
      by (rule read_view_mono [OF read_view_subset [OF view' sub]]) (use wr(2) same in auto)
    show "bytes_on bits ?pages' (region s n)"
      by (rule bytes_on_mono [OF Suc.prems(6) sub same])
    show "s = d \<or> n \<le> unat (s - d)" using Suc.prems(7) by auto
  qed (use Suc.prems(1) addr wr(1) in simp_all)
  then obtain pages' where copied: "shadow_copy_backward bits s ?stop' (fst ?wr) ?pages' = Inr pages'"
    and pages': "\<And>b. shadow_at pages' b = (if in_region d n b
       then shadow_at ?pages' (s + (b - d)) else shadow_at ?pages' b)"
    by auto
  have "shadow_at ?pages' (s + (b - d)) = shadow_at pages (s + (b - d))" if "in_region d n b" for b
    using that by (intro same) (simp add: in_region_def)
  then show ?case
    using step copied Suc.prems(1) pages' at by (auto simp: in_region_Suc_last)
qed

lemma isConcrete_correct:
  assumes "unat a + unat n < 2 ^ 64" "bytes_on bits pages (region a (unat n))"
  shows "isConcrete bits pages a n = Inr (\<forall>b \<in> region a (unat n). shadow_at pages b = None)"
proof (cases "pageStart a = pageStart (a + n) \<and> map_count pages (pageStart a) = 0")
  case True
  have "shadow_at pages b = None" if "in_region a (unat n) b" for b
  proof -
    have "unat (b - a) \<le> unat n" using that by (simp add: in_region_def)
    then have "pageStart (a + of_nat (unat (b - a))) = pageStart a"
      using pageStart_between [of a n] True assms(1) by blast
    then have "pageStart b = pageStart a" by simp
    with True show ?thesis by (intro shadow_at_no_page) (auto simp: map_dom_iff)
  qed
  with True show ?thesis by (force simp: isConcrete_def Let_def)
next
  case False
  have "all_null bits pages (ReadShadowIterator pages a) (address (ReadShadowIterator pages a) + of_nat (unat n)) =
    Inr (\<forall>b \<in> region (address (ReadShadowIterator pages a)) (unat n). shadow_at pages b = None)"
    by (rule all_null_correct [OF unat_addr_less]) (use assms(2) in auto)
  with False show ?thesis by (auto simp: isConcrete_def Let_def)
qed

end
