(* ===== verification/Backend.thy ===== *)
theory Backend
  imports Shadow
begin

text \<open>
  The interface between the shared run-time code and a symbolic backend, the functions of
  runtime/RuntimeCommon.h that the shared code calls. A \<open>backend\<close> groups what the chosen
  backend links in; each function takes and returns the backend's own state \<open>'b\<close>. A
  non-null \<open>SymExpr\<close> is an \<open>'e\<close>, one that may be null an \<open>'e option\<close>.

  The locale \<open>symbolic_backend\<close> states what the shared code relies on: the bit-vector
  functions build expressions of the documented width whose value (\<open>val\<close>, under any fixed
  assignment of the input bytes) is the documented function of the values of their
  operands. \<open>usable b e\<close> says that \<open>e\<close> is a bit-vector expression that the backend
  accepts in state \<open>b\<close> (so a state in which anything is usable is one of an initialised
  backend, which \<open>build_integer_law\<close> needs); \<open>lawful\<close> stands for the documented behaviour of the solver library
  below the backend, which is not part of this repository.
\<close>

record ('e, 'b) backend =
  sym_build_integer :: "u64 \<Rightarrow> byte \<Rightarrow> 'b \<Rightarrow> ('e \<times> 'b) result"
  sym_concat_helper :: "'e \<Rightarrow> 'e \<Rightarrow> 'b \<Rightarrow> ('e \<times> 'b) result"
  sym_extract_helper :: "'e \<Rightarrow> addr \<Rightarrow> addr \<Rightarrow> 'b \<Rightarrow> ('e \<times> 'b) result"
  sym_bits_helper :: "'e \<Rightarrow> addr"
  sym_build_equal :: "'e \<Rightarrow> 'e \<Rightarrow> 'b \<Rightarrow> ('e \<times> 'b) result"
  sym_build_not_equal :: "'e \<Rightarrow> 'e \<Rightarrow> 'b \<Rightarrow> ('e \<times> 'b) result"
  sym_build_bool_and :: "'e \<Rightarrow> 'e \<Rightarrow> 'b \<Rightarrow> ('e \<times> 'b) result"
  sym_build_zext :: "'e \<Rightarrow> byte \<Rightarrow> 'b \<Rightarrow> ('e \<times> 'b) result"
  sym_build_trunc :: "'e \<Rightarrow> byte \<Rightarrow> 'b \<Rightarrow> ('e \<times> 'b) result"
  sym_push_path_constraint :: "'e option \<Rightarrow> bool \<Rightarrow> addr \<Rightarrow> 'b \<Rightarrow> 'b result"
  sym_get_input_byte :: "addr \<Rightarrow> 'b \<Rightarrow> ('e option \<times> 'b) result"

text \<open>The two-operand functions \<open>_sym_build_*\<close> of the interface that both backends define by
  one macro or macro-like scheme.\<close>

datatype binary_builder =
  Build_add | Build_sub | Build_mul | Build_unsigned_div
| Build_signed_div | Build_unsigned_rem | Build_signed_rem | Build_shift_left
| Build_logical_shift_right | Build_arithmetic_shift_right | Build_signed_less_than | Build_signed_less_equal
| Build_signed_greater_than | Build_signed_greater_equal | Build_unsigned_less_than | Build_unsigned_less_equal
| Build_unsigned_greater_than | Build_unsigned_greater_equal | Build_equal | Build_and
| Build_or | Build_bool_xor | Build_xor | Build_float_ordered_greater_than
| Build_float_ordered_greater_equal | Build_float_ordered_less_than | Build_float_ordered_less_equal | Build_float_ordered_equal

subsection \<open>Bytes and their values\<close>

fun le_value :: "nat list \<Rightarrow> nat" where
  "le_value [] = 0"
| "le_value (v # vs) = v + 256 * le_value vs"

fun be_value :: "nat list \<Rightarrow> nat" where
  "be_value [] = 0"
| "be_value (v # vs) = v * 256 ^ length vs + be_value vs"

fun bytes_from :: "(addr \<Rightarrow> 'a) \<Rightarrow> addr \<Rightarrow> nat \<Rightarrow> 'a list" where
  "bytes_from f a 0 = []"
| "bytes_from f a (Suc n) = f a # bytes_from f (a + 1) n"

named_theorems byte_simps "lists of bytes and the numbers they denote"

lemma length_bytes_from [simp, byte_simps]: "length (bytes_from f a n) = n"
  by (induction n arbitrary: a) simp_all

lemma bytes_from_map: "bytes_from f a n = map (\<lambda>k. f (a + of_nat k)) [0..<n]"
proof (induction n arbitrary: a)
  case (Suc n)
  have "[0..<Suc n] = 0 # map Suc [0..<n]" by (simp only: map_Suc_upt upt_rec [of 0 "Suc n"]) simp
  then show ?case using Suc by (simp add: add.assoc del: upt_Suc)
qed simp

lemma bytes_from_cong:
  "(\<And>k. k < n \<Longrightarrow> f (a + of_nat k) = g k) \<Longrightarrow> bytes_from f a n = map g [0..<n]"
  by (simp add: bytes_from_map)

lemma be_value_append: "be_value (xs @ [v]) = be_value xs * 256 + v"
  by (induction xs) (simp_all add: algebra_simps)

lemma le_value_append: "le_value (xs @ [v]) = le_value xs + 256 ^ length xs * v"
  by (induction xs) (simp_all add: algebra_simps)

lemma be_value_rev: "be_value (rev vs) = le_value vs"
  by (induction vs) (simp_all add: be_value_append)

lemma le_value_rev: "le_value (rev vs) = be_value vs"
  using be_value_rev [of "rev vs"] by simp

text \<open>The bytes of a number, least significant first, denote the number.\<close>

definition le_bytes :: "nat \<Rightarrow> nat \<Rightarrow> nat list" where
  "le_bytes n v = map (\<lambda>k. v div 256 ^ k mod 256) [0..<n]"

lemma le_bytes_Suc: "le_bytes (Suc n) v = (v mod 256) # le_bytes n (v div 256)"
proof -
  have "[0..<Suc n] = 0 # map Suc [0..<n]" by (simp only: map_Suc_upt upt_rec [of 0 "Suc n"]) simp
  then show ?thesis by (simp add: le_bytes_def div_mult2_eq del: upt_Suc)
qed

lemma length_le_bytes [simp, byte_simps]: "length (le_bytes n v) = n"
  by (simp add: le_bytes_def)

lemma le_value_le_bytes [byte_simps]: "le_value (le_bytes n v) = v mod 256 ^ n"
proof (induction n arbitrary: v)
  case (Suc n)
  have "v mod (256 * 256 ^ n) = v mod 256 + 256 * (v div 256 mod 256 ^ n)"
    by (simp add: mod_mult2_eq)
  then show ?case using Suc by (simp add: le_bytes_Suc)
qed (simp add: le_bytes_def)

lemma le_bytes_le_value: "\<forall>v \<in> set vs. v < 256 \<Longrightarrow> le_bytes (length vs) (le_value vs) = vs"
  by (induction vs) (simp_all add: le_bytes_Suc, simp add: le_bytes_def)

lemma le_value_bound: "\<forall>v \<in> set vs. v < 256 \<Longrightarrow> le_value vs < 256 ^ length vs"
proof (induction vs)
  case (Cons v vs)
  then have "le_value vs + 1 \<le> 256 ^ length vs" "v < 256" by auto
  then have "256 * (le_value vs + 1) \<le> 256 * 256 ^ length vs" "v < 256" by auto
  then show ?case by simp
qed simp

lemma le_bytes_bound: "v \<in> set (le_bytes n x) \<Longrightarrow> v < 256"
  by (auto simp: le_bytes_def)

text \<open>The value of a concatenation fits its width.\<close>

lemma concat_bound:
  fixes v v' :: nat
  assumes "v < 2 ^ w" "v' < 2 ^ w'"
  shows "v * 2 ^ w' + v' < 2 ^ (w + w')"
proof -
  have "v + 1 \<le> 2 ^ w" using assms by simp
  then have "(v + 1) * 2 ^ w' \<le> 2 ^ w * 2 ^ w'" by (rule mult_le_mono1)
  with assms show ?thesis by (simp add: power_add)
qed

subsection \<open>What the shared code relies on\<close>

definition yields ::
  "('e, 'b) backend \<Rightarrow> ('e \<Rightarrow> nat) \<Rightarrow> ('b \<Rightarrow> 'e \<Rightarrow> bool) \<Rightarrow> 'b \<Rightarrow> ('e \<times> 'b) result \<Rightarrow> nat \<Rightarrow> nat \<Rightarrow> bool" where
  "yields B val usable b r w v \<longleftrightarrow>
     (\<exists>e b'. r = Inr (e, b') \<and> usable b' e \<and> (\<forall>x. usable b x \<longrightarrow> usable b' x) \<and>
        unat (sym_bits_helper B e) = w \<and> val e = v)"

locale symbolic_backend =
  fixes B :: "('e, 'b) backend"
    and val :: "'e \<Rightarrow> nat"
    and usable :: "'b \<Rightarrow> 'e \<Rightarrow> bool"
    and lawful :: bool
  assumes val_bound: "lawful \<Longrightarrow> usable b e \<Longrightarrow> val e < 2 ^ unat (sym_bits_helper B e)"
    and build_integer_law:
      "lawful \<Longrightarrow> usable b x \<Longrightarrow> 0 < k \<Longrightarrow> k \<le> 64 \<Longrightarrow>
       yields B val usable b (sym_build_integer B v k b) (unat k) (unat v mod 2 ^ unat k)"
    and concat_law:
      "lawful \<Longrightarrow> usable b x \<Longrightarrow> usable b y \<Longrightarrow>
       unat (sym_bits_helper B x) + unat (sym_bits_helper B y) < 2 ^ 32 \<Longrightarrow>
       yields B val usable b (sym_concat_helper B x y b)
         (unat (sym_bits_helper B x) + unat (sym_bits_helper B y))
         (val x * 2 ^ unat (sym_bits_helper B y) + val y)"
    and extract_law:
      "lawful \<Longrightarrow> usable b x \<Longrightarrow> lo \<le> hi \<Longrightarrow> hi < sym_bits_helper B x \<Longrightarrow>
       unat (sym_bits_helper B x) < 2 ^ 32 \<Longrightarrow>
       yields B val usable b (sym_extract_helper B x hi lo b)
         (unat hi - unat lo + 1)
         (val x div 2 ^ unat lo mod 2 ^ (unat hi - unat lo + 1))"
begin

abbreviation width :: "'e \<Rightarrow> nat" where
  "width e \<equiv> unat (sym_bits_helper B e)"

lemma yieldsE:
  assumes "yields B val usable b r w v"
  obtains e b' where "r = Inr (e, b')" "usable b' e" "\<And>x. usable b x \<Longrightarrow> usable b' x"
    "width e = w" "val e = v"
  using assms by (auto simp: yields_def)

end

end
