(* ===== verification/RuntimeCommon.thy ===== *)
theory RuntimeCommon
  imports Backend
begin

text \<open>
  runtime/RuntimeCommon.cpp over the interface of runtime/RuntimeCommon.h: the part of
  the run-time library that both symbolic backends share. The record \<open>runtime\<close> holds the
  library's globals, the backend's state and the memory of the program under test. The
  second half, inside the locale \<open>symbolic_backend\<close>, says what the memory operations
  compute for any backend that keeps the laws of its bit-vector operations.
\<close>

record ('e, 'b) runtime =
  g_return_value :: "'e option"
  g_function_arguments :: "byte \<Rightarrow> 'e option"
  g_shadow_pages :: "'e shadow_pages"
  expressionRegions :: "(addr \<times> addr) list"
  expr_memory :: "addr \<Rightarrow> 'e option"
  memory :: "addr \<Rightarrow> byte"
  backend_state :: 'b

subsection \<open>Function parameters and return values\<close>

definition sym_set_return_expression :: "'e option \<Rightarrow> ('e, 'b, 'x) runtime_scheme \<Rightarrow> ('e, 'b, 'x) runtime_scheme" where
  "sym_set_return_expression expr rt = rt\<lparr>g_return_value := expr\<rparr>"

definition sym_get_return_expression :: "('e, 'b, 'x) runtime_scheme \<Rightarrow> 'e option \<times> ('e, 'b, 'x) runtime_scheme" where
  "sym_get_return_expression rt =
     (let result = g_return_value rt in (result, rt\<lparr>g_return_value := None\<rparr>))"

definition sym_set_parameter_expression ::
  "byte \<Rightarrow> 'e option \<Rightarrow> ('e, 'b, 'x) runtime_scheme \<Rightarrow> ('e, 'b, 'x) runtime_scheme" where
  "sym_set_parameter_expression index expr rt =
     rt\<lparr>g_function_arguments := (g_function_arguments rt)(index := expr)\<rparr>"

definition sym_get_parameter_expression :: "byte \<Rightarrow> ('e, 'b, 'x) runtime_scheme \<Rightarrow> 'e option" where
  "sym_get_parameter_expression index rt = g_function_arguments rt index"

subsection \<open>Shadow operations\<close>

definition is_concrete :: "('e, 'b) backend \<Rightarrow> addr \<Rightarrow> addr \<Rightarrow> ('e, 'b, 'x) runtime_scheme \<Rightarrow> bool result" where
  "is_concrete B a n rt = isConcrete (sym_bits_helper B) (g_shadow_pages rt) a n"

definition both_concrete ::
  "('e, 'b) backend \<Rightarrow> addr \<Rightarrow> addr \<Rightarrow> addr \<Rightarrow> addr \<Rightarrow> ('e, 'b, 'x) runtime_scheme \<Rightarrow> bool result" where
  "both_concrete B a n a' n' rt =
     bind_result (is_concrete B a n rt) (\<lambda>c. if c then is_concrete B a' n' rt else Inr False)"

definition shadow_fill_range :: "addr \<Rightarrow> addr \<Rightarrow> 'e option \<Rightarrow> 'e shadow_pages \<Rightarrow> 'e shadow_pages" where
  "shadow_fill_range a n v pages =
     (let (first, pages1) = WriteShadowIterator pages a;
          (stop, pages2) = WriteShadowIterator pages1 (a + n)
      in shadow_fill first (address stop) v pages2)"

definition sym_memcpy ::
  "('e, 'b) backend \<Rightarrow> addr \<Rightarrow> addr \<Rightarrow> addr \<Rightarrow> ('e, 'b, 'x) runtime_scheme \<Rightarrow> ('e, 'b, 'x) runtime_scheme result" where
  "sym_memcpy B dest src len rt =
     bind_result (both_concrete B src len dest len rt) (\<lambda>concrete.
       if concrete then Inr rt
       else
         let pages = g_shadow_pages rt;
             first = ReadShadowIterator pages src;
             stop = ReadShadowIterator pages (src + len);
             (d_first, pages1) = WriteShadowIterator pages dest
         in bind_result (shadow_copy (sym_bits_helper B) first (address stop) d_first pages1) (\<lambda>pages2.
              Inr (rt\<lparr>g_shadow_pages := pages2\<rparr>)))"

definition sym_memset ::
  "('e, 'b) backend \<Rightarrow> addr \<Rightarrow> 'e option \<Rightarrow> addr \<Rightarrow> ('e, 'b, 'x) runtime_scheme \<Rightarrow> ('e, 'b, 'x) runtime_scheme result" where
  "sym_memset B mem v len rt =
     bind_result (if v = None then is_concrete B mem len rt else Inr False) (\<lambda>done_already.
       if done_already then Inr rt
       else Inr (rt\<lparr>g_shadow_pages := shadow_fill_range mem len v (g_shadow_pages rt)\<rparr>))"

definition sym_memmove ::
  "('e, 'b) backend \<Rightarrow> addr \<Rightarrow> addr \<Rightarrow> addr \<Rightarrow> ('e, 'b, 'x) runtime_scheme \<Rightarrow> ('e, 'b, 'x) runtime_scheme result" where
  "sym_memmove B dest src len rt =
     bind_result (both_concrete B src len dest len rt) (\<lambda>concrete.
       if concrete then Inr rt
       else
         let pages = g_shadow_pages rt;
             first = ReadShadowIterator pages src;
             stop = ReadShadowIterator pages (src + len)
         in bind_result
              (if dest > src
               then (let (d_stop, pages1) = WriteShadowIterator pages (dest + len)
                     in shadow_copy_backward (sym_bits_helper B) (address first) stop d_stop pages1)
               else (let (d_first, pages1) = WriteShadowIterator pages dest
                     in shadow_copy (sym_bits_helper B) first (address stop) d_first pages1))
              (\<lambda>pages2. Inr (rt\<lparr>g_shadow_pages := pages2\<rparr>)))"

subsection \<open>Reading and writing program memory\<close>

text \<open>
  \<open>std::accumulate\<close> over the non-null iterators: a byte without expression becomes a
  constant expression of the concrete memory content. The fold starts from a null result
  and concatenates on the side that the byte order asks for.
\<close>

definition non_null_deref ::
  "('e, 'b) backend \<Rightarrow> shadow_iterator \<Rightarrow> ('e, 'b, 'x) runtime_scheme \<Rightarrow> 'b \<Rightarrow> ('e \<times> 'b) result" where
  "non_null_deref B it rt b =
     bind_result (read_deref (sym_bits_helper B) (g_shadow_pages rt) it) (\<lambda>symbolicResult.
       case symbolicResult of
         Some e \<Rightarrow> Inr (e, b)
       | None \<Rightarrow> sym_build_integer B (ucast (memory rt (address it))) 8 b)"

definition append_byte ::
  "('e, 'b) backend \<Rightarrow> bool \<Rightarrow> 'e option \<Rightarrow> 'e \<Rightarrow> 'b \<Rightarrow> ('e \<times> 'b) result" where
  "append_byte B little_endian res byteExpr b =
     (case res of
        None \<Rightarrow> Inr (byteExpr, b)
      | Some r \<Rightarrow>
          if little_endian then sym_concat_helper B byteExpr r b
          else sym_concat_helper B r byteExpr b)"

function accumulate_bytes ::
  "('e, 'b) backend \<Rightarrow> bool \<Rightarrow> ('e, 'b, 'x) runtime_scheme \<Rightarrow> shadow_iterator \<Rightarrow> addr \<Rightarrow>
   'e option \<Rightarrow> 'b \<Rightarrow> ('e option \<times> 'b) result" where
  "accumulate_bytes B little_endian rt first stop res b =
     (if address first = stop then Inr (res, b)
      else bind_result (non_null_deref B first rt b) (\<lambda>(byteExpr, b1).
        bind_result (append_byte B little_endian res byteExpr b1) (\<lambda>(r, b2).
          accumulate_bytes B little_endian rt (read_increment (g_shadow_pages rt) first) stop (Some r) b2)))"
  by pat_completeness auto
termination
  by (relation "measure (\<lambda>(B, little_endian, rt, first, stop, res, b). unat (stop - address first))")
    (auto intro: range_step_less)

declare accumulate_bytes.simps [simp del]

definition sym_read_memory ::
  "('e, 'b) backend \<Rightarrow> addr \<Rightarrow> addr \<Rightarrow> bool \<Rightarrow> ('e, 'b, 'x) runtime_scheme \<Rightarrow>
   ('e option \<times> ('e, 'b, 'x) runtime_scheme) result" where
  "sym_read_memory B a len little_endian rt =
     bind_result (assert_that (len \<noteq> 0)) (\<lambda>_.
     bind_result (is_concrete B a len rt) (\<lambda>concrete.
       if concrete then Inr (None, rt)
       else bind_result
         (accumulate_bytes B little_endian rt (ReadShadowIterator (g_shadow_pages rt) a) (a + len)
            None (backend_state rt))
         (\<lambda>(r, b). Inr (r, rt\<lparr>backend_state := b\<rparr>))))"

definition extract_byte ::
  "('e, 'b) backend \<Rightarrow> bool \<Rightarrow> addr \<Rightarrow> 'e \<Rightarrow> addr \<Rightarrow> 'b \<Rightarrow> ('e \<times> 'b) result" where
  "extract_byte B little_endian len expr i b =
     (if little_endian
      then sym_extract_helper B expr (8 * (i + 1) - 1) (8 * i) b
      else sym_extract_helper B expr ((len - i) * 8 - 1) ((len - i - 1) * 8) b)"

function write_bytes ::
  "('e, 'b) backend \<Rightarrow> bool \<Rightarrow> addr \<Rightarrow> 'e \<Rightarrow> shadow_iterator \<Rightarrow> addr \<Rightarrow> addr \<Rightarrow>
   'e shadow_pages \<Rightarrow> 'b \<Rightarrow> ('e shadow_pages \<times> 'b) result" where
  "write_bytes B little_endian len expr it stop i pages b =
     (if address it = stop then Inr (pages, b)
      else bind_result (extract_byte B little_endian len expr i b) (\<lambda>(e, b1).
        let wr = write_increment (write_deref_assign pages it (Some e)) it
        in write_bytes B little_endian len expr (fst wr) stop (i + 1) (snd wr) b1))"
  by pat_completeness auto
termination
  by (relation "measure (\<lambda>(B, little_endian, len, expr, it, stop, i, pages, b). unat (stop - address it))")
    (auto intro: range_step_less)

declare write_bytes.simps [simp del]

definition sym_write_memory ::
  "('e, 'b) backend \<Rightarrow> addr \<Rightarrow> addr \<Rightarrow> 'e option \<Rightarrow> bool \<Rightarrow> ('e, 'b, 'x) runtime_scheme \<Rightarrow>
   ('e, 'b, 'x) runtime_scheme result" where
  "sym_write_memory B a len expr little_endian rt =
     bind_result (assert_that (len \<noteq> 0)) (\<lambda>_.
     bind_result (if expr = None then is_concrete B a len rt else Inr False) (\<lambda>done_already.
       if done_already then Inr rt
       else (case expr of
         None \<Rightarrow> Inr (rt\<lparr>g_shadow_pages := shadow_fill_range a len None (g_shadow_pages rt)\<rparr>)
       | Some e \<Rightarrow>
           let (first, pages1) = WriteShadowIterator (g_shadow_pages rt) a;
               (stop, pages2) = WriteShadowIterator pages1 (a + len)
           in bind_result (write_bytes B little_endian len e first (address stop) 0 pages2 (backend_state rt))
                (\<lambda>(pages3, b). Inr (rt\<lparr>g_shadow_pages := pages3, backend_state := b\<rparr>)))))"

subsection \<open>Extracting from aggregates, byte swapping\<close>

function extract_concat ::
  "('e, 'b) backend \<Rightarrow> 'e \<Rightarrow> addr \<Rightarrow> addr \<Rightarrow> addr \<Rightarrow> addr \<Rightarrow> 'e \<Rightarrow> 'b \<Rightarrow> ('e \<times> 'b) result" where
  "extract_concat B expr totalBits offset len i res b =
     (if i < len
      then bind_result
        (sym_extract_helper B expr (totalBits - (offset + i) * 8 - 1) (totalBits - (offset + i + 1) * 8) b)
        (\<lambda>(e, b1). bind_result (sym_concat_helper B e res b1) (\<lambda>(r, b2).
          extract_concat B expr totalBits offset len (i + 1) r b2))
      else Inr (res, b))"
  by pat_completeness auto
termination
  by (relation "measure (\<lambda>(B, expr, totalBits, offset, len, i, res, b). unat (len - i))")
    (auto intro!: range_step_less)

declare extract_concat.simps [simp del]

definition sym_build_extract ::
  "('e, 'b) backend \<Rightarrow> 'e \<Rightarrow> u64 \<Rightarrow> u64 \<Rightarrow> bool \<Rightarrow> 'b \<Rightarrow> ('e \<times> 'b) result" where
  "sym_build_extract B expr offset len little_endian b =
     (let totalBits = sym_bits_helper B expr
      in bind_result (assert_that (totalBits mod 8 = 0)) (\<lambda>_.
        if little_endian
        then bind_result
          (sym_extract_helper B expr (totalBits - offset * 8 - 1) (totalBits - offset * 8 - 8) b)
          (\<lambda>(res, b1). extract_concat B expr totalBits offset len 1 res b1)
        else sym_extract_helper B expr (totalBits - offset * 8 - 1) (totalBits - (offset + len) * 8) b))"

definition sym_build_bswap :: "('e, 'b) backend \<Rightarrow> 'e \<Rightarrow> 'b \<Rightarrow> ('e \<times> 'b) result" where
  "sym_build_bswap B expr b =
     (let bits = sym_bits_helper B expr
      in bind_result (assert_that (bits mod 16 = 0)) (\<lambda>_.
        sym_build_extract B expr 0 (bits div 8) True b))"

definition sym_register_expression_region ::
  "addr \<Rightarrow> addr \<Rightarrow> ('e, 'b, 'x) runtime_scheme \<Rightarrow> ('e, 'b, 'x) runtime_scheme" where
  "sym_register_expression_region start len rt =
     rt\<lparr>expressionRegions := expressionRegions rt @ [(start, len)]\<rparr>"

subsection \<open>What a byte of program memory is worth\<close>

text \<open>
  The value of the byte at an address: that of its expression where the shadow has one,
  the concrete memory content otherwise. \<open>shadow_ok\<close> is the invariant of the shadow
  memory that the source states as "shadow memory always represents bytes", together
  with the backend knowing the expressions.
\<close>

definition sym_byte :: "('e \<Rightarrow> nat) \<Rightarrow> ('e, 'b, 'x) runtime_scheme \<Rightarrow> addr \<Rightarrow> nat" where
  "sym_byte val rt a =
     (case shadow_at (g_shadow_pages rt) a of Some e \<Rightarrow> val e | None \<Rightarrow> unat (memory rt a))"

definition shadow_ok ::
  "('e, 'b) backend \<Rightarrow> ('b \<Rightarrow> 'e \<Rightarrow> bool) \<Rightarrow> 'e shadow_pages \<Rightarrow> 'b \<Rightarrow> addr set \<Rightarrow> bool" where
  "shadow_ok B usable pages b S \<longleftrightarrow>
     (\<forall>a\<in>S. \<forall>e. shadow_at pages a = Some e \<longrightarrow> usable b e \<and> sym_bits_helper B e = 8)"

lemma shadow_ok_bytes_on: "shadow_ok B usable pages b S \<Longrightarrow> bytes_on (sym_bits_helper B) pages S"
  by (auto simp: shadow_ok_def bytes_on_def)

lemma shadow_ok_mono:
  "shadow_ok B usable pages b S \<Longrightarrow> S' \<subseteq> S \<Longrightarrow> (\<And>x. usable b x \<Longrightarrow> usable b' x) \<Longrightarrow>
   shadow_ok B usable pages b' S'"
  by (auto simp: shadow_ok_def)

lemma is_concrete_correct:
  assumes "unat a + unat n < 2 ^ 64" "bytes_on (sym_bits_helper B) (g_shadow_pages rt) (region a (unat n))"
  shows "is_concrete B a n rt = Inr (\<forall>c \<in> region a (unat n). shadow_at (g_shadow_pages rt) c = None)"
  using isConcrete_correct [OF assms] by (simp add: is_concrete_def)

lemma shadow_at_fill_range:
  "shadow_at (shadow_fill_range a n v pages) c =
     (if in_region a (unat n) c then v else shadow_at pages c)"
proof -
  obtain first pages1 where 1: "WriteShadowIterator pages a = (first, pages1)" by force
  obtain stop pages2 where 2: "WriteShadowIterator pages1 (a + n) = (stop, pages2)" by force
  have "iter_view pages1 first" "address first = a"
    using WriteShadowIterator_props(1) [of pages a] address_WriteShadowIterator [of pages a] 1
    by simp_all
  then have "iter_view pages2 first" "address stop = address first + of_nat (unat n)"
    using WriteShadowIterator_props(2) [of pages1 "a + n"]
      address_WriteShadowIterator [of pages1 "a + n"] 2
    by (simp_all add: iter_view_def)
  moreover have "shadow_at pages2 c = shadow_at pages c"
    using WriteShadowIterator_props(3) [of pages a] WriteShadowIterator_props(3) [of pages1 "a + n"] 1 2
    by simp
  ultimately show ?thesis
    using shadow_fill_correct [OF unat_addr_less [of n], of pages2 first v c] 1 2 \<open>address first = a\<close>
    by (simp add: shadow_fill_range_def)
qed

subsection \<open>Copying and filling program memory\<close>

text \<open>
  The abstract effect of a copy: the destination range gets the expressions of the source
  range as they were before. The code skips the work when both ranges are concrete.
\<close>

definition copied :: "addr \<Rightarrow> addr \<Rightarrow> nat \<Rightarrow> (addr \<Rightarrow> 'a) \<Rightarrow> addr \<Rightarrow> 'a" where
  "copied dest src n m c = (if in_region dest n c then m (src + (c - dest)) else m c)"

definition no_wrap :: "addr \<Rightarrow> addr \<Rightarrow> bool" where
  "no_wrap a n \<longleftrightarrow> unat a + unat n < 2 ^ 64"

lemma region_shift: "in_region dest n c \<Longrightarrow> in_region src n (src + (c - dest))"
  by (simp add: in_region_def)

lemma copied_concrete:
  assumes "\<forall>c \<in> region src n. m c = None" "\<forall>c \<in> region dest n. m c = None"
  shows "copied dest src n m = m"
  using assms region_shift [of dest n _ src] by (fastforce simp: copied_def fun_eq_iff)

lemma both_concrete_correct:
  assumes "no_wrap a n" "no_wrap a' n'"
    "bytes_on (sym_bits_helper B) (g_shadow_pages rt) (region a (unat n) \<union> region a' (unat n'))"
  shows "both_concrete B a n a' n' rt =
    Inr ((\<forall>c \<in> region a (unat n). shadow_at (g_shadow_pages rt) c = None) \<and>
         (\<forall>c \<in> region a' (unat n'). shadow_at (g_shadow_pages rt) c = None))"
proof -
  have "bytes_on (sym_bits_helper B) (g_shadow_pages rt) (region a (unat n))"
    "bytes_on (sym_bits_helper B) (g_shadow_pages rt) (region a' (unat n'))"
    using assms(3) by (auto simp: bytes_on_def)
  then show ?thesis
    using is_concrete_correct [of a n B rt] is_concrete_correct [of a' n' B rt] assms(1,2)
    by (auto simp: both_concrete_def no_wrap_def)
qed

lemma forward_copy_correct:
  assumes "bytes_on bits pages (region src (unat len))" "dest = src \<or> unat len \<le> unat (dest - src)"
  shows "\<exists>pages'. (let (d_first, pages1) = WriteShadowIterator pages dest
      in shadow_copy bits (ReadShadowIterator pages src) (src + len) d_first pages1) = Inr pages' \<and>
    shadow_at pages' = copied dest src (unat len) (shadow_at pages)"
proof -
  obtain d_first pages1 where 1: "WriteShadowIterator pages dest = (d_first, pages1)" by force
  have props: "iter_view pages1 d_first" "address d_first = dest"
    "map_dom pages \<subseteq> map_dom pages1" "\<And>c. shadow_at pages1 c = shadow_at pages c"
    using WriteShadowIterator_props [of pages dest] address_WriteShadowIterator [of pages dest] 1
    by auto
  have "read_view pages1 (ReadShadowIterator pages src) (region src (unat len))"
    by (rule read_view_mono [OF read_view_ReadShadowIterator props(3,4)])
  moreover have "bytes_on bits pages1 (region src (unat len))"
    by (rule bytes_on_mono [OF assms(1) subset_refl props(4)])
  ultimately obtain pages' where
    "shadow_copy bits (ReadShadowIterator pages src) (src + of_nat (unat len)) d_first pages1 = Inr pages'"
    "\<forall>b. shadow_at pages' b =
      (if in_region dest (unat len) b then shadow_at pages1 (src + (b - dest)) else shadow_at pages1 b)"
    using shadow_copy_correct [OF unat_addr_less _ props(2,1) _ _ assms(2), of "ReadShadowIterator pages src" bits]
    by auto
  with 1 props(4) show ?thesis by (simp add: copied_def fun_eq_iff)
qed

lemma backward_copy_correct:
  assumes "bytes_on bits pages (region src (unat len))" "src = dest \<or> unat len \<le> unat (src - dest)"
  shows "\<exists>pages'. (let (d_stop, pages1) = WriteShadowIterator pages (dest + len)
      in shadow_copy_backward bits src (ReadShadowIterator pages (src + len)) d_stop pages1) = Inr pages' \<and>
    shadow_at pages' = copied dest src (unat len) (shadow_at pages)"
proof -
  obtain d_stop pages1 where 1: "WriteShadowIterator pages (dest + len) = (d_stop, pages1)" by force
  have props: "iter_view pages1 d_stop" "address d_stop = dest + of_nat (unat len)"
    "map_dom pages \<subseteq> map_dom pages1" "\<And>c. shadow_at pages1 c = shadow_at pages c"
    using WriteShadowIterator_props [of pages "dest + len"]
      address_WriteShadowIterator [of pages "dest + len"] 1
    by auto
  have "read_view pages1 (ReadShadowIterator pages (src + len)) (region src (unat len))"
    by (rule read_view_mono [OF read_view_ReadShadowIterator props(3,4)])
  moreover have "bytes_on bits pages1 (region src (unat len))"
    by (rule bytes_on_mono [OF assms(1) subset_refl props(4)])
  moreover have "address (ReadShadowIterator pages (src + len)) = src + of_nat (unat len)" by simp
  ultimately obtain pages' where
    "shadow_copy_backward bits src (ReadShadowIterator pages (src + len)) d_stop pages1 = Inr pages'"
    "\<forall>b. shadow_at pages' b =
      (if in_region dest (unat len) b then shadow_at pages1 (src + (b - dest)) else shadow_at pages1 b)"
    using shadow_copy_backward_correct [OF unat_addr_less _ props(2,1) _ _ assms(2),
        of "ReadShadowIterator pages (src + len)" bits]
    by auto
  with 1 props(4) show ?thesis by (simp add: copied_def fun_eq_iff)
qed

text \<open>Both copy operations stop early on concrete ranges, and that changes nothing.\<close>

lemma copy_unless_concrete:
  assumes "no_wrap src len" "no_wrap dest len"
    "bytes_on (sym_bits_helper B) (g_shadow_pages rt) (region src (unat len) \<union> region dest (unat len))"
    "\<exists>pages'. do_copy = Inr pages' \<and>
       shadow_at pages' = copied dest src (unat len) (shadow_at (g_shadow_pages rt))"
  shows "\<exists>pages'. bind_result (both_concrete B src len dest len rt) (\<lambda>concrete.
      if concrete then Inr rt
      else bind_result do_copy (\<lambda>pages2. Inr (rt\<lparr>g_shadow_pages := pages2\<rparr>))) =
        Inr (rt\<lparr>g_shadow_pages := pages'\<rparr>) \<and>
    shadow_at pages' = copied dest src (unat len) (shadow_at (g_shadow_pages rt))"
proof (cases "both_concrete B src len dest len rt = Inr True")
  case True
  then have "copied dest src (unat len) (shadow_at (g_shadow_pages rt)) = shadow_at (g_shadow_pages rt)"
    using both_concrete_correct [OF assms(1-3)] by (intro copied_concrete) auto
  then show ?thesis using True by (intro exI [of _ "g_shadow_pages rt"]) simp
next
  case False
  then have "both_concrete B src len dest len rt = Inr False"
    using both_concrete_correct [OF assms(1-3)] by auto
  with assms(4) show ?thesis by auto
qed

lemma sym_memcpy_spec:
  assumes "no_wrap src len" "no_wrap dest len"
    "bytes_on (sym_bits_helper B) (g_shadow_pages rt) (region src (unat len) \<union> region dest (unat len))"
    "dest = src \<or> unat len \<le> unat (dest - src)"
  shows "\<exists>pages'. sym_memcpy B dest src len rt = Inr (rt\<lparr>g_shadow_pages := pages'\<rparr>) \<and>
    shadow_at pages' = copied dest src (unat len) (shadow_at (g_shadow_pages rt))"
proof -
  have "bytes_on (sym_bits_helper B) (g_shadow_pages rt) (region src (unat len))"
    using assms(3) by (auto simp: bytes_on_def)
  from copy_unless_concrete [OF assms(1-3) forward_copy_correct [OF this assms(4)]]
  show ?thesis by (simp add: sym_memcpy_def Let_def case_prod_beta cong: if_cong)
qed

lemma distance_back:
  assumes "no_wrap b n" "b > a"
  shows "unat n \<le> unat (a - b)"
proof -
  have "unat (a - b) = unat a + 2 ^ 64 - unat b"
    using assms(2) by (simp add: unat_sub_if' word_less_nat_alt)
  with assms(1) show ?thesis by (simp add: no_wrap_def)
qed

lemma sym_memmove_spec:
  assumes "no_wrap src len" "no_wrap dest len"
    "bytes_on (sym_bits_helper B) (g_shadow_pages rt) (region src (unat len) \<union> region dest (unat len))"
  shows "\<exists>pages'. sym_memmove B dest src len rt = Inr (rt\<lparr>g_shadow_pages := pages'\<rparr>) \<and>
    shadow_at pages' = copied dest src (unat len) (shadow_at (g_shadow_pages rt))"
proof -
  have b: "bytes_on (sym_bits_helper B) (g_shadow_pages rt) (region src (unat len))"
    using assms(3) by (auto simp: bytes_on_def)
  show ?thesis
  proof (cases "dest > src")
    case True
    then have "src = dest \<or> unat len \<le> unat (src - dest)"
      using distance_back [OF assms(2)] by simp
    from copy_unless_concrete [OF assms backward_copy_correct [OF b this]] True
    show ?thesis by (simp add: sym_memmove_def Let_def case_prod_beta cong: if_cong)
  next
    case False
    then have "dest = src \<or> unat len \<le> unat (dest - src)"
      using distance_back [OF assms(1), of dest] by (cases dest src rule: linorder_cases) simp_all
    from copy_unless_concrete [OF assms forward_copy_correct [OF b this]] False
    show ?thesis by (simp add: sym_memmove_def Let_def case_prod_beta cong: if_cong)
  qed
qed

lemma sym_memset_spec:
  assumes "no_wrap a len" "bytes_on (sym_bits_helper B) (g_shadow_pages rt) (region a (unat len))"
  shows "\<exists>pages'. sym_memset B a v len rt = Inr (rt\<lparr>g_shadow_pages := pages'\<rparr>) \<and>
    (\<forall>c. shadow_at pages' c = (if in_region a (unat len) c then v else shadow_at (g_shadow_pages rt) c))"
proof (cases "v = None \<and> is_concrete B a len rt = Inr True")
  case True
  then have "sym_memset B a v len rt = Inr (rt\<lparr>g_shadow_pages := g_shadow_pages rt\<rparr>)"
    by (simp add: sym_memset_def)
  moreover have "\<forall>c \<in> region a (unat len). shadow_at (g_shadow_pages rt) c = None"
    using True is_concrete_correct [OF _ assms(2)] assms(1) by (auto simp: no_wrap_def)
  ultimately show ?thesis using True by fastforce
next
  case False
  then have "sym_memset B a v len rt =
      Inr (rt\<lparr>g_shadow_pages := shadow_fill_range a len v (g_shadow_pages rt)\<rparr>)"
    using is_concrete_correct [OF _ assms(2)] assms(1) by (auto simp: sym_memset_def no_wrap_def)
  then show ?thesis using shadow_at_fill_range by blast
qed

context symbolic_backend
begin

lemma non_null_deref_correct:
  assumes lawful "read_view (g_shadow_pages rt) it S" "address it \<in> S"
    "shadow_ok B usable (g_shadow_pages rt) b S" "usable b x"
  shows "yields B val usable b (non_null_deref B it rt b) 8 (sym_byte val rt (address it))"
proof (cases "shadow_at (g_shadow_pages rt) (address it)")
  case None
  have "unat (ucast (memory rt (address it)) :: u64) = unat (memory rt (address it))"
    by (simp add: unsigned_ucast_eq take_bit_nat_eq_self_iff order_less_le_trans [OF unsigned_less])
  moreover have "unat (memory rt (address it)) < 2 ^ 8"
    by (rule order_less_le_trans [OF unsigned_less]) simp
  ultimately have "yields B val usable b (sym_build_integer B (ucast (memory rt (address it))) 8 b) 8
      (unat (memory rt (address it)))"
    using build_integer_law [OF \<open>lawful\<close> assms(5), of 8 "ucast (memory rt (address it))"] by simp
  with None show ?thesis
    using read_deref_view [OF assms(2,3) shadow_ok_bytes_on [OF assms(4)]]
    by (simp add: non_null_deref_def sym_byte_def)
next
  case (Some e)
  then have "usable b e" "sym_bits_helper B e = 8"
    using assms(3,4) by (auto simp: shadow_ok_def)
  with Some show ?thesis
    using read_deref_view [OF assms(2,3) shadow_ok_bytes_on [OF assms(4)]]
    by (simp add: non_null_deref_def sym_byte_def yields_def)
qed

lemma append_byte_correct:
  assumes lawful "usable b r" "usable b e" "width e = 8" "width r + 8 < 2 ^ 32"
  shows "yields B val usable b (append_byte B le (Some r) e b) (width r + 8)
    (if le then val r + 2 ^ width r * val e else val r * 256 + val e)"
  using concat_law [OF assms(1,2,3)] concat_law [OF assms(1,3,2)] assms(4,5)
  by (simp add: append_byte_def algebra_simps)

lemma accumulate_bytes_correct:
  assumes lawful "n < 2 ^ 64" "usable b r" "width r + 8 * n < 2 ^ 32"
    "read_view (g_shadow_pages rt) it (region (address it) n)"
    "shadow_ok B usable (g_shadow_pages rt) b (region (address it) n)"
  shows "\<exists>e b'. accumulate_bytes B le rt it (address it + of_nat n) (Some r) b = Inr (Some e, b') \<and>
    usable b' e \<and> (\<forall>x. usable b x \<longrightarrow> usable b' x) \<and> width e = width r + 8 * n \<and>
    val e = (let vs = bytes_from (sym_byte val rt) (address it) n
             in if le then val r + 2 ^ width r * le_value vs else val r * 256 ^ n + be_value vs)"
  using assms(2-)
proof (induction n arbitrary: it b r)
  case 0
  then show ?case by (simp add: accumulate_bytes.simps [of _ _ _ it])
next
  case (Suc n)
  let ?a = "address it" and ?it' = "read_increment (g_shadow_pages rt) it"
  have sub: "region (?a + 1) n \<subseteq> region ?a (Suc n)" by (rule region_Suc_sub) (use Suc.prems in simp)
  have "yields B val usable b (non_null_deref B it rt b) 8 (sym_byte val rt ?a)"
    by (rule non_null_deref_correct [OF \<open>lawful\<close> Suc.prems(4) _ Suc.prems(5) Suc.prems(2)]) simp
  then obtain e1 b1 where e1: "non_null_deref B it rt b = Inr (e1, b1)" "usable b1 e1"
    "\<And>x. usable b x \<Longrightarrow> usable b1 x" "width e1 = 8" "val e1 = sym_byte val rt ?a"
    by (rule yieldsE) blast
  have "yields B val usable b1 (append_byte B le (Some r) e1 b1) (width r + 8)
    (if le then val r + 2 ^ width r * val e1 else val r * 256 + val e1)"
    by (rule append_byte_correct) (use \<open>lawful\<close> Suc.prems e1 in auto)
  then obtain r2 b2 where r2: "append_byte B le (Some r) e1 b1 = Inr (r2, b2)" "usable b2 r2"
    "\<And>x. usable b1 x \<Longrightarrow> usable b2 x" "width r2 = width r + 8"
    "val r2 = (if le then val r + 2 ^ width r * val e1 else val r * 256 + val e1)"
    by (rule yieldsE) blast
  have "?a \<noteq> ?a + of_nat (Suc n)" by (rule region_end_neq [OF Suc.prems(1)])
  then have step: "accumulate_bytes B le rt it (?a + of_nat (Suc n)) (Some r) b =
      accumulate_bytes B le rt ?it' (address ?it' + of_nat n) (Some r2) b2"
    using e1(1) r2(1) by (subst accumulate_bytes.simps) (simp add: add.assoc)
  have "\<exists>e b'. accumulate_bytes B le rt ?it' (address ?it' + of_nat n) (Some r2) b2 = Inr (Some e, b') \<and>
    usable b' e \<and> (\<forall>x. usable b2 x \<longrightarrow> usable b' x) \<and> width e = width r2 + 8 * n \<and>
    val e = (let vs = bytes_from (sym_byte val rt) (address ?it') n
             in if le then val r2 + 2 ^ width r2 * le_value vs else val r2 * 256 ^ n + be_value vs)"
  proof (rule Suc.IH)
    show "shadow_ok B usable (g_shadow_pages rt) b2 (region (address ?it') n)"
      by (rule shadow_ok_mono [OF Suc.prems(5)]) (use sub e1(3) r2(3) in auto)
    show "read_view (g_shadow_pages rt) ?it' (region (address ?it') n)"
      by (rule read_view_increment [OF Suc.prems(4)]) (use sub in simp)
  qed (use Suc.prems r2 in simp_all)
  then obtain e b' where e: "accumulate_bytes B le rt ?it' (address ?it' + of_nat n) (Some r2) b2 = Inr (Some e, b')"
    "usable b' e" "\<And>x. usable b2 x \<Longrightarrow> usable b' x" "width e = width r2 + 8 * n"
    "val e = (let vs = bytes_from (sym_byte val rt) (address ?it') n
             in if le then val r2 + 2 ^ width r2 * le_value vs else val r2 * 256 ^ n + be_value vs)"
    by blast
  show ?case
    using step e e1 r2 by (auto simp: Let_def algebra_simps power_add)
qed

lemma read_memory_correct:
  assumes lawful "len \<noteq> 0" "unat a + unat len < 2 ^ 64" "8 * unat len < 2 ^ 32"
    "shadow_ok B usable (g_shadow_pages rt) (backend_state rt) (region a (unat len))"
  shows "if \<forall>c \<in> region a (unat len). shadow_at (g_shadow_pages rt) c = None
    then sym_read_memory B a len le rt = Inr (None, rt)
    else \<exists>e b'. sym_read_memory B a len le rt = Inr (Some e, rt\<lparr>backend_state := b'\<rparr>) \<and>
      usable b' e \<and> (\<forall>x. usable (backend_state rt) x \<longrightarrow> usable b' x) \<and> width e = 8 * unat len \<and>
      val e = (let vs = bytes_from (sym_byte val rt) a (unat len) in if le then le_value vs else be_value vs)"
proof -
  note conc = is_concrete_correct [OF assms(3) shadow_ok_bytes_on [OF assms(5)]]
  show ?thesis
  proof (cases "\<forall>c \<in> region a (unat len). shadow_at (g_shadow_pages rt) c = None")
    case True
    with conc assms(2) show ?thesis by (simp add: sym_read_memory_def)
  next
    case False
    let ?pages = "g_shadow_pages rt" and ?b = "backend_state rt"
    let ?it = "ReadShadowIterator ?pages a"
    obtain n where n: "unat len = Suc n" using assms(2) by (cases "unat len") (auto simp: unsigned_eq_0_iff)
    then have len: "len = of_nat (Suc n)" by (rule eq_of_nat_unat)
    have n64: "Suc n < 2 ^ 64" using unat_addr_less [of len] n by simp
    have sub: "region (a + 1) n \<subseteq> region a (unat len)" using region_Suc_sub [OF n64] n by simp
    obtain x where x: "usable ?b x" using False assms(5) by (auto simp: shadow_ok_def)
    have "yields B val usable ?b (non_null_deref B ?it rt ?b) 8 (sym_byte val rt (address ?it))"
      by (rule non_null_deref_correct [OF \<open>lawful\<close> read_view_ReadShadowIterator _ assms(5) x]) (simp add: n)
    then obtain e1 b1 where e1: "non_null_deref B ?it rt ?b = Inr (e1, b1)" "usable b1 e1"
      "\<And>x. usable ?b x \<Longrightarrow> usable b1 x" "width e1 = 8" "val e1 = sym_byte val rt a"
      by (rule yieldsE) simp
    let ?it' = "read_increment ?pages ?it"
    have step: "accumulate_bytes B le rt ?it (a + len) None ?b =
        accumulate_bytes B le rt ?it' (address ?it' + of_nat n) (Some e1) b1"
      using e1(1) region_end_neq [OF n64, of a] unfolding len
      by (subst accumulate_bytes.simps) (simp add: append_byte_def add.assoc)
    have ok1: "shadow_ok B usable ?pages b1 (region (address ?it') n)"
      by (rule shadow_ok_mono [OF assms(5)]) (use sub e1(3) in auto)
    have view1: "read_view ?pages ?it' (region (address ?it') n)"
      by (rule read_view_increment [OF read_view_ReadShadowIterator subset_UNIV])
    obtain e b' where e: "accumulate_bytes B le rt ?it' (address ?it' + of_nat n) (Some e1) b1 = Inr (Some e, b')"
      "usable b' e" "\<And>x. usable b1 x \<Longrightarrow> usable b' x" "width e = width e1 + 8 * n"
      "val e = (let vs = bytes_from (sym_byte val rt) (address ?it') n
               in if le then val e1 + 2 ^ width e1 * le_value vs else val e1 * 256 ^ n + be_value vs)"
      using accumulate_bytes_correct [OF \<open>lawful\<close> _ e1(2) _ view1 ok1, of le] n64 assms(4) n e1(4)
      by auto
    have "sym_read_memory B a len le rt = Inr (Some e, rt\<lparr>backend_state := b'\<rparr>)"
      using False conc assms(2) step e(1) by (simp add: sym_read_memory_def)
    with False e e1 n show ?thesis by (auto simp: Let_def)
  qed
qed

text \<open>The byte of an expression's value that a write stores at position \<open>i\<close> of \<open>L\<close>.\<close>

lemma extract_byte_correct:
  assumes lawful "usable b e" "width e = 8 * L" "8 * L < 2 ^ 32" "i < L"
  shows "yields B val usable b (extract_byte B le (of_nat L) e (of_nat i) b) 8
    (val e div 256 ^ (if le then i else L - 1 - i) mod 256)"
proof -
  define j where "j = (if le then i else L - 1 - i)"
  have j: "j < L" using assms(5) by (auto simp: j_def)
  have small: "8 * j + 7 < 2 ^ 64" "8 * j < 2 ^ 64" using j assms(4) by simp_all
  have "extract_byte B le (of_nat L) e (of_nat i) b = sym_extract_helper B e (of_nat (8 * j + 7)) (of_nat (8 * j)) b"
  proof (cases le)
    case True
    then show ?thesis by (simp add: extract_byte_def j_def algebra_simps)
  next
    case False
    obtain d where d: "L = Suc (i + d)" using assms(5) less_imp_Suc_add by blast
    with False show ?thesis by (simp add: extract_byte_def j_def algebra_simps)
  qed
  moreover have unats: "unat (of_nat (8 * j + 7) :: addr) = 8 * j + 7" "unat (of_nat (8 * j) :: addr) = 8 * j"
    using small by (simp_all only: unat_of_nat_small)
  have "of_nat (8 * j) \<le> (of_nat (8 * j + 7) :: addr)" "of_nat (8 * j + 7) < sym_bits_helper B e"
    using unats j assms(3) by (simp_all only: word_le_nat_alt word_less_nat_alt)
  note extract_law [OF assms(1,2) this]
  moreover have "2 ^ (8 * j) = (256 :: nat) ^ j" by (simp add: power_mult)
  ultimately show ?thesis using assms(3,4) unats by (simp add: j_def)
qed

lemma write_bytes_correct:
  assumes lawful "usable b e" "width e = 8 * L" "8 * L < 2 ^ 32" "j + n = L" "iter_view pages it"
  shows "\<exists>pages' b'. write_bytes B le (of_nat L) e it (address it + of_nat n) (of_nat j) pages b = Inr (pages', b') \<and>
    (\<forall>x. usable b x \<longrightarrow> usable b' x) \<and>
    (\<forall>c. \<not> in_region (address it) n c \<longrightarrow> shadow_at pages' c = shadow_at pages c) \<and>
    (\<forall>k<n. \<exists>x. shadow_at pages' (address it + of_nat k) = Some x \<and> usable b' x \<and> sym_bits_helper B x = 8 \<and>
       val x = val e div 256 ^ (if le then j + k else L - 1 - (j + k)) mod 256)"
  using assms(2,5,6)
proof (induction n arbitrary: j it pages b)
  case 0
  then show ?case by (simp add: write_bytes.simps [of _ _ _ _ it])
next
  case (Suc n)
  let ?a = "address it"
  have n64: "Suc n < 2 ^ 64" using Suc.prems(2) assms(4) by simp
  have "yields B val usable b (extract_byte B le (of_nat L) e (of_nat j) b) 8
    (val e div 256 ^ (if le then j else L - 1 - j) mod 256)"
    by (rule extract_byte_correct) (use assms(1,3,4) Suc.prems in auto)
  then obtain x b1 where x: "extract_byte B le (of_nat L) e (of_nat j) b = Inr (x, b1)" "usable b1 x"
    "\<And>x. usable b x \<Longrightarrow> usable b1 x" "width x = 8"
    "val x = val e div 256 ^ (if le then j else L - 1 - j) mod 256"
    by (rule yieldsE) blast
  let ?pages1 = "write_deref_assign pages it (Some x)"
  let ?wr = "write_increment ?pages1 it"
  have view: "iter_view ?pages1 it" using Suc.prems(3) by simp
  note wr = write_increment_props [OF view]
  have step: "write_bytes B le (of_nat L) e it (?a + of_nat (Suc n)) (of_nat j) pages b =
      write_bytes B le (of_nat L) e (fst ?wr) (address (fst ?wr) + of_nat n) (of_nat (Suc j)) (snd ?wr) b1"
    using region_end_neq [OF n64, of ?a] x(1)
    by (subst write_bytes.simps) (simp add: Let_def ac_simps)
  have "\<exists>pages' b'. write_bytes B le (of_nat L) e (fst ?wr) (address (fst ?wr) + of_nat n) (of_nat (Suc j)) (snd ?wr) b1 = Inr (pages', b') \<and>
    (\<forall>x. usable b1 x \<longrightarrow> usable b' x) \<and>
    (\<forall>c. \<not> in_region (address (fst ?wr)) n c \<longrightarrow> shadow_at pages' c = shadow_at (snd ?wr) c) \<and>
    (\<forall>k<n. \<exists>x. shadow_at pages' (address (fst ?wr) + of_nat k) = Some x \<and> usable b' x \<and> sym_bits_helper B x = 8 \<and>
       val x = val e div 256 ^ (if le then Suc j + k else L - 1 - (Suc j + k)) mod 256)"
    by (rule Suc.IH [OF x(3) [OF Suc.prems(1)] _ wr(1)]) (use Suc.prems(2) in simp)
  then obtain pages' b' where r:
    "write_bytes B le (of_nat L) e (fst ?wr) (address (fst ?wr) + of_nat n) (of_nat (Suc j)) (snd ?wr) b1 = Inr (pages', b')"
    "\<forall>x. usable b1 x \<longrightarrow> usable b' x"
    "\<forall>c. \<not> in_region (address (fst ?wr)) n c \<longrightarrow> shadow_at pages' c = shadow_at (snd ?wr) c"
    "\<forall>k<n. \<exists>x. shadow_at pages' (address (fst ?wr) + of_nat k) = Some x \<and> usable b' x \<and> sym_bits_helper B x = 8 \<and>
       val x = val e div 256 ^ (if le then Suc j + k else L - 1 - (Suc j + k)) mod 256"
    by blast
  have a': "address (fst ?wr) = ?a + 1" by simp
  have at: "shadow_at (snd ?wr) c = (if c = ?a then Some x else shadow_at pages c)" for c
    using wr(3) Suc.prems(3) by (simp add: shadow_at_write_deref_assign)
  have a_notin: "\<not> in_region (?a + 1) n ?a"
    using n64 by (simp add: in_region_def unsigned_minus_1_eq_mask mask_eq_exp_minus_1)
  have bits8: "sym_bits_helper B x = 8" by (rule word_unat_eq_iff [THEN iffD2]) (simp add: x(4))
  have "\<exists>y. shadow_at pages' (?a + of_nat k) = Some y \<and> usable b' y \<and> sym_bits_helper B y = 8 \<and>
       val y = val e div 256 ^ (if le then j + k else L - 1 - (j + k)) mod 256" if "k < Suc n" for k
  proof (cases k)
    case 0
    have "shadow_at pages' ?a = Some x" using r(3) a_notin at by (simp add: a')
    with 0 x r(2) bits8 show ?thesis by simp
  next
    case (Suc k')
    with r(4) that have "\<exists>y. shadow_at pages' (?a + 1 + of_nat k') = Some y \<and> usable b' y \<and> sym_bits_helper B y = 8 \<and>
       val y = val e div 256 ^ (if le then Suc j + k' else L - 1 - (Suc j + k')) mod 256"
      by (simp only: a' Suc_less_eq)
    with Suc show ?thesis by (simp add: add.assoc cong: if_cong)
  qed
  moreover have "shadow_at pages' c = shadow_at pages c" if "\<not> in_region ?a (Suc n) c" for c
    using that r(3) at n64 by (simp add: in_region_Suc a')
  moreover have "\<forall>x. usable b x \<longrightarrow> usable b' x" using r(2) x(3) by blast
  ultimately show ?case using step r(1) by (intro exI [of _ pages'] exI [of _ b']) simp
qed
lemma write_memory_correct:
  assumes lawful "len \<noteq> 0" "8 * unat len < 2 ^ 32" "usable (backend_state rt) e" "width e = 8 * unat len"
  shows "\<exists>pages' b'. sym_write_memory B a len (Some e) le rt =
      Inr (rt\<lparr>g_shadow_pages := pages', backend_state := b'\<rparr>) \<and>
    (\<forall>x. usable (backend_state rt) x \<longrightarrow> usable b' x) \<and>
    (\<forall>c. \<not> in_region a (unat len) c \<longrightarrow> shadow_at pages' c = shadow_at (g_shadow_pages rt) c) \<and>
    (\<forall>k<unat len. \<exists>x. shadow_at pages' (a + of_nat k) = Some x \<and> usable b' x \<and> sym_bits_helper B x = 8 \<and>
       val x = val e div 256 ^ (if le then k else unat len - 1 - k) mod 256)"
proof -
  obtain first pages1 where 1: "WriteShadowIterator (g_shadow_pages rt) a = (first, pages1)" by force
  obtain stop pages2 where 2: "WriteShadowIterator pages1 (a + len) = (stop, pages2)" by force
  have first: "iter_view pages1 first" "address first = a" "address stop = a + len"
    using WriteShadowIterator_props(1) [of "g_shadow_pages rt" a]
      address_WriteShadowIterator [of "g_shadow_pages rt" a]
      address_WriteShadowIterator [of pages1 "a + len"] 1 2 by simp_all
  have view: "iter_view pages2 first"
    using first WriteShadowIterator_props(2) [of pages1 "a + len"] 2 by (simp add: iter_view_def)
  have same: "shadow_at pages2 c = shadow_at (g_shadow_pages rt) c" for c
    using WriteShadowIterator_props(3) [of "g_shadow_pages rt" a]
      WriteShadowIterator_props(3) [of pages1 "a + len"] 1 2 by simp
  obtain pages' b' where w:
    "write_bytes B le len e first (a + len) 0 pages2 (backend_state rt) = Inr (pages', b')"
    "\<forall>x. usable (backend_state rt) x \<longrightarrow> usable b' x"
    "\<forall>c. \<not> in_region a (unat len) c \<longrightarrow> shadow_at pages' c = shadow_at pages2 c"
    "\<forall>k<unat len. \<exists>x. shadow_at pages' (a + of_nat k) = Some x \<and> usable b' x \<and> sym_bits_helper B x = 8 \<and>
       val x = val e div 256 ^ (if le then k else unat len - 1 - k) mod 256"
    using write_bytes_correct [OF assms(1,4,5,3) _ view, of 0 "unat len" le]
    by (simp add: first(2) cong: if_cong del: split_paired_Ex) blast
  have "sym_write_memory B a len (Some e) le rt = Inr (rt\<lparr>g_shadow_pages := pages', backend_state := b'\<rparr>)"
    using 1 2 w(1) first(3) assms(2) by (simp add: sym_write_memory_def)
  with w same show ?thesis by (intro exI conjI) auto
qed

text \<open>The values of the bytes that a write leaves behind, in address order.\<close>

lemma write_memory_bytes:
  assumes lawful "len \<noteq> 0" "8 * unat len < 2 ^ 32" "usable (backend_state rt) e" "width e = 8 * unat len"
    and wrote: "sym_write_memory B a len (Some e) le rt = Inr rt'"
  shows "bytes_from (sym_byte val rt') a (unat len) =
      (if le then le_bytes (unat len) (val e) else rev (le_bytes (unat len) (val e)))"
    "shadow_ok B usable (g_shadow_pages rt') (backend_state rt') (region a (unat len))"
    "\<forall>c. \<not> in_region a (unat len) c \<longrightarrow>
       shadow_at (g_shadow_pages rt') c = shadow_at (g_shadow_pages rt) c"
    "\<forall>c \<in> region a (unat len). shadow_at (g_shadow_pages rt') c \<noteq> None"
    "\<forall>x. usable (backend_state rt) x \<longrightarrow> usable (backend_state rt') x"
    "memory rt' = memory rt"
proof -
  let ?n = "unat len"
  obtain pages' b' where rt': "rt' = rt\<lparr>g_shadow_pages := pages', backend_state := b'\<rparr>"
    and mono: "\<forall>x. usable (backend_state rt) x \<longrightarrow> usable b' x"
    and frame: "\<forall>c. \<not> in_region a ?n c \<longrightarrow> shadow_at pages' c = shadow_at (g_shadow_pages rt) c"
    and cells: "\<forall>k<?n. \<exists>x. shadow_at pages' (a + of_nat k) = Some x \<and> usable b' x \<and>
       sym_bits_helper B x = 8 \<and> val x = val e div 256 ^ (if le then k else ?n - 1 - k) mod 256"
    using write_memory_correct [OF assms(1-5), of a le] wrote by auto
  have "bytes_from (sym_byte val rt') a ?n =
      map (\<lambda>k. val e div 256 ^ (if le then k else ?n - 1 - k) mod 256) [0..<?n]"
    by (rule bytes_from_cong) (use cells rt' in \<open>force simp: sym_byte_def\<close>)
  also have "\<dots> = (if le then le_bytes ?n (val e) else rev (le_bytes ?n (val e)))"
    by (auto simp: le_bytes_def rev_nth intro!: nth_equalityI)
  finally show "bytes_from (sym_byte val rt') a ?n = \<dots>" .
  have cell: "\<exists>x. shadow_at pages' c = Some x \<and> usable b' x \<and> sym_bits_helper B x = 8"
    if "in_region a ?n c" for c
  proof -
    have "unat (c - a) < ?n" using that by (simp add: in_region_def)
    with cells have "\<exists>x. shadow_at pages' (a + of_nat (unat (c - a))) = Some x \<and> usable b' x \<and> sym_bits_helper B x = 8"
      by blast
    then show ?thesis by simp
  qed
  show "shadow_ok B usable (g_shadow_pages rt') (backend_state rt') (region a ?n)"
    using cell rt' by (fastforce simp: shadow_ok_def)
  show "\<forall>c \<in> region a ?n. shadow_at (g_shadow_pages rt') c \<noteq> None"
    using cell rt' by fastforce
qed (use assms write_memory_correct [OF assms(1-5), of a le] in auto)

text \<open>Reading back what was written gives an expression of the same width and value.\<close>

lemma memory_round_trip:
  assumes lawful "len \<noteq> 0" "8 * unat len < 2 ^ 32" "unat a + unat len < 2 ^ 64"
    "usable (backend_state rt) e" "width e = 8 * unat len"
  shows "\<exists>rt' e' rt''. sym_write_memory B a len (Some e) le rt = Inr rt' \<and>
    sym_read_memory B a len le rt' = Inr (Some e', rt'') \<and>
    sym_bits_helper B e' = sym_bits_helper B e \<and> val e' = val e"
proof -
  obtain rt' where w: "sym_write_memory B a len (Some e) le rt = Inr rt'"
    using write_memory_correct [OF assms(1-3,5,6)] by blast
  note wb = write_memory_bytes [OF assms(1-3,5,6) w]
  have "a \<in> region a (unat len)" using assms(2) by (simp add: unsigned_greater_eq unat_gt_0)
  with wb(4) have notall: "\<not> (\<forall>c \<in> region a (unat len). shadow_at (g_shadow_pages rt') c = None)" by blast
  then obtain e' b' where r: "sym_read_memory B a len le rt' = Inr (Some e', rt'\<lparr>backend_state := b'\<rparr>)"
    "width e' = 8 * unat len"
    "val e' = (let vs = bytes_from (sym_byte val rt') a (unat len) in if le then le_value vs else be_value vs)"
    using read_memory_correct [OF assms(1,2,4,3) wb(2), of le, unfolded if_not_P [OF notall]] by blast
  have "val e < 256 ^ unat len"
    using val_bound [OF assms(1,5)] assms(6) by (simp add: power_mult)
  then have "val e' = val e"
    using r(3) wb(1) by (simp add: Let_def be_value_rev le_value_le_bytes)
  moreover have "sym_bits_helper B e' = sym_bits_helper B e"
    using r(2) assms(6) by (simp add: word_unat_eq_iff)
  ultimately show ?thesis using w r(1) by blast
qed
text \<open>
  Aggregates are one wide bit vector whose first byte is the most significant one.
  Extracting \<open>L\<close> bytes from \<open>offset\<close> on in little-endian order reverses them.
\<close>

definition agg_byte :: "nat \<Rightarrow> nat \<Rightarrow> nat \<Rightarrow> nat" where
  "agg_byte T v i = v div 256 ^ (T - 1 - i) mod 256"

lemma extract_agg_byte:
  assumes lawful "usable b e" "width e = 8 * T" "8 * T < 2 ^ 32" "i < T"
  shows "yields B val usable b
    (sym_extract_helper B e (sym_bits_helper B e - of_nat i * 8 - 1) (sym_bits_helper B e - (of_nat i + 1) * 8) b)
    8 (agg_byte T (val e) i)"
proof -
  have bits: "sym_bits_helper B e = of_nat (8 * T)" using assms(3) by (rule eq_of_nat_unat)
  obtain d where d: "T = Suc (i + d)" using assms(5) less_imp_Suc_add by blast
  have hi: "sym_bits_helper B e - of_nat i * 8 - 1 = of_nat (8 * (T - i) - 1)"
    and lo: "sym_bits_helper B e - (of_nat i + 1) * 8 = of_nat (8 * (T - 1 - i))"
    using d by (simp_all add: bits algebra_simps)
  have "8 * (T - i) - 1 < 2 ^ 64" "8 * (T - 1 - i) < 2 ^ 64" using assms(4) by simp_all
  then have unats: "unat (of_nat (8 * (T - i) - 1) :: addr) = 8 * (T - i) - 1"
    "unat (of_nat (8 * (T - 1 - i)) :: addr) = 8 * (T - 1 - i)"
    by (simp_all only: unat_of_nat_small)
  have "of_nat (8 * (T - 1 - i)) \<le> (of_nat (8 * (T - i) - 1) :: addr)"
    "of_nat (8 * (T - i) - 1) < sym_bits_helper B e"
    unfolding word_le_nat_alt word_less_nat_alt unats using assms(3,5) by linarith+
  note extract_law [OF assms(1,2) this]
  moreover have "2 ^ (8 * (T - 1 - i)) = (256 :: nat) ^ (T - 1 - i)" by (simp only: power_mult) simp
  moreover have "8 * (T - i) - 1 - 8 * (T - 1 - i) + 1 = 8" using assms(5) by linarith
  ultimately show ?thesis
    using assms(3,4) unfolding hi lo unats by (simp add: agg_byte_def)
qed

lemma extract_concat_correct:
  assumes lawful "width e = 8 * T" "8 * T < 2 ^ 32" "off + L \<le> T"
    "usable b e" "i + n = L" "usable b r" "width r = 8 * i"
    "val r = le_value (map (\<lambda>k. agg_byte T (val e) (off + k)) [0..<i])"
  shows "yields B val usable b
    (extract_concat B e (sym_bits_helper B e) (of_nat off) (of_nat L) (of_nat i) r b)
    (8 * L) (le_value (map (\<lambda>k. agg_byte T (val e) (off + k)) [0..<L]))"
  using assms(5-)
proof (induction n arbitrary: i r b)
  case 0
  then show ?case by (subst extract_concat.simps) (simp add: yields_def)
next
  case (Suc n)
  have small: "i < 2 ^ 64" "L < 2 ^ 64" using Suc.prems(2) assms(3,4) by simp_all
  have "yields B val usable b
    (sym_extract_helper B e (sym_bits_helper B e - of_nat (off + i) * 8 - 1)
       (sym_bits_helper B e - (of_nat (off + i) + 1) * 8) b)
    8 (agg_byte T (val e) (off + i))"
    by (rule extract_agg_byte) (use assms Suc.prems in auto)
  then obtain x b1 where x: "sym_extract_helper B e (sym_bits_helper B e - of_nat (off + i) * 8 - 1)
       (sym_bits_helper B e - (of_nat (off + i) + 1) * 8) b = Inr (x, b1)" "usable b1 x"
    "\<And>y. usable b y \<Longrightarrow> usable b1 y" "width x = 8" "val x = agg_byte T (val e) (off + i)"
    by (rule yieldsE) blast
  have "yields B val usable b1 (sym_concat_helper B x r b1) (width x + width r)
      (val x * 2 ^ width r + val r)"
    by (rule concat_law) (use assms Suc.prems x in auto)
  then obtain r' b2 where r': "sym_concat_helper B x r b1 = Inr (r', b2)" "usable b2 r'"
    "\<And>y. usable b1 y \<Longrightarrow> usable b2 y" "width r' = width x + width r"
    "val r' = val x * 2 ^ width r + val r"
    by (rule yieldsE) blast
  have "2 ^ (8 * i) = (256 :: nat) ^ i" by (simp add: power_mult)
  then have val': "val r' = le_value (map (\<lambda>k. agg_byte T (val e) (off + k)) [0..<Suc i])"
    using r'(5) x(5) Suc.prems(4,5) by (simp add: le_value_append)
  have "(of_nat i :: addr) < of_nat L"
    using Suc.prems(2) by (simp only: word_less_nat_alt unat_of_nat_small small)
  then have "extract_concat B e (sym_bits_helper B e) (of_nat off) (of_nat L) (of_nat i) r b =
      extract_concat B e (sym_bits_helper B e) (of_nat off) (of_nat L) (of_nat (Suc i)) r' b2"
    using x(1) r'(1) by (subst extract_concat.simps) (simp add: ac_simps)
  then show ?case
    using Suc.IH [of b2 "Suc i" r'] Suc.prems x(3,4) r' val' unfolding yields_def by auto
qed

lemma be_value_agg_bytes:
  assumes "off + L \<le> T"
  shows "be_value (map (\<lambda>k. agg_byte T v (off + k)) [0..<L]) = v div 256 ^ (T - (off + L)) mod 256 ^ L"
proof -
  have "rev (map (\<lambda>k. agg_byte T v (off + k)) [0..<L]) = le_bytes L (v div 256 ^ (T - (off + L)))"
  proof (rule nth_equalityI)
    fix k assume "k < length (rev (map (\<lambda>k. agg_byte T v (off + k)) [0..<L]))"
    then have k: "k < L" by simp
    then have "T - 1 - (off + (L - 1 - k)) = T - (off + L) + k" using assms by simp
    with k show "rev (map (\<lambda>k. agg_byte T v (off + k)) [0..<L]) ! k = le_bytes L (v div 256 ^ (T - (off + L))) ! k"
      by (simp add: rev_nth le_bytes_def agg_byte_def div_mult2_eq power_add)
  qed simp
  then show ?thesis by (metis le_value_rev le_value_le_bytes)
qed

lemma build_extract_correct:
  assumes lawful "usable b e" "width e = 8 * T" "8 * T < 2 ^ 32" "0 < L" "off + L \<le> T"
  shows "yields B val usable b (sym_build_extract B e (of_nat off) (of_nat L) le b) (8 * L)
    (let vs = map (\<lambda>k. agg_byte T (val e) (off + k)) [0..<L] in if le then le_value vs else be_value vs)"
proof (cases le)
  case True
  have mod8: "sym_bits_helper B e mod 8 = 0"
    by (rule word_unat_eq_iff [THEN iffD2]) (simp add: unat_mod assms(3))
  have off: "(of_nat off :: addr) * 8 + 8 = (of_nat off + 1) * 8" by simp
  have "yields B val usable b
    (sym_extract_helper B e (sym_bits_helper B e - of_nat off * 8 - 1)
       (sym_bits_helper B e - (of_nat off + 1) * 8) b)
    8 (agg_byte T (val e) off)"
    by (rule extract_agg_byte) (use assms in auto)
  then obtain x b1 where x: "sym_extract_helper B e (sym_bits_helper B e - of_nat off * 8 - 1)
       (sym_bits_helper B e - (of_nat off + 1) * 8) b = Inr (x, b1)" "usable b1 x"
    "\<And>y. usable b y \<Longrightarrow> usable b1 y" "width x = 8" "val x = agg_byte T (val e) off"
    by (rule yieldsE) blast
  have "yields B val usable b1
    (extract_concat B e (sym_bits_helper B e) (of_nat off) (of_nat L) (of_nat 1) x b1)
    (8 * L) (le_value (map (\<lambda>k. agg_byte T (val e) (off + k)) [0..<L]))"
    by (rule extract_concat_correct [where n = "L - 1"]) (use assms x in auto)
  then show ?thesis
    using True mod8 x(1,3) off unfolding yields_def
    by (simp add: sym_build_extract_def Let_def algebra_simps) blast
next
  case False
  have mod8: "sym_bits_helper B e mod 8 = 0"
    by (rule word_unat_eq_iff [THEN iffD2]) (simp add: unat_mod assms(3))
  have bits: "sym_bits_helper B e = of_nat (8 * T)" using assms(3) by (rule eq_of_nat_unat)
  obtain d where d: "T = off + L + d" using assms(6) le_Suc_ex by blast
  obtain l where l: "L = Suc l" using assms(5) gr0_implies_Suc by blast
  have hi: "sym_bits_helper B e - of_nat off * 8 - 1 = of_nat (8 * (L + d) - 1)"
    and lo: "sym_bits_helper B e - (of_nat off + of_nat L) * 8 = of_nat (8 * d)"
    using d l by (simp_all add: bits algebra_simps)
  have "8 * (L + d) - 1 < 2 ^ 64" "8 * d < 2 ^ 64" using assms(4) d by simp_all
  then have unats: "unat (of_nat (8 * (L + d) - 1) :: addr) = 8 * (L + d) - 1"
    "unat (of_nat (8 * d) :: addr) = 8 * d"
    by (simp_all only: unat_of_nat_small)
  have "of_nat (8 * d) \<le> (of_nat (8 * (L + d) - 1) :: addr)"
    "of_nat (8 * (L + d) - 1) < sym_bits_helper B e"
    unfolding word_le_nat_alt word_less_nat_alt unats using assms(3,5) d by auto
  then have ex: "yields B val usable b (sym_extract_helper B e (of_nat (8 * (L + d) - 1)) (of_nat (8 * d)) b)
      (8 * (L + d) - 1 - 8 * d + 1) (val e div 2 ^ (8 * d) mod 2 ^ (8 * (L + d) - 1 - 8 * d + 1))"
    using extract_law [OF assms(1,2), of "of_nat (8 * d)" "of_nat (8 * (L + d) - 1)"] assms(3,4)
    by (simp only: unats)
  have build: "sym_build_extract B e (of_nat off) (of_nat L) False b =
      sym_extract_helper B e (of_nat (8 * (L + d) - 1)) (of_nat (8 * d)) b"
    by (simp only: sym_build_extract_def Let_def mod8 hi lo if_False assert_that_simps bind_result_simps simp_thms)
  have "2 ^ (8 * d) = (256 :: nat) ^ d" "2 ^ (8 * L) = (256 :: nat) ^ L"
    by (simp_all only: power_mult) simp_all
  moreover have "8 * (L + d) - 1 - 8 * d + 1 = 8 * L" "T - (off + L) = d" using assms(5) d by auto
  ultimately show ?thesis
    using False ex be_value_agg_bytes [OF assms(6), of "val e"]
    by (simp only: build Let_def if_False)
qed
lemma build_bswap_correct:
  assumes lawful "usable b e" "width e = 8 * T" "8 * T < 2 ^ 32" "0 < T" "even T"
  shows "yields B val usable b (sym_build_bswap B e b) (8 * T) (be_value (le_bytes T (val e)))"
proof -
  have "sym_bits_helper B e mod 16 = 0"
    by (rule word_unat_eq_iff [THEN iffD2]) (use assms(3,6) in \<open>auto simp: unat_mod elim!: evenE\<close>)
  moreover have "sym_bits_helper B e div 8 = of_nat T"
    by (rule eq_of_nat_unat) (simp add: unat_div assms(3))
  moreover have "map (\<lambda>k. agg_byte T (val e) (0 + k)) [0..<T] = rev (le_bytes T (val e))"
    by (auto simp: rev_nth le_bytes_def agg_byte_def intro!: nth_equalityI)
  then have "le_value (map (\<lambda>k. agg_byte T (val e) (0 + k)) [0..<T]) = be_value (le_bytes T (val e))"
    by (simp only: le_value_rev)
  ultimately show ?thesis
    using build_extract_correct [OF assms(1-5), of 0 True] by (simp add: sym_build_bswap_def)
qed

end

end
