(* ===== verification/GarbageCollection.thy ===== *)
theory GarbageCollection
  imports RuntimeCommon
begin

text \<open>
  runtime/GarbageCollection.cpp: which expressions are reachable. The roots are the
  registered expression regions (arrays of \<open>SymExpr\<close> in the memory of the program, here
  \<open>expr_memory\<close>, one pointer every 8 bytes) and the cells of every shadow page.
  \<open>pages_ok\<close> is the invariant of the shadow map, kept by every operation on it, under
  which "a cell of a shadow page" and "a byte with a shadow expression" are the same.
\<close>

definition registerExpressionRegion ::
  "addr \<times> addr \<Rightarrow> ('e, 'b, 'x) runtime_scheme \<Rightarrow> ('e, 'b, 'x) runtime_scheme" where
  "registerExpressionRegion r rt = rt\<lparr>expressionRegions := expressionRegions rt @ [r]\<rparr>"

text \<open>The lambda of the source: the pointers of an array of \<open>n\<close> elements, read by \<open>cells\<close>.\<close>

definition collect_region :: "(nat \<Rightarrow> 'e option) \<Rightarrow> nat \<Rightarrow> 'e set \<Rightarrow> 'e set" where
  "collect_region cells n reachable =
     fold (\<lambda>i acc. case cells i of Some e \<Rightarrow> insert e acc | None \<Rightarrow> acc) [0..<n] reachable"

definition collectReachableExpressions :: "('e, 'b, 'x) runtime_scheme \<Rightarrow> 'e set" where
  "collectReachableExpressions rt =
     (let from_regions =
            fold (\<lambda>(start, len). collect_region (\<lambda>i. expr_memory rt (start + 8 * of_nat i)) (unat len))
              (expressionRegions rt) {}
      in fold (\<lambda>(page, cells). collect_region (\<lambda>i. cells (int i)) (unat kPageSize))
           (g_shadow_pages rt) from_regions)"

lemma collect_region_iff:
  "e \<in> collect_region cells n reachable \<longleftrightarrow> e \<in> reachable \<or> (\<exists>i<n. cells i = Some e)"
proof (induction n arbitrary: reachable)
  case (Suc n)
  have "collect_region cells (Suc n) reachable =
      (case cells n of Some x \<Rightarrow> insert x (collect_region cells n reachable)
       | None \<Rightarrow> collect_region cells n reachable)"
    by (simp add: collect_region_def split: option.split)
  with Suc show ?case by (auto simp: less_Suc_eq split: option.splits)
qed (simp add: collect_region_def)

lemma fold_collect_iff:
  "e \<in> fold (\<lambda>(k, v). collect_region (cells k v) (n k v)) xs reachable \<longleftrightarrow>
     e \<in> reachable \<or> (\<exists>(k, v) \<in> set xs. \<exists>i < n k v. cells k v i = Some e)"
  by (induction xs arbitrary: reachable) (auto simp: collect_region_iff)

subsection \<open>The shadow map stays well-formed\<close>

definition pages_ok :: "'e shadow_pages \<Rightarrow> bool" where
  "pages_ok pages \<longleftrightarrow> map_wf pages \<and> (\<forall>p \<in> map_dom pages. pageStart p = p)"

named_theorems pages_ok_intros "operations that keep the shadow map well-formed"

lemma pageStart_idem [simp]: "pageStart (pageStart a) = pageStart a"
  by (rule bit_word_eqI) (auto simp: pageStart_def bit_simps)

lemma pages_ok_Nil [simp]: "pages_ok []"
  by (simp add: pages_ok_def)

lemma pages_ok_create [pages_ok_intros]:
  "pages_ok pages \<Longrightarrow> pages_ok (snd (getOrCreateShadow pages a))"
  by (auto simp: pages_ok_def getOrCreateShadow_def Let_def split: option.splits)

lemma pages_ok_store [pages_ok_intros]: "pages_ok pages \<Longrightarrow> pages_ok (store_shadow pages p v)"
  by (auto simp: pages_ok_def store_shadow_def map_dom_iff split: option.splits)

lemma pages_ok_assign [pages_ok_intros]:
  "pages_ok pages \<Longrightarrow> pages_ok (write_deref_assign pages it v)"
  by (auto simp: write_deref_assign_def intro: pages_ok_store split: option.splits)

lemma pages_ok_iterator [pages_ok_intros]:
  "pages_ok pages \<Longrightarrow> pages_ok (snd (WriteShadowIterator pages a))"
  using pages_ok_create [of pages a]
  by (auto simp: WriteShadowIterator_def split: prod.splits)

lemma pages_ok_increment [pages_ok_intros]:
  "pages_ok pages \<Longrightarrow> pages_ok (snd (write_increment pages it))"
  using pages_ok_create [of pages "address it + 1"]
  by (auto simp: write_increment_def Let_def split: prod.splits)

lemma pages_ok_decrement [pages_ok_intros]:
  "pages_ok pages \<Longrightarrow> pages_ok (snd (write_decrement pages it))"
  using pages_ok_create [of pages "address it - 1"]
  by (auto simp: write_decrement_def Let_def split: prod.splits)

lemma pages_ok_fill [pages_ok_intros]:
  "pages_ok pages \<Longrightarrow> pages_ok (shadow_fill first stop v pages)"
proof (induction first stop v pages rule: shadow_fill.induct)
  case (1 first stop v pages)
  then show ?case
    by (subst shadow_fill.simps)
      (auto simp: Let_def intro!: pages_ok_intros intro: "1.IH" [OF _ refl] prod.collapse)
qed

lemma pages_ok_fill_range [pages_ok_intros]:
  "pages_ok pages \<Longrightarrow> pages_ok (shadow_fill_range a n v pages)"
  using pages_ok_iterator [of pages a]
    pages_ok_iterator [of "snd (WriteShadowIterator pages a)" "a + n"]
  by (auto simp: shadow_fill_range_def Let_def intro: pages_ok_fill split: prod.splits)

lemma pages_ok_copy:
  "pages_ok pages \<Longrightarrow> shadow_copy bits first stop res pages = Inr pages' \<Longrightarrow> pages_ok pages'"
proof (induction bits first stop res pages rule: shadow_copy.induct)
  case (1 bits first stop res pages)
  from "1.prems"(2) show ?case
    by (subst (asm) shadow_copy.simps)
      (use "1.prems"(1) in \<open>auto simp: Let_def bind_result_eq_Inr split: if_splits
        intro!: pages_ok_intros dest!: "1.IH" [rotated -1]\<close>)
qed

lemma pages_ok_copy_backward:
  "pages_ok pages \<Longrightarrow> shadow_copy_backward bits first stop res pages = Inr pages' \<Longrightarrow> pages_ok pages'"
proof (induction bits first stop res pages rule: shadow_copy_backward.induct)
  case (1 bits first stop res pages)
  from "1.prems"(2) show ?case
    by (subst (asm) shadow_copy_backward.simps)
      (use "1.prems"(1) in \<open>auto simp: Let_def bind_result_eq_Inr split: if_splits
        intro!: pages_ok_intros dest!: "1.IH" [rotated -1]\<close>)
qed

lemma pages_ok_write_bytes:
  "pages_ok pages \<Longrightarrow> write_bytes B le len expr it stop i pages b = Inr (pages', b') \<Longrightarrow> pages_ok pages'"
proof (induction B le len expr it stop i pages b rule: write_bytes.induct)
  case (1 B le len expr it stop i pages b)
  from "1.prems"(2) show ?case
    by (subst (asm) write_bytes.simps)
      (use "1.prems"(1) in \<open>auto simp: Let_def bind_result_eq_Inr split: if_splits
        intro!: pages_ok_intros dest!: "1.IH" [rotated -1]\<close>)
qed

subsection \<open>What the collector finds\<close>

lemma page_cell_address:
  assumes p: "pageStart p = p" and i: "i < 4096"
  shows "pageStart (p + of_nat i) = p" "uint (pageOffset (p + of_nat i)) = int i"
proof -
  have "uint p mod 4096 = 0" using uint_pageStart [of p] p by simp
  then obtain q where q: "uint p = 4096 * q" by auto
  have "uint p < 2 ^ 64" using uint_lt2p [of p] by simp
  then have "4096 * q + int i < 2 ^ 64" using q i by simp
  moreover have "int (unat p) = uint p" by simp
  ultimately have "int (unat p + i) < int (2 ^ 64)" using q by simp
  then have "unat p + i < 2 ^ 64" by (simp only: of_nat_less_iff)
  then have u: "uint (p + of_nat i) = 4096 * q + int i" using uint_plus_of_nat [of p i] q by simp
  then show "uint (pageOffset (p + of_nat i)) = int i" using i by (simp add: uint_pageOffset)
  have "uint (pageStart (p + of_nat i)) = uint p" using u q i by (simp add: uint_pageStart)
  then show "pageStart (p + of_nat i) = p" by (simp only: word_uint_eq_iff)
qed

lemma shadow_cell_iff:
  assumes "pages_ok pages"
  shows "(\<exists>(p, cells) \<in> set pages. \<exists>i < unat kPageSize. cells (int i) = Some e) \<longleftrightarrow>
    (\<exists>a. shadow_at pages a = Some e)"
proof
  assume "\<exists>(p, cells) \<in> set pages. \<exists>i < unat kPageSize. cells (int i) = Some e"
  then obtain p cells i where c: "(p, cells) \<in> set pages" "i < 4096" "cells (int i) = Some e"
    by (auto simp: kPageSize_def)
  then have find: "map_find pages p = Some cells" and p: "pageStart p = p"
    using assms by (auto simp: pages_ok_def map_find_in_set map_dom_def rev_image_eqI)
  have "shadow_at pages (p + of_nat i) = Some e"
    using page_cell_address [OF p c(2)] find c(3) by (simp add: shadow_at_def)
  then show "\<exists>a. shadow_at pages a = Some e" ..
next
  assume "\<exists>a. shadow_at pages a = Some e"
  then obtain a cells where "map_find pages (pageStart a) = Some cells"
    "cells (uint (pageOffset a)) = Some e"
    by (auto simp: shadow_at_def split: option.splits)
  moreover from this have "(pageStart a, cells) \<in> set pages"
    using assms by (auto simp: pages_ok_def map_find_in_set)
  moreover have "nat (uint (pageOffset a)) < unat kPageSize"
    using pageOffset_bounds [of a] by (simp add: kPageSize_def nat_less_iff del: nat_uint_eq)
  ultimately show "\<exists>(p, cells) \<in> set pages. \<exists>i < unat kPageSize. cells (int i) = Some e"
    using pageOffset_bounds(1) [of a] by (intro bexI [of _ "(pageStart a, cells)"]) auto
qed

lemma collectReachable_iff:
  assumes "pages_ok (g_shadow_pages rt)"
  shows "e \<in> collectReachableExpressions rt \<longleftrightarrow>
     (\<exists>(start, len) \<in> set (expressionRegions rt). \<exists>i < unat len. expr_memory rt (start + 8 * of_nat i) = Some e) \<or>
     (\<exists>a. shadow_at (g_shadow_pages rt) a = Some e)"
  unfolding collectReachableExpressions_def Let_def fold_collect_iff
  using shadow_cell_iff [OF assms, of e] by auto

end
