(* ===== verification/CText.thy ===== *)
theory CText
  imports Prelude
begin

text \<open>
  The string functions of the C and C++ standard libraries that the runtime calls:
  decimal printing (\<open>std::to_string\<close>, \<open>operator<<\<close>), \<open>atol\<close>, \<open>std::stoul\<close>, \<open>std::tolower\<close>,
  \<open>strstr\<close>, \<open>std::getline\<close>. Strings are lists of characters, in the "C" locale.
\<close>

definition digit_char :: "nat \<Rightarrow> char" where
  "digit_char d = char_of (48 + d)"

definition is_digit :: "char \<Rightarrow> bool" where
  "is_digit c \<longleftrightarrow> 48 \<le> (of_char c :: nat) \<and> (of_char c :: nat) \<le> 57"

definition digit_val :: "char \<Rightarrow> nat" where
  "digit_val c = of_char c - 48"

definition is_space :: "char \<Rightarrow> bool" where
  "is_space c \<longleftrightarrow> of_char c = (32 :: nat) \<or> (9 \<le> (of_char c :: nat) \<and> of_char c \<le> (13 :: nat))"

fun to_string :: "nat \<Rightarrow> string" where
  "to_string n = (if n < 10 then [digit_char n] else to_string (n div 10) @ [digit_char (n mod 10)])"

declare to_string.simps [simp del]

fun parse_digits :: "nat \<Rightarrow> string \<Rightarrow> nat" where
  "parse_digits acc [] = acc"
| "parse_digits acc (c # cs) =
     (if is_digit c then parse_digits (10 * acc + digit_val c) cs else acc)"

definition skip_space :: "string \<Rightarrow> string" where
  "skip_space s = dropWhile is_space s"

text \<open>Sign and digits after the white space: whether there is a minus, and what follows it.\<close>

definition split_sign :: "string \<Rightarrow> bool \<times> string" where
  "split_sign s =
     (case skip_space s of
        c # cs \<Rightarrow> if c = CHR ''-'' then (True, cs) else if c = CHR ''+'' then (False, cs) else (False, c # cs)
      | [] \<Rightarrow> (False, []))"

text \<open>\<open>atol\<close> on a 64-bit \<open>long\<close>, which the C library clamps at the ends of the range.\<close>

definition atol :: "string \<Rightarrow> int" where
  "atol s =
     (let (neg, ds) = split_sign s;
          v = int (parse_digits 0 ds)
      in if neg then max (- (2 ^ 63)) (- v) else min (2 ^ 63 - 1) v)"

datatype stoul_error = Invalid_argument | Stoul_out_of_range

text \<open>
  \<open>std::stoul\<close> in base 10: no digit is \<open>invalid_argument\<close>, a magnitude beyond
  \<open>ULONG_MAX\<close> is \<open>out_of_range\<close>, a minus sign negates modulo \<open>2^64\<close>.
\<close>

definition stoul :: "string \<Rightarrow> stoul_error + u64" where
  "stoul s =
     (let (neg, ds) = split_sign s
      in if ds = [] \<or> \<not> is_digit (hd ds) then Inl Invalid_argument
         else let v = parse_digits 0 ds
           in if 2 ^ 64 \<le> v then Inl Stoul_out_of_range
              else Inr (if neg then - of_nat v else of_nat v))"

definition tolower :: "char \<Rightarrow> char" where
  "tolower c = (if 65 \<le> (of_char c :: nat) \<and> of_char c \<le> (90 :: nat) then char_of (of_char c + 32 :: nat) else c)"

fun strstr :: "string \<Rightarrow> string \<Rightarrow> bool" where
  "strstr [] needle = (needle = [])"
| "strstr (c # cs) needle = (take (length needle) (c # cs) = needle \<or> strstr cs needle)"

text \<open>The lines of a file, as repeated \<open>std::getline\<close> calls deliver them.\<close>

fun file_lines_from :: "string \<Rightarrow> string \<Rightarrow> string list" where
  "file_lines_from line [] = (if line = [] then [] else [line])"
| "file_lines_from line (c # cs) =
     (if c = CHR 0x0A then line # file_lines_from [] cs else file_lines_from (line @ [c]) cs)"

definition file_lines :: "string \<Rightarrow> string list" where
  "file_lines content = file_lines_from [] content"

named_theorems text_simps "printing and parsing decimal numbers"

lemma of_char_digit_char [simp, text_simps]: "d < 10 \<Longrightarrow> of_char (digit_char d) = (48 + d :: nat)"
  by (simp add: digit_char_def)

lemma digit_char_props [simp, text_simps]:
  assumes "d < 10"
  shows "is_digit (digit_char d)" "digit_val (digit_char d) = d" "\<not> is_space (digit_char d)"
    "digit_char d \<noteq> CHR ''-''" "digit_char d \<noteq> CHR ''+''" "digit_char d \<noteq> CHR 0x0A"
proof -
  show "is_digit (digit_char d)" "digit_val (digit_char d) = d" "\<not> is_space (digit_char d)"
    using assms by (simp_all add: is_digit_def digit_val_def is_space_def)
  have "of_char (digit_char d) \<noteq> (of_char (CHR ''-'') :: nat)"
    "of_char (digit_char d) \<noteq> (of_char (CHR ''+'') :: nat)"
    "of_char (digit_char d) \<noteq> (of_char (CHR 0x0A) :: nat)"
    using assms by simp_all
  then show "digit_char d \<noteq> CHR ''-''" "digit_char d \<noteq> CHR ''+''" "digit_char d \<noteq> CHR 0x0A"
    by metis+
qed

lemma to_string_ind:
  assumes "\<And>n. n < 10 \<Longrightarrow> P n [digit_char n]"
    and "\<And>n s. 10 \<le> n \<Longrightarrow> P (n div 10) s \<Longrightarrow> P n (s @ [digit_char (n mod 10)])"
  shows "P n (to_string n)"
  by (induction n rule: to_string.induct) (use assms in \<open>subst to_string.simps, auto\<close>)

lemma to_string_digits [text_simps]: "\<forall>c \<in> set (to_string n). is_digit c \<and> c \<noteq> CHR 0x0A"
  by (rule to_string_ind [where P = "\<lambda>n s. \<forall>c \<in> set s. is_digit c \<and> c \<noteq> CHR 0x0A"]) auto

lemma to_string_nonempty [simp]: "to_string n \<noteq> []"
  by (subst to_string.simps) simp

lemma parse_digits_snoc:
  "\<forall>c \<in> set s. is_digit c \<Longrightarrow> is_digit d \<Longrightarrow>
   parse_digits acc (s @ [d]) = 10 * parse_digits acc s + digit_val d"
  by (induction s arbitrary: acc) auto

lemma parse_to_string [simp, text_simps]: "parse_digits 0 (to_string n) = n"
proof -
  have "(\<forall>c \<in> set (to_string n). is_digit c) \<and> parse_digits 0 (to_string n) = n"
    by (rule to_string_ind [where P = "\<lambda>n s. (\<forall>c \<in> set s. is_digit c) \<and> parse_digits 0 s = n"])
      (auto simp: parse_digits_snoc)
  then show ?thesis ..
qed

lemma split_sign_to_string [text_simps]: "split_sign (to_string n) = (False, to_string n)"
proof -
  obtain c cs where c: "to_string n = c # cs" using to_string_nonempty [of n] by (cases "to_string n") auto
  then have "is_digit c" using to_string_digits [of n] by simp
  then have "48 \<le> (of_char c :: nat)" "of_char c \<le> (57 :: nat)" by (simp_all add: is_digit_def)
  then have "\<not> is_space c" "c \<noteq> CHR ''-''" "c \<noteq> CHR ''+''" by (auto simp: is_space_def)
  with c show ?thesis by (simp add: split_sign_def skip_space_def)
qed

lemma atol_to_string [text_simps]: "n < 2 ^ 63 \<Longrightarrow> atol (to_string n) = int n"
  by (simp add: atol_def split_sign_to_string)

lemma to_string_inject: "to_string m = to_string n \<longleftrightarrow> m = n"
  by (metis parse_to_string)

lemma stoul_to_string [text_simps]:
  assumes "n < 2 ^ 64"
  shows "stoul (to_string n) = Inr (of_nat n)"
proof -
  have "is_digit (hd (to_string n))"
    using to_string_digits [of n] to_string_nonempty [of n] by (simp add: list.set_sel(1))
  with assms show ?thesis by (simp add: stoul_def split_sign_to_string)
qed

lemma file_lines_from_line [text_simps]:
  "CHR 0x0A \<notin> set l \<Longrightarrow> file_lines_from pre (l @ CHR 0x0A # rest) = (pre @ l) # file_lines_from [] rest"
  by (induction l arbitrary: pre) auto

lemma file_lines_concat [text_simps]:
  "\<forall>l \<in> set ls. CHR 0x0A \<notin> set l \<Longrightarrow> file_lines (concat (map (\<lambda>l. l @ [CHR 0x0A]) ls)) = ls"
  by (induction ls) (auto simp: file_lines_def file_lines_from_line)

end
