(* ===== verification/Config.thy ===== *)
theory Config
  imports CText
begin

text \<open>
  runtime/Config.h and runtime/Config.cpp: the options of the run-time library and how
  \<open>loadConfig\<close> reads them from the environment \<open>env\<close> (what \<open>getenv\<close> returns). The
  exceptions it can leave with are values: the \<open>std::runtime_error\<close>s it throws itself and
  the \<open>std::out_of_range\<close> of \<open>std::stoul\<close> that one of its handlers does not name.
\<close>

record config =
  silent :: bool
  fullyConcrete :: bool
  solverTimeout :: u64
  outputDir :: string
  inputFile :: string
  exploredPathsFile :: string
  pathModelsFiles :: string
  legitFilesDir :: string
  logFile :: string
  pruning :: bool
  is_pure_concolic :: bool
  aflCoverageMap :: string
  garbageCollectionThreshold :: u64

definition default_config :: config where
  "default_config =
     \<lparr>silent = False, fullyConcrete = False, solverTimeout = 10, outputDir = ''/tmp/output'',
      inputFile = '''', exploredPathsFile = '''', pathModelsFiles = '''', legitFilesDir = '''',
      logFile = '''', pruning = False, is_pure_concolic = False, aflCoverageMap = '''',
      garbageCollectionThreshold = 5000000\<rparr>"

datatype config_error = Runtime_error string | Std_out_of_range

definition checkFlagString :: "string \<Rightarrow> config_error + bool" where
  "checkFlagString v =
     (let value = map tolower v
      in if value = ''1'' \<or> value = ''on'' \<or> value = ''yes'' then Inr True
         else if value = [] \<or> value = ''0'' \<or> value = ''off'' \<or> value = ''no'' then Inr False
         else Inl (Runtime_error (''Unknown flag value '' @ value)))"

definition solver_timeout_value :: "string \<Rightarrow> config_error + u64" where
  "solver_timeout_value s =
     (case stoul s of
        Inr v \<Rightarrow> Inr v
      | Inl Invalid_argument \<Rightarrow>
          Inl (Runtime_error (''Cant set solver timeout to a non integer'' @ [CHR 0x0A]))
      | Inl Stoul_out_of_range \<Rightarrow> Inl Std_out_of_range)"

definition gc_threshold_value :: "string \<Rightarrow> config_error + u64" where
  "gc_threshold_value s =
     (case stoul s of
        Inr v \<Rightarrow> Inr v
      | Inl Invalid_argument \<Rightarrow> Inl (Runtime_error (''Can't convert '' @ s @ '' to an integer''))
      | Inl Stoul_out_of_range \<Rightarrow>
          Inl (Runtime_error (''The GC threshold must be between 0 and '' @ to_string (2 ^ 64 - 1))))"

text \<open>One option of \<open>loadConfig\<close>: nothing happens where the variable is not set.\<close>

definition from_env ::
  "(string \<Rightarrow> string option) \<Rightarrow> string \<Rightarrow> (string \<Rightarrow> config_error + 'a) \<Rightarrow> ('a \<Rightarrow> config \<Rightarrow> config) \<Rightarrow>
   config \<Rightarrow> config_error + config" where
  "from_env env name conv upd cfg =
     (case env name of
        None \<Rightarrow> Inr cfg
      | Some s \<Rightarrow> bind_result (conv s) (\<lambda>v. Inr (upd v cfg)))"

definition loadConfig :: "(string \<Rightarrow> string option) \<Rightarrow> config \<Rightarrow> config_error + config" where
  "loadConfig env g_config =
     bind_result (from_env env ''SYMCC_NO_SYMBOLIC_INPUT'' checkFlagString (\<lambda>v c. c\<lparr>fullyConcrete := v\<rparr>) g_config) (\<lambda>c1.
     bind_result (from_env env ''SYMCC_SILENT'' Inr (\<lambda>v c. c\<lparr>silent := True\<rparr>) c1) (\<lambda>c2.
     bind_result (from_env env ''SYMCC_SOLVER_TIMEOUT'' solver_timeout_value (\<lambda>v c. c\<lparr>solverTimeout := v\<rparr>) c2) (\<lambda>c3.
     bind_result (from_env env ''SYMCC_OUTPUT_DIR'' Inr (\<lambda>v c. c\<lparr>outputDir := v\<rparr>) c3) (\<lambda>c4.
     bind_result (from_env env ''SYMCC_INPUT_FILE'' Inr (\<lambda>v c. c\<lparr>inputFile := v\<rparr>) c4) (\<lambda>c5.
     bind_result (from_env env ''SYMCC_EXPLORED_PATHS'' Inr (\<lambda>v c. c\<lparr>exploredPathsFile := v\<rparr>) c5) (\<lambda>c6.
     bind_result (from_env env ''SYMCC_PURE_CONCOLIC'' checkFlagString (\<lambda>v c. c\<lparr>is_pure_concolic := v\<rparr>) c6) (\<lambda>c7.
     bind_result (from_env env ''SYMCC_LEGIT_FILES'' Inr (\<lambda>v c. c\<lparr>legitFilesDir := v\<rparr>) c7) (\<lambda>c8.
     bind_result (from_env env ''SYMCC_PATH_MODELS'' Inr (\<lambda>v c. c\<lparr>pathModelsFiles := v\<rparr>) c8) (\<lambda>c9.
     bind_result (from_env env ''SYMCC_LOG_FILE'' Inr (\<lambda>v c. c\<lparr>logFile := v\<rparr>) c9) (\<lambda>c10.
     bind_result (from_env env ''SYMCC_ENABLE_LINEARIZATION'' checkFlagString (\<lambda>v c. c\<lparr>pruning := v\<rparr>) c10) (\<lambda>c11.
     bind_result (from_env env ''SYMCC_AFL_COVERAGE_MAP'' Inr (\<lambda>v c. c\<lparr>aflCoverageMap := v\<rparr>) c11) (\<lambda>c12.
       from_env env ''SYMCC_GC_THRESHOLD'' gc_threshold_value (\<lambda>v c. c\<lparr>garbageCollectionThreshold := v\<rparr>) c12))))))))))))"

subsection \<open>What the flags and numbers mean\<close>

lemma checkFlagString_eq:
  "checkFlagString v = Inr True \<longleftrightarrow> map tolower v \<in> {''1'', ''on'', ''yes''}"
  "checkFlagString v = Inr False \<longleftrightarrow> map tolower v \<in> {'''', ''0'', ''off'', ''no''}"
  "checkFlagString v = Inl e \<longleftrightarrow>
     map tolower v \<notin> {''1'', ''on'', ''yes'', '''', ''0'', ''off'', ''no''} \<and>
     e = Runtime_error (''Unknown flag value '' @ map tolower v)"
  by (auto simp: checkFlagString_def Let_def)

lemma checkFlagString_not_std: "checkFlagString v \<noteq> Inl Std_out_of_range"
  by (auto simp: checkFlagString_def Let_def)

lemma gc_threshold_not_std: "gc_threshold_value v \<noteq> Inl Std_out_of_range"
  by (auto simp: gc_threshold_value_def split: sum.splits stoul_error.splits)

lemma solver_timeout_std:
  "solver_timeout_value v = Inl Std_out_of_range \<longleftrightarrow> stoul v = Inl Stoul_out_of_range"
  by (auto simp: solver_timeout_value_def split: sum.splits stoul_error.splits)


text \<open>
  What a configuration option is worth after \<open>loadConfig\<close>: its old value where the variable
  is not set, the converted value otherwise.
\<close>

definition setting :: "string option \<Rightarrow> (string \<Rightarrow> config_error + 'a) \<Rightarrow> 'a \<Rightarrow> config_error + 'a" where
  "setting var conv old = (case var of None \<Rightarrow> Inr old | Some s \<Rightarrow> conv s)"

lemma setting_eq_Inr:
  "setting var conv old = Inr v \<longleftrightarrow>
     (case var of None \<Rightarrow> v = old | Some s \<Rightarrow> conv s = Inr v)"
  by (auto simp: setting_def split: option.splits)

lemma from_env_setting:
  assumes "upd (get c) c = c"
  shows "from_env env name conv upd c =
    bind_result (setting (env name) conv (get c)) (\<lambda>v. Inr (upd v c))"
  using assms by (simp add: from_env_def setting_def split: option.splits)

lemma from_env_silent:
  "from_env env name Inr (\<lambda>v c. c\<lparr>silent := True\<rparr>) c =
    Inr (c\<lparr>silent := (case env name of None \<Rightarrow> silent c | Some _ \<Rightarrow> True)\<rparr>)"
  by (simp add: from_env_def split: option.splits)

lemmas from_env_fields =
  from_env_setting [where get = fullyConcrete and upd = "\<lambda>v c. c\<lparr>fullyConcrete := v\<rparr>"]
  from_env_setting [where get = solverTimeout and upd = "\<lambda>v c. c\<lparr>solverTimeout := v\<rparr>"]
  from_env_setting [where get = outputDir and upd = "\<lambda>v c. c\<lparr>outputDir := v\<rparr>"]
  from_env_setting [where get = inputFile and upd = "\<lambda>v c. c\<lparr>inputFile := v\<rparr>"]
  from_env_setting [where get = exploredPathsFile and upd = "\<lambda>v c. c\<lparr>exploredPathsFile := v\<rparr>"]
  from_env_setting [where get = is_pure_concolic and upd = "\<lambda>v c. c\<lparr>is_pure_concolic := v\<rparr>"]
  from_env_setting [where get = legitFilesDir and upd = "\<lambda>v c. c\<lparr>legitFilesDir := v\<rparr>"]
  from_env_setting [where get = pathModelsFiles and upd = "\<lambda>v c. c\<lparr>pathModelsFiles := v\<rparr>"]
  from_env_setting [where get = logFile and upd = "\<lambda>v c. c\<lparr>logFile := v\<rparr>"]
  from_env_setting [where get = pruning and upd = "\<lambda>v c. c\<lparr>pruning := v\<rparr>"]
  from_env_setting [where get = aflCoverageMap and upd = "\<lambda>v c. c\<lparr>aflCoverageMap := v\<rparr>"]
  from_env_setting [where get = garbageCollectionThreshold and upd = "\<lambda>v c. c\<lparr>garbageCollectionThreshold := v\<rparr>"]

definition env_or :: "'a option \<Rightarrow> 'a \<Rightarrow> 'a" where
  "env_or var old = (case var of None \<Rightarrow> old | Some s \<Rightarrow> s)"

lemma setting_Inr: "setting var Inr old = Inr (env_or var old)"
  by (simp add: setting_def env_or_def split: option.splits)

lemma loadConfig_settings:
  "loadConfig env c =
     bind_result (setting (env ''SYMCC_NO_SYMBOLIC_INPUT'') checkFlagString (fullyConcrete c)) (\<lambda>fc.
     bind_result (setting (env ''SYMCC_SOLVER_TIMEOUT'') solver_timeout_value (solverTimeout c)) (\<lambda>st.
     bind_result (setting (env ''SYMCC_PURE_CONCOLIC'') checkFlagString (is_pure_concolic c)) (\<lambda>pc.
     bind_result (setting (env ''SYMCC_ENABLE_LINEARIZATION'') checkFlagString (pruning c)) (\<lambda>pr.
     bind_result (setting (env ''SYMCC_GC_THRESHOLD'') gc_threshold_value (garbageCollectionThreshold c)) (\<lambda>gc.
       Inr \<lparr>silent = (case env ''SYMCC_SILENT'' of None \<Rightarrow> silent c | Some _ \<Rightarrow> True), fullyConcrete = fc, solverTimeout = st,
         outputDir = env_or (env ''SYMCC_OUTPUT_DIR'') (outputDir c),
         inputFile = env_or (env ''SYMCC_INPUT_FILE'') (inputFile c),
         exploredPathsFile = env_or (env ''SYMCC_EXPLORED_PATHS'') (exploredPathsFile c),
         pathModelsFiles = env_or (env ''SYMCC_PATH_MODELS'') (pathModelsFiles c),
         legitFilesDir = env_or (env ''SYMCC_LEGIT_FILES'') (legitFilesDir c),
         logFile = env_or (env ''SYMCC_LOG_FILE'') (logFile c), pruning = pr,
         is_pure_concolic = pc,
         aflCoverageMap = env_or (env ''SYMCC_AFL_COVERAGE_MAP'') (aflCoverageMap c),
         garbageCollectionThreshold = gc\<rparr>)))))"
  by (cases c)
    (simp add: loadConfig_def from_env_fields from_env_silent setting_Inr bind_result_assoc
      split: option.split)

text \<open>C27: \<open>loadConfig\<close> succeeds with a configuration \<open>c'\<close> exactly when every flag and number
  that is set in the environment can be read, and then every option of \<open>c'\<close> is the value of
  its own environment variable where that is set and the old value otherwise; \<open>silent\<close> is
  only ever switched on.\<close>

lemma loadConfig_spec:
  "loadConfig env c = Inr c' \<longleftrightarrow>
     Inr (fullyConcrete c') = setting (env ''SYMCC_NO_SYMBOLIC_INPUT'') checkFlagString (fullyConcrete c) \<and>
     silent c' = (case env ''SYMCC_SILENT'' of None \<Rightarrow> silent c | Some _ \<Rightarrow> True) \<and>
     Inr (solverTimeout c') = setting (env ''SYMCC_SOLVER_TIMEOUT'') solver_timeout_value (solverTimeout c) \<and>
     Inr (outputDir c') = setting (env ''SYMCC_OUTPUT_DIR'') Inr (outputDir c) \<and>
     Inr (inputFile c') = setting (env ''SYMCC_INPUT_FILE'') Inr (inputFile c) \<and>
     Inr (exploredPathsFile c') = setting (env ''SYMCC_EXPLORED_PATHS'') Inr (exploredPathsFile c) \<and>
     Inr (is_pure_concolic c') = setting (env ''SYMCC_PURE_CONCOLIC'') checkFlagString (is_pure_concolic c) \<and>
     Inr (legitFilesDir c') = setting (env ''SYMCC_LEGIT_FILES'') Inr (legitFilesDir c) \<and>
     Inr (pathModelsFiles c') = setting (env ''SYMCC_PATH_MODELS'') Inr (pathModelsFiles c) \<and>
     Inr (logFile c') = setting (env ''SYMCC_LOG_FILE'') Inr (logFile c) \<and>
     Inr (pruning c') = setting (env ''SYMCC_ENABLE_LINEARIZATION'') checkFlagString (pruning c) \<and>
     Inr (aflCoverageMap c') = setting (env ''SYMCC_AFL_COVERAGE_MAP'') Inr (aflCoverageMap c) \<and>
     Inr (garbageCollectionThreshold c') =
       setting (env ''SYMCC_GC_THRESHOLD'') gc_threshold_value (garbageCollectionThreshold c)"
proof -
  have field: "Inr v = x \<longleftrightarrow> x = Inr v" for x :: "'x + 'y" and v by auto
  have all: "bind_result A1 (\<lambda>fc. bind_result A2 (\<lambda>st. bind_result A3 (\<lambda>pc. bind_result A4 (\<lambda>pr.
      bind_result A5 (\<lambda>gc. Inr (f fc st pc pr gc)))))) = Inr c' \<longleftrightarrow>
    (\<exists>fc st pc pr gc. A1 = Inr fc \<and> A2 = Inr st \<and> A3 = Inr pc \<and> A4 = Inr pr \<and> A5 = Inr gc \<and> f fc st pc pr gc = c')"
    for A1 :: "'e + 'a" and A2 :: "'e + 'b" and A3 :: "'e + 'c" and A4 :: "'e + 'd" and A5 :: "'e + 'f" and f
    by (cases A1; cases A2; cases A3; cases A4; cases A5; simp)
  have opt: "setting var Inr old = Inr v \<longleftrightarrow> env_or var old = v"
    for var :: "string option" and old v by (simp add: setting_Inr)
  show ?thesis
    unfolding loadConfig_settings all field opt by (cases c') (simp only: config.simps, blast)
qed

text \<open>\<open>loadConfig\<close> can leave with an exception that is not a \<open>std::runtime_error\<close>: exactly
  when \<open>SYMCC_SOLVER_TIMEOUT\<close> holds a number too big for \<open>unsigned long\<close> and the one option
  that is read before it is well-formed. Its handler names \<open>std::invalid_argument\<close> only.\<close>

lemma loadConfig_escapes:
  "loadConfig env c = Inl Std_out_of_range \<longleftrightarrow>
     (\<exists>s. env ''SYMCC_SOLVER_TIMEOUT'' = Some s \<and> stoul s = Inl Stoul_out_of_range) \<and>
     (\<exists>v. setting (env ''SYMCC_NO_SYMBOLIC_INPUT'') checkFlagString (fullyConcrete c) = Inr v)"
proof -
  have flag: "from_env env name checkFlagString upd c \<noteq> Inl Std_out_of_range" for name upd c
    using checkFlagString_not_std by (auto simp: from_env_def bind_result_eq_Inl split: option.splits)
  have gc: "from_env env name gc_threshold_value upd c \<noteq> Inl Std_out_of_range" for name upd c
    using gc_threshold_not_std by (auto simp: from_env_def bind_result_eq_Inl split: option.splits)
  have plain: "from_env env name Inr upd c \<noteq> Inl e" for name upd c e
    by (auto simp: from_env_def split: option.splits)
  have timeout: "from_env env name solver_timeout_value upd c = Inl Std_out_of_range \<longleftrightarrow>
      (\<exists>s. env name = Some s \<and> stoul s = Inl Stoul_out_of_range)" for name upd c
    by (auto simp: from_env_def bind_result_eq_Inl solver_timeout_std split: option.splits)
  have ok: "(\<exists>c'. from_env env name checkFlagString upd c = Inr c') \<longleftrightarrow>
      (\<exists>v. setting (env name) checkFlagString old = Inr v)" for name upd c old
    by (auto simp: from_env_def setting_def bind_result_eq_Inr split: option.splits)
  show ?thesis
    unfolding ok [of "''SYMCC_NO_SYMBOLIC_INPUT''" "\<lambda>v c. c\<lparr>fullyConcrete := v\<rparr>" c "fullyConcrete c", symmetric]
    by (auto simp: loadConfig_def bind_result_eq_Inl flag gc plain timeout from_env_silent)
qed

end
