(* ===== verification/SimpleBackend.thy ===== *)
theory SimpleBackend
  imports GarbageCollection Config
begin

text \<open>
  runtime/simple_backend/Runtime.cpp: the backend on top of the Z3 C API. Z3 itself is not
  part of the repository: the record \<open>z3\<close> holds the API functions that the code calls, with
  asts \<open>'e\<close>, sorts \<open>'t\<close> and solver states \<open>'s\<close> left open; a result \<open>None\<close> is a Z3 error,
  which the error handler of a build with assertions turns into a failed assertion. The
  record \<open>simple_state\<close> has the globals of the file; \<open>ast_refs\<close> and \<open>sort_refs\<close> count the
  references that the code takes and drops. The model pointer that a successful check
  returns is held and dropped within one function and not counted.
\<close>

subsection \<open>The interface of Z3\<close>

datatype z3_unary = Bvneg | Bvnot | Z3_not | Fpa_abs | Fpa_is_nan | Fpa_to_ieee_bv

datatype z3_binary =
  Bvadd | Bvsub | Bvmul | Bvudiv | Bvsdiv | Bvurem | Bvsrem | Bvshl | Bvlshr | Bvashr
| Bvslt | Bvsle | Bvsgt | Bvsge | Bvult | Bvule | Bvugt | Bvuge | Z3_eq
| Bvand | Bvor | Z3_xor | Bvxor
| Fpa_gt | Fpa_geq | Fpa_lt | Fpa_leq | Fpa_eq | Fpa_rem | Concat

datatype z3_rounded = Fpa_add | Fpa_sub | Fpa_mul | Fpa_div

datatype z3_nary = Z3_and | Z3_or

datatype z3_extend = Sign_ext | Zero_ext

datatype z3_to_fp = To_fp_signed | To_fp_unsigned | To_fp_float

datatype z3_fp_to_bv = To_sbv | To_ubv

datatype z3_lbool = L_TRUE | L_FALSE | L_UNDEF

type_synonym double = "64 word"

record ('e, 't, 's) z3 =
  z3_mk_bv_sort :: "u32 \<Rightarrow> 't option"
  z3_mk_fpa_sort_double :: "'t option"
  z3_mk_fpa_sort_single :: "'t option"
  z3_mk_const :: "string \<Rightarrow> 't \<Rightarrow> 'e option"
  z3_mk_unsigned_int64 :: "u64 \<Rightarrow> 't \<Rightarrow> 'e option"
  z3_mk_int :: "int \<Rightarrow> 't \<Rightarrow> 'e option"
  z3_mk_fpa_numeral_double :: "double \<Rightarrow> 't \<Rightarrow> 'e option"
  z3_mk_true :: 'e
  z3_mk_false :: 'e
  z3_mk_fpa_round_nearest_ties_to_even :: 'e
  z3_mk_fpa_round_toward_zero :: 'e
  z3_mk_unary :: "z3_unary \<Rightarrow> 'e \<Rightarrow> 'e option"
  z3_mk_binary :: "z3_binary \<Rightarrow> 'e \<Rightarrow> 'e \<Rightarrow> 'e option"
  z3_mk_rounded :: "z3_rounded \<Rightarrow> 'e \<Rightarrow> 'e \<Rightarrow> 'e \<Rightarrow> 'e option"
  z3_mk_nary :: "z3_nary \<Rightarrow> 'e list \<Rightarrow> 'e option"
  z3_mk_ite :: "'e \<Rightarrow> 'e \<Rightarrow> 'e \<Rightarrow> 'e option"
  z3_mk_extend :: "z3_extend \<Rightarrow> u32 \<Rightarrow> 'e \<Rightarrow> 'e option"
  z3_mk_extract :: "u32 \<Rightarrow> u32 \<Rightarrow> 'e \<Rightarrow> 'e option"
  z3_mk_fpa_to_fp :: "z3_to_fp \<Rightarrow> 'e \<Rightarrow> 'e \<Rightarrow> 't \<Rightarrow> 'e option"
  z3_mk_fpa_to_fp_bv :: "'e \<Rightarrow> 't \<Rightarrow> 'e option"
  z3_mk_fpa_to_bv :: "z3_fp_to_bv \<Rightarrow> 'e \<Rightarrow> 'e \<Rightarrow> u32 \<Rightarrow> 'e option"
  z3_simplify :: "'e \<Rightarrow> 'e option"
  z3_is_eq_ast :: "'e \<Rightarrow> 'e \<Rightarrow> bool"
  z3_get_sort :: "'e \<Rightarrow> 't"
  z3_get_bv_sort_size :: "'t \<Rightarrow> u32"
  z3_ast_to_string :: "'e \<Rightarrow> string"
  z3_mk_solver :: 's
  z3_solver_push :: "'s \<Rightarrow> 's"
  z3_solver_pop :: "u32 \<Rightarrow> 's \<Rightarrow> 's"
  z3_solver_assert :: "'e \<Rightarrow> 's \<Rightarrow> 's"
  z3_solver_check :: "'s \<Rightarrow> z3_lbool \<times> 's"
  z3_solver_to_string :: "'s \<Rightarrow> string"
  z3_solver_model_to_string :: "'s \<Rightarrow> string"

subsection \<open>The state of the backend\<close>

record ('e, 't, 's) simple_state =
  g_initialized :: bool
  g_rounding_mode :: "'e option"
  g_solver :: "'s option"
  g_null_pointer :: "'e option"
  g_true :: "'e option"
  g_false :: "'e option"
  g_log :: "string option"
  log_text :: string
  allocatedExpressions :: "'e set"
  stdinBytes :: "'e option list"
  ast_refs :: "'e \<Rightarrow> int"
  sort_refs :: "'t \<Rightarrow> int"

definition simple_start :: "('e, 't, 's) simple_state" where
  "simple_start = \<lparr>g_initialized = False, g_rounding_mode = None, g_solver = None, g_null_pointer = None,
     g_true = None, g_false = None, g_log = None, log_text = [], allocatedExpressions = {},
     stdinBytes = [], ast_refs = (\<lambda>_. 0), sort_refs = (\<lambda>_. 0)\<rparr>"

definition inc_ref :: "'e \<Rightarrow> ('e, 't, 's) simple_state \<Rightarrow> ('e, 't, 's) simple_state" where
  "inc_ref e st = st\<lparr>ast_refs := (ast_refs st)(e := ast_refs st e + 1)\<rparr>"

definition dec_ref :: "'e \<Rightarrow> ('e, 't, 's) simple_state \<Rightarrow> ('e, 't, 's) simple_state" where
  "dec_ref e st = st\<lparr>ast_refs := (ast_refs st)(e := ast_refs st e - 1)\<rparr>"

definition inc_ref_sort :: "'t \<Rightarrow> ('e, 't, 's) simple_state \<Rightarrow> ('e, 't, 's) simple_state" where
  "inc_ref_sort t st = st\<lparr>sort_refs := (sort_refs st)(t := sort_refs st t + 1)\<rparr>"

definition dec_ref_sort :: "'t \<Rightarrow> ('e, 't, 's) simple_state \<Rightarrow> ('e, 't, 's) simple_state" where
  "dec_ref_sort t st = st\<lparr>sort_refs := (sort_refs st)(t := sort_refs st t - 1)\<rparr>"

text \<open>A Z3 call that fails ends in \<open>handle_z3_error\<close>.\<close>

definition handle_z3_error :: "'a option \<Rightarrow> 'a result" where
  "handle_z3_error r = (case r of None \<Rightarrow> Inl Assert_failed | Some x \<Rightarrow> Inr x)"

definition registerExpression :: "'e \<Rightarrow> ('e, 't, 's) simple_state \<Rightarrow> ('e, 't, 's) simple_state" where
  "registerExpression expr st =
     (if expr \<notin> allocatedExpressions st
      then inc_ref expr (st\<lparr>allocatedExpressions := insert expr (allocatedExpressions st)\<rparr>)
      else st)"

definition register_result ::
  "'e option \<Rightarrow> ('e, 't, 's) simple_state \<Rightarrow> ('e \<times> ('e, 't, 's) simple_state) result" where
  "register_result r st = bind_result (handle_z3_error r) (\<lambda>e. Inr (e, registerExpression e st))"

definition with_sort ::
  "'t option \<Rightarrow> ('t \<Rightarrow> ('e, 't, 's) simple_state \<Rightarrow> ('e \<times> ('e, 't, 's) simple_state) result) \<Rightarrow>
   ('e, 't, 's) simple_state \<Rightarrow> ('e \<times> ('e, 't, 's) simple_state) result" where
  "with_sort srt body st =
     bind_result (handle_z3_error srt) (\<lambda>t.
     bind_result (body t (inc_ref_sort t st)) (\<lambda>(e, st1). Inr (e, dec_ref_sort t st1)))"

subsection \<open>Constants and variables\<close>

definition build_variable ::
  "('e, 't, 's) z3 \<Rightarrow> string \<Rightarrow> byte \<Rightarrow> ('e, 't, 's) simple_state \<Rightarrow> ('e \<times> ('e, 't, 's) simple_state) result" where
  "build_variable Z name bits =
     with_sort (z3_mk_bv_sort Z (ucast bits)) (\<lambda>t st.
       bind_result (handle_z3_error (z3_mk_const Z name t)) (\<lambda>e. Inr (e, inc_ref e st)))"

definition simple_build_integer ::
  "('e, 't, 's) z3 \<Rightarrow> u64 \<Rightarrow> byte \<Rightarrow> ('e, 't, 's) simple_state \<Rightarrow> ('e \<times> ('e, 't, 's) simple_state) result" where
  "simple_build_integer Z v bits =
     with_sort (z3_mk_bv_sort Z (ucast bits)) (\<lambda>t.
       register_result (z3_mk_unsigned_int64 Z v t))"

definition simple_build_integer128 ::
  "('e, 't, 's) z3 \<Rightarrow> u64 \<Rightarrow> u64 \<Rightarrow> ('e, 't, 's) simple_state \<Rightarrow> ('e \<times> ('e, 't, 's) simple_state) result" where
  "simple_build_integer128 Z high low st =
     bind_result (simple_build_integer Z high 64 st) (\<lambda>(h, st1).
     bind_result (simple_build_integer Z low 64 st1) (\<lambda>(l, st2).
       register_result (z3_mk_binary Z Concat h l) st2))"

definition fsort :: "('e, 't, 's) z3 \<Rightarrow> int \<Rightarrow> 't option" where
  "fsort Z is_double = (if is_double \<noteq> 0 then z3_mk_fpa_sort_double Z else z3_mk_fpa_sort_single Z)"

definition simple_build_float ::
  "('e, 't, 's) z3 \<Rightarrow> double \<Rightarrow> int \<Rightarrow> ('e, 't, 's) simple_state \<Rightarrow> ('e \<times> ('e, 't, 's) simple_state) result" where
  "simple_build_float Z v is_double =
     with_sort (fsort Z is_double) (\<lambda>t. register_result (z3_mk_fpa_numeral_double Z v t))"

definition simple_get_input_byte ::
  "('e, 't, 's) z3 \<Rightarrow> addr \<Rightarrow> ('e, 't, 's) simple_state \<Rightarrow> ('e option \<times> ('e, 't, 's) simple_state) result" where
  "simple_get_input_byte Z offset st =
     (if unat offset < length (stdinBytes st) then Inr (stdinBytes st ! unat offset, st)
      else
        let varName = ''stdin'' @ to_string (length (stdinBytes st))
        in bind_result (build_variable Z varName 8 st) (\<lambda>(var, st1).
             let resized = stdinBytes st1 @ replicate (unat offset - length (stdinBytes st1)) None
             in Inr (Some var, st1\<lparr>stdinBytes := resized @ [Some var]\<rparr>)))"

definition simple_build_null_pointer :: "('e, 't, 's) simple_state \<Rightarrow> 'e option" where
  "simple_build_null_pointer st = g_null_pointer st"

definition simple_build_true :: "('e, 't, 's) simple_state \<Rightarrow> 'e option" where
  "simple_build_true st = g_true st"

definition simple_build_false :: "('e, 't, 's) simple_state \<Rightarrow> 'e option" where
  "simple_build_false st = g_false st"

definition simple_build_bool :: "bool \<Rightarrow> ('e, 't, 's) simple_state \<Rightarrow> 'e option" where
  "simple_build_bool v st = (if v then g_true st else g_false st)"

subsection \<open>Operators\<close>

text \<open>The table behind \<open>DEF_BINARY_EXPR_BUILDER\<close>.\<close>

fun z3_of_builder :: "binary_builder \<Rightarrow> z3_binary" where
  "z3_of_builder Build_add = Bvadd"
| "z3_of_builder Build_sub = Bvsub"
| "z3_of_builder Build_mul = Bvmul"
| "z3_of_builder Build_unsigned_div = Bvudiv"
| "z3_of_builder Build_signed_div = Bvsdiv"
| "z3_of_builder Build_unsigned_rem = Bvurem"
| "z3_of_builder Build_signed_rem = Bvsrem"
| "z3_of_builder Build_shift_left = Bvshl"
| "z3_of_builder Build_logical_shift_right = Bvlshr"
| "z3_of_builder Build_arithmetic_shift_right = Bvashr"
| "z3_of_builder Build_signed_less_than = Bvslt"
| "z3_of_builder Build_signed_less_equal = Bvsle"
| "z3_of_builder Build_signed_greater_than = Bvsgt"
| "z3_of_builder Build_signed_greater_equal = Bvsge"
| "z3_of_builder Build_unsigned_less_than = Bvult"
| "z3_of_builder Build_unsigned_less_equal = Bvule"
| "z3_of_builder Build_unsigned_greater_than = Bvugt"
| "z3_of_builder Build_unsigned_greater_equal = Bvuge"
| "z3_of_builder Build_equal = Z3_eq"
| "z3_of_builder Build_and = Bvand"
| "z3_of_builder Build_or = Bvor"
| "z3_of_builder Build_bool_xor = Z3_xor"
| "z3_of_builder Build_xor = Bvxor"
| "z3_of_builder Build_float_ordered_greater_than = Fpa_gt"
| "z3_of_builder Build_float_ordered_greater_equal = Fpa_geq"
| "z3_of_builder Build_float_ordered_less_than = Fpa_lt"
| "z3_of_builder Build_float_ordered_less_equal = Fpa_leq"
| "z3_of_builder Build_float_ordered_equal = Fpa_eq"

definition simple_build_binary ::
  "('e, 't, 's) z3 \<Rightarrow> binary_builder \<Rightarrow> 'e \<Rightarrow> 'e \<Rightarrow> ('e, 't, 's) simple_state \<Rightarrow>
   ('e \<times> ('e, 't, 's) simple_state) result" where
  "simple_build_binary Z name a b = register_result (z3_mk_binary Z (z3_of_builder name) a b)"

definition simple_build_neg ::
  "('e, 't, 's) z3 \<Rightarrow> 'e \<Rightarrow> ('e, 't, 's) simple_state \<Rightarrow> ('e \<times> ('e, 't, 's) simple_state) result" where
  "simple_build_neg Z expr = register_result (z3_mk_unary Z Bvneg expr)"

text \<open>Floating-point arithmetic passes \<open>g_rounding_mode\<close> along.\<close>

definition simple_build_rounded ::
  "('e, 't, 's) z3 \<Rightarrow> z3_rounded \<Rightarrow> 'e \<Rightarrow> 'e \<Rightarrow> ('e, 't, 's) simple_state \<Rightarrow> ('e \<times> ('e, 't, 's) simple_state) result" where
  "simple_build_rounded Z f a b st =
     bind_result (global (g_rounding_mode st)) (\<lambda>rm. register_result (z3_mk_rounded Z f rm a b) st)"

definition simple_build_fp_add ::
  "('e, 't, 's) z3 \<Rightarrow> 'e \<Rightarrow> 'e \<Rightarrow> ('e, 't, 's) simple_state \<Rightarrow> ('e \<times> ('e, 't, 's) simple_state) result" where
  "simple_build_fp_add Z = simple_build_rounded Z Fpa_add"

definition simple_build_fp_sub ::
  "('e, 't, 's) z3 \<Rightarrow> 'e \<Rightarrow> 'e \<Rightarrow> ('e, 't, 's) simple_state \<Rightarrow> ('e \<times> ('e, 't, 's) simple_state) result" where
  "simple_build_fp_sub Z = simple_build_rounded Z Fpa_sub"

definition simple_build_fp_mul ::
  "('e, 't, 's) z3 \<Rightarrow> 'e \<Rightarrow> 'e \<Rightarrow> ('e, 't, 's) simple_state \<Rightarrow> ('e \<times> ('e, 't, 's) simple_state) result" where
  "simple_build_fp_mul Z = simple_build_rounded Z Fpa_mul"

definition simple_build_fp_div ::
  "('e, 't, 's) z3 \<Rightarrow> 'e \<Rightarrow> 'e \<Rightarrow> ('e, 't, 's) simple_state \<Rightarrow> ('e \<times> ('e, 't, 's) simple_state) result" where
  "simple_build_fp_div Z = simple_build_rounded Z Fpa_div"

definition simple_build_fp_rem ::
  "('e, 't, 's) z3 \<Rightarrow> 'e \<Rightarrow> 'e \<Rightarrow> ('e, 't, 's) simple_state \<Rightarrow> ('e \<times> ('e, 't, 's) simple_state) result" where
  "simple_build_fp_rem Z a b = register_result (z3_mk_binary Z Fpa_rem a b)"

definition simple_build_fp_abs ::
  "('e, 't, 's) z3 \<Rightarrow> 'e \<Rightarrow> ('e, 't, 's) simple_state \<Rightarrow> ('e \<times> ('e, 't, 's) simple_state) result" where
  "simple_build_fp_abs Z a = register_result (z3_mk_unary Z Fpa_abs a)"

definition simple_build_not ::
  "('e, 't, 's) z3 \<Rightarrow> 'e \<Rightarrow> ('e, 't, 's) simple_state \<Rightarrow> ('e \<times> ('e, 't, 's) simple_state) result" where
  "simple_build_not Z expr = register_result (z3_mk_unary Z Bvnot expr)"

definition simple_build_not_equal ::
  "('e, 't, 's) z3 \<Rightarrow> 'e \<Rightarrow> 'e \<Rightarrow> ('e, 't, 's) simple_state \<Rightarrow> ('e \<times> ('e, 't, 's) simple_state) result" where
  "simple_build_not_equal Z a b = register_result
     (Option.bind (z3_mk_binary Z Z3_eq a b) (z3_mk_unary Z Z3_not))"

definition simple_build_bool_and ::
  "('e, 't, 's) z3 \<Rightarrow> 'e \<Rightarrow> 'e \<Rightarrow> ('e, 't, 's) simple_state \<Rightarrow> ('e \<times> ('e, 't, 's) simple_state) result" where
  "simple_build_bool_and Z a b = register_result (z3_mk_nary Z Z3_and [a, b])"

definition simple_build_bool_or ::
  "('e, 't, 's) z3 \<Rightarrow> 'e \<Rightarrow> 'e \<Rightarrow> ('e, 't, 's) simple_state \<Rightarrow> ('e \<times> ('e, 't, 's) simple_state) result" where
  "simple_build_bool_or Z a b = register_result (z3_mk_nary Z Z3_or [a, b])"

subsection \<open>Floating-point comparisons\<close>

definition simple_build_float_unordered ::
  "('e, 't, 's) z3 \<Rightarrow> 'e \<Rightarrow> 'e \<Rightarrow> ('e, 't, 's) simple_state \<Rightarrow> ('e \<times> ('e, 't, 's) simple_state) result" where
  "simple_build_float_unordered Z a b = (\<lambda>st.
     bind_result (handle_z3_error (z3_mk_unary Z Fpa_is_nan a)) (\<lambda>check0.
     bind_result (handle_z3_error (z3_mk_unary Z Fpa_is_nan b)) (\<lambda>check1.
       register_result (z3_mk_nary Z Z3_or [check0, check1]) st)))"

definition simple_build_float_ordered_not_equal ::
  "('e, 't, 's) z3 \<Rightarrow> 'e \<Rightarrow> 'e \<Rightarrow> ('e, 't, 's) simple_state \<Rightarrow> ('e \<times> ('e, 't, 's) simple_state) result" where
  "simple_build_float_ordered_not_equal Z a b = (\<lambda>st.
     bind_result (simple_build_binary Z Build_float_ordered_equal a b st) (\<lambda>(eq, st1).
       register_result (z3_mk_unary Z Z3_not eq) st1))"

definition simple_build_float_ordered ::
  "('e, 't, 's) z3 \<Rightarrow> 'e \<Rightarrow> 'e \<Rightarrow> ('e, 't, 's) simple_state \<Rightarrow> ('e \<times> ('e, 't, 's) simple_state) result" where
  "simple_build_float_ordered Z a b = (\<lambda>st.
     bind_result (simple_build_float_unordered Z a b st) (\<lambda>(unordered, st1).
       register_result (z3_mk_unary Z Z3_not unordered) st1))"

text \<open>The shape of the six functions that accept NaN operands or the ordered comparison.\<close>

definition unordered_or ::
  "('e, 't, 's) z3 \<Rightarrow> ('e \<Rightarrow> 'e \<Rightarrow> ('e, 't, 's) simple_state \<Rightarrow> ('e \<times> ('e, 't, 's) simple_state) result) \<Rightarrow> 'e \<Rightarrow> 'e \<Rightarrow> ('e, 't, 's) simple_state \<Rightarrow> ('e \<times> ('e, 't, 's) simple_state) result" where
  "unordered_or Z ordered a b st =
     bind_result (handle_z3_error (z3_mk_unary Z Fpa_is_nan a)) (\<lambda>check0.
     bind_result (handle_z3_error (z3_mk_unary Z Fpa_is_nan b)) (\<lambda>check1.
     bind_result (ordered a b st) (\<lambda>(check2, st1).
       register_result (z3_mk_nary Z Z3_or [check0, check1, check2]) st1)))"

definition simple_build_float_unordered_greater_than ::
  "('e, 't, 's) z3 \<Rightarrow> 'e \<Rightarrow> 'e \<Rightarrow> ('e, 't, 's) simple_state \<Rightarrow> ('e \<times> ('e, 't, 's) simple_state) result" where
  "simple_build_float_unordered_greater_than Z = unordered_or Z (simple_build_binary Z Build_float_ordered_greater_than)"

definition simple_build_float_unordered_greater_equal ::
  "('e, 't, 's) z3 \<Rightarrow> 'e \<Rightarrow> 'e \<Rightarrow> ('e, 't, 's) simple_state \<Rightarrow> ('e \<times> ('e, 't, 's) simple_state) result" where
  "simple_build_float_unordered_greater_equal Z = unordered_or Z (simple_build_binary Z Build_float_ordered_greater_equal)"

definition simple_build_float_unordered_less_than ::
  "('e, 't, 's) z3 \<Rightarrow> 'e \<Rightarrow> 'e \<Rightarrow> ('e, 't, 's) simple_state \<Rightarrow> ('e \<times> ('e, 't, 's) simple_state) result" where
  "simple_build_float_unordered_less_than Z = unordered_or Z (simple_build_binary Z Build_float_ordered_less_than)"

definition simple_build_float_unordered_less_equal ::
  "('e, 't, 's) z3 \<Rightarrow> 'e \<Rightarrow> 'e \<Rightarrow> ('e, 't, 's) simple_state \<Rightarrow> ('e \<times> ('e, 't, 's) simple_state) result" where
  "simple_build_float_unordered_less_equal Z = unordered_or Z (simple_build_binary Z Build_float_ordered_less_equal)"

definition simple_build_float_unordered_equal ::
  "('e, 't, 's) z3 \<Rightarrow> 'e \<Rightarrow> 'e \<Rightarrow> ('e, 't, 's) simple_state \<Rightarrow> ('e \<times> ('e, 't, 's) simple_state) result" where
  "simple_build_float_unordered_equal Z = unordered_or Z (simple_build_binary Z Build_float_ordered_equal)"

definition simple_build_float_unordered_not_equal ::
  "('e, 't, 's) z3 \<Rightarrow> 'e \<Rightarrow> 'e \<Rightarrow> ('e, 't, 's) simple_state \<Rightarrow> ('e \<times> ('e, 't, 's) simple_state) result" where
  "simple_build_float_unordered_not_equal Z = unordered_or Z (simple_build_float_ordered_not_equal Z)"

subsection \<open>Casts\<close>

definition simple_build_sext ::
  "('e, 't, 's) z3 \<Rightarrow> 'e \<Rightarrow> byte \<Rightarrow> ('e, 't, 's) simple_state \<Rightarrow> ('e \<times> ('e, 't, 's) simple_state) result" where
  "simple_build_sext Z expr bits = register_result (z3_mk_extend Z Sign_ext (ucast bits) expr)"

definition simple_build_zext ::
  "('e, 't, 's) z3 \<Rightarrow> 'e \<Rightarrow> byte \<Rightarrow> ('e, 't, 's) simple_state \<Rightarrow> ('e \<times> ('e, 't, 's) simple_state) result" where
  "simple_build_zext Z expr bits = register_result (z3_mk_extend Z Zero_ext (ucast bits) expr)"

definition simple_build_trunc ::
  "('e, 't, 's) z3 \<Rightarrow> 'e \<Rightarrow> byte \<Rightarrow> ('e, 't, 's) simple_state \<Rightarrow> ('e \<times> ('e, 't, 's) simple_state) result" where
  "simple_build_trunc Z expr bits = register_result (z3_mk_extract Z (ucast bits - 1) 0 expr)"

definition simple_build_int_to_float ::
  "('e, 't, 's) z3 \<Rightarrow> 'e \<Rightarrow> int \<Rightarrow> int \<Rightarrow> ('e, 't, 's) simple_state \<Rightarrow> ('e \<times> ('e, 't, 's) simple_state) result" where
  "simple_build_int_to_float Z v is_double is_signed = 
     with_sort (fsort Z is_double) (\<lambda>t st.
       bind_result (global (g_rounding_mode st)) (\<lambda>rm.
         register_result
           (z3_mk_fpa_to_fp Z (if is_signed \<noteq> 0 then To_fp_signed else To_fp_unsigned) rm v t) st))"

definition simple_build_float_to_float ::
  "('e, 't, 's) z3 \<Rightarrow> 'e \<Rightarrow> int \<Rightarrow> ('e, 't, 's) simple_state \<Rightarrow> ('e \<times> ('e, 't, 's) simple_state) result" where
  "simple_build_float_to_float Z expr to_double = 
     with_sort (fsort Z to_double) (\<lambda>t st.
       bind_result (global (g_rounding_mode st)) (\<lambda>rm.
         register_result (z3_mk_fpa_to_fp Z To_fp_float rm expr t) st))"

definition some_expr :: "('e \<times> ('e, 't, 's) simple_state) result \<Rightarrow> ('e option \<times> ('e, 't, 's) simple_state) result" where
  "some_expr r = bind_result r (\<lambda>(e, st). Inr (Some e, st))"

definition simple_build_bits_to_float ::
  "('e, 't, 's) z3 \<Rightarrow> 'e option \<Rightarrow> int \<Rightarrow> ('e, 't, 's) simple_state \<Rightarrow> ('e option \<times> ('e, 't, 's) simple_state) result" where
  "simple_build_bits_to_float Z expr to_double st =
     (case expr of
        None \<Rightarrow> Inr (None, st)
      | Some e \<Rightarrow> some_expr (with_sort (fsort Z to_double) (\<lambda>t. register_result (z3_mk_fpa_to_fp_bv Z e t)) st))"

definition simple_build_float_to_bits ::
  "('e, 't, 's) z3 \<Rightarrow> 'e option \<Rightarrow> ('e, 't, 's) simple_state \<Rightarrow> ('e option \<times> ('e, 't, 's) simple_state) result" where
  "simple_build_float_to_bits Z expr st =
     (case expr of
        None \<Rightarrow> Inr (None, st)
      | Some e \<Rightarrow> some_expr (register_result (z3_mk_unary Z Fpa_to_ieee_bv e) st))"

definition simple_build_float_to_signed_integer ::
  "('e, 't, 's) z3 \<Rightarrow> 'e \<Rightarrow> byte \<Rightarrow> ('e, 't, 's) simple_state \<Rightarrow> ('e \<times> ('e, 't, 's) simple_state) result" where
  "simple_build_float_to_signed_integer Z expr bits = register_result
     (z3_mk_fpa_to_bv Z To_sbv (z3_mk_fpa_round_toward_zero Z) expr (ucast bits))"

definition simple_build_float_to_unsigned_integer ::
  "('e, 't, 's) z3 \<Rightarrow> 'e \<Rightarrow> byte \<Rightarrow> ('e, 't, 's) simple_state \<Rightarrow> ('e \<times> ('e, 't, 's) simple_state) result" where
  "simple_build_float_to_unsigned_integer Z expr bits = register_result
     (z3_mk_fpa_to_bv Z To_ubv (z3_mk_fpa_round_toward_zero Z) expr (ucast bits))"

definition simple_build_bool_to_bits ::
  "('e, 't, 's) z3 \<Rightarrow> 'e \<Rightarrow> byte \<Rightarrow> ('e, 't, 's) simple_state \<Rightarrow> ('e \<times> ('e, 't, 's) simple_state) result" where
  "simple_build_bool_to_bits Z expr bits = (\<lambda>st.
     bind_result (simple_build_integer Z 1 bits st) (\<lambda>(one, st1).
     bind_result (simple_build_integer Z 0 bits st1) (\<lambda>(zero, st2).
       register_result (z3_mk_ite Z expr one zero) st2)))"

definition simple_concat_helper ::
  "('e, 't, 's) z3 \<Rightarrow> 'e \<Rightarrow> 'e \<Rightarrow> ('e, 't, 's) simple_state \<Rightarrow> ('e \<times> ('e, 't, 's) simple_state) result" where
  "simple_concat_helper Z a b = register_result (z3_mk_binary Z Concat a b)"

definition simple_extract_helper ::
  "('e, 't, 's) z3 \<Rightarrow> 'e \<Rightarrow> addr \<Rightarrow> addr \<Rightarrow> ('e, 't, 's) simple_state \<Rightarrow> ('e \<times> ('e, 't, 's) simple_state) result" where
  "simple_extract_helper Z expr first_bit last_bit = register_result
     (z3_mk_extract Z (ucast first_bit) (ucast last_bit) expr)"

text \<open>The sort is referenced and dereferenced around the query, to no net effect. On an
  expression that is no bit vector the error handler stops the program; the model's result
  is then whatever \<open>z3_get_bv_sort_size\<close> returns, and no law says anything about it.\<close>

definition simple_bits_helper :: "('e, 't, 's) z3 \<Rightarrow> 'e \<Rightarrow> addr" where
  "simple_bits_helper Z expr = ucast (z3_get_bv_sort_size Z (z3_get_sort Z expr))"

subsection \<open>Path constraints\<close>

definition newline :: string where
  "newline = [CHR 0x0A]"

definition log_line :: "string \<Rightarrow> ('e, 't, 's) simple_state \<Rightarrow> ('e, 't, 's) simple_state" where
  "log_line text st = st\<lparr>log_text := log_text st @ text\<rparr>"

text \<open>
  The second half of \<open>_sym_push_path_constraint\<close>, for a simplified constraint that is
  neither true nor false: query the alternative in a solver scope of its own, report the
  answer in the log, then assert what has been taken and check it.
\<close>

definition explore_alternative ::
  "('e, 't, 's) z3 \<Rightarrow> 'e \<Rightarrow> 'e \<Rightarrow> bool \<Rightarrow> 's \<Rightarrow> ('e, 't, 's) simple_state \<Rightarrow> ('e, 't, 's) simple_state result" where
  "explore_alternative Z constraint not_constraint taken solver st =
     (let s1 = z3_solver_push Z solver;
          s2 = z3_solver_assert Z (if taken then not_constraint else constraint) s1;
          st1 = log_line (''Trying to solve:'' @ newline @ z3_solver_to_string Z s2 @ newline) st;
          (feasible, s3) = z3_solver_check Z s2;
          st2 = (if feasible = L_TRUE
                 then log_line (''Found diverging input:'' @ newline @ z3_solver_model_to_string Z s3 @ newline) st1
                 else log_line (''Can't find a diverging input at this point'' @ newline) st1);
          s4 = z3_solver_pop Z 1 s3;
          newConstraint = (if taken then constraint else not_constraint);
          st3 = inc_ref newConstraint st2;
          s5 = z3_solver_assert Z newConstraint s4;
          (check, s6) = z3_solver_check Z s5
      in bind_result (assert_that (check = L_TRUE)) (\<lambda>_.
           Inr (dec_ref not_constraint (dec_ref constraint (st3\<lparr>g_solver := Some s6\<rparr>)))))"

definition simple_push_path_constraint ::
  "('e, 't, 's) z3 \<Rightarrow> 'e option \<Rightarrow> bool \<Rightarrow> addr \<Rightarrow> ('e, 't, 's) simple_state \<Rightarrow> ('e, 't, 's) simple_state result" where
  "simple_push_path_constraint Z expr taken site_id st =
     (case expr of
        None \<Rightarrow> Inr st
      | Some expr \<Rightarrow>
          bind_result (handle_z3_error (z3_simplify Z expr)) (\<lambda>constraint.
          let st1 = inc_ref constraint st
          in if z3_is_eq_ast Z constraint (z3_mk_true Z)
             then bind_result (assert_that taken) (\<lambda>_. Inr (dec_ref constraint st1))
             else if z3_is_eq_ast Z constraint (z3_mk_false Z)
             then bind_result (assert_that (\<not> taken)) (\<lambda>_. Inr (dec_ref constraint st1))
             else
               bind_result (handle_z3_error (Option.bind (z3_mk_unary Z Z3_not constraint) (z3_simplify Z)))
                 (\<lambda>not_constraint.
               bind_result (global (g_solver st1)) (\<lambda>solver.
                 explore_alternative Z constraint not_constraint taken solver (inc_ref not_constraint st1)))))"

definition simple_feasible ::
  "('e, 't, 's) z3 \<Rightarrow> 'e \<Rightarrow> ('e, 't, 's) simple_state \<Rightarrow> (bool \<times> ('e, 't, 's) simple_state) result" where
  "simple_feasible Z expr0 st =
     bind_result (handle_z3_error (z3_simplify Z expr0)) (\<lambda>expr.
     let st1 = inc_ref expr st
     in bind_result (global (g_solver st1)) (\<lambda>solver.
        let s1 = z3_solver_push Z solver;
            s2 = z3_solver_assert Z expr s1;
            (feasible, s3) = z3_solver_check Z s2;
            s4 = z3_solver_pop Z 1 s3
        in Inr (feasible = L_TRUE, dec_ref expr (st1\<lparr>g_solver := Some s4\<rparr>))))"

subsection \<open>Initialisation and garbage collection\<close>

text \<open>\<open>_sym_initialize\<close> from the creation of the Z3 context on; what it does before that
  belongs to the whole run-time library.\<close>

definition simple_initialize_z3 :: "('e, 't, 's) z3 \<Rightarrow> config \<Rightarrow> ('e, 't, 's) simple_state \<Rightarrow> ('e, 't, 's) simple_state result" where
  "simple_initialize_z3 Z g_config st =
     (let rm = z3_mk_fpa_round_nearest_ties_to_even Z;
          st1 = (inc_ref rm st)\<lparr>g_rounding_mode := Some rm, g_solver := Some (z3_mk_solver Z)\<rparr>
      in bind_result (with_sort (z3_mk_bv_sort Z (8 * 8))
           (\<lambda>pointerSort st. bind_result (handle_z3_error (z3_mk_int Z 0 pointerSort)) (\<lambda>e.
              Inr (e, inc_ref e st))) st1) (\<lambda>(null_pointer, st2).
         let st3 = inc_ref (z3_mk_true Z) st2;
             st4 = inc_ref (z3_mk_false Z) st3;
             st5 = st4\<lparr>g_null_pointer := Some null_pointer, g_true := Some (z3_mk_true Z),
                       g_false := Some (z3_mk_false Z)\<rparr>
         in Inr (if logFile g_config = [] then st5\<lparr>g_log := None\<rparr>
                 else st5\<lparr>g_log := Some (logFile g_config), log_text := []\<rparr>)))"

definition simple_collect_garbage ::
  "config \<Rightarrow> ('e, ('e, 't, 's) simple_state, 'x) runtime_scheme \<Rightarrow> ('e, ('e, 't, 's) simple_state, 'x) runtime_scheme" where
  "simple_collect_garbage g_config rt =
     (let st = backend_state rt
      in if card (allocatedExpressions st) < unat (garbageCollectionThreshold g_config) then rt
         else let reachableExpressions = collectReachableExpressions rt
           in rt\<lparr>backend_state :=
                st\<lparr>allocatedExpressions := Set.filter (\<lambda>e. e \<in> reachableExpressions) (allocatedExpressions st)\<rparr>\<rparr>)"

definition simple_backend :: "('e, 't, 's) z3 \<Rightarrow> ('e, ('e, 't, 's) simple_state) backend" where
  "simple_backend Z =
     \<lparr>sym_build_integer = simple_build_integer Z,
      sym_concat_helper = simple_concat_helper Z,
      sym_extract_helper = simple_extract_helper Z,
      sym_bits_helper = simple_bits_helper Z,
      sym_build_equal = simple_build_binary Z Build_equal,
      sym_build_not_equal = simple_build_not_equal Z,
      sym_build_bool_and = simple_build_bool_and Z,
      sym_build_zext = simple_build_zext Z,
      sym_build_trunc = simple_build_trunc Z,
      sym_push_path_constraint = simple_push_path_constraint Z,
      sym_get_input_byte = simple_get_input_byte Z\<rparr>"

lemma simple_backend_simps [simp]:
  "sym_build_integer (simple_backend Z) = simple_build_integer Z"
  "sym_concat_helper (simple_backend Z) = simple_concat_helper Z"
  "sym_extract_helper (simple_backend Z) = simple_extract_helper Z"
  "sym_bits_helper (simple_backend Z) = simple_bits_helper Z"
  "sym_build_equal (simple_backend Z) = simple_build_binary Z Build_equal"
  "sym_build_not_equal (simple_backend Z) = simple_build_not_equal Z"
  "sym_build_bool_and (simple_backend Z) = simple_build_bool_and Z"
  "sym_build_zext (simple_backend Z) = simple_build_zext Z"
  "sym_build_trunc (simple_backend Z) = simple_build_trunc Z"
  "sym_push_path_constraint (simple_backend Z) = simple_push_path_constraint Z"
  "sym_get_input_byte (simple_backend Z) = simple_get_input_byte Z"
  by (simp_all add: simple_backend_def)

end
