(* ===== verification/SimpleLaws.thy ===== *)
theory SimpleLaws
  imports SimpleBackend
begin

text \<open>
  What the simple backend guarantees. \<open>z3_bv_laws\<close> states the documented behaviour of the
  bit-vector part of the Z3 API for the values \<open>val\<close> of bit-vector asts under a fixed
  assignment of the input; with it the backend is a \<open>symbolic_backend\<close>, so the results of
  RuntimeCommon hold for it. \<open>z3_solver_laws\<close> states the documented behaviour of the
  solver's assertion stack. The rest of the theory is about the state of the backend
  itself: reference counts, the cache of input bytes, path constraints, collection.
\<close>

definition z3_width :: "('e, 't, 's) z3 \<Rightarrow> 'e \<Rightarrow> nat" where
  "z3_width Z e = unat (z3_get_bv_sort_size Z (z3_get_sort Z e))"

definition z3_bv_laws :: "('e, 't, 's) z3 \<Rightarrow> ('e \<Rightarrow> bool) \<Rightarrow> ('e \<Rightarrow> nat) \<Rightarrow> bool" where
  "z3_bv_laws Z isbv val \<longleftrightarrow>
     (\<forall>e. isbv e \<longrightarrow> val e < 2 ^ z3_width Z e) \<and>
     (\<forall>k v. 0 < k \<longrightarrow> (\<exists>t e. z3_mk_bv_sort Z k = Some t \<and> z3_mk_unsigned_int64 Z v t = Some e \<and>
        isbv e \<and> z3_width Z e = unat k \<and> val e = unat v mod 2 ^ unat k)) \<and>
     (\<forall>x y. isbv x \<longrightarrow> isbv y \<longrightarrow> z3_width Z x + z3_width Z y < 2 ^ 32 \<longrightarrow>
        (\<exists>e. z3_mk_binary Z Concat x y = Some e \<and> isbv e \<and>
           z3_width Z e = z3_width Z x + z3_width Z y \<and>
           val e = val x * 2 ^ z3_width Z y + val y)) \<and>
     (\<forall>x hi lo. isbv x \<longrightarrow> lo \<le> hi \<longrightarrow> unat hi < z3_width Z x \<longrightarrow>
        (\<exists>e. z3_mk_extract Z hi lo x = Some e \<and> isbv e \<and>
           z3_width Z e = unat hi - unat lo + 1 \<and>
           val e = val x div 2 ^ unat lo mod 2 ^ (unat hi - unat lo + 1)))"

lemma z3_bv_lawsD:
  assumes "z3_bv_laws Z isbv val"
  shows "isbv e \<Longrightarrow> val e < 2 ^ z3_width Z e"
    and "0 < k \<Longrightarrow> \<exists>t e. z3_mk_bv_sort Z k = Some t \<and> z3_mk_unsigned_int64 Z v t = Some e \<and>
        isbv e \<and> z3_width Z e = unat k \<and> val e = unat v mod 2 ^ unat k"
    and "isbv x \<Longrightarrow> isbv y \<Longrightarrow> z3_width Z x + z3_width Z y < 2 ^ 32 \<Longrightarrow>
        \<exists>e. z3_mk_binary Z Concat x y = Some e \<and> isbv e \<and>
           z3_width Z e = z3_width Z x + z3_width Z y \<and> val e = val x * 2 ^ z3_width Z y + val y"
    and "isbv x \<Longrightarrow> lo \<le> hi \<Longrightarrow> unat hi < z3_width Z x \<Longrightarrow>
        \<exists>e. z3_mk_extract Z hi lo x = Some e \<and> isbv e \<and>
           z3_width Z e = unat hi - unat lo + 1 \<and>
           val e = val x div 2 ^ unat lo mod 2 ^ (unat hi - unat lo + 1)"
  using assms unfolding z3_bv_laws_def by blast+

subsection \<open>Retained expressions\<close>

text \<open>
  An expression is retained while the code holds a reference to it or has it in its set of
  expressions passed to client code; the set holds a reference itself (\<open>refs_ok\<close>).
\<close>

definition retained :: "('e, 't, 's) simple_state \<Rightarrow> 'e \<Rightarrow> bool" where
  "retained st e \<longleftrightarrow> e \<in> allocatedExpressions st \<or> 0 < ast_refs st e"

definition simple_usable :: "('e \<Rightarrow> bool) \<Rightarrow> ('e, 't, 's) simple_state \<Rightarrow> 'e \<Rightarrow> bool" where
  "simple_usable isbv st e \<longleftrightarrow> isbv e \<and> retained st e"

definition refs_ok :: "('e, 't, 's) simple_state \<Rightarrow> bool" where
  "refs_ok st \<longleftrightarrow> (\<forall>e. 0 \<le> ast_refs st e) \<and> (\<forall>e \<in> allocatedExpressions st. 0 < ast_refs st e)"

named_theorems refs_simps "reference counts after the steps of the backend"

lemma state_steps [simp, refs_simps]:
  "ast_refs (inc_ref e st) = (ast_refs st)(e := ast_refs st e + 1)"
  "ast_refs (dec_ref e st) = (ast_refs st)(e := ast_refs st e - 1)"
  "ast_refs (inc_ref_sort t st) = ast_refs st"
  "ast_refs (dec_ref_sort t st) = ast_refs st"
  "ast_refs (log_line l st) = ast_refs st"
  "sort_refs (inc_ref e st) = sort_refs st"
  "sort_refs (dec_ref e st) = sort_refs st"
  "sort_refs (inc_ref_sort t st) = (sort_refs st)(t := sort_refs st t + 1)"
  "sort_refs (dec_ref_sort t st) = (sort_refs st)(t := sort_refs st t - 1)"
  "sort_refs (log_line l st) = sort_refs st"
  "allocatedExpressions (inc_ref e st) = allocatedExpressions st"
  "allocatedExpressions (dec_ref e st) = allocatedExpressions st"
  "allocatedExpressions (inc_ref_sort t st) = allocatedExpressions st"
  "allocatedExpressions (dec_ref_sort t st) = allocatedExpressions st"
  "allocatedExpressions (log_line l st) = allocatedExpressions st"
  "stdinBytes (inc_ref e st) = stdinBytes st"
  "stdinBytes (dec_ref e st) = stdinBytes st"
  "stdinBytes (inc_ref_sort t st) = stdinBytes st"
  "stdinBytes (dec_ref_sort t st) = stdinBytes st"
  "stdinBytes (log_line l st) = stdinBytes st"
  "g_solver (inc_ref e st) = g_solver st"
  "g_solver (dec_ref e st) = g_solver st"
  "g_solver (inc_ref_sort t st) = g_solver st"
  "g_solver (dec_ref_sort t st) = g_solver st"
  "g_solver (log_line l st) = g_solver st"
  "log_text (inc_ref e st) = log_text st"
  "log_text (dec_ref e st) = log_text st"
  "log_text (log_line l st) = log_text st @ l"
  by (simp_all add: inc_ref_def dec_ref_def inc_ref_sort_def dec_ref_sort_def log_line_def)

lemma register_steps [simp, refs_simps]:
  "allocatedExpressions (registerExpression e st) = insert e (allocatedExpressions st)"
  "stdinBytes (registerExpression e st) = stdinBytes st"
  "g_solver (registerExpression e st) = g_solver st"
  "sort_refs (registerExpression e st) = sort_refs st"
  by (auto simp: registerExpression_def)

lemma refs_ok_register [intro]: "refs_ok st \<Longrightarrow> refs_ok (registerExpression e st)"
  by (auto simp: refs_ok_def registerExpression_def add_pos_nonneg add_nonneg_pos)

lemma retained_register [intro]: "retained st x \<Longrightarrow> retained (registerExpression e st) x"
  by (auto simp: retained_def registerExpression_def)

lemma handle_z3_error_simps [simp]:
  "handle_z3_error None = Inl Assert_failed"
  "handle_z3_error (Some x) = Inr x"
  by (simp_all add: handle_z3_error_def)

lemma handle_z3_error_eq_Inr: "handle_z3_error r = Inr x \<longleftrightarrow> r = Some x"
  by (cases r) auto

lemma width_simple_bits_helper: "unat (simple_bits_helper Z e) = z3_width Z e"
proof -
  have "unat (z3_get_bv_sort_size Z (z3_get_sort Z e)) < 2 ^ LENGTH(32)" by (rule unsigned_less)
  then show ?thesis by (simp add: simple_bits_helper_def z3_width_def unsigned_ucast_eq take_bit_nat_eq_self)
qed

lemma register_result_yields:
  assumes "r = Some e" "isbv e" "z3_width Z e = w" "val e = v"
  shows "yields (simple_backend Z) val (simple_usable isbv) st (register_result r st) w v"
  using assms
  by (auto simp: yields_def register_result_def simple_usable_def width_simple_bits_helper retained_def
      registerExpression_def)

lemma with_sort_yields:
  assumes "srt = Some t"
    "yields (simple_backend Z) val (simple_usable isbv) (inc_ref_sort t st) (body t (inc_ref_sort t st)) w v"
  shows "yields (simple_backend Z) val (simple_usable isbv) st (with_sort srt body st) w v"
  using assms by (auto simp: yields_def with_sort_def simple_usable_def retained_def)

lemma ucast_small:
  assumes "unat (x :: addr) < 2 ^ 32"
  shows "unat (ucast x :: u32) = unat x"
  using assms by (simp add: unsigned_ucast_eq take_bit_nat_eq_self)

interpretation simple: symbolic_backend "simple_backend Z" val "simple_usable isbv" "z3_bv_laws Z isbv val"
  for Z :: "('e, 't, 's) z3" and val :: "'e \<Rightarrow> nat" and isbv :: "'e \<Rightarrow> bool"
proof unfold_locales
  fix b e assume "z3_bv_laws Z isbv val" "simple_usable isbv b e"
  then show "val e < 2 ^ unat (sym_bits_helper (simple_backend Z) e)"
    by (simp add: z3_bv_laws_def simple_usable_def width_simple_bits_helper)
next
  fix k :: byte and b :: "('e, 't, 's) simple_state" and v x
  assume laws: "z3_bv_laws Z isbv val" and k: "0 < k" "k \<le> 64" and "simple_usable isbv b x"
  have "unat k < 2 ^ LENGTH(8)" by (rule unsigned_less)
  then have u: "unat (ucast k :: u32) = unat k" by (simp add: unsigned_ucast_eq take_bit_nat_eq_self)
  moreover have "0 < unat k" using k by (simp add: unat_gt_0)
  ultimately have "0 < (ucast k :: u32)" by (simp add: word_less_nat_alt)
  then obtain t e where "z3_mk_bv_sort Z (ucast k) = Some t" "z3_mk_unsigned_int64 Z v t = Some e"
      "isbv e" "z3_width Z e = unat k" "val e = unat v mod 2 ^ unat k"
    using z3_bv_lawsD(2) [OF laws] u by metis
  then show "yields (simple_backend Z) val (simple_usable isbv) b (sym_build_integer (simple_backend Z) v k b)
      (unat k) (unat v mod 2 ^ unat k)"
    by (auto simp: simple_build_integer_def intro!: with_sort_yields register_result_yields)
next
  fix b :: "('e, 't, 's) simple_state" and x y
  assume laws: "z3_bv_laws Z isbv val" and u: "simple_usable isbv b x" "simple_usable isbv b y"
    and w: "unat (sym_bits_helper (simple_backend Z) x) + unat (sym_bits_helper (simple_backend Z) y) < 2 ^ 32"
  obtain e where "z3_mk_binary Z Concat x y = Some e" "isbv e"
      "z3_width Z e = z3_width Z x + z3_width Z y" "val e = val x * 2 ^ z3_width Z y + val y"
    using z3_bv_lawsD(3) [OF laws, of x y] u w by (auto simp: simple_usable_def width_simple_bits_helper)
  then show "yields (simple_backend Z) val (simple_usable isbv) b (sym_concat_helper (simple_backend Z) x y b)
      (unat (sym_bits_helper (simple_backend Z) x) + unat (sym_bits_helper (simple_backend Z) y))
      (val x * 2 ^ unat (sym_bits_helper (simple_backend Z) y) + val y)"
    by (auto simp: simple_concat_helper_def width_simple_bits_helper intro!: register_result_yields)
next
  fix b :: "('e, 't, 's) simple_state" and x and lo hi :: addr
  assume laws: "z3_bv_laws Z isbv val" and u: "simple_usable isbv b x" and lo: "lo \<le> hi"
    and hi: "hi < sym_bits_helper (simple_backend Z) x"
    and w: "unat (sym_bits_helper (simple_backend Z) x) < 2 ^ 32"
  have h: "unat hi < z3_width Z x" "unat lo \<le> unat hi" "z3_width Z x < 2 ^ 32"
    using hi lo w by (simp_all add: word_less_nat_alt word_le_nat_alt width_simple_bits_helper)
  then have c: "unat (ucast hi :: u32) = unat hi" "unat (ucast lo :: u32) = unat lo"
    by (simp_all add: ucast_small)
  then have "(ucast lo :: u32) \<le> ucast hi" using h by (simp add: word_le_nat_alt)
  then obtain e where "z3_mk_extract Z (ucast hi) (ucast lo) x = Some e" "isbv e"
      "z3_width Z e = unat hi - unat lo + 1"
      "val e = val x div 2 ^ unat lo mod 2 ^ (unat hi - unat lo + 1)"
    using z3_bv_lawsD(4) [OF laws, of x "ucast lo" "ucast hi"] u h c by (auto simp: simple_usable_def)
  then show "yields (simple_backend Z) val (simple_usable isbv) b (sym_extract_helper (simple_backend Z) x hi lo b)
      (unat hi - unat lo + 1) (val x div 2 ^ unat lo mod 2 ^ (unat hi - unat lo + 1))"
    by (auto simp: simple_extract_helper_def intro!: register_result_yields)
qed

end
