(* ===== verification/Z3Instance.thy ===== *)
theory Z3Instance
  imports SimpleLaws
begin

text \<open>
  A concrete instance of the Z3 interface, small enough to evaluate: bit-vector constants,
  named variables, Boolean constants, atoms and negations, and a solver that knows a
  contradiction when it sees a literal next to its negation. It shows that the laws assumed
  of Z3 can hold together, and it is the input of the witnesses.
\<close>

datatype demo_term = Bv nat nat | Var string nat | Truth bool | Atom nat | Neg demo_term

fun demo_sort :: "demo_term \<Rightarrow> nat" where
  "demo_sort (Bv w v) = w"
| "demo_sort (Var s w) = w"
| "demo_sort (Truth b) = 0"
| "demo_sort (Atom n) = 0"
| "demo_sort (Neg t) = 0"

fun demo_not :: "demo_term \<Rightarrow> demo_term" where
  "demo_not (Truth b) = Truth (\<not> b)"
| "demo_not (Neg t) = t"
| "demo_not t = Neg t"

fun demo_concat :: "demo_term \<Rightarrow> demo_term \<Rightarrow> demo_term option" where
  "demo_concat (Bv w v) (Bv w' v') = Some (Bv (w + w') (v * 2 ^ w' + v'))"
| "demo_concat _ _ = None"

fun demo_extract :: "u32 \<Rightarrow> u32 \<Rightarrow> demo_term \<Rightarrow> demo_term option" where
  "demo_extract hi lo (Bv w v) =
     (let n = unat hi - unat lo + 1 in Some (Bv n (v div 2 ^ unat lo mod 2 ^ n)))"
| "demo_extract _ _ _ = None"

definition demo_conflict :: "demo_term list \<Rightarrow> bool" where
  "demo_conflict fs \<longleftrightarrow> Truth False \<in> set fs \<or> list_ex (\<lambda>e. Neg e \<in> set fs) fs"

definition demo_check :: "demo_term list list \<Rightarrow> z3_lbool \<times> demo_term list list" where
  "demo_check frames = (if demo_conflict (concat frames) then L_FALSE else L_TRUE, frames)"

definition demo_z3 :: "(demo_term, nat, demo_term list list) z3" where
  "demo_z3 = \<lparr>
     z3_mk_bv_sort = (\<lambda>k. if k = 0 then None else Some (unat k)),
     z3_mk_fpa_sort_double = None,
     z3_mk_fpa_sort_single = None,
     z3_mk_const = (\<lambda>name w. Some (Var name w)),
     z3_mk_unsigned_int64 = (\<lambda>v w. Some (Bv w (unat v mod 2 ^ w))),
     z3_mk_int = (\<lambda>v w. Some (Bv w (nat (v mod 2 ^ w)))),
     z3_mk_fpa_numeral_double = (\<lambda>_ _. None),
     z3_mk_true = Truth True,
     z3_mk_false = Truth False,
     z3_mk_fpa_round_nearest_ties_to_even = Atom 0,
     z3_mk_fpa_round_toward_zero = Atom 1,
     z3_mk_unary = (\<lambda>f e. if f = Z3_not then Some (demo_not e) else None),
     z3_mk_binary = (\<lambda>f a b. if f = Concat then demo_concat a b else None),
     z3_mk_rounded = (\<lambda>_ _ _ _. None),
     z3_mk_nary = (\<lambda>_ _. None),
     z3_mk_ite = (\<lambda>_ _ _. None),
     z3_mk_extend = (\<lambda>_ _ _. None),
     z3_mk_extract = demo_extract,
     z3_mk_fpa_to_fp = (\<lambda>_ _ _ _. None),
     z3_mk_fpa_to_fp_bv = (\<lambda>_ _. None),
     z3_mk_fpa_to_bv = (\<lambda>_ _ _ _. None),
     z3_simplify = Some,
     z3_is_eq_ast = (=),
     z3_get_sort = demo_sort,
     z3_get_bv_sort_size = of_nat,
     z3_ast_to_string = (\<lambda>_. ''''),
     z3_mk_solver = [[]],
     z3_solver_push = (\<lambda>fs. [] # fs),
     z3_solver_pop = (\<lambda>n fs. drop (unat n) fs),
     z3_solver_assert = (\<lambda>e fs. (e # hd fs) # tl fs),
     z3_solver_check = demo_check,
     z3_solver_to_string = (\<lambda>_. ''''),
     z3_solver_model_to_string = (\<lambda>_. '''')\<rparr>"

fun demo_isbv :: "demo_term \<Rightarrow> bool" where
  "demo_isbv (Bv w v) = (0 < w \<and> w < 2 ^ 32 \<and> v < 2 ^ w)"
| "demo_isbv _ = False"

fun demo_val :: "demo_term \<Rightarrow> nat" where
  "demo_val (Bv w v) = v"
| "demo_val _ = 0"

lemma demo_z3_simps [simp]:
  "z3_mk_bv_sort demo_z3 k = (if k = 0 then None else Some (unat k))"
  "z3_mk_const demo_z3 name w = Some (Var name w)"
  "z3_mk_unsigned_int64 demo_z3 v w = Some (Bv w (unat v mod 2 ^ w))"
  "z3_mk_int demo_z3 i w = Some (Bv w (nat (i mod 2 ^ w)))"
  "z3_mk_true demo_z3 = Truth True"
  "z3_mk_false demo_z3 = Truth False"
  "z3_mk_unary demo_z3 f e = (if f = Z3_not then Some (demo_not e) else None)"
  "z3_mk_binary demo_z3 g a b = (if g = Concat then demo_concat a b else None)"
  "z3_mk_extract demo_z3 = demo_extract"
  "z3_simplify demo_z3 e = Some e"
  "z3_is_eq_ast demo_z3 a b = (a = b)"
  "z3_get_sort demo_z3 = demo_sort"
  "z3_get_bv_sort_size demo_z3 n = of_nat n"
  "z3_mk_solver demo_z3 = [[]]"
  "z3_solver_push demo_z3 fs = [] # fs"
  "z3_solver_pop demo_z3 m fs = drop (unat m) fs"
  "z3_solver_assert demo_z3 e fs = (e # hd fs) # tl fs"
  "z3_solver_check demo_z3 fs = demo_check fs"
  "z3_solver_to_string demo_z3 fs = ''''"
  "z3_solver_model_to_string demo_z3 fs = ''''"
  "z3_mk_fpa_round_nearest_ties_to_even demo_z3 = Atom 0"
  by (simp_all add: demo_z3_def)

lemma unat_of_nat_32: "n < 2 ^ 32 \<Longrightarrow> unat (of_nat n :: u32) = n"
  by (simp add: unat_of_nat take_bit_nat_eq_self)

lemma demo_isbvE:
  assumes "demo_isbv e"
  obtains w v where "e = Bv w v" "0 < w" "w < 2 ^ 32" "v < 2 ^ w"
  using assms by (cases e) auto

lemma demo_width [simp]: "w < 2 ^ 32 \<Longrightarrow> z3_width demo_z3 (Bv w v) = w"
  by (simp add: z3_width_def unat_of_nat_32)

lemma demo_bv_laws: "z3_bv_laws demo_z3 demo_isbv demo_val"
  unfolding z3_bv_laws_def
proof (intro conjI allI impI)
  fix e assume "demo_isbv e" then show "demo_val e < 2 ^ z3_width demo_z3 e"
    by (auto elim: demo_isbvE)
next
  fix k :: u32 and v :: u64 assume "0 < k"
  moreover have "unat k < 2 ^ LENGTH(32)" by (rule unsigned_less)
  ultimately show "\<exists>t e. z3_mk_bv_sort demo_z3 k = Some t \<and> z3_mk_unsigned_int64 demo_z3 v t = Some e \<and>
      demo_isbv e \<and> z3_width demo_z3 e = unat k \<and> demo_val e = unat v mod 2 ^ unat k"
    by (simp add: unat_gt_0)
next
  fix x y assume "demo_isbv x" "demo_isbv y" "z3_width demo_z3 x + z3_width demo_z3 y < 2 ^ 32"
  then show "\<exists>e. z3_mk_binary demo_z3 Concat x y = Some e \<and> demo_isbv e \<and>
      z3_width demo_z3 e = z3_width demo_z3 x + z3_width demo_z3 y \<and>
      demo_val e = demo_val x * 2 ^ z3_width demo_z3 y + demo_val y"
    by (auto elim!: demo_isbvE simp: concat_bound)
next
  fix x and hi lo :: u32 assume "demo_isbv x" "lo \<le> hi" "unat hi < z3_width demo_z3 x"
  then obtain w v where x: "x = Bv w v" "w < 2 ^ 32" "unat hi < w" by (auto elim: demo_isbvE)
  then have "Suc (unat hi - unat lo) < 2 ^ 32" by linarith
  with x show "\<exists>e. z3_mk_extract demo_z3 hi lo x = Some e \<and> demo_isbv e \<and>
      z3_width demo_z3 e = unat hi - unat lo + 1 \<and>
      demo_val e = demo_val x div 2 ^ unat lo mod 2 ^ (unat hi - unat lo + 1)"
    by (simp add: Let_def del: power_Suc)
qed

end
