(* ===== verification/SimpleProps.thy ===== *)
theory SimpleProps
  imports Z3Instance
begin

text \<open>
  Properties of the simple backend. \<open>simple_builders\<close> is the set of its functions that build an
  expression from expressions that are not null, \<open>expression_builders\<close> of all that build expressions:
  those, and the two bit casts of floats, which pass null through. \<open>builds\<close> is the contract they share.
  (The constants are built at initialisation; the functions that return them build nothing.)
\<close>

inductive_set simple_builders ::
  "('e, 't, 's) z3 \<Rightarrow> (('e, 't, 's) simple_state \<Rightarrow> ('e \<times> ('e, 't, 's) simple_state) result) set"
  for Z :: "('e, 't, 's) z3" where
  build_integer: "simple_build_integer Z x y \<in> simple_builders Z"
| build_integer128: "simple_build_integer128 Z x y \<in> simple_builders Z"
| build_float: "simple_build_float Z x y \<in> simple_builders Z"
| build_binary: "simple_build_binary Z x y z \<in> simple_builders Z"
| build_neg: "simple_build_neg Z x \<in> simple_builders Z"
| build_fp_add: "simple_build_fp_add Z x y \<in> simple_builders Z"
| build_fp_sub: "simple_build_fp_sub Z x y \<in> simple_builders Z"
| build_fp_mul: "simple_build_fp_mul Z x y \<in> simple_builders Z"
| build_fp_div: "simple_build_fp_div Z x y \<in> simple_builders Z"
| build_fp_rem: "simple_build_fp_rem Z x y \<in> simple_builders Z"
| build_fp_abs: "simple_build_fp_abs Z x \<in> simple_builders Z"
| build_not: "simple_build_not Z x \<in> simple_builders Z"
| build_not_equal: "simple_build_not_equal Z x y \<in> simple_builders Z"
| build_bool_and: "simple_build_bool_and Z x y \<in> simple_builders Z"
| build_bool_or: "simple_build_bool_or Z x y \<in> simple_builders Z"
| build_float_unordered: "simple_build_float_unordered Z x y \<in> simple_builders Z"
| build_float_ordered_not_equal: "simple_build_float_ordered_not_equal Z x y \<in> simple_builders Z"
| build_float_ordered: "simple_build_float_ordered Z x y \<in> simple_builders Z"
| build_float_unordered_greater_than: "simple_build_float_unordered_greater_than Z x y \<in> simple_builders Z"
| build_float_unordered_greater_equal: "simple_build_float_unordered_greater_equal Z x y \<in> simple_builders Z"
| build_float_unordered_less_than: "simple_build_float_unordered_less_than Z x y \<in> simple_builders Z"
| build_float_unordered_less_equal: "simple_build_float_unordered_less_equal Z x y \<in> simple_builders Z"
| build_float_unordered_equal: "simple_build_float_unordered_equal Z x y \<in> simple_builders Z"
| build_float_unordered_not_equal: "simple_build_float_unordered_not_equal Z x y \<in> simple_builders Z"
| build_sext: "simple_build_sext Z x y \<in> simple_builders Z"
| build_zext: "simple_build_zext Z x y \<in> simple_builders Z"
| build_trunc: "simple_build_trunc Z x y \<in> simple_builders Z"
| build_int_to_float: "simple_build_int_to_float Z x y z \<in> simple_builders Z"
| build_float_to_float: "simple_build_float_to_float Z x y \<in> simple_builders Z"
| build_float_to_signed_integer: "simple_build_float_to_signed_integer Z x y \<in> simple_builders Z"
| build_float_to_unsigned_integer: "simple_build_float_to_unsigned_integer Z x y \<in> simple_builders Z"
| build_bool_to_bits: "simple_build_bool_to_bits Z x y \<in> simple_builders Z"
| concat_helper: "simple_concat_helper Z x y \<in> simple_builders Z"
| extract_helper: "simple_extract_helper Z x y z \<in> simple_builders Z"

definition grows :: "('e, 't, 's) simple_state \<Rightarrow> ('e, 't, 's) simple_state \<Rightarrow> bool" where
  "grows st st' \<longleftrightarrow> (refs_ok st \<longrightarrow> refs_ok st') \<and> allocatedExpressions st \<subseteq> allocatedExpressions st' \<and>
     (\<forall>x. ast_refs st x \<le> ast_refs st' x) \<and> stdinBytes st' = stdinBytes st \<and> g_solver st' = g_solver st"

definition builds ::
  "(('e, 't, 's) simple_state \<Rightarrow> ('e \<times> ('e, 't, 's) simple_state) result) \<Rightarrow> bool" where
  "builds f \<longleftrightarrow> (\<forall>st e st'. f st = Inr (e, st') \<longrightarrow>
     grows st st' \<and> e \<in> allocatedExpressions st' \<and> sort_refs st' = sort_refs st)"

named_theorems builds_intros "functions that register what they build"

lemma grows_refl [simp]: "grows st st"
  by (simp add: grows_def)

lemma grows_trans: "grows st st1 \<Longrightarrow> grows st1 st2 \<Longrightarrow> grows st st2"
  unfolding grows_def by (auto intro: order_trans)

lemma grows_register: "grows st (registerExpression e st)"
  by (simp add: grows_def refs_ok_register) (auto simp: registerExpression_def)

lemma builds_register [builds_intros]: "builds (register_result r)"
  by (auto simp: builds_def register_result_def handle_z3_error_eq_Inr bind_result_eq_Inr grows_register)

lemma builds_with_sort [builds_intros]: "(\<And>t. builds (body t)) \<Longrightarrow> builds (with_sort srt body)"
  unfolding builds_def with_sort_def grows_def refs_ok_def
  by (fastforce simp: bind_result_eq_Inr)

lemma builds_bind [builds_intros]:
  assumes "builds f" "\<And>x. builds (g x)"
  shows "builds (\<lambda>st. bind_result (f st) (\<lambda>(x, st'). g x st'))"
  using assms unfolding builds_def bind_result_eq_Inr
  by (clarsimp split: prod.splits) (metis grows_trans)

lemma builds_bind_pure [builds_intros]:
  assumes "\<And>x. builds (g x)"
  shows "builds (\<lambda>st. bind_result (f st) (\<lambda>x. g x st))"
  using assms unfolding builds_def bind_result_eq_Inr by blast

lemmas simple_builder_defs = simple_build_integer_def simple_build_integer128_def simple_build_float_def
  simple_build_binary_def simple_build_neg_def simple_build_rounded_def simple_build_fp_add_def
  simple_build_fp_sub_def simple_build_fp_mul_def simple_build_fp_div_def simple_build_fp_rem_def
  simple_build_fp_abs_def simple_build_not_def simple_build_not_equal_def simple_build_bool_and_def
  simple_build_bool_or_def simple_build_float_unordered_def simple_build_float_ordered_not_equal_def
  simple_build_float_ordered_def unordered_or_def simple_build_float_unordered_greater_than_def
  simple_build_float_unordered_greater_equal_def simple_build_float_unordered_less_than_def
  simple_build_float_unordered_less_equal_def simple_build_float_unordered_equal_def
  simple_build_float_unordered_not_equal_def simple_build_sext_def simple_build_zext_def
  simple_build_trunc_def simple_build_int_to_float_def simple_build_float_to_float_def
  simple_build_float_to_signed_integer_def simple_build_float_to_unsigned_integer_def
  simple_build_bool_to_bits_def simple_concat_helper_def simple_extract_helper_def

lemma simple_builders_build: "f \<in> simple_builders Z \<Longrightarrow> builds f"
  by (induction rule: simple_builders.induct; unfold simple_builder_defs [abs_def] split_def;
      intro builds_intros builds_bind [unfolded split_def])

inductive_set expression_builders ::
  "('e, 't, 's) z3 \<Rightarrow> (('e, 't, 's) simple_state \<Rightarrow> ('e option \<times> ('e, 't, 's) simple_state) result) set"
  for Z :: "('e, 't, 's) z3" where
  builder: "f \<in> simple_builders Z \<Longrightarrow> (\<lambda>st. some_expr (f st)) \<in> expression_builders Z"
| bits_to_float: "simple_build_bits_to_float Z x y \<in> expression_builders Z"
| float_to_bits: "simple_build_float_to_bits Z x \<in> expression_builders Z"

text \<open>Null comes out only where null went in, and then nothing has changed.\<close>

lemma some_expr_eq_Inr: "some_expr r = Inr (x, st') \<longleftrightarrow> (\<exists>e. x = Some e \<and> r = Inr (e, st'))"
  by (auto simp: some_expr_def bind_result_eq_Inr)

lemma builds_some:
  assumes "builds f" "some_expr (f st) = Inr (x, st')"
  shows "\<exists>e. x = Some e \<and> grows st st' \<and> e \<in> allocatedExpressions st' \<and> sort_refs st' = sort_refs st"
  using assms unfolding builds_def by (auto simp: some_expr_eq_Inr)

lemma expression_builders_build:
  assumes "f \<in> expression_builders Z" "f st = Inr (x, st')"
  shows "grows st st' \<and> sort_refs st' = sort_refs st \<and>
    (case x of None \<Rightarrow> st' = st | Some e \<Rightarrow> e \<in> allocatedExpressions st')"
  using assms
proof cases
  case (builder g)
  then show ?thesis using builds_some [OF simple_builders_build] assms(2) by fastforce
next
  case (bits_to_float e d)
  have "builds (with_sort (fsort Z d) (\<lambda>t. register_result (z3_mk_fpa_to_fp_bv Z a t)))" for a
    by (intro builds_intros)
  from builds_some [OF this] show ?thesis
    using assms(2) bits_to_float by (cases e) (fastforce simp: simple_build_bits_to_float_def)+
next
  case (float_to_bits e)
  from builds_some [OF builds_register] show ?thesis
    using assms(2) float_to_bits by (cases e) (fastforce simp: simple_build_float_to_bits_def)+
qed

subsection \<open>Memory\<close>

definition demo_rt :: "demo_term \<Rightarrow> (demo_term, (demo_term, nat, demo_term list list) simple_state) runtime" where
  "demo_rt e = \<lparr>g_return_value = None, g_function_arguments = (\<lambda>_. None), g_shadow_pages = [],
     expressionRegions = [], expr_memory = (\<lambda>_. None), memory = (\<lambda>_. 0),
     backend_state = simple_start\<lparr>allocatedExpressions := {e}\<rparr>\<rparr>"

lemma demo_rt_simps [simp]:
  "g_shadow_pages (demo_rt e) = []" "retained (backend_state (demo_rt e)) e"
  "allocatedExpressions (backend_state (demo_rt e)) = {e}"
  "memory (demo_rt e) = (\<lambda>_. 0)"
  by (simp_all add: demo_rt_def retained_def)

lemma shadow_at_Nil [simp]: "shadow_at [] a = None"
  by (simp add: shadow_at_def)

lemma bits_helper_eq: "simple_bits_helper Z e = simple_bits_helper Z e' \<longleftrightarrow> z3_width Z e = z3_width Z e'"
  by (simp add: word_unat_eq_iff width_simple_bits_helper)

lemma bits_helper_8: "simple_bits_helper Z e = 8 \<longleftrightarrow> z3_width Z e = 8"
  by (simp add: word_unat_eq_iff width_simple_bits_helper)

text \<open>C3: Writing an expression of \<open>len\<close> bytes to memory and reading it back in the same byte
  order yields an expression of the same width and the same value, for every length, address
  and byte order, whatever the shadow memory held before.\<close>

lemma simple_memory_round_trip:
  assumes "z3_bv_laws Z isbv val" "len \<noteq> 0" "8 * unat len < 2 ^ 32" "unat a + unat len < 2 ^ 64"
    "isbv e" "retained (backend_state rt) e" "z3_width Z e = 8 * unat len"
  shows "\<exists>rt' e' rt''. sym_write_memory (simple_backend Z) a len (Some e) le rt = Inr rt' \<and>
    sym_read_memory (simple_backend Z) a len le rt' = Inr (Some e', rt'') \<and>
    z3_width Z e' = z3_width Z e \<and> val e' = val e"
  using simple.memory_round_trip [of Z isbv val len a rt e le] assms
  unfolding simple_usable_def simple_backend_simps width_simple_bits_helper bits_helper_eq by blast

lemma simple_memory_round_trip_witness:
  "\<exists>rt' e' rt''. sym_write_memory (simple_backend demo_z3) 0x1ffe 4 (Some (Bv 32 0x12345678)) True
      (demo_rt (Bv 32 0x12345678)) = Inr rt' \<and>
    sym_read_memory (simple_backend demo_z3) 0x1ffe 4 True rt' = Inr (Some e', rt'') \<and>
    z3_width demo_z3 e' = z3_width demo_z3 (Bv 32 0x12345678) \<and> demo_val e' = demo_val (Bv 32 0x12345678)"
  by (rule simple_memory_round_trip [OF demo_bv_laws]) simp_all

text \<open>C12: Reading \<open>len\<close> bytes of memory: where every byte is concrete the result is the null
  expression and nothing changes; otherwise it is an expression of \<open>8 * len\<close> bits whose
  value is the number that the bytes (the shadow expression where there is one, the concrete
  content elsewhere) denote in the given byte order, and only the backend's state changes.\<close>

lemma simple_read_memory_spec:
  assumes "z3_bv_laws Z isbv val" "len \<noteq> 0" "unat a + unat len < 2 ^ 64" "8 * unat len < 2 ^ 32"
    "shadow_ok (simple_backend Z) (simple_usable isbv) (g_shadow_pages rt) (backend_state rt) (region a (unat len))"
  shows "if \<forall>c \<in> region a (unat len). shadow_at (g_shadow_pages rt) c = None
    then sym_read_memory (simple_backend Z) a len le rt = Inr (None, rt)
    else \<exists>e b'. sym_read_memory (simple_backend Z) a len le rt = Inr (Some e, rt\<lparr>backend_state := b'\<rparr>) \<and>
      isbv e \<and> retained b' e \<and> z3_width Z e = 8 * unat len \<and>
      val e = (let vs = bytes_from (sym_byte val rt) a (unat len) in if le then le_value vs else be_value vs)"
  using simple.read_memory_correct [OF assms, of le]
  unfolding simple_usable_def simple_backend_simps width_simple_bits_helper
  by (auto split: if_splits)

lemma simple_read_memory_spec_witness:
  "if \<forall>c \<in> region 0x1000 (unat (2 :: addr)). shadow_at (g_shadow_pages (demo_rt (Bv 8 1))) c = None
    then sym_read_memory (simple_backend demo_z3) 0x1000 2 True (demo_rt (Bv 8 1)) = Inr (None, demo_rt (Bv 8 1))
    else \<exists>e b'. sym_read_memory (simple_backend demo_z3) 0x1000 2 True (demo_rt (Bv 8 1)) =
        Inr (Some e, (demo_rt (Bv 8 1))\<lparr>backend_state := b'\<rparr>) \<and>
      demo_isbv e \<and> retained b' e \<and> z3_width demo_z3 e = 8 * unat (2 :: addr) \<and>
      demo_val e = (let vs = bytes_from (sym_byte demo_val (demo_rt (Bv 8 1))) 0x1000 (unat (2 :: addr))
        in if True then le_value vs else be_value vs)"
  by (rule simple_read_memory_spec [OF demo_bv_laws]) (simp_all add: shadow_ok_def)

text \<open>C13: Writing an expression gives every byte of the range an 8-bit expression whose value
  is that byte of the written value in the given byte order, keeps all shadow outside of the
  range, the concrete memory and every expression known to the backend.\<close>

lemma simple_write_memory_spec:
  assumes "z3_bv_laws Z isbv val" "len \<noteq> 0" "8 * unat len < 2 ^ 32"
    "isbv e" "retained (backend_state rt) e" "z3_width Z e = 8 * unat len"
  shows "\<exists>pages' b'. sym_write_memory (simple_backend Z) a len (Some e) le rt =
      Inr (rt\<lparr>g_shadow_pages := pages', backend_state := b'\<rparr>) \<and>
    (\<forall>x. isbv x \<and> retained (backend_state rt) x \<longrightarrow> retained b' x) \<and>
    (\<forall>c. \<not> in_region a (unat len) c \<longrightarrow> shadow_at pages' c = shadow_at (g_shadow_pages rt) c) \<and>
    (\<forall>k<unat len. \<exists>x. shadow_at pages' (a + of_nat k) = Some x \<and> isbv x \<and> retained b' x \<and>
       z3_width Z x = 8 \<and> val x = val e div 256 ^ (if le then k else unat len - 1 - k) mod 256)"
  using simple.write_memory_correct [of Z isbv val len rt e a le] assms
  unfolding simple_usable_def simple_backend_simps width_simple_bits_helper bits_helper_8 by fast

lemma simple_write_memory_spec_witness:
  "\<exists>pages' b'. sym_write_memory (simple_backend demo_z3) 0x1fff 2 (Some (Bv 16 0x1234)) False (demo_rt (Bv 16 0x1234)) =
      Inr ((demo_rt (Bv 16 0x1234))\<lparr>g_shadow_pages := pages', backend_state := b'\<rparr>) \<and>
    (\<forall>x. demo_isbv x \<and> retained (backend_state (demo_rt (Bv 16 0x1234))) x \<longrightarrow> retained b' x) \<and>
    (\<forall>c. \<not> in_region 0x1fff (unat (2 :: addr)) c \<longrightarrow>
      shadow_at pages' c = shadow_at (g_shadow_pages (demo_rt (Bv 16 0x1234))) c) \<and>
    (\<forall>k<unat (2 :: addr). \<exists>x. shadow_at pages' (0x1fff + of_nat k) = Some x \<and> demo_isbv x \<and> retained b' x \<and>
       z3_width demo_z3 x = 8 \<and>
       demo_val x = demo_val (Bv 16 0x1234) div 256 ^ (if False then k else unat (2 :: addr) - 1 - k) mod 256)"
  by (rule simple_write_memory_spec [OF demo_bv_laws]) simp_all

text \<open>C24: Extracting \<open>L\<close> bytes at offset \<open>off\<close> from an aggregate of \<open>T\<close> bytes, as the compiled
  code does for \<open>extractvalue\<close>: an expression of \<open>8 * L\<close> bits whose value is that of the
  selected bytes, the first byte of the aggregate being its most significant one.\<close>

lemma simple_build_extract_spec:
  assumes "z3_bv_laws Z isbv val" "isbv e" "retained b e" "z3_width Z e = 8 * T" "8 * T < 2 ^ 32"
    "0 < L" "off + L \<le> T"
  shows "\<exists>r b'. sym_build_extract (simple_backend Z) e (of_nat off) (of_nat L) le b = Inr (r, b') \<and>
    isbv r \<and> retained b' r \<and> z3_width Z r = 8 * L \<and>
    val r = (let vs = map (\<lambda>k. val e div 256 ^ (T - 1 - (off + k)) mod 256) [0..<L]
      in if le then le_value vs else be_value vs)"
  using simple.build_extract_correct [of Z isbv val b e T L off le] assms
  unfolding yields_def simple_usable_def simple_backend_simps width_simple_bits_helper simple.agg_byte_def
  by blast

lemma simple_build_extract_spec_witness:
  "\<exists>r b'. sym_build_extract (simple_backend demo_z3) (Bv 32 0x11223344) (of_nat 1) (of_nat 2) True
      (backend_state (demo_rt (Bv 32 0x11223344))) = Inr (r, b') \<and>
    demo_isbv r \<and> retained b' r \<and> z3_width demo_z3 r = 8 * 2 \<and>
    demo_val r = (let vs = map (\<lambda>k. demo_val (Bv 32 0x11223344) div 256 ^ (4 - 1 - (1 + k)) mod 256) [0..<2]
      in if True then le_value vs else be_value vs)"
  by (rule simple_build_extract_spec [OF demo_bv_laws]) simp_all

text \<open>C23: Byte swapping an expression of an even number of bytes yields an expression of the same
  width whose value has the bytes in the opposite order.\<close>

lemma simple_build_bswap_spec:
  assumes "z3_bv_laws Z isbv val" "isbv e" "retained b e" "z3_width Z e = 8 * T" "8 * T < 2 ^ 32"
    "0 < T" "even T"
  shows "\<exists>r b'. sym_build_bswap (simple_backend Z) e b = Inr (r, b') \<and> isbv r \<and> retained b' r \<and>
    z3_width Z r = z3_width Z e \<and> le_bytes T (val r) = rev (le_bytes T (val e))"
proof -
  have "yields (simple_backend Z) val (simple_usable isbv) b (sym_build_bswap (simple_backend Z) e b)
      (8 * T) (be_value (le_bytes T (val e)))"
    using simple.build_bswap_correct [of Z isbv val b e T] assms
    by (simp add: simple_usable_def width_simple_bits_helper)
  moreover have "le_bytes T (be_value (le_bytes T v)) = rev (le_bytes T v)" for v
    using le_bytes_le_value [of "rev (le_bytes T v)"] le_bytes_bound by (simp add: le_value_rev)
  ultimately show ?thesis
    using assms(4) by (auto simp: yields_def simple_usable_def width_simple_bits_helper)
qed

lemma simple_build_bswap_spec_witness:
  "\<exists>r b'. sym_build_bswap (simple_backend demo_z3) (Bv 32 0x11223344) (backend_state (demo_rt (Bv 32 0x11223344))) =
      Inr (r, b') \<and> demo_isbv r \<and> retained b' r \<and>
    z3_width demo_z3 r = z3_width demo_z3 (Bv 32 0x11223344) \<and>
    le_bytes 4 (demo_val r) = rev (le_bytes 4 (demo_val (Bv 32 0x11223344)))"
  by (rule simple_build_bswap_spec [OF demo_bv_laws]) simp_all

text \<open>C6: \<open>_sym_memmove\<close> gives the destination range exactly the shadow that the source range
  had before the call, for any overlap of the two ranges and whether or not it takes the
  shortcut for concrete ranges; everything else is left alone.\<close>

lemma memmove_moves_shadow:
  assumes "no_wrap src len" "no_wrap dest len"
    "bytes_on (sym_bits_helper B) (g_shadow_pages rt) (region src (unat len) \<union> region dest (unat len))"
  shows "\<exists>pages'. sym_memmove B dest src len rt = Inr (rt\<lparr>g_shadow_pages := pages'\<rparr>) \<and>
    (\<forall>c. shadow_at pages' c =
      (if in_region dest (unat len) c then shadow_at (g_shadow_pages rt) (src + (c - dest))
       else shadow_at (g_shadow_pages rt) c))"
  using sym_memmove_spec [OF assms] by (simp add: copied_def fun_eq_iff)

definition demo_pages :: "demo_term shadow_pages" where
  "demo_pages = [(0x1000, (\<lambda>_. None)(5 := Some (Bv 8 7)))]"

lemma shadow_at_demo_pages:
  "shadow_at demo_pages c = (if pageStart c = 0x1000 \<and> uint (pageOffset c) = 5 then Some (Bv 8 7) else None)"
  by (simp add: shadow_at_def demo_pages_def map_find_def)

definition demo_mem :: "(demo_term, (demo_term, nat, demo_term list list) simple_state) runtime" where
  "demo_mem = (demo_rt (Bv 8 7))\<lparr>g_shadow_pages := demo_pages\<rparr>"

lemma bytes_on_demo_pages: "bytes_on (sym_bits_helper (simple_backend demo_z3)) demo_pages S"
  by (auto simp: bytes_on_def shadow_at_demo_pages bits_helper_8 split: if_splits)

lemma memmove_moves_shadow_witness:
  "\<exists>pages'. sym_memmove (simple_backend demo_z3) 0x1007 0x1004 6 demo_mem =
      Inr (demo_mem\<lparr>g_shadow_pages := pages'\<rparr>) \<and>
    (\<forall>c. shadow_at pages' c =
      (if in_region 0x1007 (unat (6 :: addr)) c then shadow_at (g_shadow_pages demo_mem) (0x1004 + (c - 0x1007))
       else shadow_at (g_shadow_pages demo_mem) c))"
  by (rule memmove_moves_shadow) (use bytes_on_demo_pages in \<open>simp_all add: no_wrap_def demo_mem_def\<close>)

text \<open>\<open>_sym_memcpy\<close> does the same for ranges that do not overlap (the precondition of
  \<open>memcpy\<close>), and also where the destination starts at or below the source.\<close>

lemma memcpy_copies_shadow:
  assumes "no_wrap src len" "no_wrap dest len"
    "bytes_on (sym_bits_helper B) (g_shadow_pages rt) (region src (unat len) \<union> region dest (unat len))"
    "dest = src \<or> unat len \<le> unat (dest - src)"
  shows "\<exists>pages'. sym_memcpy B dest src len rt = Inr (rt\<lparr>g_shadow_pages := pages'\<rparr>) \<and>
    (\<forall>c. shadow_at pages' c =
      (if in_region dest (unat len) c then shadow_at (g_shadow_pages rt) (src + (c - dest))
       else shadow_at (g_shadow_pages rt) c))"
  using sym_memcpy_spec [OF assms] by (simp add: copied_def fun_eq_iff)

lemma memcpy_copies_shadow_witness:
  "\<exists>pages'. sym_memcpy (simple_backend demo_z3) 0x3000 0x1004 6 demo_mem =
      Inr (demo_mem\<lparr>g_shadow_pages := pages'\<rparr>) \<and>
    (\<forall>c. shadow_at pages' c =
      (if in_region 0x3000 (unat (6 :: addr)) c then shadow_at (g_shadow_pages demo_mem) (0x1004 + (c - 0x3000))
       else shadow_at (g_shadow_pages demo_mem) c))"
  by (rule memcpy_copies_shadow) (use bytes_on_demo_pages in \<open>simp_all add: no_wrap_def demo_mem_def\<close>)

end
