(* ===== verification/SimpleSolver.thy ===== *)
theory SimpleSolver
  imports SimpleProps
begin

text \<open>
  The path condition of the simple backend. \<open>z3_solver_laws\<close> states the documented behaviour
  of the solver: \<open>stack\<close> gives its scopes of assertions, innermost first, and a verdict
  other than "unknown" is right about their satisfiability \<open>sat\<close>. \<open>branch_literals\<close> is the
  abstract effect of one branch: what it adds to the path condition.
\<close>

definition z3_solver_laws ::
  "('e, 't, 's) z3 \<Rightarrow> ('s \<Rightarrow> 'e list list) \<Rightarrow> ('e set \<Rightarrow> bool) \<Rightarrow> bool" where
  "z3_solver_laws Z stack sat \<longleftrightarrow>
     (\<forall>s. stack (z3_solver_push Z s) = [] # stack s) \<and>
     (\<forall>s e. stack s \<noteq> [] \<longrightarrow> stack (z3_solver_assert Z e s) = (e # hd (stack s)) # tl (stack s)) \<and>
     (\<forall>s. stack (snd (z3_solver_check Z s)) = stack s) \<and>
     (\<forall>s n. unat n < length (stack s) \<longrightarrow> stack (z3_solver_pop Z n s) = drop (unat n) (stack s)) \<and>
     (\<forall>s. fst (z3_solver_check Z s) = L_TRUE \<longrightarrow> sat (set (concat (stack s)))) \<and>
     (\<forall>s. fst (z3_solver_check Z s) = L_FALSE \<longrightarrow> \<not> sat (set (concat (stack s)))) \<and>
     (\<forall>a b. z3_is_eq_ast Z a b \<longleftrightarrow> a = b)"

lemma z3_solver_lawsD:
  assumes "z3_solver_laws Z stack sat"
  shows "stack (z3_solver_push Z s) = [] # stack s"
    and "stack s \<noteq> [] \<Longrightarrow> stack (z3_solver_assert Z e s) = (e # hd (stack s)) # tl (stack s)"
    and "stack (snd (z3_solver_check Z s)) = stack s"
    and "unat n < length (stack s) \<Longrightarrow> stack (z3_solver_pop Z n s) = drop (unat n) (stack s)"
    and "fst (z3_solver_check Z s) = L_TRUE \<Longrightarrow> sat (set (concat (stack s)))"
    and "z3_is_eq_ast Z a b \<longleftrightarrow> a = b"
  using assms unfolding z3_solver_laws_def by blast+

definition negated :: "('e, 't, 's) z3 \<Rightarrow> 'e \<Rightarrow> 'e option" where
  "negated Z c = Option.bind (z3_mk_unary Z Z3_not c) (z3_simplify Z)"

text \<open>The simplified constraint of a branch and its negation, where neither is trivial.\<close>

definition branch_parts :: "('e, 't, 's) z3 \<Rightarrow> 'e option \<Rightarrow> ('e \<times> 'e) option" where
  "branch_parts Z expr =
     Option.bind (Option.bind expr (z3_simplify Z)) (\<lambda>c.
       if c = z3_mk_true Z \<or> c = z3_mk_false Z then None
       else map_option (\<lambda>n. (c, n)) (negated Z c))"

definition branch_literals :: "('e, 't, 's) z3 \<Rightarrow> 'e option \<Rightarrow> bool \<Rightarrow> 'e list" where
  "branch_literals Z expr taken =
     (case branch_parts Z expr of None \<Rightarrow> [] | Some (c, n) \<Rightarrow> [if taken then c else n])"

definition solver_stack :: "('s \<Rightarrow> 'e list list) \<Rightarrow> ('e, 't, 's) simple_state \<Rightarrow> 'e list list" where
  "solver_stack stack st = (case g_solver st of None \<Rightarrow> [] | Some s \<Rightarrow> stack s)"

text \<open>What \<open>explore_alternative\<close> does, in terms of the solver's scopes.\<close>

definition query_log :: "('e, 't, 's) z3 \<Rightarrow> 's \<Rightarrow> string" where
  "query_log Z q =
     ''Trying to solve:'' @ newline @ z3_solver_to_string Z q @ newline @
     (if fst (z3_solver_check Z q) = L_TRUE
      then ''Found diverging input:'' @ newline @
        z3_solver_model_to_string Z (snd (z3_solver_check Z q)) @ newline
      else ''Can't find a diverging input at this point'' @ newline)"

lemma explore_alternative_spec:
  assumes laws: "z3_solver_laws Z stack sat" and s: "stack s \<noteq> []"
    and r: "explore_alternative Z c n taken s st = Inr st'"
  shows "\<exists>q. stack q = [if taken then n else c] # stack s \<and>
      log_text st' = log_text st @ query_log Z q"
    and "solver_stack stack st' = ((if taken then c else n) # hd (stack s)) # tl (stack s)"
    and "sat (set (concat (solver_stack stack st')))"
    and "allocatedExpressions st' = allocatedExpressions st" "stdinBytes st' = stdinBytes st"
    and "ast_refs st' = (\<lambda>x. ast_refs st x + (if x = (if taken then c else n) then 1 else 0)
        - (if x = c then 1 else 0) - (if x = n then 1 else 0))"
    and "sort_refs st' = sort_refs st"
proof -
  note L = z3_solver_lawsD [OF laws]
  define q where "q = z3_solver_assert Z (if taken then n else c) (z3_solver_push Z s)"
  define s4 where "s4 = z3_solver_pop Z 1 (snd (z3_solver_check Z q))"
  define s5 where "s5 = z3_solver_assert Z (if taken then c else n) s4"
  have q: "stack q = [if taken then n else c] # stack s" by (simp add: q_def L)
  then have "stack s4 = stack s"
    using s L(4) [of 1 "snd (z3_solver_check Z q)"] by (simp add: s4_def L(3))
  then have s5: "stack s5 = ((if taken then c else n) # hd (stack s)) # tl (stack s)"
    using s by (simp add: s5_def L)
  have ok: "fst (z3_solver_check Z s5) = L_TRUE"
    and st': "st' = dec_ref n (dec_ref c ((inc_ref (if taken then c else n)
      (if fst (z3_solver_check Z q) = L_TRUE
       then log_line (''Found diverging input:'' @ newline @
          z3_solver_model_to_string Z (snd (z3_solver_check Z q)) @ newline)
          (log_line (''Trying to solve:'' @ newline @ z3_solver_to_string Z q @ newline) st)
       else log_line (''Can't find a diverging input at this point'' @ newline)
          (log_line (''Trying to solve:'' @ newline @ z3_solver_to_string Z q @ newline) st)))
      \<lparr>g_solver := Some (snd (z3_solver_check Z s5))\<rparr>))"
    using r by (auto simp: explore_alternative_def Let_def bind_result_eq_Inr q_def s4_def s5_def
        split: prod.splits)
  show "\<exists>q. stack q = [if taken then n else c] # stack s \<and> log_text st' = log_text st @ query_log Z q"
    using q by (intro exI [of _ q]) (simp add: st' query_log_def)
  show stack': "solver_stack stack st' = ((if taken then c else n) # hd (stack s)) # tl (stack s)"
    using s5 by (simp add: solver_stack_def st' L)
  show "sat (set (concat (solver_stack stack st')))"
    using L(5) [OF ok] unfolding stack' s5 .
  show "allocatedExpressions st' = allocatedExpressions st" "stdinBytes st' = stdinBytes st"
    "sort_refs st' = sort_refs st"
    by (simp_all add: st')
  show "ast_refs st' = (\<lambda>x. ast_refs st x + (if x = (if taken then c else n) then 1 else 0)
        - (if x = c then 1 else 0) - (if x = n then 1 else 0))"
    by (auto simp: st' fun_eq_iff)
qed

lemma push_path_constraint_cases:
  assumes laws: "z3_solver_laws Z stack sat"
    and r: "simple_push_path_constraint Z expr taken site st = Inr st'"
  shows "branch_parts Z expr = None \<and> allocatedExpressions st' = allocatedExpressions st \<and>
      stdinBytes st' = stdinBytes st \<and> g_solver st' = g_solver st \<and> ast_refs st' = ast_refs st \<and>
      sort_refs st' = sort_refs st \<and> log_text st' = log_text st \<or>
    (\<exists>c n s. branch_parts Z expr = Some (c, n) \<and> g_solver st = Some s \<and>
      explore_alternative Z c n taken s (inc_ref n (inc_ref c st)) = Inr st')"
proof (cases expr)
  case None
  with r show ?thesis by (simp add: simple_push_path_constraint_def branch_parts_def)
next
  case (Some e)
  obtain c where c: "z3_simplify Z e = Some c"
    using r Some by (auto simp: simple_push_path_constraint_def bind_result_eq_Inr handle_z3_error_eq_Inr)
  note eq = z3_solver_lawsD(6) [OF laws]
  show ?thesis
  proof (cases "c = z3_mk_true Z \<or> c = z3_mk_false Z")
    case True
    then show ?thesis using r Some c
      by (auto simp: simple_push_path_constraint_def branch_parts_def eq Let_def bind_result_eq_Inr
          split: if_splits)
  next
    case False
    then obtain n s where "negated Z c = Some n" "g_solver st = Some s"
        "explore_alternative Z c n taken s (inc_ref n (inc_ref c st)) = Inr st'"
      using r Some c
      by (auto simp: simple_push_path_constraint_def eq Let_def bind_result_eq_Inr handle_z3_error_eq_Inr
          global_def negated_def split: option.splits)
    with False Some c show ?thesis by (simp add: branch_parts_def)
  qed
qed

lemma push_path_constraint_step:
  assumes laws: "z3_solver_laws Z stack sat" and s: "solver_stack stack st \<noteq> []"
    and r: "simple_push_path_constraint Z expr taken site st = Inr st'"
  shows "solver_stack stack st' =
      (branch_literals Z expr taken @ hd (solver_stack stack st)) # tl (solver_stack stack st)"
    and "branch_literals Z expr taken \<noteq> [] \<Longrightarrow> sat (set (concat (solver_stack stack st')))"
    and "allocatedExpressions st' = allocatedExpressions st" "stdinBytes st' = stdinBytes st"
    and "ast_refs st' = (\<lambda>x. ast_refs st x + int (count_list (branch_literals Z expr taken) x))"
    and "sort_refs st' = sort_refs st"
proof -
  consider (skip) "branch_parts Z expr = None" "allocatedExpressions st' = allocatedExpressions st"
      "stdinBytes st' = stdinBytes st" "g_solver st' = g_solver st" "ast_refs st' = ast_refs st"
      "sort_refs st' = sort_refs st"
    | (query) c n s0 where "branch_parts Z expr = Some (c, n)" "g_solver st = Some s0"
      "explore_alternative Z c n taken s0 (inc_ref n (inc_ref c st)) = Inr st'"
    using push_path_constraint_cases [OF laws r] by (elim disjE exE conjE) simp_all
  then have "solver_stack stack st' =
      (branch_literals Z expr taken @ hd (solver_stack stack st)) # tl (solver_stack stack st) \<and>
    (branch_literals Z expr taken \<noteq> [] \<longrightarrow> sat (set (concat (solver_stack stack st')))) \<and>
    allocatedExpressions st' = allocatedExpressions st \<and> stdinBytes st' = stdinBytes st \<and>
    ast_refs st' = (\<lambda>x. ast_refs st x + int (count_list (branch_literals Z expr taken) x)) \<and>
    sort_refs st' = sort_refs st"
  proof cases
    case skip
    with s show ?thesis by (simp add: branch_literals_def solver_stack_def)
  next
    case query
    have s0: "stack s0 \<noteq> []" using s query(2) by (simp add: solver_stack_def)
    note spec = explore_alternative_spec [OF laws s0 query(3)]
    have lits: "branch_literals Z expr taken = [if taken then c else n]"
      using query(1) by (simp add: branch_literals_def)
    show ?thesis using spec query(2) unfolding lits by (auto simp: solver_stack_def fun_eq_iff)
  qed
  then show "solver_stack stack st' =
      (branch_literals Z expr taken @ hd (solver_stack stack st)) # tl (solver_stack stack st)"
    "branch_literals Z expr taken \<noteq> [] \<Longrightarrow> sat (set (concat (solver_stack stack st')))"
    "allocatedExpressions st' = allocatedExpressions st" "stdinBytes st' = stdinBytes st"
    "ast_refs st' = (\<lambda>x. ast_refs st x + int (count_list (branch_literals Z expr taken) x))"
    "sort_refs st' = sort_refs st"
    by blast+
qed

subsection \<open>Sequences of branches\<close>

type_synonym 'e branch = "'e option \<times> bool \<times> addr"

fun push_branches ::
  "('e, 't, 's) z3 \<Rightarrow> 'e branch list \<Rightarrow> ('e, 't, 's) simple_state \<Rightarrow> ('e, 't, 's) simple_state result" where
  "push_branches Z [] st = Inr st"
| "push_branches Z ((expr, taken, site) # bs) st =
     bind_result (simple_push_path_constraint Z expr taken site st) (push_branches Z bs)"

definition path_literals :: "('e, 't, 's) z3 \<Rightarrow> 'e branch list \<Rightarrow> 'e list" where
  "path_literals Z bs = concat (map (\<lambda>(expr, taken, site). branch_literals Z expr taken) (rev bs))"

lemma path_literals_simps [simp]:
  "path_literals Z [] = []"
  "path_literals Z ((expr, taken, site) # bs) = path_literals Z bs @ branch_literals Z expr taken"
  by (simp_all add: path_literals_def)

text \<open>C4: After any sequence of branches that does not stop the program, the solver's path
  condition is exactly the sequence of the simplified constraints taken (negated where the
  branch was not taken, nothing for concrete and trivial ones), on top of what it was before,
  in the same scope; it is satisfiable; the expressions and input bytes known to the backend
  are the same; and every literal of it keeps one reference for good.\<close>

lemma path_condition_refinement:
  assumes "z3_solver_laws Z stack sat" "solver_stack stack st = [fs]" "sat (set fs)"
    and "push_branches Z bs st = Inr st'"
  shows "solver_stack stack st' = [path_literals Z bs @ fs] \<and> sat (set (path_literals Z bs @ fs)) \<and>
    allocatedExpressions st' = allocatedExpressions st \<and> stdinBytes st' = stdinBytes st \<and>
    ast_refs st' = (\<lambda>x. ast_refs st x + int (count_list (path_literals Z bs) x))"
  using assms(2-)
proof (induction bs arbitrary: st fs)
  case (Cons b bs)
  obtain expr taken site where b: "b = (expr, taken, site)" by (cases b)
  then obtain st1 where st1: "simple_push_path_constraint Z expr taken site st = Inr st1"
      "push_branches Z bs st1 = Inr st'"
    using Cons.prems(3) by (auto simp: bind_result_eq_Inr)
  have s: "solver_stack stack st \<noteq> []" using Cons.prems(1) by simp
  note step = push_path_constraint_step [OF assms(1) s st1(1)]
  have stack1: "solver_stack stack st1 = [branch_literals Z expr taken @ fs]"
    using step(1) Cons.prems(1) by simp
  have "sat (set (branch_literals Z expr taken @ fs))"
    using step(2) stack1 Cons.prems(2) by (cases "branch_literals Z expr taken = []") auto
  from Cons.IH [OF stack1 this st1(2)] step show ?case by (simp add: b fun_eq_iff)
qed simp

definition demo_sat :: "demo_term set \<Rightarrow> bool" where
  "demo_sat S \<longleftrightarrow> Truth False \<notin> S \<and> (\<forall>e\<in>S. Neg e \<notin> S)"

lemma demo_check_verdict:
  "fst (demo_check fs) = L_TRUE \<longleftrightarrow> demo_sat (set (concat fs))"
  "fst (demo_check fs) = L_FALSE \<longleftrightarrow> \<not> demo_sat (set (concat fs))"
  "snd (demo_check fs) = fs"
  by (auto simp: demo_check_def demo_conflict_def demo_sat_def list_ex_iff)

lemma demo_solver_laws: "z3_solver_laws demo_z3 (\<lambda>s. s) demo_sat"
  by (simp add: z3_solver_laws_def demo_check_verdict)

definition demo_state :: "(demo_term, nat, demo_term list list) simple_state" where
  "demo_state = simple_start\<lparr>g_solver := Some [[]]\<rparr>"

lemma demo_state_simps [simp]: "g_solver demo_state = Some [[]]" "solver_stack (\<lambda>s. s) demo_state = [[]]"
  by (simp_all add: demo_state_def solver_stack_def)

definition demo_branches :: "demo_term branch list" where
  "demo_branches = [(Some (Atom 1), True, 10), (None, False, 11), (Some (Truth True), True, 12), (Some (Atom 2), False, 13)]"

lemma demo_push:
  "\<exists>st'. push_branches demo_z3 demo_branches demo_state = Inr st'"
  by (simp add: demo_branches_def simple_push_path_constraint_def explore_alternative_def Let_def
      demo_check_def demo_conflict_def)

lemma path_condition_refinement_witness:
  "\<exists>st'. push_branches demo_z3 demo_branches demo_state = Inr st' \<and>
    solver_stack (\<lambda>s. s) st' = [[Neg (Atom 2), Atom 1]] \<and> ast_refs st' (Atom 1) = 1"
proof -
  obtain st' where st': "push_branches demo_z3 demo_branches demo_state = Inr st'"
    using demo_push by blast
  have lits: "path_literals demo_z3 demo_branches = [Neg (Atom 2), Atom 1]"
    by (simp add: demo_branches_def branch_literals_def branch_parts_def negated_def)
  have "ast_refs demo_state (Atom 1) = 0" by (simp add: demo_state_def simple_start_def)
  then have "solver_stack (\<lambda>s. s) st' = [[Neg (Atom 2), Atom 1]] \<and> ast_refs st' (Atom 1) = 1"
    using path_condition_refinement [OF demo_solver_laws _ _ st', of "[]"]
    by (simp add: lits demo_sat_def)
  with st' show ?thesis by blast
qed

subsection \<open>No branch of a real execution stops the program\<close>

text \<open>
  \<open>truth\<close> is the value of Boolean asts under the actual input. The laws are those of the
  simplifier and of negation; \<open>decides\<close> says that the solver recognises assertions that
  the actual input satisfies, which holds of Z3 as long as it does not give up.
\<close>

definition z3_truth_laws :: "('e, 't, 's) z3 \<Rightarrow> ('e \<Rightarrow> bool) \<Rightarrow> ('e \<Rightarrow> bool) \<Rightarrow> bool" where
  "z3_truth_laws Z isbool truth \<longleftrightarrow>
     (\<forall>e. isbool e \<longrightarrow> (\<exists>c. z3_simplify Z e = Some c \<and> isbool c \<and> truth c = truth e)) \<and>
     (\<forall>e. isbool e \<longrightarrow> (\<exists>n. z3_mk_unary Z Z3_not e = Some n \<and> isbool n \<and> truth n = (\<not> truth e))) \<and>
     truth (z3_mk_true Z) \<and> \<not> truth (z3_mk_false Z)"

definition decides :: "('e, 't, 's) z3 \<Rightarrow> ('s \<Rightarrow> 'e list list) \<Rightarrow> ('e \<Rightarrow> bool) \<Rightarrow> bool" where
  "decides Z stack truth \<longleftrightarrow>
     (\<forall>s. (\<forall>e \<in> set (concat (stack s)). truth e) \<longrightarrow> fst (z3_solver_check Z s) = L_TRUE)"

definition real_branch :: "('e \<Rightarrow> bool) \<Rightarrow> ('e \<Rightarrow> bool) \<Rightarrow> 'e branch \<Rightarrow> bool" where
  "real_branch isbool truth = (\<lambda>(expr, taken, site). case expr of None \<Rightarrow> True | Some e \<Rightarrow> isbool e \<and> truth e = taken)"

lemma explore_alternative_total:
  assumes laws: "z3_solver_laws Z stack sat" and dec: "decides Z stack truth" and s: "stack s \<noteq> []"
    and t: "\<forall>e \<in> set (concat (stack s)). truth e" "truth (if taken then c else n)"
  shows "\<exists>st'. explore_alternative Z c n taken s st = Inr st'"
proof -
  note L = z3_solver_lawsD [OF laws]
  define q where "q = z3_solver_assert Z (if taken then n else c) (z3_solver_push Z s)"
  define s4 where "s4 = z3_solver_pop Z 1 (snd (z3_solver_check Z q))"
  define s5 where "s5 = z3_solver_assert Z (if taken then c else n) s4"
  have "stack q = [if taken then n else c] # stack s" by (simp add: q_def L)
  then have "stack s4 = stack s"
    using s L(4) [of 1 "snd (z3_solver_check Z q)"] by (simp add: s4_def L(3))
  then have "stack s5 = ((if taken then c else n) # hd (stack s)) # tl (stack s)"
    using s by (simp add: s5_def L)
  moreover have "concat (stack s) = hd (stack s) @ concat (tl (stack s))"
    using s by (cases "stack s") auto
  ultimately have "\<forall>e \<in> set (concat (stack s5)). truth e" using t by auto
  then have "fst (z3_solver_check Z s5) = L_TRUE"
    using dec unfolding decides_def by blast
  then show ?thesis
    by (auto simp: explore_alternative_def Let_def q_def s4_def s5_def split: prod.splits)
qed

lemma push_path_constraint_total:
  assumes laws: "z3_solver_laws Z stack sat" "z3_truth_laws Z isbool truth" "decides Z stack truth"
    and st: "solver_stack stack st \<noteq> []" "\<forall>e \<in> set (concat (solver_stack stack st)). truth e"
    and b: "real_branch isbool truth (expr, taken, site)"
  shows "(\<exists>st'. simple_push_path_constraint Z expr taken site st = Inr st') \<and>
    (\<forall>e \<in> set (branch_literals Z expr taken). truth e)"
proof (cases expr)
  case None
  then show ?thesis by (simp add: simple_push_path_constraint_def branch_literals_def branch_parts_def)
next
  case (Some e)
  then have e: "isbool e" "truth e = taken" using b by (auto simp: real_branch_def)
  from e laws(2) obtain c where c: "z3_simplify Z e = Some c" "isbool c" "truth c = taken"
    by (auto simp: z3_truth_laws_def)
  from c laws(2) obtain m n where n: "z3_mk_unary Z Z3_not c = Some m" "z3_simplify Z m = Some n"
      "truth n = (\<not> taken)"
    unfolding z3_truth_laws_def by metis
  have const_truth: "truth (z3_mk_true Z)" "\<not> truth (z3_mk_false Z)"
    using laws(2) by (simp_all add: z3_truth_laws_def)
  obtain s where s: "g_solver st = Some s" "stack s \<noteq> []"
    using st(1) by (auto simp: solver_stack_def split: option.splits)
  have "\<exists>st'. explore_alternative Z c n taken s (inc_ref n (inc_ref c st)) = Inr st'"
    by (rule explore_alternative_total [OF laws(1,3) s(2)])
      (use st(2) s c(3) n(3) in \<open>auto simp: solver_stack_def\<close>)
  then have "\<exists>st'. simple_push_path_constraint Z expr taken site st = Inr st'"
    using Some c n s const_truth
    by (auto simp: simple_push_path_constraint_def z3_solver_lawsD(6) [OF laws(1)] Let_def)
  moreover have "\<forall>e \<in> set (branch_literals Z expr taken). truth e"
    using Some c n by (simp add: branch_literals_def branch_parts_def negated_def)
  ultimately show ?thesis ..
qed

text \<open>C16: When every branch condition has the value under the actual input that the branch
  took, no sequence of branches stops the program: neither assertion of
  \<open>_sym_push_path_constraint\<close> fails and no Z3 error occurs, as long as the solver does not
  give up.\<close>

lemma real_executions_continue:
  assumes "z3_solver_laws Z stack sat" "z3_truth_laws Z isbool truth" "decides Z stack truth"
    and "\<forall>b \<in> set bs. real_branch isbool truth b"
    and "solver_stack stack st \<noteq> []" "\<forall>e \<in> set (concat (solver_stack stack st)). truth e"
  shows "\<exists>st'. push_branches Z bs st = Inr st'"
  using assms(4-)
proof (induction bs arbitrary: st)
  case (Cons b bs)
  obtain expr taken site where b: "b = (expr, taken, site)" by (cases b)
  have real: "real_branch isbool truth (expr, taken, site)" using Cons.prems(1) by (simp add: b)
  from push_path_constraint_total [OF assms(1-3) Cons.prems(2,3) real]
  obtain st1 where st1: "simple_push_path_constraint Z expr taken site st = Inr st1"
    and lits: "\<forall>e \<in> set (branch_literals Z expr taken). truth e" by blast
  note stack1 = push_path_constraint_step(1) [OF assms(1) Cons.prems(2) st1]
  have "concat (solver_stack stack st) = hd (solver_stack stack st) @ concat (tl (solver_stack stack st))"
    using Cons.prems(2) by (cases "solver_stack stack st") auto
  then have "\<forall>e \<in> set (concat (solver_stack stack st1)). truth e"
    using stack1 lits Cons.prems(3) by auto
  with Cons.IH [of st1] Cons.prems(1) stack1 have "\<exists>st'. push_branches Z bs st1 = Inr st'" by simp
  then show ?case by (simp add: b st1)
qed simp

fun demo_truth :: "demo_term \<Rightarrow> bool" where
  "demo_truth (Truth b) = b"
| "demo_truth (Atom n) = odd n"
| "demo_truth (Neg t) = (\<not> demo_truth t)"
| "demo_truth _ = False"

lemma demo_not_truth: "demo_truth (demo_not e) = (\<not> demo_truth e)"
  by (cases e rule: demo_not.cases) simp_all

lemma demo_truth_laws: "z3_truth_laws demo_z3 (\<lambda>_. True) demo_truth"
  by (simp add: z3_truth_laws_def demo_not_truth)

lemma demo_decides: "decides demo_z3 (\<lambda>s. s) demo_truth"
  by (auto simp: decides_def demo_check_verdict demo_sat_def)
    (metis demo_truth.simps(3) demo_truth.simps(1))+

lemma real_executions_continue_witness:
  "\<exists>st'. push_branches demo_z3 demo_branches demo_state = Inr st'"
  by (rule real_executions_continue [OF demo_solver_laws demo_truth_laws demo_decides])
    (auto simp: demo_branches_def real_branch_def)

text \<open>C34: The second assertion does not tell "unsatisfiable" from "unknown": where the solver gives
  up (for example at its 10 s timeout), the program stops with "Asserting infeasible path
  constraint", even on a branch that the actual execution took.\<close>

lemma undecided_branch_aborts:
  assumes "branch_parts Z (Some e) = Some (c, n)" "g_solver st = Some s"
    and "\<forall>a b. z3_is_eq_ast Z a b \<longleftrightarrow> a = b"
    and "\<forall>s. fst (z3_solver_check Z s) = L_UNDEF"
  shows "simple_push_path_constraint Z (Some e) taken site st = Inl Assert_failed"
proof -
  obtain c0 where "z3_simplify Z e = Some c0" using assms(1) by (cases "z3_simplify Z e") (auto simp: branch_parts_def)
  moreover have "fst (z3_solver_check Z s') \<noteq> L_TRUE" for s' using assms(4) by simp
  then have "explore_alternative Z c n taken s st' = Inl Assert_failed" for s st'
    by (simp add: explore_alternative_def Let_def case_prod_beta)
  ultimately show ?thesis using assms(1,2,3)
    by (auto simp: simple_push_path_constraint_def branch_parts_def negated_def Let_def split: if_splits)
qed

lemma undecided_branch_aborts_witness:
  "simple_push_path_constraint (demo_z3\<lparr>z3_solver_check := \<lambda>fs. (L_UNDEF, fs)\<rparr>) (Some (Atom 1)) True 7 demo_state =
     Inl Assert_failed"
  by (rule undecided_branch_aborts [where c = "Atom 1" and n = "Neg (Atom 1)" and s = "[[]]"])
    (simp_all add: branch_parts_def negated_def demo_z3_def)

text \<open>C26: For a branch that is neither concrete nor trivial, the alternative is explored: one query
  whose assertions are the path condition so far together with the other outcome of this
  branch; the log gets the query and, only if the solver found those satisfiable, a diverging
  input.\<close>

lemma alternative_is_queried:
  assumes laws: "z3_solver_laws Z stack sat" and "branch_parts Z expr = Some (c, n)"
    and "solver_stack stack st \<noteq> []" "simple_push_path_constraint Z expr taken site st = Inr st'"
  shows "\<exists>q. stack q = [if taken then n else c] # solver_stack stack st \<and>
    log_text st' = log_text st @ query_log Z q \<and>
    (fst (z3_solver_check Z q) = L_TRUE \<longrightarrow>
       sat (insert (if taken then n else c) (set (concat (solver_stack stack st)))))"
proof -
  obtain s where s: "g_solver st = Some s"
      "explore_alternative Z c n taken s (inc_ref n (inc_ref c st)) = Inr st'"
    using push_path_constraint_cases [OF laws assms(4)] assms(2) by auto
  then have "stack s \<noteq> []" using assms(3) by (simp add: solver_stack_def)
  from explore_alternative_spec(1) [OF laws this s(2)] obtain q where
    q: "stack q = [if taken then n else c] # stack s" "log_text st' = log_text st @ query_log Z q"
    by auto
  have "fst (z3_solver_check Z q) = L_TRUE \<Longrightarrow> sat (set (concat (stack q)))"
    by (rule z3_solver_lawsD(5) [OF laws])
  with q s show ?thesis by (intro exI [of _ q]) (simp add: solver_stack_def)
qed

lemma alternative_is_queried_witness:
  "\<exists>st'. simple_push_path_constraint demo_z3 (Some (Atom 1)) True 10 demo_state = Inr st' \<and>
    (\<exists>q. q = [Neg (Atom 1)] # [[]] \<and> log_text st' = log_text demo_state @ query_log demo_z3 q)"
proof -
  obtain st' where st': "simple_push_path_constraint demo_z3 (Some (Atom 1)) True 10 demo_state = Inr st'"
    by (simp add: simple_push_path_constraint_def explore_alternative_def Let_def demo_check_def demo_conflict_def)
  have "branch_parts demo_z3 (Some (Atom 1)) = Some (Atom 1, Neg (Atom 1))"
    by (simp add: branch_parts_def negated_def)
  from alternative_is_queried [OF demo_solver_laws this _ st'] st' show ?thesis by auto
qed

text \<open>\<open>_sym_feasible\<close> answers a question without leaving a trace: the solver's scopes, the
  reference counts, the registered expressions and the log are as before, and "feasible"
  means that the expression is satisfiable together with the path condition.\<close>

lemma feasible_leaves_no_trace:
  assumes "z3_solver_laws Z stack sat" "simple_feasible Z expr st = Inr (r, st')"
    and "z3_simplify Z expr = Some c" "solver_stack stack st \<noteq> []"
  shows "solver_stack stack st' = solver_stack stack st \<and> ast_refs st' = ast_refs st \<and>
    allocatedExpressions st' = allocatedExpressions st \<and> log_text st' = log_text st \<and>
    (r \<longrightarrow> sat (insert c (set (concat (solver_stack stack st)))))"
proof -
  note L = z3_solver_lawsD [OF assms(1)]
  obtain s where s: "g_solver st = Some s"
    using assms(2,3) by (auto simp: simple_feasible_def global_def Let_def split: option.splits)
  define q where "q = z3_solver_assert Z c (z3_solver_push Z s)"
  define s4 where "s4 = z3_solver_pop Z 1 (snd (z3_solver_check Z q))"
  have q: "stack q = [c] # stack s" by (simp add: q_def L)
  then have s4: "stack s4 = stack s"
    using L(4) [of 1 "snd (z3_solver_check Z q)"] assms(4) s by (simp add: s4_def L(3) solver_stack_def)
  have r: "r \<longleftrightarrow> fst (z3_solver_check Z q) = L_TRUE" and st': "st' = dec_ref c ((inc_ref c st)\<lparr>g_solver := Some s4\<rparr>)"
    using assms(2,3) s by (auto simp: simple_feasible_def Let_def q_def s4_def split: prod.splits)
  then show ?thesis using s s4 q L(5) [of q]
    by (auto simp: solver_stack_def)
qed

lemma feasible_leaves_no_trace_witness:
  "\<exists>st'. simple_feasible demo_z3 (Atom 3) demo_state = Inr (True, st') \<and> demo_sat {Atom 3} \<and>
     solver_stack (\<lambda>s. s) st' = [[]]"
proof -
  obtain st' where st': "simple_feasible demo_z3 (Atom 3) demo_state = Inr (True, st')"
    by (simp add: simple_feasible_def Let_def demo_check_def demo_conflict_def)
  from feasible_leaves_no_trace [OF demo_solver_laws st', of "Atom 3"] st' show ?thesis by simp
qed

end
