(* ===== verification/LiveShadow.thy ===== *)
theory LiveShadow
  imports GarbageCollection
begin

text \<open>
  Which expressions shadow memory can hold: only those that were put there, and only those
  that a backend has registered. \<open>holds pages S\<close> says that every cell of every shadow page
  is null or in \<open>S\<close>. The locale \<open>registering_backend\<close> states the contract of
  \<open>registerExpression\<close>: what a builder returns is known from then on, and nothing is
  forgotten by building.
\<close>

definition holds :: "'e shadow_pages \<Rightarrow> 'e set \<Rightarrow> bool" where
  "holds pages S \<longleftrightarrow> (\<forall>a e. shadow_at pages a = Some e \<longrightarrow> e \<in> S)"

lemma holdsD: "holds pages S \<Longrightarrow> shadow_at pages a = Some e \<Longrightarrow> e \<in> S"
  by (auto simp: holds_def)

lemma holds_mono: "holds pages S \<Longrightarrow> S \<subseteq> S' \<Longrightarrow> holds pages S'"
  by (auto simp: holds_def)

lemma holds_iterator [simp]: "holds (snd (WriteShadowIterator pages a)) S = holds pages S"
  by (simp add: holds_def)

lemma holds_fill_range:
  "holds pages S \<Longrightarrow> set_option v \<subseteq> S \<Longrightarrow> holds (shadow_fill_range a n v pages) S"
  by (auto simp: holds_def shadow_at_fill_range)

text \<open>One write through an iterator, and the step to the next byte.\<close>

lemma holds_assign:
  "holds pages S \<Longrightarrow> iter_view pages it \<Longrightarrow> set_option v \<subseteq> S \<Longrightarrow> holds (write_deref_assign pages it v) S"
  by (auto simp: holds_def shadow_at_write_deref_assign split: if_splits)

lemma holds_increment: "iter_view pages it \<Longrightarrow> holds (snd (write_increment pages it)) S = holds pages S"
  by (simp add: holds_def write_increment_props)

lemma holds_decrement: "iter_view pages it \<Longrightarrow> holds (snd (write_decrement pages it)) S = holds pages S"
  by (simp add: holds_def write_decrement_props)

lemma holds_read:
  assumes "holds pages S" "read_view pages it {}" "read_deref bits pages it = Inr v"
  shows "set_option v \<subseteq> S"
proof (cases "shadow it")
  case (Some p)
  then have "p = cell (address it)" using assms(2) by (simp add: read_view_def iter_view_def)
  with Some assms(1,3) show ?thesis
    by (auto simp: read_deref_def load_shadow_cell bind_result_eq_Inr dest: holdsD split: option.splits)
qed (use assms(3) in \<open>simp add: read_deref_def\<close>)

lemma read_view_dom: "read_view pages it {} \<Longrightarrow> map_dom pages \<subseteq> map_dom pages' \<Longrightarrow> read_view pages' it {}"
  by (auto simp: read_view_def iter_view_def split: if_splits)

lemma holds_copy:
  "holds pages S \<Longrightarrow> iter_view pages res \<Longrightarrow> read_view pages first {} \<Longrightarrow>
   shadow_copy bits first stop res pages = Inr pages' \<Longrightarrow> holds pages' S"
proof (induction "unat (stop - address first)" arbitrary: first res pages rule: less_induct)
  case less
  show ?case
  proof (cases "address first = stop")
    case False
    let ?wr = "\<lambda>v. write_increment (write_deref_assign pages res v) res"
    obtain v where v: "read_deref bits pages first = Inr v"
      "shadow_copy bits (read_increment (snd (?wr v)) first) stop (fst (?wr v)) (snd (?wr v)) = Inr pages'"
      using less.prems(4) False by (subst (asm) shadow_copy.simps) (auto simp: bind_result_eq_Inr Let_def)
    note view = less.prems(2) iter_view_write_deref_assign [of pages res v res, THEN iffD2, OF less.prems(2)]
    have 1: "holds (snd (?wr v)) S"
      using holds_assign [OF less.prems(1) view(1) holds_read [OF less.prems(1,3) v(1)]]
      by (simp add: holds_increment view)
    have 2: "iter_view (snd (?wr v)) (fst (?wr v))" by (rule write_increment_props [OF view(2)])
    have 3: "read_view (snd (?wr v)) (read_increment (snd (?wr v)) first) {}"
      using write_increment_props(2) [OF view(2)]
      by (intro read_view_increment [OF read_view_dom [OF less.prems(3)]]) auto
    show ?thesis
      by (rule less.hyps [OF _ 1 2 3 v(2)]) (use False range_step_less [of "address first" stop] in simp)
  qed (use less.prems in \<open>simp add: shadow_copy.simps [of _ first]\<close>)
qed

lemma holds_copy_backward:
  "holds pages S \<Longrightarrow> iter_view pages res \<Longrightarrow> read_view pages stop {} \<Longrightarrow>
   shadow_copy_backward bits first stop res pages = Inr pages' \<Longrightarrow> holds pages' S"
proof (induction "unat (address stop - first)" arbitrary: stop res pages rule: less_induct)
  case less
  show ?case
  proof (cases "first = address stop")
    case False
    let ?stop = "read_decrement pages stop" and ?wr = "write_decrement pages res"
    let ?pages = "\<lambda>v. write_deref_assign (snd ?wr) (fst ?wr) v"
    obtain v where v: "read_deref bits pages ?stop = Inr v"
      "shadow_copy_backward bits first ?stop (fst ?wr) (?pages v) = Inr pages'"
      using less.prems(4) False by (subst (asm) shadow_copy_backward.simps) (auto simp: bind_result_eq_Inr Let_def)
    note wr = write_decrement_props [OF less.prems(2)]
    have view: "read_view pages ?stop {}" by (rule read_view_decrement [OF less.prems(3)]) simp
    have 1: "holds (?pages v) S"
      by (rule holds_assign [OF _ wr(1) holds_read [OF less.prems(1) view v(1)]])
        (simp add: holds_decrement less.prems)
    have 2: "iter_view (?pages v) (fst ?wr)" by (simp add: wr)
    have 3: "read_view (?pages v) ?stop {}" by (rule read_view_dom [OF view]) (use wr(2) in simp)
    show ?thesis
      by (rule less.hyps [OF _ 1 2 3 v(2)]) (use False range_step_back_less [of first "address stop"] in simp)
  qed (use less.prems in \<open>simp add: shadow_copy_backward.simps [of bits "address stop" stop]\<close>)
qed

lemma holds_copy_start:
  assumes "holds pages S" "shadow_copy bits (ReadShadowIterator pages src) stop
    (fst (WriteShadowIterator pages dest)) (snd (WriteShadowIterator pages dest)) = Inr pages'"
  shows "holds pages' S"
  by (rule holds_copy [OF _ _ _ assms(2)])
    (use assms(1) in \<open>auto intro: read_view_dom [of pages]\<close>)

lemma holds_copy_backward_start:
  assumes "holds pages S" "shadow_copy_backward bits first (ReadShadowIterator pages src)
    (fst (WriteShadowIterator pages dest)) (snd (WriteShadowIterator pages dest)) = Inr pages'"
  shows "holds pages' S"
  by (rule holds_copy_backward [OF _ _ _ assms(2)])
    (use assms(1) in \<open>auto intro: read_view_dom [of pages]\<close>)

lemma holds_memcpy:
  assumes "holds (g_shadow_pages rt) S" "sym_memcpy B dest src len rt = Inr rt'"
  shows "holds (g_shadow_pages rt') S \<and> backend_state rt' = backend_state rt"
  using assms holds_copy_start [OF assms(1)]
  by (auto simp: sym_memcpy_def Let_def bind_result_eq_Inr split_def split: if_splits)

lemma holds_memmove:
  assumes "holds (g_shadow_pages rt) S" "sym_memmove B dest src len rt = Inr rt'"
  shows "holds (g_shadow_pages rt') S \<and> backend_state rt' = backend_state rt"
  using assms holds_copy_start [OF assms(1)] holds_copy_backward_start [OF assms(1)]
  by (auto simp: sym_memmove_def Let_def bind_result_eq_Inr split_def split: if_splits)

lemma holds_memset:
  assumes "holds (g_shadow_pages rt) S" "set_option v \<subseteq> S" "sym_memset B a v len rt = Inr rt'"
  shows "holds (g_shadow_pages rt') S \<and> backend_state rt' = backend_state rt"
  using assms by (auto simp: sym_memset_def bind_result_eq_Inr intro: holds_fill_range split: if_splits)

subsection \<open>Backends that register what they build\<close>

text \<open>\<open>known\<close> is the set of registered expressions, \<open>ok\<close> the backend's invariant.\<close>

definition extends ::
  "('b \<Rightarrow> 'e set) \<Rightarrow> ('b \<Rightarrow> bool) \<Rightarrow> 'b \<Rightarrow> 'b \<Rightarrow> bool" where
  "extends known ok b b' \<longleftrightarrow> known b \<subseteq> known b' \<and> (ok b \<longrightarrow> ok b')"

definition registers ::
  "('b \<Rightarrow> 'e set) \<Rightarrow> ('b \<Rightarrow> bool) \<Rightarrow> 'b \<Rightarrow> ('e \<times> 'b) result \<Rightarrow> bool" where
  "registers known ok b r \<longleftrightarrow> (\<forall>e b'. r = Inr (e, b') \<longrightarrow> e \<in> known b' \<and> extends known ok b b')"

lemma extends_refl [simp]: "extends known ok b b"
  by (simp add: extends_def)

lemma extends_trans [trans]: "extends known ok b b1 \<Longrightarrow> extends known ok b1 b2 \<Longrightarrow> extends known ok b b2"
  by (auto simp: extends_def)

lemma registersD: "registers known ok b r \<Longrightarrow> r = Inr (e, b') \<Longrightarrow> e \<in> known b' \<and> extends known ok b b'"
  by (simp add: registers_def)

definition live ::
  "('b \<Rightarrow> 'e set) \<Rightarrow> ('b \<Rightarrow> bool) \<Rightarrow> ('e, 'b, 'x) runtime_scheme \<Rightarrow> bool" where
  "live known ok rt \<longleftrightarrow> holds (g_shadow_pages rt) (known (backend_state rt)) \<and> ok (backend_state rt)"

locale registering_backend =
  fixes B :: "('e, 'b) backend"
    and known :: "'b \<Rightarrow> 'e set"
    and ok :: "'b \<Rightarrow> bool"
  assumes integer_registers: "registers known ok b (sym_build_integer B v k b)"
    and concat_registers: "registers known ok b (sym_concat_helper B x y b)"
    and extract_registers: "registers known ok b (sym_extract_helper B x hi lo b)"
begin

lemma extract_byte_registers: "registers known ok b (extract_byte B le len x i b)"
  by (simp add: extract_byte_def extract_registers)

lemma holds_write_bytes:
  "holds pages (known b) \<Longrightarrow> iter_view pages it \<Longrightarrow>
   write_bytes B le len expr it stop i pages b = Inr (pages', b') \<Longrightarrow>
   holds pages' (known b') \<and> extends known ok b b'"
proof (induction "unat (stop - address it)" arbitrary: it i pages b rule: less_induct)
  case less
  show ?case
  proof (cases "address it = stop")
    case False
    let ?pages = "\<lambda>e. write_deref_assign pages it (Some e)"
    let ?wr = "\<lambda>e. write_increment (?pages e) it"
    from False less.prems(3) obtain e b1 where e: "extract_byte B le len expr i b = Inr (e, b1)"
      "write_bytes B le len expr (fst (?wr e)) stop (i + 1) (snd (?wr e)) b1 = Inr (pages', b')"
      by (subst (asm) write_bytes.simps) (auto simp: Let_def bind_result_eq_Inr)
    have known: "e \<in> known b1" "extends known ok b b1"
      using registersD [OF extract_byte_registers e(1)] by blast+
    have view: "iter_view (?pages e) it" using less.prems(2) by simp
    have "holds (?pages e) (known b1)"
      using known by (intro holds_assign less.prems(2) holds_mono [OF less.prems(1)]) (auto simp: extends_def)
    then have "holds (snd (?wr e)) (known b1)" by (simp only: holds_increment [OF view])
    from less.hyps [OF _ this write_increment_props(1) [OF view] e(2)]
    have "holds pages' (known b') \<and> extends known ok b1 b'"
      using False range_step_less [of "address it" stop] by simp
    with known(2) show ?thesis by (auto intro: extends_trans)
  qed (use less.prems in \<open>auto simp: write_bytes.simps [of _ _ _ _ it]\<close>)
qed

lemma live_write:
  assumes "live known ok rt" "sym_write_memory B a len v le rt = Inr rt'"
  shows "live known ok rt' \<and> extends known ok (backend_state rt) (backend_state rt')"
proof (cases v)
  case None
  with assms show ?thesis
    by (auto simp: live_def sym_write_memory_def bind_result_eq_Inr intro: holds_fill_range split: if_splits)
next
  case (Some e)
  let ?w1 = "WriteShadowIterator (g_shadow_pages rt) a"
  let ?w2 = "WriteShadowIterator (snd ?w1) (a + len)"
  have "holds (snd ?w2) (known (backend_state rt))"
    using assms(1) by (simp add: live_def)
  moreover have "iter_view (snd ?w2) (fst ?w1)"
    using WriteShadowIterator_props(1) [of "g_shadow_pages rt" a] by (auto simp: iter_view_def)
  moreover obtain pages' b' where w: "rt' = rt\<lparr>g_shadow_pages := pages', backend_state := b'\<rparr>"
    "write_bytes B le len e (fst ?w1) (address (fst ?w2)) 0 (snd ?w2) (backend_state rt) = Inr (pages', b')"
    using assms(2) Some by (auto simp: sym_write_memory_def bind_result_eq_Inr split_def Let_def)
  ultimately have "holds pages' (known b') \<and> extends known ok (backend_state rt) b'"
    by (intro holds_write_bytes)
  with w(1) assms(1) show ?thesis by (simp add: live_def extends_def)
qed

lemma live_memcpy: "live known ok rt \<Longrightarrow> sym_memcpy B dest src len rt = Inr rt' \<Longrightarrow> live known ok rt'"
  unfolding live_def by (metis holds_memcpy)

lemma live_memmove: "live known ok rt \<Longrightarrow> sym_memmove B dest src len rt = Inr rt' \<Longrightarrow> live known ok rt'"
  unfolding live_def by (metis holds_memmove)

lemma live_memset:
  assumes "live known ok rt" "set_option v \<subseteq> known (backend_state rt)" "sym_memset B a v len rt = Inr rt'"
  shows "live known ok rt'"
  using assms(1) holds_memset [OF _ assms(2,3)] by (simp add: live_def)

lemma append_byte_extends:
  assumes "append_byte B le r e b = Inr (x, b')"
  shows "extends known ok b b'"
proof (cases r)
  case None
  with assms show ?thesis by (simp add: append_byte_def)
next
  case (Some r')
  have "registers known ok b (append_byte B le (Some r') e b)"
    by (simp add: append_byte_def concat_registers)
  from registersD [OF this] show ?thesis using assms Some by blast
qed

lemma non_null_deref_extends:
  assumes "non_null_deref B it rt b = Inr (x, b')"
  shows "extends known ok b b'"
proof -
  from assms obtain v where
    v: "(case v of Some e \<Rightarrow> Inr (e, b) | None \<Rightarrow> sym_build_integer B (ucast (memory rt (address it))) 8 b) = Inr (x, b')"
    by (auto simp: non_null_deref_def bind_result_eq_Inr)
  show ?thesis
  proof (cases v)
    case None
    with v registersD [OF integer_registers] show ?thesis by auto
  qed (use v in simp)
qed

lemma accumulate_extends:
  "accumulate_bytes B le rt it stop res b = Inr (r, b') \<Longrightarrow> extends known ok b b'"
proof (induction "unat (stop - address it)" arbitrary: it res b rule: less_induct)
  case less
  show ?case
  proof (cases "address it = stop")
    case False
    with less.prems obtain e b1 r1 b2 where e: "non_null_deref B it rt b = Inr (e, b1)"
      "append_byte B le res e b1 = Inr (r1, b2)"
      "accumulate_bytes B le rt (read_increment (g_shadow_pages rt) it) stop (Some r1) b2 = Inr (r, b')"
      by (subst (asm) accumulate_bytes.simps) (auto simp: bind_result_eq_Inr)
    with less.hyps [OF _ e(3)] range_step_less [of "address it" stop] False
      non_null_deref_extends [OF e(1)] append_byte_extends [OF e(2)]
    show ?thesis by (auto intro: extends_trans)
  qed (use less.prems in \<open>auto simp: accumulate_bytes.simps [of _ _ _ it]\<close>)
qed

lemma live_read:
  assumes "live known ok rt" "sym_read_memory B a len le rt = Inr (v, rt')"
  shows "live known ok rt' \<and> extends known ok (backend_state rt) (backend_state rt') \<and>
    g_shadow_pages rt' = g_shadow_pages rt"
proof -
  obtain b' where b: "rt' = rt\<lparr>backend_state := b'\<rparr>" "extends known ok (backend_state rt) b'"
  proof -
    from assms(2) consider "rt' = rt"
      | b' where "rt' = rt\<lparr>backend_state := b'\<rparr>"
        "accumulate_bytes B le rt (ReadShadowIterator (g_shadow_pages rt) a) (a + len) None (backend_state rt) =
           Inr (v, b')"
      by (auto simp: sym_read_memory_def bind_result_eq_Inr split: if_splits)
    then show ?thesis
    proof cases
      case 1
      then show ?thesis by (intro that [of "backend_state rt"]) simp_all
    next
      case (2 b')
      then show ?thesis by (intro that [of b'] accumulate_extends)
    qed
  qed
  then show ?thesis
    using assms(1) holds_mono [of "g_shadow_pages rt" "known (backend_state rt)" "known b'"]
    by (simp add: live_def extends_def)
qed

end

subsection \<open>What memory operations change\<close>

text \<open>Only the shadow map, which stays well-formed, and the state of the backend.\<close>

definition memory_effect :: "('e, 'b, 'x) runtime_scheme \<Rightarrow> ('e, 'b, 'x) runtime_scheme \<Rightarrow> bool" where
  "memory_effect rt rt' \<longleftrightarrow>
     (\<exists>pages b. rt' = rt\<lparr>g_shadow_pages := pages, backend_state := b\<rparr> \<and>
        (pages_ok (g_shadow_pages rt) \<longrightarrow> pages_ok pages))"

lemma memory_effect_refl: "memory_effect rt rt"
  unfolding memory_effect_def
  by (rule exI [of _ "g_shadow_pages rt"], rule exI [of _ "backend_state rt"]) simp

lemma memory_effect_pages:
  "(pages_ok (g_shadow_pages rt) \<Longrightarrow> pages_ok pages) \<Longrightarrow> memory_effect rt (rt\<lparr>g_shadow_pages := pages\<rparr>)"
  unfolding memory_effect_def
  by (rule exI [of _ pages], rule exI [of _ "backend_state rt"]) simp

lemma memory_effect_backend: "memory_effect rt (rt\<lparr>backend_state := b\<rparr>)"
  unfolding memory_effect_def by (rule exI [of _ "g_shadow_pages rt"], rule exI [of _ b]) simp

lemma memory_effect_memcpy: "sym_memcpy B dest src len rt = Inr rt' \<Longrightarrow> memory_effect rt rt'"
  using pages_ok_copy [OF pages_ok_iterator [of "g_shadow_pages rt" dest]]
  by (auto simp: sym_memcpy_def Let_def bind_result_eq_Inr memory_effect_refl split: if_splits prod.splits
      intro!: memory_effect_pages)

lemma memory_effect_memmove: "sym_memmove B dest src len rt = Inr rt' \<Longrightarrow> memory_effect rt rt'"
  using pages_ok_copy [OF pages_ok_iterator [of "g_shadow_pages rt" dest]]
    pages_ok_copy_backward [OF pages_ok_iterator [of "g_shadow_pages rt" "dest + len"]]
  by (auto simp: sym_memmove_def Let_def bind_result_eq_Inr memory_effect_refl split: if_splits prod.splits
      intro!: memory_effect_pages)

lemma memory_effect_memset: "sym_memset B a v len rt = Inr rt' \<Longrightarrow> memory_effect rt rt'"
  by (auto simp: sym_memset_def bind_result_eq_Inr memory_effect_refl split: if_splits
      intro!: memory_effect_pages pages_ok_fill_range)

lemma memory_effect_read: "sym_read_memory B a len le rt = Inr (v, rt') \<Longrightarrow> memory_effect rt rt'"
  by (auto simp: sym_read_memory_def bind_result_eq_Inr memory_effect_refl memory_effect_backend split: if_splits)

lemma memory_effect_write:
  assumes "sym_write_memory B a len v le rt = Inr rt'"
  shows "memory_effect rt rt'"
proof (cases v)
  case None
  with assms show ?thesis
    by (auto simp: sym_write_memory_def bind_result_eq_Inr memory_effect_refl split: if_splits
        intro!: memory_effect_pages pages_ok_fill_range)
next
  case (Some e)
  let ?w1 = "WriteShadowIterator (g_shadow_pages rt) a"
  let ?w2 = "WriteShadowIterator (snd ?w1) (a + len)"
  obtain pages' b' where w: "rt' = rt\<lparr>g_shadow_pages := pages', backend_state := b'\<rparr>"
    "write_bytes B le len e (fst ?w1) (address (fst ?w2)) 0 (snd ?w2) (backend_state rt) = Inr (pages', b')"
    using assms Some by (auto simp: sym_write_memory_def bind_result_eq_Inr split_def Let_def)
  moreover have "pages_ok (g_shadow_pages rt) \<longrightarrow> pages_ok pages'"
    using pages_ok_write_bytes [OF pages_ok_iterator [OF pages_ok_iterator] w(2)] by blast
  ultimately show ?thesis unfolding memory_effect_def by blast
qed

end
