(* ===== verification/SimpleState.thy ===== *)
theory SimpleState
  imports SimpleSolver LiveShadow
begin

text \<open>
  The life of the simple backend's state: input bytes, reference counts and garbage
  collection. \<open>simple_step\<close> is one call of the program into the backend; \<open>simple_inv\<close> is
  the invariant of the states that any sequence of calls reaches.
\<close>

subsection \<open>Input bytes\<close>

text \<open>What Z3 does for the variables: an 8-bit sort and one constant per name.\<close>

definition names_variables :: "('e, 't, 's) z3 \<Rightarrow> (string \<Rightarrow> 'e) \<Rightarrow> bool" where
  "names_variables Z v \<longleftrightarrow>
     (\<exists>t. z3_mk_bv_sort Z 8 = Some t \<and> (\<forall>name. z3_mk_const Z name t = Some (v name)))"

lemma build_variable_eq:
  assumes "names_variables Z v"
  shows "\<exists>st1. build_variable Z name 8 st = Inr (v name, st1) \<and> stdinBytes st1 = stdinBytes st \<and>
    allocatedExpressions st1 = allocatedExpressions st \<and> g_solver st1 = g_solver st \<and>
    ast_refs st1 = (ast_refs st)(v name := ast_refs st (v name) + 1) \<and> sort_refs st1 = sort_refs st"
  using assms by (auto simp: names_variables_def build_variable_def with_sort_def)

lemma get_input_byte_new:
  assumes "names_variables Z v" "length (stdinBytes st) \<le> unat k"
  shows "\<exists>st1. simple_get_input_byte Z k st = Inr (Some (v (''stdin'' @ to_string (length (stdinBytes st)))), st1) \<and>
    stdinBytes st1 = stdinBytes st @ replicate (unat k - length (stdinBytes st)) None @
      [Some (v (''stdin'' @ to_string (length (stdinBytes st))))]"
  using build_variable_eq [OF assms(1), of "''stdin'' @ to_string (length (stdinBytes st))" st] assms(2)
  by (auto simp: simple_get_input_byte_def Let_def)

fun get_input_bytes ::
  "('e, 't, 's) z3 \<Rightarrow> addr list \<Rightarrow> ('e, 't, 's) simple_state \<Rightarrow> ('e option list \<times> ('e, 't, 's) simple_state) result" where
  "get_input_bytes Z [] st = Inr ([], st)"
| "get_input_bytes Z (k # ks) st =
     bind_result (simple_get_input_byte Z k st) (\<lambda>(e, st1).
     bind_result (get_input_bytes Z ks st1) (\<lambda>(es, st2). Inr (e # es, st2)))"

lemma get_input_bytes_in_order:
  assumes "names_variables Z v" "m + n < 2 ^ 64" "length (stdinBytes st) = m"
  shows "\<exists>st'. get_input_bytes Z (map of_nat [m..<m + n]) st =
      Inr (map (\<lambda>i. Some (v (''stdin'' @ to_string i))) [m..<m + n], st') \<and> length (stdinBytes st') = m + n"
  using assms(2,3)
proof (induction n arbitrary: m st)
  case (Suc n)
  have m: "unat (of_nat m :: addr) = m" by (rule unat_of_nat_small) (use Suc.prems(1) in simp)
  obtain st1 where st1: "simple_get_input_byte Z (of_nat m) st = Inr (Some (v (''stdin'' @ to_string m)), st1)"
      "length (stdinBytes st1) = Suc m"
    using get_input_byte_new [OF assms(1), of st "of_nat m"] m Suc.prems(2) by auto
  have "[m..<m + Suc n] = m # [Suc m..<Suc m + n]" by (simp add: upt_conv_Cons)
  moreover have "Suc m + n < 2 ^ 64" using Suc.prems(1) by simp
  from Suc.IH [OF this st1(2)] obtain st' where
    "get_input_bytes Z (map of_nat [Suc m..<Suc m + n]) st1 =
      Inr (map (\<lambda>i. Some (v (''stdin'' @ to_string i))) [Suc m..<Suc m + n], st')"
    "length (stdinBytes st') = Suc m + n" by blast
  ultimately show ?case using st1 by (auto simp del: upt_Suc)
qed simp

text \<open>Reading the input from its beginning, the byte at offset \<open>i\<close> gets the 8-bit variable
  named \<open>stdin<i>\<close>, and different offsets get different variables.\<close>

lemma input_bytes_in_order:
  assumes "names_variables Z v" "n < 2 ^ 64" "stdinBytes st = []"
  shows "\<exists>st'. get_input_bytes Z (map of_nat [0..<n]) st =
      Inr (map (\<lambda>i. Some (v (''stdin'' @ to_string i))) [0..<n], st') \<and>
    (inj v \<longrightarrow> distinct (map (\<lambda>i. Some (v (''stdin'' @ to_string i))) [0..<n]))"
proof -
  have "distinct (map (\<lambda>i. Some (v (''stdin'' @ to_string i))) [0..<n])" if "inj v"
    unfolding distinct_map by (rule conjI [OF distinct_upt inj_onI]) (simp add: inj_eq [OF that] to_string_inject)
  moreover have "\<exists>st'. get_input_bytes Z (map of_nat [0..<0 + n]) st =
      Inr (map (\<lambda>i. Some (v (''stdin'' @ to_string i))) [0..<0 + n], st') \<and> length (stdinBytes st') = 0 + n"
    by (rule get_input_bytes_in_order [OF assms(1)]) (use assms(2,3) in simp_all)
  ultimately show ?thesis by auto
qed

lemma demo_names_variables: "names_variables demo_z3 (\<lambda>s. Var s 8)"
  by (simp add: names_variables_def)

lemma input_bytes_in_order_witness:
  "\<exists>st'. get_input_bytes demo_z3 (map of_nat [0..<3]) demo_state =
      Inr (map (\<lambda>i. Some (Var (''stdin'' @ to_string i) 8)) [0..<3], st') \<and>
    (inj (\<lambda>s. Var s 8) \<longrightarrow> distinct (map (\<lambda>i. Some (Var (''stdin'' @ to_string i) 8)) [0..<3]))"
  by (rule input_bytes_in_order [OF demo_names_variables]) (simp_all add: demo_state_def simple_start_def)

subsection \<open>Builders\<close>

text \<open>C25: Every function of the simple backend that builds an expression, the bit casts between
  floats and integers included, registers its result and balances its references: the result is in
  the set of allocated expressions and holds a reference, or it is null (of a bit cast of null) and
  nothing has changed; no reference count goes down, those of sorts are as before, no expression is
  forgotten, and neither the input bytes nor the solver are touched.\<close>

lemma builders_register_results:
  assumes "f \<in> expression_builders Z" "f st = Inr (x, st')" "refs_ok st"
  shows "(case x of None \<Rightarrow> st' = st | Some e \<Rightarrow> e \<in> allocatedExpressions st' \<and> 0 < ast_refs st' e) \<and>
    refs_ok st' \<and> sort_refs st' = sort_refs st \<and>
    allocatedExpressions st \<subseteq> allocatedExpressions st' \<and> (\<forall>x. ast_refs st x \<le> ast_refs st' x) \<and>
    stdinBytes st' = stdinBytes st \<and> g_solver st' = g_solver st"
proof -
  note b = expression_builders_build [OF assms(1,2)]
  then have ok: "refs_ok st'" using assms(3) by (simp add: grows_def)
  then have "case x of None \<Rightarrow> st' = st | Some e \<Rightarrow> e \<in> allocatedExpressions st' \<and> 0 < ast_refs st' e"
    using b unfolding refs_ok_def by (auto split: option.splits)
  then show ?thesis using b ok unfolding grows_def by blast
qed

lemma builders_register_results_witness:
  "\<exists>e st'. simple_build_bits_to_float (demo_z3\<lparr>z3_mk_fpa_sort_single := Some 0, z3_mk_fpa_to_fp_bv := \<lambda>_ _. Some (Atom 4)\<rparr>) (Some (Bv 32 0)) 0 simple_start =
      Inr (Some e, st') \<and> e \<in> allocatedExpressions st' \<and> 0 < ast_refs st' e \<and> sort_refs st' = (\<lambda>_. 0)"
proof -
  let ?Z = "demo_z3\<lparr>z3_mk_fpa_sort_single := Some 0, z3_mk_fpa_to_fp_bv := \<lambda>_ _. Some (Atom 4)\<rparr>"
  obtain e st' where r: "simple_build_bits_to_float ?Z (Some (Bv 32 0)) 0 simple_start = Inr (Some e, st')"
    by (simp add: simple_build_bits_to_float_def some_expr_def with_sort_def register_result_def fsort_def demo_z3_def)
  have "refs_ok simple_start" by (simp add: refs_ok_def simple_start_def)
  from builders_register_results [OF bits_to_float r this] r show ?thesis by (auto simp: simple_start_def)
qed

text \<open>The backend registers what it builds, so shadow memory only holds registered expressions.\<close>

lemma builds_registers: "builds f \<Longrightarrow> registers allocatedExpressions refs_ok st (f st)"
  unfolding builds_def grows_def registers_def extends_def by blast

interpretation simple_registering: registering_backend "simple_backend Z" allocatedExpressions refs_ok
  for Z :: "('e, 't, 's) z3"
  by unfold_locales
    (simp_all, (rule builds_registers simple_builders_build build_integer concat_helper extract_helper)+)

subsection \<open>Garbage collection\<close>

text \<open>C18: Garbage collection. Below the threshold nothing happens. Otherwise an expression stays
  registered exactly if a registered expression region holds it or it is the shadow of some
  byte of memory. Reference counts do not change: what is dropped from the set keeps its
  reference, so Z3 frees nothing.\<close>

lemma garbage_collection_spec:
  assumes "pages_ok (g_shadow_pages rt)"
  shows "if card (allocatedExpressions (backend_state rt)) < unat (garbageCollectionThreshold cfg)
    then simple_collect_garbage cfg rt = rt
    else
      (\<forall>e. e \<in> allocatedExpressions (backend_state (simple_collect_garbage cfg rt)) \<longleftrightarrow>
        e \<in> allocatedExpressions (backend_state rt) \<and>
        ((\<exists>(start, len) \<in> set (expressionRegions rt). \<exists>i < unat len. expr_memory rt (start + 8 * of_nat i) = Some e) \<or>
         (\<exists>a. shadow_at (g_shadow_pages rt) a = Some e))) \<and>
      ast_refs (backend_state (simple_collect_garbage cfg rt)) = ast_refs (backend_state rt) \<and>
      g_shadow_pages (simple_collect_garbage cfg rt) = g_shadow_pages rt"
  using collectReachable_iff [OF assms] by (auto simp: simple_collect_garbage_def Let_def)

lemma garbage_collection_spec_witness:
  "Bv 8 7 \<in> allocatedExpressions (backend_state (simple_collect_garbage
      (default_config\<lparr>garbageCollectionThreshold := 1\<rparr>) demo_mem))"
proof -
  have "pages_ok demo_pages"
    by (auto simp: pages_ok_def demo_pages_def map_wf_def pageStart_def kPageSize_def)
  then have ok: "pages_ok (g_shadow_pages demo_mem)" by (simp add: demo_mem_def)
  have "shadow_at (g_shadow_pages demo_mem) 0x1005 = Some (Bv 8 7)"
    by (simp add: demo_mem_def shadow_at_demo_pages pageStart_def pageOffset_def kPageSize_def)
  then show ?thesis
    using garbage_collection_spec [OF ok, of "default_config\<lparr>garbageCollectionThreshold := 1\<rparr>"]
    by (auto simp: demo_mem_def demo_rt_def)
qed

subsection \<open>Reachable states\<close>

inductive simple_step ::
  "('e, 't, 's) z3 \<Rightarrow> config \<Rightarrow> ('e, ('e, 't, 's) simple_state) runtime \<Rightarrow>
   ('e, ('e, 't, 's) simple_state) runtime \<Rightarrow> bool"
  for Z :: "('e, 't, 's) z3" and cfg :: config where
  build: "f \<in> expression_builders Z \<Longrightarrow> f (backend_state rt) = Inr (e, b) \<Longrightarrow>
    simple_step Z cfg rt (rt\<lparr>backend_state := b\<rparr>)"
| input: "simple_get_input_byte Z k (backend_state rt) = Inr (v, b) \<Longrightarrow>
    simple_step Z cfg rt (rt\<lparr>backend_state := b\<rparr>)"
| branch: "simple_push_path_constraint Z expr taken site (backend_state rt) = Inr b \<Longrightarrow>
    simple_step Z cfg rt (rt\<lparr>backend_state := b\<rparr>)"
| feasible: "simple_feasible Z expr (backend_state rt) = Inr (r, b) \<Longrightarrow>
    simple_step Z cfg rt (rt\<lparr>backend_state := b\<rparr>)"
| memory: "simple_step Z cfg rt (rt\<lparr>g_shadow_pages := pages, expressionRegions := regions,
    expr_memory := cells, memory := m, g_return_value := ret, g_function_arguments := args\<rparr>)"
| collect: "simple_step Z cfg rt (simple_collect_garbage cfg rt)"

inductive_cases simple_step_cases: "simple_step Z cfg rt rt'"

definition simple_inv :: "('e, 't, 's) simple_state \<Rightarrow> bool" where
  "simple_inv st \<longleftrightarrow> refs_ok st \<and> sort_refs st = (\<lambda>_. 0) \<and>
     (\<forall>e. Some e \<in> set (stdinBytes st) \<longrightarrow> 0 < ast_refs st e)"

definition refs_le :: "('e, 't, 's) simple_state \<Rightarrow> ('e, 't, 's) simple_state \<Rightarrow> bool" where
  "refs_le st st' \<longleftrightarrow> (\<forall>x. ast_refs st x \<le> ast_refs st' x)"

lemma simple_inv_mono:
  assumes "simple_inv st" "refs_le st st'" "allocatedExpressions st' \<subseteq> allocatedExpressions st"
    "stdinBytes st' = stdinBytes st" "sort_refs st' = sort_refs st"
  shows "simple_inv st'"
proof -
  have up: "0 < ast_refs st e \<Longrightarrow> 0 < ast_refs st' e" "0 \<le> ast_refs st e \<Longrightarrow> 0 \<le> ast_refs st' e" for e
    using assms(2) by (auto simp: refs_le_def intro: order_trans less_le_trans)
  show ?thesis using assms(1,3-) up unfolding simple_inv_def refs_ok_def by auto
qed

lemma input_step:
  assumes "simple_get_input_byte Z k st = Inr (v, st')"
  shows "refs_le st st' \<and> (simple_inv st \<longrightarrow> simple_inv st')"
proof (cases "unat k < length (stdinBytes st)")
  case True
  with assms show ?thesis by (auto simp: simple_get_input_byte_def refs_le_def)
next
  case False
  then obtain t x where x: "z3_mk_const Z (''stdin'' @ to_string (length (stdinBytes st))) t = Some x"
    and st': "st' = (dec_ref_sort t (inc_ref x (inc_ref_sort t st)))\<lparr>stdinBytes :=
        stdinBytes st @ replicate (unat k - length (stdinBytes st)) None @ [Some x]\<rparr>"
    using assms by (auto simp: simple_get_input_byte_def Let_def build_variable_def with_sort_def
        bind_result_eq_Inr handle_z3_error_eq_Inr)
  show ?thesis unfolding st' simple_inv_def refs_ok_def refs_le_def
    by (auto simp: add_nonneg_pos add_pos_nonneg fun_eq_iff)
qed

definition same_tables :: "('e, 't, 's) simple_state \<Rightarrow> ('e, 't, 's) simple_state \<Rightarrow> bool" where
  "same_tables st st' \<longleftrightarrow> refs_le st st' \<and> allocatedExpressions st' = allocatedExpressions st \<and>
     stdinBytes st' = stdinBytes st \<and> sort_refs st' = sort_refs st"

lemma same_tables_inv:
  assumes "same_tables st st'"
  shows "refs_le st st' \<and> (simple_inv st \<longrightarrow> simple_inv st')"
  using assms simple_inv_mono [of st st'] by (simp add: same_tables_def)

lemma explore_alternative_step:
  assumes "explore_alternative Z c n taken s (inc_ref n (inc_ref c st)) = Inr st'"
  shows "same_tables st st'"
  using assms
  by (cases taken) (auto simp: explore_alternative_def bind_result_eq_Inr Let_def case_prod_beta
      same_tables_def refs_le_def split: if_splits)

lemma branch_step:
  assumes "simple_push_path_constraint Z expr taken site st = Inr st'"
  shows "same_tables st st'"
proof (cases expr)
  case None
  with assms show ?thesis by (simp add: simple_push_path_constraint_def same_tables_def refs_le_def)
next
  case (Some e)
  with assms show ?thesis
    by (auto simp: simple_push_path_constraint_def bind_result_eq_Inr Let_def split: if_splits
        intro: explore_alternative_step)
      (auto simp: same_tables_def refs_le_def)
qed

lemma feasible_step:
  assumes "simple_feasible Z expr st = Inr (r, st')"
  shows "same_tables st st'"
  using assms
  by (auto simp: simple_feasible_def bind_result_eq_Inr Let_def refs_le_def case_prod_beta same_tables_def)

lemma simple_step_inv:
  assumes "simple_step Z cfg rt rt'"
  shows "refs_le (backend_state rt) (backend_state rt') \<and>
    (simple_inv (backend_state rt) \<longrightarrow> simple_inv (backend_state rt'))"
  using assms
proof cases
  case (build f e b)
  then have "grows (backend_state rt) b" "sort_refs b = sort_refs (backend_state rt)"
    using expression_builders_build [OF build(2,3)] by auto
  then have "refs_le (backend_state rt) b \<and> (simple_inv (backend_state rt) \<longrightarrow> simple_inv b)"
    unfolding grows_def simple_inv_def refs_le_def by (auto intro: less_le_trans)
  then show ?thesis using build(1) by simp
next
  case (branch expr taken site b)
  with same_tables_inv [OF branch_step [OF branch(2)]] show ?thesis by simp
next
  case (feasible expr r b)
  with same_tables_inv [OF feasible_step [OF feasible(2)]] show ?thesis by simp
next
  case collect
  then show ?thesis
    by (auto simp: simple_collect_garbage_def Let_def refs_le_def intro!: simple_inv_mono
        [of "backend_state rt"])
next
  case (input k v b)
  with input_step [OF input(2)] show ?thesis by simp
qed (simp add: refs_le_def)

text \<open>C17: In every state that a program can bring the backend into after initialisation, each
  registered expression and each input byte holds a reference (so it is safe to hand it to
  Z3), no reference to a sort is left over, and no reference count has ever gone down since
  any earlier state: nothing that Z3 was asked to keep is ever released.\<close>

lemma reachable_states_hold_references:
  assumes "(simple_step Z cfg)\<^sup>*\<^sup>* rt rt'" "simple_inv (backend_state rt)"
  shows "(\<forall>e \<in> allocatedExpressions (backend_state rt'). 0 < ast_refs (backend_state rt') e) \<and>
    (\<forall>e. Some e \<in> set (stdinBytes (backend_state rt')) \<longrightarrow> 0 < ast_refs (backend_state rt') e) \<and>
    sort_refs (backend_state rt') = (\<lambda>_. 0) \<and>
    (\<forall>x. ast_refs (backend_state rt) x \<le> ast_refs (backend_state rt') x)"
proof -
  from assms have "simple_inv (backend_state rt') \<and> refs_le (backend_state rt) (backend_state rt')"
  proof (induction rule: rtranclp_induct)
    case (step y z)
    then show ?case using simple_step_inv [OF step.hyps(2)]
      by (auto simp: refs_le_def intro: order_trans)
  qed (simp add: refs_le_def)
  then show ?thesis by (auto simp: simple_inv_def refs_ok_def refs_le_def)
qed

lemma reachable_states_hold_references_witness:
  "\<exists>rt'. (simple_step demo_z3 default_config)\<^sup>*\<^sup>* ((demo_rt (Bv 8 0))\<lparr>backend_state := demo_state\<rparr>) rt' \<and>
    0 < ast_refs (backend_state rt') (Bv 8 7)"
proof -
  let ?rt = "(demo_rt (Bv 8 0))\<lparr>backend_state := demo_state\<rparr>"
  obtain b where b: "simple_build_integer demo_z3 7 8 demo_state = Inr (Bv 8 7, b)"
    by (simp add: simple_build_integer_def with_sort_def register_result_def)
  have "simple_step demo_z3 default_config ?rt (?rt\<lparr>backend_state := b\<rparr>)"
    by (rule simple_step.build [OF builder [OF simple_builders.build_integer [of demo_z3 7 8]]]) (use b in \<open>simp add: some_expr_def\<close>)
  then have steps: "(simple_step demo_z3 default_config)\<^sup>*\<^sup>* ?rt (?rt\<lparr>backend_state := b\<rparr>)" by blast
  have inv: "simple_inv (backend_state ?rt)"
    by (simp add: simple_inv_def refs_ok_def demo_state_def simple_start_def)
  have "Bv 8 7 \<in> allocatedExpressions b"
    using simple_builders_build [OF simple_builders.build_integer [of demo_z3 7 8]] b
    unfolding builds_def by blast
  then show ?thesis using reachable_states_hold_references [OF steps inv] steps by auto
qed

text \<open>The cache of input bytes only grows: what it says about an offset never changes again.\<close>

lemma simple_step_input:
  assumes "simple_step Z cfg rt rt'"
  shows "\<exists>xs. stdinBytes (backend_state rt') = stdinBytes (backend_state rt) @ xs"
  using assms
proof cases
  case (build f e b)
  then show ?thesis using expression_builders_build [OF build(2,3)] by (simp add: grows_def)
next
  case (input k v b)
  then show ?thesis
    by (auto simp: simple_get_input_byte_def Let_def build_variable_def with_sort_def bind_result_eq_Inr
        split: if_splits)
next
  case (branch expr taken site b)
  with branch_step [OF branch(2)] show ?thesis by (simp add: same_tables_def)
next
  case (feasible expr r b)
  with feasible_step [OF feasible(2)] show ?thesis by (simp add: same_tables_def)
next
  case collect
  then show ?thesis by (simp add: simple_collect_garbage_def Let_def)
qed simp

lemma input_cache_grows:
  assumes "(simple_step Z cfg)\<^sup>*\<^sup>* rt rt'"
  shows "\<exists>xs. stdinBytes (backend_state rt') = stdinBytes (backend_state rt) @ xs"
  using assms
proof (induction rule: rtranclp_induct)
  case (step y z)
  then show ?case using simple_step_input [OF step.hyps(2)] by auto
qed simp

text \<open>C33: Requesting a byte beyond the end of the cache gives it the variable of the first missing
  offset instead of its own, and leaves every byte in between without an expression for good:
  whatever the program does afterwards (building expressions, branching, requesting other
  bytes, writing memory, collecting garbage, in any order and number), requesting such a byte
  succeeds with the null expression, as if the input were concrete there.\<close>

lemma skipped_input_is_lost:
  assumes "names_variables Z v" "length (stdinBytes (backend_state rt)) \<le> unat j" "j < k"
    and "simple_get_input_byte Z k (backend_state rt) = Inr (e, b)"
    and "(simple_step Z cfg)\<^sup>*\<^sup>* (rt\<lparr>backend_state := b\<rparr>) rt'"
  shows "e = Some (v (''stdin'' @ to_string (length (stdinBytes (backend_state rt))))) \<and>
    simple_get_input_byte Z j (backend_state rt') = Inr (None, backend_state rt')"
proof -
  let ?bs = "stdinBytes (backend_state rt)"
  have j: "unat j < unat k" using assms(3) by (simp add: word_less_nat_alt)
  then have b: "e = Some (v (''stdin'' @ to_string (length ?bs)))"
    "stdinBytes b = ?bs @ replicate (unat k - length ?bs) None @ [e]"
    using get_input_byte_new [OF assms(1), of "backend_state rt" k] assms(2,4) by auto
  obtain xs where "stdinBytes (backend_state rt') = stdinBytes b @ xs"
    using input_cache_grows [OF assms(5)] by auto
  then have "unat j < length (stdinBytes (backend_state rt'))"
    "stdinBytes (backend_state rt') ! unat j = None"
    using b(2) j assms(2) by (simp_all add: nth_append diff_less_mono)
  then show ?thesis using b(1) by (simp add: simple_get_input_byte_def)
qed

text \<open>Byte 4 is skipped by a request for byte 10; a garbage collection and another request later
  it is still null.\<close>

lemma skipped_input_is_lost_witness:
  "\<exists>b b'. simple_get_input_byte demo_z3 10 demo_state = Inr (Some (Var ''stdin0'' 8), b) \<and>
    (\<exists>e. simple_get_input_byte demo_z3 20 b = Inr (e, b')) \<and>
    simple_get_input_byte demo_z3 4 b' = Inr (None, b')"
proof -
  let ?rt = "(demo_rt (Bv 8 0))\<lparr>backend_state := demo_state\<rparr>"
  obtain e b where b: "simple_get_input_byte demo_z3 10 demo_state = Inr (e, b)" "length (stdinBytes b) = 11"
    using get_input_byte_new [OF demo_names_variables, of demo_state 10]
    by (auto simp: demo_state_def simple_start_def)
  obtain e' b' where b': "simple_get_input_byte demo_z3 20 b = Inr (e', b')"
    using get_input_byte_new [OF demo_names_variables, of b 20] b(2) by auto
  have "(simple_step demo_z3 default_config)\<^sup>*\<^sup>* (?rt\<lparr>backend_state := b\<rparr>) (?rt\<lparr>backend_state := b\<rparr>\<lparr>backend_state := b'\<rparr>)"
    by (rule r_into_rtranclp, rule simple_step.input [of _ 20 _ e']) (use b' in simp)
  note steps = this
  have "to_string 0 = ''0''" by (subst to_string.simps) (simp add: digit_char_def char_of_def bit_iff_odd)
  then show ?thesis
    using skipped_input_is_lost [OF demo_names_variables, of ?rt 4 10 e b, OF _ _ _ steps] b b'
    by (simp add: demo_state_def simple_start_def)
qed

end
