(* ===== verification/LibcWrappers.thy ===== *)
theory LibcWrappers
  imports GarbageCollection Config
begin

text \<open>
  runtime/LibcWrappers.cpp: the functions that instrumented programs call instead of those of
  the C library. \<open>program\<close> extends the run-time state by the position in the symbolic input,
  \<open>errno\<close> and the state \<open>'w\<close> of the operating system and of the streams. What the C library
  does with files and allocation is a parameter (the record \<open>libc\<close>); its functions on memory
  (\<open>memcpy\<close>, \<open>strlen\<close>, ...) are the ones of the language and are defined here. A \<open>SYM\<close>
  function \<open>f\<close> is called \<open>f_symbolized\<close>, as in the source; null pointers are address 0.
\<close>

type_synonym mem = "addr \<Rightarrow> byte"

record 'w libc =
  wrapper_address :: "string \<Rightarrow> addr"
  libc_malloc :: "addr \<Rightarrow> 'w \<Rightarrow> addr \<times> 'w"
  libc_calloc :: "addr \<Rightarrow> addr \<Rightarrow> mem \<Rightarrow> 'w \<Rightarrow> addr \<times> mem \<times> 'w"
  libc_mmap64 :: "addr \<Rightarrow> addr \<Rightarrow> int \<Rightarrow> int \<Rightarrow> int \<Rightarrow> u64 \<Rightarrow> mem \<Rightarrow> 'w \<Rightarrow> addr \<times> mem \<times> 'w"
  libc_open :: "string \<Rightarrow> int \<Rightarrow> u32 \<Rightarrow> 'w \<Rightarrow> int \<times> 'w"
  libc_read :: "int \<Rightarrow> addr \<Rightarrow> addr \<Rightarrow> mem \<Rightarrow> 'w \<Rightarrow> int \<times> mem \<times> 'w"
  libc_lseek64 :: "int \<Rightarrow> u64 \<Rightarrow> int \<Rightarrow> 'w \<Rightarrow> u64 \<times> 'w"
  libc_fopen :: "string \<Rightarrow> string \<Rightarrow> 'w \<Rightarrow> addr \<times> 'w"
  libc_fopen64 :: "string \<Rightarrow> string \<Rightarrow> 'w \<Rightarrow> addr \<times> 'w"
  libc_fileno :: "addr \<Rightarrow> 'w \<Rightarrow> int"
  libc_fread :: "addr \<Rightarrow> addr \<Rightarrow> addr \<Rightarrow> addr \<Rightarrow> mem \<Rightarrow> 'w \<Rightarrow> addr \<times> mem \<times> 'w"
  libc_fgets :: "addr \<Rightarrow> int \<Rightarrow> addr \<Rightarrow> mem \<Rightarrow> 'w \<Rightarrow> addr \<times> mem \<times> 'w"
  libc_rewind :: "addr \<Rightarrow> 'w \<Rightarrow> 'w"
  libc_fseek :: "addr \<Rightarrow> int \<Rightarrow> int \<Rightarrow> 'w \<Rightarrow> int \<times> 'w"
  libc_ftell :: "addr \<Rightarrow> 'w \<Rightarrow> int \<times> 'w"
  libc_fseeko :: "addr \<Rightarrow> int \<Rightarrow> int \<Rightarrow> 'w \<Rightarrow> int \<times> 'w"
  libc_ftello :: "addr \<Rightarrow> 'w \<Rightarrow> int \<times> 'w"
  libc_fseeko64 :: "addr \<Rightarrow> u64 \<Rightarrow> int \<Rightarrow> 'w \<Rightarrow> int \<times> 'w"
  libc_ftello64 :: "addr \<Rightarrow> 'w \<Rightarrow> int \<times> 'w"
  libc_getc :: "addr \<Rightarrow> 'w \<Rightarrow> int \<times> 'w"
  libc_fgetc :: "addr \<Rightarrow> 'w \<Rightarrow> int \<times> 'w"
  libc_ungetc :: "int \<Rightarrow> addr \<Rightarrow> 'w \<Rightarrow> int \<times> 'w"
  libc_memcmp :: "byte list \<Rightarrow> byte list \<Rightarrow> int"

record ('e, 'b, 'w) program = "('e, 'b) runtime" +
  inputFileDescriptor :: int
  inputOffset :: u64
  errno :: int
  warnings :: "string list"
  world :: 'w

subsection \<open>The C library on memory\<close>

definition copy_memory :: "addr \<Rightarrow> addr \<Rightarrow> nat \<Rightarrow> mem \<Rightarrow> mem" where
  "copy_memory dest src n m = (\<lambda>c. if in_region dest n c then m (src + (c - dest)) else m c)"

definition set_memory :: "addr \<Rightarrow> byte \<Rightarrow> nat \<Rightarrow> mem \<Rightarrow> mem" where
  "set_memory a v n m = (\<lambda>c. if in_region a n c then v else m c)"

fun strnlen :: "mem \<Rightarrow> addr \<Rightarrow> nat \<Rightarrow> nat" where
  "strnlen m a 0 = 0"
| "strnlen m a (Suc n) = (if m a = 0 then 0 else Suc (strnlen m (a + 1) n))"

text \<open>A string ends within the address space, so \<open>2 ^ 64\<close> steps find its end.\<close>

definition strlen :: "mem \<Rightarrow> addr \<Rightarrow> nat" where
  "strlen m a = strnlen m a (2 ^ 64)"

definition c_string :: "mem \<Rightarrow> addr \<Rightarrow> string" where
  "c_string m a = map (\<lambda>k. char_of (unat (m (a + of_nat k)))) [0..<strlen m a]"

definition strncpy_memory :: "addr \<Rightarrow> addr \<Rightarrow> nat \<Rightarrow> mem \<Rightarrow> mem" where
  "strncpy_memory dest src n m =
     (let k = strnlen m src n
      in set_memory (dest + of_nat k) 0 (n - k) (copy_memory dest src k m))"

text \<open>\<open>strchr\<close>: the first occurrence, which may be that of the terminator.\<close>

fun find_char :: "mem \<Rightarrow> addr \<Rightarrow> byte \<Rightarrow> nat \<Rightarrow> addr option" where
  "find_char m a c 0 = None"
| "find_char m a c (Suc n) = (if m a = c then Some a else if m a = 0 then None else find_char m (a + 1) c n)"

definition libc_strchr :: "mem \<Rightarrow> addr \<Rightarrow> int \<Rightarrow> addr option" where
  "libc_strchr m a c = find_char m a (word_of_int c) (2 ^ 64)"

subsection \<open>Alternatives\<close>

definition with_backend ::
  "('b \<Rightarrow> ('a \<times> 'b) result) \<Rightarrow> ('e, 'b, 'x) runtime_scheme \<Rightarrow> ('a \<times> ('e, 'b, 'x) runtime_scheme) result" where
  "with_backend f s = bind_result (f (backend_state s)) (\<lambda>(x, b). Inr (x, s\<lparr>backend_state := b\<rparr>))"

definition push_constraint ::
  "('e, 'b) backend \<Rightarrow> 'e \<Rightarrow> bool \<Rightarrow> addr \<Rightarrow> ('e, 'b, 'x) runtime_scheme \<Rightarrow> ('e, 'b, 'x) runtime_scheme result" where
  "push_constraint B e taken site s =
     bind_result (sym_push_path_constraint B (Some e) taken site (backend_state s))
       (\<lambda>b. Inr (s\<lparr>backend_state := b\<rparr>))"

text \<open>\<open>v\<close> is the value converted to \<open>uint64_t\<close>, \<open>sz\<close> the size of its type in bytes.\<close>

definition tryAlternative ::
  "('e, 'b) backend \<Rightarrow> u64 \<Rightarrow> byte \<Rightarrow> 'e option \<Rightarrow> addr \<Rightarrow> ('e, 'b, 'x) runtime_scheme \<Rightarrow>
   ('e, 'b, 'x) runtime_scheme result" where
  "tryAlternative B v sz valueExpr caller s =
     (case valueExpr of
        None \<Rightarrow> Inr s
      | Some e \<Rightarrow>
          bind_result (with_backend (sym_build_integer B v (sz * 8)) s) (\<lambda>(i, s1).
          bind_result (with_backend (sym_build_equal B e i) s1) (\<lambda>(q, s2).
            push_constraint B q True caller s2)))"

definition initLibcWrappers :: "config \<Rightarrow> ('e, 'b, 'w) program \<Rightarrow> ('e, 'b, 'w) program" where
  "initLibcWrappers g_config s =
     (if fullyConcrete g_config then s
      else if inputFile g_config = [] then s\<lparr>inputFileDescriptor := 0\<rparr>
      else s)"

definition alternatives ::
  "('e, 'b) backend \<Rightarrow> addr \<Rightarrow> (byte \<times> u64 \<times> byte) list \<Rightarrow> ('e, 'b, 'x) runtime_scheme \<Rightarrow>
   ('e, 'b, 'x) runtime_scheme result" where
  "alternatives B caller args s =
     fold (\<lambda>(i, v, sz) r. bind_result r (\<lambda>s.
       tryAlternative B v sz (sym_get_parameter_expression i s) caller s)) args (Inr s)"

subsection \<open>Allocation\<close>

definition malloc_symbolized ::
  "'w libc \<Rightarrow> ('e, 'b) backend \<Rightarrow> addr \<Rightarrow> ('e, 'b, 'w) program \<Rightarrow> (addr \<times> ('e, 'b, 'w) program) result" where
  "malloc_symbolized L B sz s =
     (let (result, w) = libc_malloc L sz (world s);
          s1 = s\<lparr>world := w\<rparr>
      in bind_result (alternatives B (wrapper_address L ''malloc'') [(0, sz, 8)] s1) (\<lambda>s2.
           Inr (result, sym_set_return_expression None s2)))"

definition calloc_symbolized ::
  "'w libc \<Rightarrow> ('e, 'b) backend \<Rightarrow> addr \<Rightarrow> addr \<Rightarrow> ('e, 'b, 'w) program \<Rightarrow> (addr \<times> ('e, 'b, 'w) program) result" where
  "calloc_symbolized L B nmemb sz s =
     (let (result, m, w) = libc_calloc L nmemb sz (memory s) (world s);
          s1 = s\<lparr>memory := m, world := w\<rparr>
      in bind_result (alternatives B (wrapper_address L ''calloc'') [(0, nmemb, 8), (1, sz, 8)] s1) (\<lambda>s2.
           Inr (result, sym_set_return_expression None s2)))"

definition mmap64_symbolized ::
  "'w libc \<Rightarrow> ('e, 'b) backend \<Rightarrow> addr \<Rightarrow> addr \<Rightarrow> int \<Rightarrow> int \<Rightarrow> int \<Rightarrow> u64 \<Rightarrow> ('e, 'b, 'w) program \<Rightarrow>
   (addr \<times> ('e, 'b, 'w) program) result" where
  "mmap64_symbolized L B a len prot flags fildes off s =
     (let (result, m, w) = libc_mmap64 L a len prot flags fildes off (memory s) (world s);
          s1 = s\<lparr>memory := m, world := w\<rparr>
      in bind_result (alternatives B (wrapper_address L ''mmap64'') [(1, len, 8)] s1) (\<lambda>s2.
           Inr (result, sym_set_return_expression None s2)))"

definition mmap_symbolized ::
  "'w libc \<Rightarrow> ('e, 'b) backend \<Rightarrow> addr \<Rightarrow> addr \<Rightarrow> int \<Rightarrow> int \<Rightarrow> int \<Rightarrow> u32 \<Rightarrow> ('e, 'b, 'w) program \<Rightarrow>
   (addr \<times> ('e, 'b, 'w) program) result" where
  "mmap_symbolized L B a len prot flags fildes off = mmap64_symbolized L B a len prot flags fildes (ucast off)"

subsection \<open>Files\<close>

text \<open>\<open>std::generate\<close> over a shadow range: each byte gets the next byte of the input.\<close>

function generate_input ::
  "('e, 'b) backend \<Rightarrow> shadow_iterator \<Rightarrow> addr \<Rightarrow> u64 \<Rightarrow> 'e shadow_pages \<Rightarrow> 'b \<Rightarrow>
   (u64 \<times> 'e shadow_pages \<times> 'b) result" where
  "generate_input B it stop offset pages b =
     (if address it = stop then Inr (offset, pages, b)
      else bind_result (sym_get_input_byte B offset b) (\<lambda>(e, b1).
        let wr = write_increment (write_deref_assign pages it e) it
        in generate_input B (fst wr) stop (offset + 1) (snd wr) b1))"
  by pat_completeness auto
termination
  by (relation "measure (\<lambda>(B, it, stop, offset, pages, b). unat (stop - address it))")
    (auto intro: range_step_less)

declare generate_input.simps [simp del]

text \<open>
  What \<open>read\<close>, \<open>fread\<close> and \<open>fgets\<close> do with the \<open>n\<close> bytes at \<open>buf\<close> that they have filled:
  the input bytes where the file is the symbolic input, otherwise no expression.
\<close>

definition filled_buffer ::
  "('e, 'b) backend \<Rightarrow> bool \<Rightarrow> addr \<Rightarrow> addr \<Rightarrow> ('e, 'b, 'w) program \<Rightarrow> ('e, 'b, 'w) program result" where
  "filled_buffer B is_input buf n s =
     (if is_input then
        (let (first, pages1) = WriteShadowIterator (g_shadow_pages s) buf;
             (stop, pages2) = WriteShadowIterator pages1 (buf + n)
         in bind_result (generate_input B first (address stop) (inputOffset s) pages2 (backend_state s))
              (\<lambda>(offset, pages3, b).
                 Inr (s\<lparr>inputOffset := offset, g_shadow_pages := pages3, backend_state := b\<rparr>)))
      else bind_result (is_concrete B buf n s) (\<lambda>concrete.
        if \<not> concrete
        then Inr (s\<lparr>g_shadow_pages := shadow_fill_range buf n None (g_shadow_pages s)\<rparr>)
        else Inr s))"

definition opened_input ::
  "config \<Rightarrow> string \<Rightarrow> bool \<Rightarrow> int \<Rightarrow> ('e, 'b, 'w) program \<Rightarrow> ('e, 'b, 'w) program" where
  "opened_input g_config path ok fd s =
     (if ok \<and> \<not> fullyConcrete g_config \<and> inputFile g_config \<noteq> [] \<and> strstr path (inputFile g_config)
      then
        let s1 = (if inputFileDescriptor s \<noteq> -1 \<and> \<not> silent g_config
                  then s\<lparr>warnings := warnings s @
                         [''Warning: input file opened multiple times; this is not yet supported'']\<rparr>
                  else s)
        in s1\<lparr>inputFileDescriptor := fd, inputOffset := 0\<rparr>
      else s)"

definition open_symbolized ::
  "'w libc \<Rightarrow> config \<Rightarrow> addr \<Rightarrow> int \<Rightarrow> u32 \<Rightarrow> ('e, 'b, 'w) program \<Rightarrow> int \<times> ('e, 'b, 'w) program" where
  "open_symbolized L g_config path oflag mode s =
     (let (result, w) = libc_open L (c_string (memory s) path) oflag mode (world s);
          s1 = sym_set_return_expression None (s\<lparr>world := w\<rparr>)
      in (result, opened_input g_config (c_string (memory s1) path) (result \<ge> 0) result s1))"

definition read_symbolized ::
  "'w libc \<Rightarrow> ('e, 'b) backend \<Rightarrow> int \<Rightarrow> addr \<Rightarrow> addr \<Rightarrow> ('e, 'b, 'w) program \<Rightarrow>
   (int \<times> ('e, 'b, 'w) program) result" where
  "read_symbolized L B fildes buf nbyte s =
     bind_result (alternatives B (wrapper_address L ''read'') [(1, buf, 8), (2, nbyte, 8)] s) (\<lambda>s1.
       let (result, m, w) = libc_read L fildes buf nbyte (memory s1) (world s1);
           s2 = sym_set_return_expression None (s1\<lparr>memory := m, world := w\<rparr>)
       in if result < 0 then Inr (result, s2)
          else bind_result (filled_buffer B (fildes = inputFileDescriptor s2) buf (word_of_int result) s2)
            (\<lambda>s3. Inr (result, s3)))"

definition SEEK_SET :: int where
  "SEEK_SET = 0"

definition lseek64_symbolized ::
  "'w libc \<Rightarrow> int \<Rightarrow> u64 \<Rightarrow> int \<Rightarrow> ('e, 'b, 'w) program \<Rightarrow> u64 \<times> ('e, 'b, 'w) program" where
  "lseek64_symbolized L fd offset whence s =
     (let (result, w) = libc_lseek64 L fd offset whence (world s);
          s1 = sym_set_return_expression None (s\<lparr>world := w\<rparr>)
      in if result = -1 then (result, s1)
         else
           let s2 = (if whence = SEEK_SET
                     then sym_set_return_expression (sym_get_parameter_expression 1 s1) s1 else s1);
               s3 = (if fd = inputFileDescriptor s2 then s2\<lparr>inputOffset := result\<rparr> else s2)
           in (result, s3))"

definition EOVERFLOW :: int where
  "EOVERFLOW = 75"

definition lseek_symbolized ::
  "'w libc \<Rightarrow> int \<Rightarrow> u32 \<Rightarrow> int \<Rightarrow> ('e, 'b, 'w) program \<Rightarrow> u32 \<times> ('e, 'b, 'w) program" where
  "lseek_symbolized L fd offset whence s =
     (let (result, s1) = lseek64_symbolized L fd (ucast offset) whence s;
          result32 = (ucast result :: u32)
      in if result = ucast result32 then (result32, s1)
         else (-1, s1\<lparr>errno := EOVERFLOW\<rparr>))"

definition fopen_symbolized ::
  "'w libc \<Rightarrow> config \<Rightarrow> addr \<Rightarrow> addr \<Rightarrow> ('e, 'b, 'w) program \<Rightarrow> addr \<times> ('e, 'b, 'w) program" where
  "fopen_symbolized L g_config pathname mode s =
     (let (result, w) = libc_fopen L (c_string (memory s) pathname) (c_string (memory s) mode) (world s);
          s1 = sym_set_return_expression None (s\<lparr>world := w\<rparr>)
      in (result, opened_input g_config (c_string (memory s1) pathname) (result \<noteq> 0)
                    (libc_fileno L result (world s1)) s1))"

definition fopen64_symbolized ::
  "'w libc \<Rightarrow> config \<Rightarrow> addr \<Rightarrow> addr \<Rightarrow> ('e, 'b, 'w) program \<Rightarrow> addr \<times> ('e, 'b, 'w) program" where
  "fopen64_symbolized L g_config pathname mode s =
     (let (result, w) = libc_fopen64 L (c_string (memory s) pathname) (c_string (memory s) mode) (world s);
          s1 = sym_set_return_expression None (s\<lparr>world := w\<rparr>)
      in (result, opened_input g_config (c_string (memory s1) pathname) (result \<noteq> 0)
                    (libc_fileno L result (world s1)) s1))"

subsection \<open>Streams\<close>

definition is_input_stream :: "'w libc \<Rightarrow> addr \<Rightarrow> ('e, 'b, 'w) program \<Rightarrow> bool" where
  "is_input_stream L stream s \<longleftrightarrow> libc_fileno L stream (world s) = inputFileDescriptor s"

definition fread_symbolized ::
  "'w libc \<Rightarrow> ('e, 'b) backend \<Rightarrow> addr \<Rightarrow> addr \<Rightarrow> addr \<Rightarrow> addr \<Rightarrow> ('e, 'b, 'w) program \<Rightarrow>
   (addr \<times> ('e, 'b, 'w) program) result" where
  "fread_symbolized L B ptr sz nmemb stream s =
     bind_result (alternatives B (wrapper_address L ''fread'') [(0, ptr, 8), (1, sz, 8), (2, nmemb, 8)] s) (\<lambda>s1.
       let (result, m, w) = libc_fread L ptr sz nmemb stream (memory s1) (world s1);
           s2 = sym_set_return_expression None (s1\<lparr>memory := m, world := w\<rparr>)
       in bind_result (filled_buffer B (is_input_stream L stream s2) ptr (result * sz) s2)
            (\<lambda>s3. Inr (result, s3)))"

definition fgets_symbolized ::
  "'w libc \<Rightarrow> ('e, 'b) backend \<Rightarrow> addr \<Rightarrow> int \<Rightarrow> addr \<Rightarrow> ('e, 'b, 'w) program \<Rightarrow>
   (addr \<times> ('e, 'b, 'w) program) result" where
  "fgets_symbolized L B str n stream s =
     bind_result (alternatives B (wrapper_address L ''fgets'') [(0, str, 8), (1, word_of_int n, 4)] s) (\<lambda>s1.
       let (result, m, w) = libc_fgets L str n stream (memory s1) (world s1);
           s2 = s1\<lparr>memory := m, world := w\<rparr>;
           s3 = sym_set_return_expression (sym_get_parameter_expression 0 s2) s2
       in bind_result (filled_buffer B (is_input_stream L stream s3) str (of_nat (strlen (memory s3) str)) s3)
            (\<lambda>s4. Inr (result, s4)))"

definition rewind_symbolized :: "'w libc \<Rightarrow> addr \<Rightarrow> ('e, 'b, 'w) program \<Rightarrow> ('e, 'b, 'w) program" where
  "rewind_symbolized L stream s =
     (let s1 = sym_set_return_expression None (s\<lparr>world := libc_rewind L stream (world s)\<rparr>)
      in if is_input_stream L stream s1 then s1\<lparr>inputOffset := 0\<rparr> else s1)"

text \<open>The common body of the three functions that seek in a stream, after the first line.\<close>

definition stream_seek ::
  "'w libc \<Rightarrow> ('w \<Rightarrow> int \<times> 'w) \<Rightarrow> ('w \<Rightarrow> int \<times> 'w) \<Rightarrow> addr \<Rightarrow> ('e, 'b, 'w) program \<Rightarrow>
   int \<times> ('e, 'b, 'w) program" where
  "stream_seek L seek tell stream s =
     (let (result, w) = seek (world s);
          s1 = sym_set_return_expression None (s\<lparr>world := w\<rparr>)
      in if result = -1 then (result, s1)
         else if is_input_stream L stream s1 then
           let (pos, w2) = tell (world s1);
               s2 = s1\<lparr>world := w2\<rparr>
           in if pos = -1 then (-1, s2)
              else (result, s2\<lparr>inputOffset := word_of_int pos\<rparr>)
         else (result, s1))"

definition fseek_symbolized ::
  "'w libc \<Rightarrow> ('e, 'b) backend \<Rightarrow> addr \<Rightarrow> int \<Rightarrow> int \<Rightarrow> ('e, 'b, 'w) program \<Rightarrow>
   (int \<times> ('e, 'b, 'w) program) result" where
  "fseek_symbolized L B stream offset whence s =
     bind_result (alternatives B (wrapper_address L ''fseek'') [(1, word_of_int offset, 8)] s) (\<lambda>s1.
       Inr (stream_seek L (libc_fseek L stream offset whence) (libc_ftell L stream) stream s1))"

definition fseeko_symbolized ::
  "'w libc \<Rightarrow> ('e, 'b) backend \<Rightarrow> addr \<Rightarrow> int \<Rightarrow> int \<Rightarrow> ('e, 'b, 'w) program \<Rightarrow>
   (int \<times> ('e, 'b, 'w) program) result" where
  "fseeko_symbolized L B stream offset whence s =
     bind_result (alternatives B (wrapper_address L ''fseeko'') [(1, word_of_int offset, 8)] s) (\<lambda>s1.
       Inr (stream_seek L (libc_fseeko L stream offset whence) (libc_ftello L stream) stream s1))"

definition fseeko64_symbolized ::
  "'w libc \<Rightarrow> ('e, 'b) backend \<Rightarrow> addr \<Rightarrow> u64 \<Rightarrow> int \<Rightarrow> ('e, 'b, 'w) program \<Rightarrow>
   (int \<times> ('e, 'b, 'w) program) result" where
  "fseeko64_symbolized L B stream offset whence s =
     bind_result (alternatives B (wrapper_address L ''fseeko64'') [(1, offset, 8)] s) (\<lambda>s1.
       Inr (stream_seek L (libc_fseeko64 L stream offset whence) (libc_ftello64 L stream) stream s1))"

definition EOF :: int where
  "EOF = -1"

text \<open>\<open>getc\<close> and \<open>fgetc\<close> after the call of the library function. An input byte without an
  expression makes \<open>_sym_build_zext\<close> dereference a null pointer.\<close>

definition got_char ::
  "'w libc \<Rightarrow> ('e, 'b) backend \<Rightarrow> int \<Rightarrow> addr \<Rightarrow> ('e, 'b, 'w) program \<Rightarrow>
   (int \<times> ('e, 'b, 'w) program) result" where
  "got_char L B result stream s =
     (if result = EOF then Inr (result, sym_set_return_expression None s)
      else if is_input_stream L stream s then
        bind_result (with_backend (sym_get_input_byte B (inputOffset s)) (s\<lparr>inputOffset := inputOffset s + 1\<rparr>))
          (\<lambda>(e, s1).
             case e of
               None \<Rightarrow> Inl Null_expression
             | Some e \<Rightarrow> bind_result (with_backend (sym_build_zext B e (4 * 8 - 8)) s1) (\<lambda>(z, s2).
                 Inr (result, sym_set_return_expression (Some z) s2)))
      else Inr (result, sym_set_return_expression None s))"

definition getc_symbolized ::
  "'w libc \<Rightarrow> ('e, 'b) backend \<Rightarrow> addr \<Rightarrow> ('e, 'b, 'w) program \<Rightarrow> (int \<times> ('e, 'b, 'w) program) result" where
  "getc_symbolized L B stream s =
     (let (result, w) = libc_getc L stream (world s) in got_char L B result stream (s\<lparr>world := w\<rparr>))"

definition fgetc_symbolized ::
  "'w libc \<Rightarrow> ('e, 'b) backend \<Rightarrow> addr \<Rightarrow> ('e, 'b, 'w) program \<Rightarrow> (int \<times> ('e, 'b, 'w) program) result" where
  "fgetc_symbolized L B stream s =
     (let (result, w) = libc_fgetc L stream (world s) in got_char L B result stream (s\<lparr>world := w\<rparr>))"

definition ungetc_symbolized ::
  "'w libc \<Rightarrow> int \<Rightarrow> addr \<Rightarrow> ('e, 'b, 'w) program \<Rightarrow> int \<times> ('e, 'b, 'w) program" where
  "ungetc_symbolized L c stream s =
     (let (result, w) = libc_ungetc L c stream (world s);
          s1 = s\<lparr>world := w\<rparr>;
          s2 = sym_set_return_expression (sym_get_parameter_expression 0 s1) s1
      in (result, if is_input_stream L stream s2 \<and> result \<noteq> EOF
                  then s2\<lparr>inputOffset := inputOffset s2 - 1\<rparr> else s2))"

subsection \<open>Memory and strings\<close>

definition memcpy_symbolized ::
  "'w libc \<Rightarrow> ('e, 'b) backend \<Rightarrow> addr \<Rightarrow> addr \<Rightarrow> addr \<Rightarrow> ('e, 'b, 'w) program \<Rightarrow>
   (addr \<times> ('e, 'b, 'w) program) result" where
  "memcpy_symbolized L B dest src n s =
     (let s1 = s\<lparr>memory := copy_memory dest src (unat n) (memory s)\<rparr>
      in bind_result (alternatives B (wrapper_address L ''memcpy'') [(0, dest, 8), (1, src, 8), (2, n, 8)] s1) (\<lambda>s2.
         bind_result (sym_memcpy B dest src n s2) (\<lambda>s3.
           Inr (dest, sym_set_return_expression (sym_get_parameter_expression 0 s3) s3))))"

definition memset_symbolized ::
  "'w libc \<Rightarrow> ('e, 'b) backend \<Rightarrow> addr \<Rightarrow> int \<Rightarrow> addr \<Rightarrow> ('e, 'b, 'w) program \<Rightarrow>
   (addr \<times> ('e, 'b, 'w) program) result" where
  "memset_symbolized L B a c n s =
     (let s1 = s\<lparr>memory := set_memory a (word_of_int c) (unat n) (memory s)\<rparr>
      in bind_result (alternatives B (wrapper_address L ''memset'') [(0, a, 8), (2, n, 8)] s1) (\<lambda>s2.
         bind_result (sym_memset B a (sym_get_parameter_expression 1 s2) n s2) (\<lambda>s3.
           Inr (a, sym_set_return_expression (sym_get_parameter_expression 0 s3) s3))))"

definition memmove_symbolized ::
  "'w libc \<Rightarrow> ('e, 'b) backend \<Rightarrow> addr \<Rightarrow> addr \<Rightarrow> addr \<Rightarrow> ('e, 'b, 'w) program \<Rightarrow>
   (addr \<times> ('e, 'b, 'w) program) result" where
  "memmove_symbolized L B dest src n s =
     bind_result (alternatives B (wrapper_address L ''memmove'') [(0, dest, 8), (1, src, 8), (2, n, 8)] s) (\<lambda>s1.
       let s2 = s1\<lparr>memory := copy_memory dest src (unat n) (memory s1)\<rparr>
       in bind_result (sym_memmove B dest src n s2) (\<lambda>s3.
            Inr (dest, sym_set_return_expression (sym_get_parameter_expression 0 s3) s3)))"

definition strncpy_symbolized ::
  "'w libc \<Rightarrow> ('e, 'b) backend \<Rightarrow> addr \<Rightarrow> addr \<Rightarrow> addr \<Rightarrow> ('e, 'b, 'w) program \<Rightarrow>
   (addr \<times> ('e, 'b, 'w) program) result" where
  "strncpy_symbolized L B dest src n s =
     bind_result (alternatives B (wrapper_address L ''strncpy'') [(0, dest, 8), (1, src, 8), (2, n, 8)] s) (\<lambda>s1.
       let s2 = sym_set_return_expression None
                  (s1\<lparr>memory := strncpy_memory dest src (unat n) (memory s1)\<rparr>);
           srcLen = (of_nat (strnlen (memory s2) src (unat n)) :: addr);
           ncopied = min n srcLen
       in bind_result (both_concrete B src ncopied dest n s2) (\<lambda>concrete.
            if concrete then Inr (dest, s2)
            else
              let pages = g_shadow_pages s2;
                  first = ReadShadowIterator pages src;
                  stop = ReadShadowIterator pages (src + ncopied);
                  (d_first, pages1) = WriteShadowIterator pages dest
              in bind_result (shadow_copy (sym_bits_helper B) first (address stop) d_first pages1) (\<lambda>pages2.
                   let pages3 = (if ncopied < n
                                 then shadow_fill_range (dest + ncopied) (n - ncopied) None pages2
                                 else pages2)
                   in Inr (dest, s2\<lparr>g_shadow_pages := pages3\<rparr>))))"

text \<open>
  \<open>strchr\<close>: every character before the match (or before the end of the string) is
  constrained to differ from the one searched for. The arguments of a call are evaluated
  from left to right.
\<close>

definition strchr_char ::
  "('e, 'b) backend \<Rightarrow> shadow_iterator \<Rightarrow> addr \<Rightarrow> ('e, 'b, 'x) runtime_scheme \<Rightarrow>
   ('e \<times> ('e, 'b, 'x) runtime_scheme) result" where
  "strchr_char B it a s =
     bind_result (read_deref (sym_bits_helper B) (g_shadow_pages s) it) (\<lambda>e.
       case e of
         Some e \<Rightarrow> Inr (e, s)
       | None \<Rightarrow> with_backend (sym_build_integer B (scast (memory s a)) 8) s)"

fun strchr_loop ::
  "('e, 'b) backend \<Rightarrow> addr \<Rightarrow> shadow_iterator \<Rightarrow> addr \<Rightarrow> 'e \<Rightarrow> nat \<Rightarrow> ('e, 'b, 'x) runtime_scheme \<Rightarrow>
   ('e, 'b, 'x) runtime_scheme result" where
  "strchr_loop B site it a cExpr 0 s = Inr s"
| "strchr_loop B site it a cExpr (Suc n) s =
     bind_result (strchr_char B it a s) (\<lambda>(e, s1).
     bind_result (with_backend (sym_build_not_equal B e cExpr) s1) (\<lambda>(q, s2).
     bind_result (push_constraint B q True site s2) (\<lambda>s3.
       strchr_loop B site (read_increment (g_shadow_pages s3) it) (a + 1) cExpr n s3)))"

definition strchr_symbolized ::
  "'w libc \<Rightarrow> ('e, 'b) backend \<Rightarrow> addr \<Rightarrow> int \<Rightarrow> ('e, 'b, 'w) program \<Rightarrow>
   (addr \<times> ('e, 'b, 'w) program) result" where
  "strchr_symbolized L B str c s =
     bind_result (alternatives B (wrapper_address L ''strchr'') [(0, str, 8), (1, word_of_int c, 4)] s) (\<lambda>s1.
       let found = libc_strchr (memory s1) str c;
           result = (case found of None \<Rightarrow> 0 | Some p \<Rightarrow> p);
           s2 = sym_set_return_expression None s1;
           cExpr = sym_get_parameter_expression 1 s2;
           len = (case found of Some p \<Rightarrow> p - str | None \<Rightarrow> of_nat (strlen (memory s2) str))
       in bind_result (is_concrete B str len s2) (\<lambda>concrete.
            if concrete \<and> cExpr = None then Inr (result, s2)
            else
              bind_result (case cExpr of
                  None \<Rightarrow> with_backend (sym_build_integer B (word_of_int c) 8) s2
                | Some e \<Rightarrow> with_backend (sym_build_trunc B e 8) s2) (\<lambda>(ce, s3).
              bind_result (strchr_loop B (wrapper_address L ''strchr'')
                  (ReadShadowIterator (g_shadow_pages s3) str) str ce (unat len) s3) (\<lambda>s4.
                Inr (result, s4)))))"

definition equal_bytes ::
  "('e, 'b) backend \<Rightarrow> shadow_iterator \<Rightarrow> shadow_iterator \<Rightarrow> ('e, 'b, 'x) runtime_scheme \<Rightarrow>
   ('e \<times> ('e, 'b, 'x) runtime_scheme) result" where
  "equal_bytes B aIt bIt s =
     bind_result (with_backend (non_null_deref B aIt s) s) (\<lambda>(x, s1).
     bind_result (with_backend (non_null_deref B bIt s1) s1) (\<lambda>(y, s2).
       with_backend (sym_build_equal B x y) s2))"

fun memcmp_loop ::
  "('e, 'b) backend \<Rightarrow> shadow_iterator \<Rightarrow> shadow_iterator \<Rightarrow> 'e \<Rightarrow> nat \<Rightarrow> ('e, 'b, 'x) runtime_scheme \<Rightarrow>
   ('e \<times> ('e, 'b, 'x) runtime_scheme) result" where
  "memcmp_loop B aIt bIt allEqual 0 s = Inr (allEqual, s)"
| "memcmp_loop B aIt bIt allEqual (Suc n) s =
     (let aIt' = read_increment (g_shadow_pages s) aIt;
          bIt' = read_increment (g_shadow_pages s) bIt
      in bind_result (equal_bytes B aIt' bIt' s) (\<lambda>(eq, s1).
         bind_result (with_backend (sym_build_bool_and B allEqual eq) s1) (\<lambda>(conj, s2).
           memcmp_loop B aIt' bIt' conj n s2)))"

definition memcmp_symbolized ::
  "'w libc \<Rightarrow> ('e, 'b) backend \<Rightarrow> addr \<Rightarrow> addr \<Rightarrow> addr \<Rightarrow> ('e, 'b, 'w) program \<Rightarrow>
   (int \<times> ('e, 'b, 'w) program) result" where
  "memcmp_symbolized L B a b n s =
     bind_result (alternatives B (wrapper_address L ''memcmp'') [(0, a, 8), (1, b, 8), (2, n, 8)] s) (\<lambda>s1.
       let result = libc_memcmp L (bytes_from (memory s1) a (unat n)) (bytes_from (memory s1) b (unat n));
           s2 = sym_set_return_expression None s1
       in bind_result (both_concrete B a n b n s2) (\<lambda>concrete.
            if concrete then Inr (result, s2)
            else
              let aIt = ReadShadowIterator (g_shadow_pages s2) a;
                  bIt = ReadShadowIterator (g_shadow_pages s2) b
              in bind_result (equal_bytes B aIt bIt s2) (\<lambda>(first, s3).
                 bind_result (memcmp_loop B aIt bIt first (unat n - 1) s3) (\<lambda>(allEqual, s4).
                 bind_result (push_constraint B allEqual (result = 0) (wrapper_address L ''memcmp'') s4) (\<lambda>s5.
                   Inr (result, s5))))))"

text \<open>\<open>ntohl\<close> on a little-endian machine.\<close>

definition libc_ntohl :: "u32 \<Rightarrow> u32" where
  "libc_ntohl x =
     push_bit 24 (x AND 0xff) OR push_bit 8 (x AND 0xff00) OR
     (drop_bit 8 x AND 0xff00) OR drop_bit 24 x"

definition ntohl_symbolized ::
  "('e, 'b) backend \<Rightarrow> u32 \<Rightarrow> ('e, 'b, 'w) program \<Rightarrow> (u32 \<times> ('e, 'b, 'w) program) result" where
  "ntohl_symbolized B netlong s =
     (let netlongExpr = sym_get_parameter_expression 0 s;
          result = libc_ntohl netlong
      in case netlongExpr of
           None \<Rightarrow> Inr (result, sym_set_return_expression None s)
         | Some e \<Rightarrow> bind_result (with_backend (sym_build_bswap B e) s) (\<lambda>(r, s1).
             Inr (result, sym_set_return_expression (Some r) s1)))"

end
