(* ===== verification/WrapperProps.thy ===== *)
theory WrapperProps
  imports LibcWrappers SimpleState
begin

text \<open>
  What the libc wrappers guarantee: the bytes that are read from the symbolic input get the
  input expressions of their offsets, by how much each call moves the input offset, and the
  results of the error paths.
\<close>

subsection \<open>Alternatives leave the program state alone\<close>

lemma with_backend_frame:
  "with_backend f s = Inr (x, s') \<Longrightarrow> \<exists>b. s' = s\<lparr>backend_state := b\<rparr>"
  by (auto simp: with_backend_def bind_result_eq_Inr)

lemma push_constraint_frame:
  "push_constraint B e taken site s = Inr s' \<Longrightarrow> \<exists>b. s' = s\<lparr>backend_state := b\<rparr>"
  by (auto simp: push_constraint_def bind_result_eq_Inr)

lemma tryAlternative_frame:
  assumes "tryAlternative B v sz e caller s = Inr s'"
  shows "\<exists>b. s' = s\<lparr>backend_state := b\<rparr>"
proof (cases e)
  case None
  with assms have "s' = s\<lparr>backend_state := backend_state s\<rparr>" by (simp add: tryAlternative_def)
  then show ?thesis ..
next
  case (Some x)
  then obtain i s1 q s2 where *: "with_backend (sym_build_integer B v (sz * 8)) s = Inr (i, s1)"
      "with_backend (sym_build_equal B x i) s1 = Inr (q, s2)" "push_constraint B q True caller s2 = Inr s'"
    using assms by (auto simp: tryAlternative_def bind_result_eq_Inr)
  from with_backend_frame [OF *(1)] with_backend_frame [OF *(2)] push_constraint_frame [OF *(3)]
  show ?thesis by auto
qed

lemma alternatives_Nil [simp]: "alternatives B caller [] s = Inr s"
  by (simp add: alternatives_def)

lemma alternatives_Cons [simp]:
  "alternatives B caller ((i, v, sz) # args) s =
     bind_result (tryAlternative B v sz (sym_get_parameter_expression i s) caller s) (alternatives B caller args)"
proof -
  have "fold (\<lambda>(i, v, sz) r. bind_result r (\<lambda>s. tryAlternative B v sz (sym_get_parameter_expression i s) caller s)) args (Inl e) = Inl e"
    for e by (induction args) auto
  then show ?thesis
    by (cases "tryAlternative B v sz (sym_get_parameter_expression i s) caller s") (simp_all add: alternatives_def)
qed

lemma alternatives_frame:
  "alternatives B caller args s = Inr s' \<Longrightarrow> \<exists>b. s' = s\<lparr>backend_state := b\<rparr>"
proof (induction args arbitrary: s)
  case Nil
  then have "s' = s\<lparr>backend_state := backend_state s\<rparr>" by simp
  then show ?case ..
next
  case (Cons a args)
  obtain i v sz where a: "a = (i, v, sz)" by (cases a)
  with Cons.prems obtain s1 where *: "tryAlternative B v sz (sym_get_parameter_expression i s) caller s = Inr s1"
      "alternatives B caller args s1 = Inr s'" by (auto simp: bind_result_eq_Inr)
  from tryAlternative_frame [OF *(1)] Cons.IH [OF *(2)] show ?case by auto
qed

lemma alternatives_concrete:
  "\<forall>(i, v, sz) \<in> set args. sym_get_parameter_expression i s = None \<Longrightarrow> alternatives B caller args s = Inr s"
  by (induction args) (auto simp: tryAlternative_def)

subsection \<open>Reading symbolic input\<close>

fun input_exprs :: "('e, 'b) backend \<Rightarrow> u64 \<Rightarrow> nat \<Rightarrow> 'b \<Rightarrow> ('e option list \<times> 'b) result" where
  "input_exprs B offset 0 b = Inr ([], b)"
| "input_exprs B offset (Suc n) b =
     bind_result (sym_get_input_byte B offset b) (\<lambda>(e, b1).
     bind_result (input_exprs B (offset + 1) n b1) (\<lambda>(es, b2). Inr (e # es, b2)))"

lemma input_exprs_length: "input_exprs B offset n b = Inr (es, b') \<Longrightarrow> length es = n"
  by (induction n arbitrary: offset b es) (auto simp: bind_result_eq_Inr)

lemma generate_input_spec:
  "input_exprs B offset n b = Inr (es, b') \<Longrightarrow> n < 2 ^ 64 \<Longrightarrow> iter_view pages it \<Longrightarrow>
   \<exists>pages'. generate_input B it (address it + of_nat n) offset pages b = Inr (offset + of_nat n, pages', b') \<and>
     (\<forall>c. shadow_at pages' c =
       (if in_region (address it) n c then es ! unat (c - address it) else shadow_at pages c))"
proof (induction n arbitrary: offset b es it pages)
  case 0
  then show ?case by (simp add: generate_input.simps [of _ it])
next
  case (Suc n)
  let ?a = "address it"
  obtain e b1 es1 where e: "sym_get_input_byte B offset b = Inr (e, b1)"
      "input_exprs B (offset + 1) n b1 = Inr (es1, b')" "es = e # es1"
    using Suc.prems(1) by (auto simp: bind_result_eq_Inr)
  let ?pages1 = "write_deref_assign pages it e"
  let ?wr = "write_increment ?pages1 it"
  have view: "iter_view ?pages1 it" using Suc.prems(3) by simp
  note wr = write_increment_props [OF view]
  have n64: "n < 2 ^ 64" using Suc.prems(2) by simp
  from Suc.IH [OF e(2) n64 wr(1)] obtain pages' where
    r: "generate_input B (fst ?wr) (?a + 1 + of_nat n) (offset + 1) (snd ?wr) b1 =
        Inr (offset + 1 + of_nat n, pages', b')"
    "\<forall>c. shadow_at pages' c = (if in_region (?a + 1) n c then es1 ! unat (c - (?a + 1)) else shadow_at (snd ?wr) c)"
    by auto
  have step: "generate_input B it (?a + of_nat (Suc n)) offset pages b =
      generate_input B (fst ?wr) (?a + 1 + of_nat n) (offset + 1) (snd ?wr) b1"
    using region_end_neq [OF Suc.prems(2), of ?a] e(1)
    by (subst generate_input.simps) (simp add: Let_def ac_simps)
  have "shadow_at pages' c =
      (if in_region ?a (Suc n) c then es ! unat (c - ?a) else shadow_at pages c)" for c
  proof (cases "c = ?a")
    case True
    have "\<not> in_region (?a + 1) n ?a"
      using Suc.prems(2) by (simp add: in_region_def unsigned_minus_1_eq_mask mask_eq_exp_minus_1)
    then show ?thesis
      using True r(2) wr(3) Suc.prems(3) e(3) by (simp add: shadow_at_write_deref_assign)
  next
    case False
    then have "Suc (unat (c - (?a + 1))) = unat (c - ?a)" by (intro range_step_Suc) simp
    then have "es ! unat (c - ?a) = es1 ! unat (c - (?a + 1))" using e(3) by (metis nth_Cons_Suc)
    then show ?thesis
      using False r(2) wr(3) Suc.prems(2,3)
      by (simp add: shadow_at_write_deref_assign in_region_Suc)
  qed
  then show ?case using step r(1) by (auto simp: ac_simps)
qed

lemma filled_buffer_input:
  assumes "input_exprs B (inputOffset s) (unat n) (backend_state s) = Inr (es, b')"
  shows "\<exists>pages'. filled_buffer B True buf n s =
      Inr (s\<lparr>inputOffset := inputOffset s + n, g_shadow_pages := pages', backend_state := b'\<rparr>) \<and>
    (\<forall>c. shadow_at pages' c =
      (if in_region buf (unat n) c then es ! unat (c - buf) else shadow_at (g_shadow_pages s) c))"
proof -
  obtain first pages1 where 1: "WriteShadowIterator (g_shadow_pages s) buf = (first, pages1)" by force
  obtain stop pages2 where 2: "WriteShadowIterator pages1 (buf + n) = (stop, pages2)" by force
  have v: "iter_view pages1 first" "address first = buf"
    using WriteShadowIterator_props(1) [of "g_shadow_pages s" buf]
      address_WriteShadowIterator [of "g_shadow_pages s" buf] 1 by simp_all
  then have v2: "iter_view pages2 first" "address stop = address first + of_nat (unat n)"
    using WriteShadowIterator_props(2) [of pages1 "buf + n"] address_WriteShadowIterator [of pages1 "buf + n"] 2
    by (simp_all add: iter_view_def)
  have same: "shadow_at pages2 c = shadow_at (g_shadow_pages s) c" for c
    using WriteShadowIterator_props(3) [of "g_shadow_pages s" buf] WriteShadowIterator_props(3) [of pages1 "buf + n"] 1 2
    by simp
  from generate_input_spec [OF assms unat_addr_less v2(1)] obtain pages' where
    "generate_input B first (buf + n) (inputOffset s) pages2 (backend_state s) =
      Inr (inputOffset s + n, pages', b')"
    "\<forall>c. shadow_at pages' c =
      (if in_region buf (unat n) c then es ! unat (c - buf) else shadow_at pages2 c)"
    using v(2) by auto
  then show ?thesis using 1 2 v v2(2) same by (auto simp: filled_buffer_def)
qed

text \<open>C21: A successful \<open>read\<close> of \<open>r\<close> bytes from the symbolic input: byte \<open>k\<close> of the buffer gets the
  expression of the input byte at the old offset plus \<open>k\<close>, the offset advances by \<open>r\<close>, the
  return value is concrete, and the shadow of all other memory is as before.\<close>

lemma read_symbolized_input:
  assumes "alternatives B (wrapper_address L ''read'') [(1, buf, 8), (2, nbyte, 8)] s = Inr s1"
    and "libc_read L fildes buf nbyte (memory s1) (world s1) = (r, m, w)"
    and "0 \<le> r" "r < 2 ^ 64" "fildes = inputFileDescriptor s"
    and "input_exprs B (inputOffset s) (nat r) (backend_state s1) = Inr (es, b')"
  shows "\<exists>s' pages'. read_symbolized L B fildes buf nbyte s = Inr (r, s') \<and>
    inputOffset s' = inputOffset s + of_nat (nat r) \<and> g_return_value s' = None \<and> memory s' = m \<and>
    world s' = w \<and> backend_state s' = b' \<and> g_shadow_pages s' = pages' \<and>
    (\<forall>c. shadow_at pages' c =
      (if in_region buf (nat r) c then es ! unat (c - buf) else shadow_at (g_shadow_pages s) c))"
proof -
  obtain b where s1: "s1 = s\<lparr>backend_state := b\<rparr>" using alternatives_frame [OF assms(1)] by blast
  have r: "unat (word_of_int r :: addr) = nat r"
    using assms(3,4) by (simp add: unat_eq_nat_uint uint_word_of_int)
  let ?s2 = "sym_set_return_expression None (s1\<lparr>memory := m, world := w\<rparr>)"
  have "input_exprs B (inputOffset ?s2) (unat (word_of_int r :: addr)) (backend_state ?s2) = Inr (es, b')"
    using assms(6) r s1 by (simp add: sym_set_return_expression_def)
  from filled_buffer_input [OF this, of buf] obtain pages' where
    f: "filled_buffer B True buf (word_of_int r) ?s2 =
      Inr (?s2\<lparr>inputOffset := inputOffset ?s2 + word_of_int r, g_shadow_pages := pages', backend_state := b'\<rparr>)"
    "\<forall>c. shadow_at pages' c =
      (if in_region buf (nat r) c then es ! unat (c - buf) else shadow_at (g_shadow_pages ?s2) c)"
    unfolding r by blast
  have "read_symbolized L B fildes buf nbyte s =
      Inr (r, ?s2\<lparr>inputOffset := inputOffset ?s2 + word_of_int r, g_shadow_pages := pages', backend_state := b'\<rparr>)"
    using assms(1-3,5) f(1) s1 by (simp add: read_symbolized_def Let_def sym_set_return_expression_def)
  moreover have "(word_of_int r :: addr) = of_nat (nat r)" using assms(3) by simp
  ultimately show ?thesis using f(2) s1 by (simp add: sym_set_return_expression_def)
qed

text \<open>A concrete C library for the witnesses: one file of five bytes, read by position.\<close>

record demo_world =
  position :: nat

definition demo_libc :: "demo_world libc" where
  "demo_libc = \<lparr>wrapper_address = (\<lambda>_. 0x400000),
     libc_malloc = (\<lambda>n w. (0x5000, w)),
     libc_calloc = (\<lambda>k n m w. (0x5000, m, w)),
     libc_mmap64 = (\<lambda>_ _ _ _ _ _ m w. (0x6000, m, w)),
     libc_open = (\<lambda>_ _ _ w. (5, w\<lparr>position := 0\<rparr>)),
     libc_read = (\<lambda>fd buf n m w.
       let k = min (unat n) (5 - position w)
       in (int k, (\<lambda>c. if in_region buf k c then 65 else m c), w\<lparr>position := position w + k\<rparr>)),
     libc_lseek64 = (\<lambda>fd off whence w.
       if whence = 0 then (off, w\<lparr>position := unat off\<rparr>) else (-1, w)),
     libc_fopen = (\<lambda>_ _ w. (0x7000, w\<lparr>position := 0\<rparr>)),
     libc_fopen64 = (\<lambda>_ _ w. (0x7000, w\<lparr>position := 0\<rparr>)),
     libc_fileno = (\<lambda>_ _. 0),
     libc_fread = (\<lambda>_ _ _ _ m w. (0, m, w)),
     libc_fgets = (\<lambda>_ _ _ m w. (0, m, w)),
     libc_rewind = (\<lambda>_ w. w\<lparr>position := 0\<rparr>),
     libc_fseek = (\<lambda>_ _ _ w. (-1, w)),
     libc_ftell = (\<lambda>_ w. (int (position w), w)),
     libc_fseeko = (\<lambda>_ _ _ w. (-1, w)),
     libc_ftello = (\<lambda>_ w. (int (position w), w)),
     libc_fseeko64 = (\<lambda>_ _ _ w. (-1, w)),
     libc_ftello64 = (\<lambda>_ w. (int (position w), w)),
     libc_getc = (\<lambda>_ w. if position w < 5 then (65, w\<lparr>position := position w + 1\<rparr>) else (-1, w)),
     libc_fgetc = (\<lambda>_ w. if position w < 5 then (65, w\<lparr>position := position w + 1\<rparr>) else (-1, w)),
     libc_ungetc = (\<lambda>c _ w. if c = -1 then (-1, w) else (c, w\<lparr>position := position w - 1\<rparr>)),
     libc_memcmp = (\<lambda>xs ys. if xs = ys then 0 else 1)\<rparr>"

type_synonym demo_program = "(demo_term, (demo_term, nat, demo_term list list) simple_state, demo_world) program"

definition demo_program :: demo_program where
  "demo_program = \<lparr>g_return_value = None, g_function_arguments = (\<lambda>_. None), g_shadow_pages = [],
     expressionRegions = [], expr_memory = (\<lambda>_. None), memory = (\<lambda>_. 0), backend_state = demo_state,
     inputFileDescriptor = 0, inputOffset = 0, errno = 0, warnings = [], world = \<lparr>position = 0\<rparr>\<rparr>"

lemma demo_program_simps [simp]:
  "inputOffset demo_program = 0" "inputFileDescriptor demo_program = 0" "world demo_program = \<lparr>position = 0\<rparr>"
  "g_shadow_pages demo_program = []" "g_function_arguments demo_program = (\<lambda>_. None)"
  "backend_state demo_program = demo_state" "memory demo_program = (\<lambda>_. 0)" "errno demo_program = 0"
  by (simp_all add: demo_program_def)

lemma demo_input_byte: "\<exists>e b'. simple_get_input_byte demo_z3 k b = Inr (e, b')"
  using get_input_byte_new [OF demo_names_variables, of b k]
  by (cases "unat k < length (stdinBytes b)") (auto simp: simple_get_input_byte_def not_less)

lemma demo_input_exprs: "\<exists>es b'. input_exprs (simple_backend demo_z3) offset n b = Inr (es, b')"
proof (induction n arbitrary: offset b)
  case (Suc n)
  obtain e b1 where "simple_get_input_byte demo_z3 offset b = Inr (e, b1)" using demo_input_byte by blast
  moreover obtain es b2 where "input_exprs (simple_backend demo_z3) (offset + 1) n b1 = Inr (es, b2)"
    using Suc by blast
  ultimately show ?case by simp
qed simp

lemma read_symbolized_input_witness:
  "\<exists>s' e0 e1. read_symbolized demo_libc (simple_backend demo_z3) 0 0x2000 2 demo_program = Inr (2, s') \<and>
    inputOffset s' = 2 \<and> shadow_at (g_shadow_pages s') 0x2000 = e0 \<and> shadow_at (g_shadow_pages s') 0x2001 = e1"
proof -
  have alt: "alternatives (simple_backend demo_z3) (wrapper_address demo_libc ''read'') [(1, 0x2000, 8), (2, 2, 8)] demo_program =
      Inr demo_program"
    by (rule alternatives_concrete) (simp add: sym_get_parameter_expression_def)
  obtain m w where rd: "libc_read demo_libc 0 0x2000 2 (memory demo_program) (world demo_program) = (2, m, w)"
    by (simp add: demo_libc_def Let_def)
  obtain es b' where es: "input_exprs (simple_backend demo_z3) (inputOffset demo_program) (nat 2) (backend_state demo_program) = Inr (es, b')"
    using demo_input_exprs by blast
  from read_symbolized_input [OF alt rd _ _ _ es] show ?thesis by auto
qed

subsection \<open>The offset after a call\<close>

lemma generate_input_offset:
  "generate_input B it (address it + of_nat n) offset pages b = Inr (offset', pages', b') \<Longrightarrow> n < 2 ^ 64 \<Longrightarrow>
   offset' = offset + of_nat n"
proof (induction n arbitrary: offset it pages b)
  case 0
  then show ?case by (simp add: generate_input.simps [of _ it])
next
  case (Suc n)
  have "address it \<noteq> address it + of_nat (Suc n)" by (rule region_end_neq [OF Suc.prems(2)])
  then obtain e b1 where
    "generate_input B (fst (write_increment (write_deref_assign pages it e) it))
       (address (fst (write_increment (write_deref_assign pages it e) it)) + of_nat n) (offset + 1)
       (snd (write_increment (write_deref_assign pages it e) it)) b1 = Inr (offset', pages', b')"
    using Suc.prems(1) by (subst (asm) generate_input.simps) (auto simp: bind_result_eq_Inr Let_def add.assoc)
  from Suc.IH [OF this] Suc.prems(2) show ?case by simp
qed

lemma filled_buffer_offset:
  assumes "filled_buffer B is_input buf n s = Inr s'"
  shows "inputOffset s' = (if is_input then inputOffset s + n else inputOffset s) \<and>
    inputFileDescriptor s' = inputFileDescriptor s \<and> world s' = world s"
proof (cases is_input)
  case False
  with assms show ?thesis by (auto simp: filled_buffer_def bind_result_eq_Inr split: if_splits)
next
  case True
  obtain first pages1 where 1: "WriteShadowIterator (g_shadow_pages s) buf = (first, pages1)" by force
  obtain stop pages2 where 2: "WriteShadowIterator pages1 (buf + n) = (stop, pages2)" by force
  obtain offset pages3 b where
    g: "generate_input B first (address stop) (inputOffset s) pages2 (backend_state s) = Inr (offset, pages3, b)"
      "s' = s\<lparr>inputOffset := offset, g_shadow_pages := pages3, backend_state := b\<rparr>"
    using assms True 1 2 by (auto simp: filled_buffer_def bind_result_eq_Inr)
  have "address stop = address first + of_nat (unat n)"
    using address_WriteShadowIterator [of "g_shadow_pages s" buf] address_WriteShadowIterator [of pages1 "buf + n"] 1 2
    by simp
  with g(1) have "generate_input B first (address first + of_nat (unat n)) (inputOffset s) pages2 (backend_state s) =
      Inr (offset, pages3, b)" by simp
  from generate_input_offset [OF this unat_addr_less] True g(2) show ?thesis by simp
qed

lemma read_symbolized_frame:
  assumes "read_symbolized L B fd buf n s = Inr (r, s')"
  obtains m m' w' where "libc_read L fd buf n m (world s) = (r, m', w')" "world s' = w'"
    "inputFileDescriptor s' = inputFileDescriptor s"
    "inputOffset s' = (if 0 \<le> r \<and> fd = inputFileDescriptor s then inputOffset s + word_of_int r else inputOffset s)"
proof -
  obtain s1 where s1: "alternatives B (wrapper_address L ''read'') [(1, buf, 8), (2, n, 8)] s = Inr s1"
    using assms by (auto simp: read_symbolized_def bind_result_eq_Inr simp del: alternatives_Cons)
  then obtain b where b: "s1 = s\<lparr>backend_state := b\<rparr>" using alternatives_frame by blast
  obtain r' m' w' where rd: "libc_read L fd buf n (memory s1) (world s1) = (r', m', w')" by (metis prod.exhaust)
  let ?s2 = "sym_set_return_expression None (s1\<lparr>memory := m', world := w'\<rparr>)"
  show thesis
  proof (cases "r' < 0")
    case True
    with assms s1 rd have "r = r'" "s' = ?s2" by (simp_all add: read_symbolized_def del: alternatives_Cons)
    then show thesis using that [of "memory s1" m' w'] rd b True by (simp add: sym_set_return_expression_def)
  next
    case False
    with assms s1 rd have r: "r = r'"
      and f: "filled_buffer B (fd = inputFileDescriptor ?s2) buf (word_of_int r') ?s2 = Inr s'"
      by (auto simp: read_symbolized_def Let_def bind_result_eq_Inr simp del: alternatives_Cons)
    from filled_buffer_offset [OF f] show thesis
      using that [of "memory s1" m' w'] rd b r False by (simp add: sym_set_return_expression_def)
  qed
qed

lemma lseek64_symbolized_frame:
  assumes "lseek64_symbolized L fd off whence s = (r, s')"
  obtains w' where "libc_lseek64 L fd off whence (world s) = (r, w')" "world s' = w'"
    "inputFileDescriptor s' = inputFileDescriptor s" "errno s' = errno s"
    "inputOffset s' = (if r \<noteq> -1 \<and> fd = inputFileDescriptor s then r else inputOffset s)"
proof -
  obtain r' w' where ls: "libc_lseek64 L fd off whence (world s) = (r', w')" by force
  then have "r = r'" "world s' = w'" "inputFileDescriptor s' = inputFileDescriptor s" "errno s' = errno s"
    "inputOffset s' = (if r' \<noteq> -1 \<and> fd = inputFileDescriptor s then r' else inputOffset s)"
    using assms by (auto simp: lseek64_symbolized_def sym_set_return_expression_def Let_def split: if_splits)
  with ls that show thesis by blast
qed

subsection \<open>Error paths\<close>

definition fits_off32 :: "u64 \<Rightarrow> bool" where
  "fits_off32 r \<longleftrightarrow> - (2 ^ 31) \<le> sint r \<and> sint r < 2 ^ 31"

lemma sint_by_unat:
  obtains n where "unat (r :: u64) = n" "n < 2 ^ 64" "sint r = (if n < 2 ^ 63 then int n else int n - 2 ^ 64)"
proof -
  define n where "n = unat r"
  have n: "n < 2 ^ 64" unfolding n_def by (rule unat_addr_less)
  have "sint r = (int n + 2 ^ 63) mod 2 ^ 64 - 2 ^ 63"
    by (simp add: n_def sint_uint signed_take_bit_eq_take_bit_shift take_bit_eq_mod)
  moreover have "(int n + 2 ^ 63) mod 2 ^ 64 = (if n < 2 ^ 63 then int n + 2 ^ 63 else int n - 2 ^ 63)"
  proof (cases "n < 2 ^ 63")
    case False
    with n mod_add_self2 [of "int n - 2 ^ 63" "2 ^ 64"] show ?thesis by (simp add: add.commute)
  qed simp
  ultimately have "sint r = (if n < 2 ^ 63 then int n else int n - 2 ^ 64)" by simp
  with n that [of n] show thesis by (simp add: n_def)
qed

text \<open>C32: The 32-bit \<open>lseek\<close> returns the 64-bit result and keeps \<open>errno\<close> exactly when that
  result, read without sign, is below \<open>2 ^ 32\<close>; in every other case it returns -1 with \<open>errno\<close> set to \<open>EOVERFLOW\<close>. That is not the
  check on a signed 32-bit \<open>off_t\<close> (\<open>fits_off32\<close>) that the source announces: the two differ
  exactly for results from \<open>2 ^ 31\<close> to \<open>2 ^ 32 - 1\<close>, which are returned instead of reported as an overflow, and
  for the negative results in range, of which -1 is the failure of \<open>lseek64\<close>: its own \<open>errno\<close> is
  lost, and the call reports \<open>EOVERFLOW\<close>.\<close>

lemma lseek_overflow_check:
  assumes "lseek64_symbolized L fd (ucast offset) whence s = (r, s1)"
  shows "(if unat r < 2 ^ 32 then lseek_symbolized L fd offset whence s = (ucast r, s1)
      else lseek_symbolized L fd offset whence s = (-1, s1\<lparr>errno := EOVERFLOW\<rparr>)) \<and>
    (lseek_symbolized L fd offset whence s \<noteq>
        (if fits_off32 r then (ucast r, s1) else (-1, s1\<lparr>errno := EOVERFLOW\<rparr>)) \<longrightarrow>
      2 ^ 31 \<le> unat r \<and> unat r < 2 ^ 32 \<or> fits_off32 r \<and> sint r < 0) \<and>
    (2 ^ 31 \<le> unat r \<and> unat r < 2 ^ 32 \<longrightarrow>
      \<not> fits_off32 r \<and> lseek_symbolized L fd offset whence s = (ucast r, s1)) \<and>
    (r = -1 \<longrightarrow> fits_off32 r \<and> lseek_symbolized L fd offset whence s = (-1, s1\<lparr>errno := EOVERFLOW\<rparr>))"
proof -
  have "r = ucast (ucast r :: u32) \<longleftrightarrow> unat r < 2 ^ 32"
  proof -
    have "unat (ucast (ucast r :: u32) :: u64) = unat r mod 2 ^ 32"
      by (simp add: unsigned_ucast_eq take_bit_eq_mod unat_mod)
    then show ?thesis by (auto simp: word_unat_eq_iff mod_eq_self_iff_div_eq_0)
  qed
  then have l: "lseek_symbolized L fd offset whence s =
      (if unat r < 2 ^ 32 then (ucast r, s1) else (-1, s1\<lparr>errno := EOVERFLOW\<rparr>))"
    using assms by (simp add: lseek_symbolized_def)
  obtain n where n: "unat r = n" "n < 2 ^ 64" "sint r = (if n < 2 ^ 63 then int n else int n - 2 ^ 64)"
    by (rule sint_by_unat)
  have "fits_off32 r \<longleftrightarrow> n < 2 ^ 31 \<or> 2 ^ 64 - 2 ^ 31 \<le> n" "sint r < 0 \<longleftrightarrow> 2 ^ 63 \<le> n"
    using n(2) unfolding fits_off32_def n(3) by auto
  moreover have "r = -1 \<Longrightarrow> n = 2 ^ 64 - 1"
    using n(1) by (simp add: unsigned_minus_1_eq_mask mask_eq_exp_minus_1)
  ultimately show ?thesis unfolding l n(1) by auto
qed

text \<open>An invalid \<open>whence\<close>, and a position of three gigabytes.\<close>

lemma lseek_overflow_check_witness:
  "(\<exists>s'. lseek_symbolized demo_libc 0 5 7 demo_program = (-1, s') \<and> errno s' = 75) \<and>
    (\<exists>s'. lseek_symbolized demo_libc 0 0xC0000000 0 demo_program = (0xC0000000, s') \<and> errno s' = 0) \<and>
    \<not> fits_off32 0xC0000000"
proof (intro conjI)
  have *: "lseek64_symbolized demo_libc 0 (ucast (5 :: u32)) 7 demo_program =
      (-1, sym_set_return_expression None demo_program)"
    by (simp add: lseek64_symbolized_def demo_libc_def sym_set_return_expression_def demo_program_def)
  from lseek_overflow_check [OF *]
  show "\<exists>s'. lseek_symbolized demo_libc 0 5 7 demo_program = (-1, s') \<and> errno s' = 75"
    by (simp add: EOVERFLOW_def)
next
  obtain s1 where *: "lseek64_symbolized demo_libc 0 (ucast (0xC0000000 :: u32)) 0 demo_program = (0xC0000000, s1)"
      "errno s1 = 0"
    by (simp add: lseek64_symbolized_def demo_libc_def sym_set_return_expression_def demo_program_def Let_def)
  have "unat (0xC0000000 :: u64) = 0xC0000000" by simp
  note r = lseek_overflow_check [OF *(1), unfolded this, THEN conjunct2, THEN conjunct2, THEN conjunct1]
  from r show "\<not> fits_off32 0xC0000000" by simp
  from r *(2) show "\<exists>s'. lseek_symbolized demo_libc 0 0xC0000000 0 demo_program = (0xC0000000, s') \<and> errno s' = 0"
    by simp
qed

text \<open>C35: \<open>memset\<close> with a symbolic fill value passes the expression of its \<open>int\<close> parameter on as
  the expression of each byte. Reading any byte of the range afterwards then fails the
  assertion "Shadow memory always represents bytes".\<close>

lemma memset_symbolic_value_breaks_reads:
  assumes "sym_get_parameter_expression 0 s = None" "sym_get_parameter_expression 2 s = None"
    and "sym_get_parameter_expression 1 s = Some e" "sym_bits_helper B e = 32"
    and "memset_symbolized L B a c n s = Inr (r, s')" "in_region a (unat n) p"
  shows "sym_read_memory B p 1 le s' = Inl Assert_failed"
proof -
  have alt: "alternatives B (wrapper_address L ''memset'') [(0, a, 8), (2, n, 8)]
      (s\<lparr>memory := set_memory a (word_of_int c) (unat n) (memory s)\<rparr>) =
      Inr (s\<lparr>memory := set_memory a (word_of_int c) (unat n) (memory s)\<rparr>)"
    by (rule alternatives_concrete) (use assms(1,2) in \<open>simp add: sym_get_parameter_expression_def\<close>)
  have pages: "g_shadow_pages s' = shadow_fill_range a n (Some e) (g_shadow_pages s)"
    using assms(3,5) alt
    by (auto simp: memset_symbolized_def Let_def sym_memset_def sym_set_return_expression_def
        sym_get_parameter_expression_def simp del: alternatives_Cons)
  then have at: "shadow_at (g_shadow_pages s') p = Some e"
    using assms(6) by (simp add: shadow_at_fill_range)
  then obtain page where page: "map_find (g_shadow_pages s') (pageStart p) = Some page"
    by (auto simp: shadow_at_def split: option.splits)
  have deref: "read_deref (sym_bits_helper B) (g_shadow_pages s') (ReadShadowIterator (g_shadow_pages s') p) =
      Inl Assert_failed"
    using at page assms(4)
    by (simp add: read_deref_def ReadShadowIterator_def getShadow_def load_shadow_def shadow_at_def)
  have "p \<noteq> p + 1" by simp
  then have "all_null (sym_bits_helper B) (g_shadow_pages s') (ReadShadowIterator (g_shadow_pages s') p) (p + 1) =
      Inl Assert_failed"
    using deref by (subst all_null.simps) simp
  then show ?thesis
    using page by (simp add: sym_read_memory_def is_concrete_def isConcrete_def Let_def)
qed

lemma memset_symbolic_value_breaks_reads_witness:
  "\<exists>s'. memset_symbolized demo_libc (simple_backend demo_z3) 0x2000 7 3
      (demo_program\<lparr>g_function_arguments := (\<lambda>_. None)(1 := Some (Bv 32 7))\<rparr>) = Inr (0x2000, s') \<and>
    sym_read_memory (simple_backend demo_z3) 0x2001 1 True s' = Inl Assert_failed"
proof -
  let ?s = "demo_program\<lparr>g_function_arguments := (\<lambda>_. None)(1 := Some (Bv 32 7))\<rparr>"
  have p: "sym_get_parameter_expression 0 ?s = None" "sym_get_parameter_expression 2 ?s = None"
    "sym_get_parameter_expression 1 ?s = Some (Bv 32 7)"
    by (simp_all add: sym_get_parameter_expression_def)
  obtain s' where s': "memset_symbolized demo_libc (simple_backend demo_z3) 0x2000 7 3 ?s = Inr (0x2000, s')"
    by (simp add: memset_symbolized_def Let_def tryAlternative_def sym_get_parameter_expression_def sym_memset_def)
  have "sym_bits_helper (simple_backend demo_z3) (Bv 32 7) = 32"
    by (simp add: simple_bits_helper_def)
  from memset_symbolic_value_breaks_reads [OF p this s'] s' show ?thesis
    by (simp add: in_region_def)
qed

text \<open>C36: \<open>fgets\<close> at the end of the input (the library returns null and leaves the buffer as it
  was) still counts as having read the old content of the buffer: the input offset moves on
  by the length of the string that happens to be there, without anything having been read.\<close>

lemma fgets_at_eof_moves_offset:
  assumes "sym_get_parameter_expression 0 s = None" "sym_get_parameter_expression 1 s = None"
    and "libc_fgets L str n stream (memory s) (world s) = (0, memory s, world s)"
    and "libc_fileno L stream (world s) = inputFileDescriptor s"
    and "fgets_symbolized L B str n stream s = Inr (r, s')"
  shows "r = 0 \<and> inputOffset s' = inputOffset s + of_nat (strlen (memory s) str)"
proof -
  have alt: "alternatives B (wrapper_address L ''fgets'') [(0, str, 8), (1, word_of_int n, 4)] s = Inr s"
    by (rule alternatives_concrete) (use assms(1,2) in simp)
  define s3 where "s3 = s\<lparr>memory := memory s, world := world s, g_return_value := None\<rparr>"
  have r: "r = 0" and f: "filled_buffer B True str (of_nat (strlen (memory s) str)) s3 = Inr s'"
    using assms alt by (auto simp: fgets_symbolized_def Let_def bind_result_eq_Inr s3_def is_input_stream_def
        sym_set_return_expression_def sym_get_parameter_expression_def simp del: alternatives_Cons)
  from filled_buffer_offset [OF f] r show ?thesis by (simp add: s3_def)
qed

lemma strnlen_eq:
  "m (a + of_nat n) = 0 \<Longrightarrow> \<forall>k<n. m (a + of_nat k) \<noteq> 0 \<Longrightarrow> n < N \<Longrightarrow> strnlen m a N = n"
proof (induction n arbitrary: a N)
  case 0
  then show ?case by (cases N) simp_all
next
  case (Suc n)
  then obtain N' where N: "N = Suc N'" "n < N'" by (cases N) auto
  have "m (a + of_nat 0) \<noteq> 0" using Suc.prems(2) by blast
  moreover have "m (a + 1 + of_nat n) = 0" using Suc.prems(1) by (simp add: add.assoc)
  moreover have "\<forall>k<n. m (a + 1 + of_nat k) \<noteq> 0"
  proof (intro allI impI)
    fix k assume "k < n"
    then have "m (a + of_nat (Suc k)) \<noteq> 0" using Suc.prems(2) by blast
    then show "m (a + 1 + of_nat k) \<noteq> 0" by (simp add: add.assoc)
  qed
  ultimately show ?case using Suc.IH [of "a + 1" N'] N by simp
qed

lemma strlen_eq:
  "m (a + of_nat n) = 0 \<Longrightarrow> \<forall>k<n. m (a + of_nat k) \<noteq> 0 \<Longrightarrow> n < 2 ^ 64 \<Longrightarrow> strlen m a = n"
  unfolding strlen_def by (rule strnlen_eq)

lemma fgets_at_eof_moves_offset_witness:
  "\<exists>s'. fgets_symbolized demo_libc (simple_backend demo_z3) 0x2000 80 0x7000
      (demo_program\<lparr>memory := (\<lambda>_. 0)(0x2000 := 65)\<rparr>) = Inr (0, s') \<and> inputOffset s' = 1"
proof -
  let ?s = "demo_program\<lparr>memory := (\<lambda>_. 0)(0x2000 := 65)\<rparr>"
  have len: "strlen (memory ?s) 0x2000 = 1" by (rule strlen_eq) simp_all
  obtain es b' where es: "input_exprs (simple_backend demo_z3) 0 1 demo_state = Inr (es, b')"
    using demo_input_exprs by blast
  obtain s' where s': "fgets_symbolized demo_libc (simple_backend demo_z3) 0x2000 80 0x7000 ?s = Inr (0, s')"
  proof -
    define s3 where "s3 = demo_program\<lparr>memory := (\<lambda>_. 0)(0x2000 := 65), g_return_value := None\<rparr>"
    have "input_exprs (simple_backend demo_z3) (inputOffset s3) (unat (1 :: addr)) (backend_state s3) = Inr (es, b')"
      using es by (simp add: s3_def)
    from filled_buffer_input [OF this, of "0x2000"] obtain s4 where
      "filled_buffer (simple_backend demo_z3) True 0x2000 1 s3 = Inr s4" by blast
    then show thesis using len that [of s4]
      by (simp add: fgets_symbolized_def Let_def tryAlternative_def sym_get_parameter_expression_def
          demo_libc_def is_input_stream_def s3_def sym_set_return_expression_def)
  qed
  have "inputOffset s' = inputOffset ?s + of_nat (strlen (memory ?s) 0x2000)"
    by (rule fgets_at_eof_moves_offset [where n = 80, OF _ _ _ _ s', THEN conjunct2])
      (simp_all add: demo_libc_def sym_get_parameter_expression_def)
  with s' len show ?thesis by auto
qed

subsection \<open>Characters and opening files\<close>

text \<open>A character read from the input stream with \<open>getc\<close> returns the zero extension of the
  input byte at the current offset; pushing a character back afterwards restores the offset,
  so that the next read gets the same byte again.\<close>

lemma getc_ungetc_offset:
  assumes "libc_getc L stream (world s) = (c, w)" "c \<noteq> EOF"
    and "libc_fileno L stream w = inputFileDescriptor s"
    and "sym_get_input_byte B (inputOffset s) (backend_state s) = Inr (Some e, b1)"
    and "sym_build_zext B e 24 b1 = Inr (z, b2)"
    and "libc_ungetc L c' stream w = (c', w')" "c' \<noteq> EOF"
    and "libc_fileno L stream w' = inputFileDescriptor s"
  shows "\<exists>s1 s2. getc_symbolized L B stream s = Inr (c, s1) \<and> g_return_value s1 = Some z \<and>
    inputOffset s1 = inputOffset s + 1 \<and>
    ungetc_symbolized L c' stream s1 = (c', s2) \<and> inputOffset s2 = inputOffset s \<and>
    g_shadow_pages s2 = g_shadow_pages s \<and> memory s2 = memory s"
  using assms
  by (simp add: getc_symbolized_def got_char_def is_input_stream_def with_backend_def
      sym_set_return_expression_def ungetc_symbolized_def)

lemma getc_ungetc_offset_witness:
  "\<exists>s1 s2. getc_symbolized demo_libc (simple_backend (demo_z3\<lparr>z3_mk_extend := \<lambda>_ k e. Some e\<rparr>)) 0x7000 demo_program = Inr (65, s1) \<and>
    ungetc_symbolized demo_libc 65 0x7000 s1 = (65, s2) \<and> inputOffset s2 = 0"
proof -
  let ?Z = "demo_z3\<lparr>z3_mk_extend := \<lambda>_ k e. Some e\<rparr>"
  have nv: "names_variables ?Z (\<lambda>s. Var s 8)"
    using demo_names_variables by (simp add: names_variables_def)
  obtain b1 where b1: "sym_get_input_byte (simple_backend ?Z) (inputOffset demo_program) (backend_state demo_program) =
      Inr (Some (Var (''stdin'' @ to_string (length (stdinBytes demo_state))) 8), b1)"
    using get_input_byte_new [OF nv, of demo_state 0] by (auto simp: demo_state_def simple_start_def)
  obtain z b2 where b2: "sym_build_zext (simple_backend ?Z) (Var (''stdin'' @ to_string (length (stdinBytes demo_state))) 8) 24 b1 =
      Inr (z, b2)"
    by (simp add: simple_build_zext_def register_result_def)
  have io: "libc_getc demo_libc 0x7000 (world demo_program) = (65, \<lparr>position = 1\<rparr>)"
    "libc_ungetc demo_libc 65 0x7000 \<lparr>position = 1\<rparr> = (65, \<lparr>position = 0\<rparr>)"
    by (simp_all add: demo_libc_def)
  from getc_ungetc_offset [OF io(1) _ _ b1 b2 io(2)] show ?thesis
    by (auto simp: EOF_def demo_libc_def)
qed

text \<open>Opening a file makes it the symbolic input exactly if the call succeeds, symbolic input
  is on, an input file is configured and its name occurs in the path; then the offset starts
  at 0 (with a warning if there was an input already). Otherwise the input stays as it was.\<close>

lemma open_finds_input:
  "open_symbolized L cfg path oflag mode s = (r, s') \<Longrightarrow>
   (if 0 \<le> r \<and> \<not> fullyConcrete cfg \<and> inputFile cfg \<noteq> [] \<and> strstr (c_string (memory s) path) (inputFile cfg)
    then inputFileDescriptor s' = r \<and> inputOffset s' = 0
    else inputFileDescriptor s' = inputFileDescriptor s \<and> inputOffset s' = inputOffset s) \<and>
   (warnings s' \<noteq> warnings s \<longrightarrow> inputFileDescriptor s \<noteq> -1 \<and> \<not> silent cfg) \<and>
   g_return_value s' = None \<and> g_shadow_pages s' = g_shadow_pages s \<and> backend_state s' = backend_state s"
  by (auto simp: open_symbolized_def opened_input_def sym_set_return_expression_def Let_def
      split: prod.splits if_splits)

lemma open_finds_input_witness:
  "\<exists>s'. open_symbolized demo_libc (default_config\<lparr>inputFile := ''A''\<rparr>) 0x2000 0 0
      (demo_program\<lparr>memory := (\<lambda>_. 0)(0x2000 := 65), inputOffset := 9\<rparr>) = (5, s') \<and>
    inputFileDescriptor s' = 5 \<and> inputOffset s' = 0"
proof -
  let ?s = "demo_program\<lparr>memory := (\<lambda>_. 0)(0x2000 := 65), inputOffset := 9\<rparr>"
  let ?cfg = "default_config\<lparr>inputFile := ''A''\<rparr>"
  have "strlen (memory ?s) 0x2000 = 1" by (rule strlen_eq) simp_all
  then have path: "c_string (memory ?s) 0x2000 = ''A''"
    by (simp add: c_string_def char_of_def bit_iff_odd)
  obtain s' where s': "open_symbolized demo_libc ?cfg 0x2000 0 0 ?s = (5, s')"
    by (simp add: open_symbolized_def demo_libc_def Let_def)
  from open_finds_input [OF s'] path s' show ?thesis by (simp add: default_config_def)
qed

end
