(* ===== verification/SimpleInit.thy ===== *)
theory SimpleInit
  imports SimpleState WrapperProps
begin

text \<open>
  The initialisation of the runtime with the simple backend (simple_backend/Runtime.cpp,
  \<open>_sym_initialize\<close>): the configuration, the input of the wrappers and the Z3 objects; and the
  tracing and debugging functions of the backend. Messages to the terminal are left out.
\<close>

datatype init_failure =
  Config_exception config_error   \<comment> \<open>thrown by \<open>loadConfig\<close>\<close>
| Init_fault fault                \<comment> \<open>a failing Z3 call\<close>

definition init_config :: "config_error + 'a \<Rightarrow> init_failure + 'a" where
  "init_config r = (case r of Inl e \<Rightarrow> Inl (Config_exception e) | Inr x \<Rightarrow> Inr x)"

definition init_z3 :: "'a result \<Rightarrow> init_failure + 'a" where
  "init_z3 r = (case r of Inl e \<Rightarrow> Inl (Init_fault e) | Inr x \<Rightarrow> Inr x)"

definition simple_initialize ::
  "('e, 't, 's) z3 \<Rightarrow> (string \<Rightarrow> string option) \<Rightarrow> config \<Rightarrow> ('e, ('e, 't, 's) simple_state, 'w) program \<Rightarrow>
   init_failure + config \<times> ('e, ('e, 't, 's) simple_state, 'w) program" where
  "simple_initialize Z env g_config0 p =
     (let st0 = backend_state p
      in if g_initialized st0 then Inr (g_config0, p)
         else bind_result (init_config (loadConfig env g_config0)) (\<lambda>g_config.
           let p1 = initLibcWrappers g_config (p\<lparr>backend_state := st0\<lparr>g_initialized := True\<rparr>\<rparr>)
           in bind_result (init_z3 (simple_initialize_z3 Z g_config (backend_state p1))) (\<lambda>st.
                Inr (g_config, p1\<lparr>backend_state := st\<rparr>))))"

text \<open>Coverage and call-stack tracing do nothing in this backend.\<close>

definition simple_cov_cb :: "u32 \<Rightarrow> ('e, 't, 's) simple_state \<Rightarrow> ('e, 't, 's) simple_state" where
  "simple_cov_cb cb_id st = st"

definition simple_notify_call :: "addr \<Rightarrow> ('e, 't, 's) simple_state \<Rightarrow> ('e, 't, 's) simple_state" where
  "simple_notify_call site_id st = st"

definition simple_notify_ret :: "addr \<Rightarrow> ('e, 't, 's) simple_state \<Rightarrow> ('e, 't, 's) simple_state" where
  "simple_notify_ret site_id st = st"

definition simple_notify_basic_block :: "addr \<Rightarrow> ('e, 't, 's) simple_state \<Rightarrow> ('e, 't, 's) simple_state" where
  "simple_notify_basic_block site_id st = st"

definition simple_expr_to_string :: "('e, 't, 's) z3 \<Rightarrow> 'e \<Rightarrow> string" where
  "simple_expr_to_string Z expr = z3_ast_to_string Z expr"

subsection \<open>What initialisation achieves\<close>

lemma init_config_simps [simp]:
  "init_config (Inl e) = Inl (Config_exception e)" "init_config (Inr x) = Inr x"
  "init_config r = Inr y \<longleftrightarrow> r = Inr y"
  by (cases r; simp add: init_config_def)+

lemma init_z3_simps [simp]:
  "init_z3 (Inl e) = Inl (Init_fault e)" "init_z3 (Inr x) = Inr x" "init_z3 r = Inr y \<longleftrightarrow> r = Inr y"
  by (cases r; simp add: init_z3_def)+

lemma initLibcWrappers_frame:
  "initLibcWrappers cfg p = p\<lparr>inputFileDescriptor :=
     (if fullyConcrete cfg \<or> inputFile cfg \<noteq> [] then inputFileDescriptor p else 0)\<rparr>"
  by (simp add: initLibcWrappers_def)

text \<open>The constants of the backend are set and hold references.\<close>

definition constants_ready :: "('e, 't, 's) z3 \<Rightarrow> ('e, 't, 's) simple_state \<Rightarrow> bool" where
  "constants_ready Z st \<longleftrightarrow>
     g_solver st \<noteq> None \<and> g_rounding_mode st = Some (z3_mk_fpa_round_nearest_ties_to_even Z) \<and>
     g_true st = Some (z3_mk_true Z) \<and> g_false st = Some (z3_mk_false Z) \<and>
     (\<exists>t n. z3_mk_bv_sort Z 64 = Some t \<and> z3_mk_int Z 0 t = Some n \<and> g_null_pointer st = Some n) \<and>
     (\<forall>x. Some x \<in> {g_rounding_mode st, g_true st, g_false st, g_null_pointer st} \<longrightarrow> 0 < ast_refs st x)"

lemma initialize_z3_state:
  assumes "simple_initialize_z3 Z cfg st = Inr st'"
  obtains t n where "z3_mk_bv_sort Z 64 = Some t" "z3_mk_int Z 0 t = Some n"
    "st' = st\<lparr>g_rounding_mode := Some (z3_mk_fpa_round_nearest_ties_to_even Z), g_solver := Some (z3_mk_solver Z),
       g_null_pointer := Some n, g_true := Some (z3_mk_true Z), g_false := Some (z3_mk_false Z),
       g_log := (if logFile cfg = [] then None else Some (logFile cfg)),
       log_text := (if logFile cfg = [] then log_text st else []),
       ast_refs := (\<lambda>x. ast_refs st x + of_bool (x = z3_mk_fpa_round_nearest_ties_to_even Z) + of_bool (x = n) +
         of_bool (x = z3_mk_true Z) + of_bool (x = z3_mk_false Z))\<rparr>"
proof -
  from assms obtain t n where tn: "z3_mk_bv_sort Z 64 = Some t" "z3_mk_int Z 0 t = Some n"
    by (auto simp: simple_initialize_z3_def Let_def with_sort_def bind_result_eq_Inr handle_z3_error_eq_Inr)
  show thesis
    by (rule that [OF tn], cases st)
      (use assms in \<open>auto simp: simple_initialize_z3_def Let_def with_sort_def tn handle_z3_error_def inc_ref_def
        inc_ref_sort_def dec_ref_sort_def fun_eq_iff\<close>)
qed

lemma simple_steps_keep_refs:
  "(simple_step Z cfg)\<^sup>*\<^sup>* rt rt' \<Longrightarrow> refs_le (backend_state rt) (backend_state rt')"
proof (induction rule: rtranclp_induct)
  case (step y z)
  then show ?case using simple_step_inv [OF step.hyps(2)] by (auto simp: refs_le_def intro: order_trans)
qed (simp add: refs_le_def)

text \<open>C10: Initialising the runtime from its start state establishes everything the backend relies on:
  the configuration is that of the environment, the solver and the constants exist, the state
  satisfies the invariant of the backend, symbolic data comes from standard input exactly when no
  input file is named and execution is not fully concrete; a second call changes nothing; and the
  constants keep a reference through everything the program does afterwards.\<close>

lemma initialization_establishes:
  assumes "simple_initialize Z env cfg0 p = Inr (cfg, p')" "backend_state p = simple_start"
  shows "loadConfig env cfg0 = Inr cfg \<and> g_initialized (backend_state p') \<and> constants_ready Z (backend_state p') \<and>
    simple_inv (backend_state p') \<and>
    inputFileDescriptor p' = (if fullyConcrete cfg \<or> inputFile cfg \<noteq> [] then inputFileDescriptor p else 0) \<and>
    simple_initialize Z env' cfg p' = Inr (cfg, p') \<and>
    (\<forall>rt x. (simple_step Z cfg)\<^sup>*\<^sup>* (runtime.truncate p') rt \<longrightarrow>
       x \<in> {z3_mk_true Z, z3_mk_false Z, z3_mk_fpa_round_nearest_ties_to_even Z} \<union> set_option (g_null_pointer (backend_state p')) \<longrightarrow>
       0 < ast_refs (backend_state rt) x)"
proof -
  let ?p1 = "initLibcWrappers cfg (p\<lparr>backend_state := simple_start\<lparr>g_initialized := True\<rparr>\<rparr>)"
  from assms obtain st where cfg: "loadConfig env cfg0 = Inr cfg" and
    z3: "simple_initialize_z3 Z cfg (backend_state ?p1) = Inr st" and p': "p' = ?p1\<lparr>backend_state := st\<rparr>"
    by (auto simp: simple_initialize_def Let_def bind_result_eq_Inr simple_start_def split: if_splits)
  obtain t n where tn: "z3_mk_bv_sort Z 64 = Some t" "z3_mk_int Z 0 t = Some n" and
    st: "st = (simple_start\<lparr>g_initialized := True\<rparr>)\<lparr>g_rounding_mode := Some (z3_mk_fpa_round_nearest_ties_to_even Z),
       g_solver := Some (z3_mk_solver Z),
       g_null_pointer := Some n, g_true := Some (z3_mk_true Z), g_false := Some (z3_mk_false Z),
       g_log := (if logFile cfg = [] then None else Some (logFile cfg)),
       log_text := (if logFile cfg = [] then log_text (backend_state ?p1) else []),
       ast_refs := (\<lambda>x. of_bool (x = z3_mk_fpa_round_nearest_ties_to_even Z) + of_bool (x = n) +
         of_bool (x = z3_mk_true Z) + of_bool (x = z3_mk_false Z))\<rparr>"
    by (rule initialize_z3_state [OF z3]) (simp add: initLibcWrappers_frame simple_start_def)
  have ready: "constants_ready Z st"
    using tn by (simp add: st constants_ready_def)
  have "simple_inv st" by (simp add: st simple_inv_def refs_ok_def simple_start_def)
  moreover have "0 < ast_refs (backend_state rt) x"
    if "(simple_step Z cfg)\<^sup>*\<^sup>* (runtime.truncate p') rt"
      "x \<in> {z3_mk_true Z, z3_mk_false Z, z3_mk_fpa_round_nearest_ties_to_even Z} \<union> set_option (g_null_pointer (backend_state p'))" for rt x
  proof -
    have "0 < ast_refs st x" using that(2) by (auto simp: p' st)
    moreover have "ast_refs st x \<le> ast_refs (backend_state rt) x"
      using simple_steps_keep_refs [OF that(1)] by (simp add: p' refs_le_def runtime.truncate_def)
    ultimately show ?thesis by simp
  qed
  moreover have "simple_initialize Z env' cfg p' = Inr (cfg, p')"
    by (simp add: simple_initialize_def p' st)
  ultimately show ?thesis using cfg ready by (simp add: p' initLibcWrappers_frame) (simp add: st)
qed

lemma initialization_establishes_witness:
  "\<exists>p'. simple_initialize demo_z3 (\<lambda>_. None) default_config (demo_program\<lparr>backend_state := simple_start\<rparr>) =
      Inr (default_config, p') \<and> inputFileDescriptor p' = 0 \<and> simple_inv (backend_state p')"
proof -
  obtain p' where p': "simple_initialize demo_z3 (\<lambda>_. None) default_config (demo_program\<lparr>backend_state := simple_start\<rparr>) =
      Inr (default_config, p')"
    by (simp add: simple_initialize_def simple_start_def loadConfig_def from_env_def simple_initialize_z3_def
        with_sort_def handle_z3_error_def demo_z3_def Let_def)
  from initialization_establishes [OF p'] p' show ?thesis by (auto simp: default_config_def)
qed

end
