(* ===== verification/IR.thy ===== *)
theory IR
  imports Prelude
begin

text \<open>
  The part of LLVM's intermediate representation that the compiler pass (compiler/) reads and
  writes: types, values, instructions and functions, with LLVM's names. Typed pointers, address
  spaces and metadata are left out. \<open>Result n t\<close> is the value of the original instruction \<open>n\<close>,
  \<open>Made n t\<close> that of the \<open>n\<close>-th instruction the pass has created. The data layout of the module
  is a parameter. The failures are the assertions that a debug build of LLVM makes of its
  clients, and those of the pass itself.
\<close>

datatype ty =
  IntegerTy nat | FloatTy | DoubleTy | LongDoubleTy | PointerTy | StructTy "ty list"
| ArrayTy nat ty | VectorTy nat ty | VoidTy

datatype val =
  ConstantInt nat int | ConstantPointerNull | OtherConstant string ty | Argument nat ty
| Result nat ty | Made nat ty

fun type_of :: "val \<Rightarrow> ty" where
  "type_of (ConstantInt w k) = IntegerTy w"
| "type_of ConstantPointerNull = PointerTy"
| "type_of (OtherConstant c t) = t"
| "type_of (Argument n t) = t"
| "type_of (Result n t) = t"
| "type_of (Made n t) = t"

fun isIntegerTy :: "ty \<Rightarrow> bool" where
  "isIntegerTy (IntegerTy w) = True"
| "isIntegerTy t = False"

fun isFloatingPointTy :: "ty \<Rightarrow> bool" where
  "isFloatingPointTy FloatTy = True"
| "isFloatingPointTy DoubleTy = True"
| "isFloatingPointTy LongDoubleTy = True"
| "isFloatingPointTy t = False"

fun isAggregateType :: "ty \<Rightarrow> bool" where
  "isAggregateType (StructTy ts) = True"
| "isAggregateType (ArrayTy n t) = True"
| "isAggregateType t = False"

text \<open>\<open>ConstantInt::get\<close> keeps the low bits of its argument.\<close>

definition const_int :: "nat \<Rightarrow> int \<Rightarrow> val" where
  "const_int w k = ConstantInt w (k mod 2 ^ w)"

lemma type_of_const_int [simp]: "type_of (const_int w k) = IntegerTy w"
  by (simp add: const_int_def)

datatype binary_operator =
  Add | Sub | Mul | UDiv | SDiv | URem | SRem | Shl | LShr | AShr | And | Or | Xor
| FAdd | FSub | FMul | FDiv | FRem

datatype predicate =
  FCMP_FALSE | FCMP_OEQ | FCMP_OGT | FCMP_OGE | FCMP_OLT | FCMP_OLE | FCMP_ONE | FCMP_ORD
| FCMP_UNO | FCMP_UEQ | FCMP_UGT | FCMP_UGE | FCMP_ULT | FCMP_ULE | FCMP_UNE | FCMP_TRUE
| ICMP_EQ | ICMP_NE | ICMP_UGT | ICMP_UGE | ICMP_ULT | ICMP_ULE | ICMP_SGT | ICMP_SGE
| ICMP_SLT | ICMP_SLE

datatype cast_op =
  Trunc | ZExt | SExt | FPToUI | FPToSI | UIToFP | SIToFP | FPTrunc | FPExt | PtrToInt
| IntToPtr | BitCast | AddrSpaceCast

datatype intrinsic =
  lifetime_start | lifetime_end | dbg_declare | dbg_value | is_constant | trap
| invariant_start | invariant_end | assume_intrinsic | memcpy_intrinsic | memset_intrinsic
| memmove_intrinsic | stacksave | stackrestore | expect | fabs | cttz | ctpop | ctlz
| returnaddress | bswap | other_intrinsic string

datatype callee =
  Direct string | Intrinsic intrinsic | Indirect val | InlineAsm

text \<open>
  One step of a \<open>getelementptr\<close>, as LLVM's type iterator presents it: the index selects a member
  of a struct, or an element of the given type.
\<close>

datatype gep_index = StructStep "ty list" val | ElementStep ty val

fun step_operand :: "gep_index \<Rightarrow> val" where
  "step_operand (StructStep ts i) = i"
| "step_operand (ElementStep t i) = i"

text \<open>Blocks are numbered; the jumping instructions name the blocks they can go to.\<close>

datatype opcode =
  BinaryOperator binary_operator val val
| CmpInst predicate val val
| SelectInst val val val
| ReturnInst "val option"
| BranchInst "val option" "nat list"
| IndirectBrInst val "nat list"
| SwitchInst val "val list" "nat list"
| CallInst callee "val list"
| InvokeInst callee "val list" nat nat
| AllocaInst
| LoadInst val
| StoreInst val val
| GetElementPtrInst val "gep_index list"
| CastInst cast_op val
| PHINode "(val \<times> nat) list"
| ExtractValueInst val "nat list"
| InsertValueInst val val
| UnreachableInst
| LandingPadInst
| ResumeInst val
| OtherInst "val list"

record instruction =
  iid :: nat
  ity :: ty
  iop :: opcode

record basic_block =
  bname :: nat
  instrs :: "instruction list"

record ir_function =
  fname :: string
  params :: "ty list"
  blocks :: "basic_block list"

definition self :: "instruction \<Rightarrow> val" where
  "self I = Result (iid I) (ity I)"

lemma type_of_self [simp]: "type_of (self I) = ity I"
  by (simp add: self_def)

fun callee_operands :: "callee \<Rightarrow> val list" where
  "callee_operands (Indirect v) = [v]"
| "callee_operands c = []"

fun operands :: "opcode \<Rightarrow> val list" where
  "operands (BinaryOperator b x y) = [x, y]"
| "operands (CmpInst p x y) = [x, y]"
| "operands (SelectInst c x y) = [c, x, y]"
| "operands (ReturnInst r) = (case r of None \<Rightarrow> [] | Some x \<Rightarrow> [x])"
| "operands (BranchInst c bs) = (case c of None \<Rightarrow> [] | Some x \<Rightarrow> [x])"
| "operands (IndirectBrInst x bs) = [x]"
| "operands (SwitchInst x cs bs) = x # cs"
| "operands (CallInst f xs) = xs @ callee_operands f"
| "operands (InvokeInst f xs b u) = xs @ callee_operands f"
| "operands AllocaInst = []"
| "operands (LoadInst p) = [p]"
| "operands (StoreInst x p) = [x, p]"
| "operands (GetElementPtrInst p js) = p # map step_operand js"
| "operands (CastInst c x) = [x]"
| "operands (PHINode xs) = map fst xs"
| "operands (ExtractValueInst x js) = [x]"
| "operands (InsertValueInst x y) = [x, y]"
| "operands UnreachableInst = []"
| "operands LandingPadInst = []"
| "operands (ResumeInst x) = [x]"
| "operands (OtherInst xs) = xs"

fun successors :: "opcode \<Rightarrow> nat list" where
  "successors (BranchInst c bs) = bs"
| "successors (IndirectBrInst x bs) = bs"
| "successors (SwitchInst x cs bs) = bs"
| "successors (InvokeInst f xs b u) = [b, u]"
| "successors _ = []"

fun is_phi :: "opcode \<Rightarrow> bool" where
  "is_phi (PHINode xs) = True"
| "is_phi _ = False"

definition all_instructions :: "ir_function \<Rightarrow> instruction list" where
  "all_instructions F = concat (map instrs (blocks F))"

definition user_empty :: "ir_function \<Rightarrow> val \<Rightarrow> bool" where
  "user_empty F v \<longleftrightarrow> list_all (\<lambda>I. v \<notin> set (operands (iop I))) (all_instructions F)"

definition first_non_phi :: "basic_block \<Rightarrow> nat option" where
  "first_non_phi B = (case dropWhile (\<lambda>I. is_phi (iop I)) (instrs B) of [] \<Rightarrow> None | I # _ \<Rightarrow> Some (iid I))"

text \<open>\<open>getFirstInsertionPt\<close> also passes over a landing pad.\<close>

definition first_insertion_point :: "basic_block \<Rightarrow> nat option" where
  "first_insertion_point B =
     (case dropWhile (\<lambda>I. is_phi (iop I)) (instrs B) of
        [] \<Rightarrow> None
      | I # rest \<Rightarrow> (if iop I = LandingPadInst then map_option iid (case rest of [] \<Rightarrow> None | J # _ \<Rightarrow> Some J) else Some (iid I)))"

text \<open>The edge into a block is critical if another edge leads there as well.\<close>

definition edge_count :: "ir_function \<Rightarrow> nat \<Rightarrow> nat" where
  "edge_count F b = count_list (concat (map (\<lambda>I. successors (iop I)) (all_instructions F))) b"

definition find_block :: "ir_function \<Rightarrow> nat \<Rightarrow> basic_block option" where
  "find_block F b = List.find (\<lambda>B. bname B = b) (blocks F)"

record data_layout =
  ptr_bits :: nat
  little_endian :: bool
  type_store_size :: "ty \<Rightarrow> nat"
  type_alloc_size :: "ty \<Rightarrow> nat"
  element_offset :: "ty list \<Rightarrow> nat \<Rightarrow> nat"

datatype compile_error =
  Assertion string   \<comment> \<open>an \<open>assert\<close> of the pass or of LLVM\<close>
| Unreachable string \<comment> \<open>\<open>llvm_unreachable\<close>\<close>

end
