(* ===== verification/CompilerRuntime.thy ===== *)
theory CompilerRuntime
  imports IR
begin

text \<open>
  compiler/Runtime.h and compiler/Runtime.cpp: the pass's view of the run-time library. A
  \<open>sym_fn\<close> is a \<open>SymFnT\<close>, the declaration of a run-time function with its type; \<open>runtime_table\<close>
  is \<open>struct Runtime\<close> and \<open>Runtime_ctor\<close> its constructor, which imports every function into the
  module. The two handler tables map an operator or predicate to the function that builds the
  corresponding expression; an entry that the constructor does not set is null (\<open>None\<close>).
\<close>

record sym_fn =
  sym_name :: string
  sym_ret :: ty
  sym_args :: "ty list"

definition import :: "string \<Rightarrow> ty \<Rightarrow> ty list \<Rightarrow> sym_fn" where
  "import n r ts = \<lparr>sym_name = n, sym_ret = r, sym_args = ts\<rparr>"

lemma import_simps [simp]:
  "sym_name (import n r ts) = n" "sym_ret (import n r ts) = r" "sym_args (import n r ts) = ts"
  by (simp_all add: import_def)

text \<open>The macros \<open>LOAD_BINARY_OPERATOR_HANDLER\<close> and \<open>LOAD_COMPARISON_HANDLER\<close>.\<close>

definition load_handler :: "string \<Rightarrow> sym_fn option" where
  "load_handler n = Some (import (''_sym_build_'' @ n) PointerTy [PointerTy, PointerTy])"

fun binary_operator_handlers :: "binary_operator \<Rightarrow> sym_fn option" where
  "binary_operator_handlers Add = load_handler ''add''"
| "binary_operator_handlers Sub = load_handler ''sub''"
| "binary_operator_handlers Mul = load_handler ''mul''"
| "binary_operator_handlers UDiv = load_handler ''unsigned_div''"
| "binary_operator_handlers SDiv = load_handler ''signed_div''"
| "binary_operator_handlers URem = load_handler ''unsigned_rem''"
| "binary_operator_handlers SRem = load_handler ''signed_rem''"
| "binary_operator_handlers Shl = load_handler ''shift_left''"
| "binary_operator_handlers LShr = load_handler ''logical_shift_right''"
| "binary_operator_handlers AShr = load_handler ''arithmetic_shift_right''"
| "binary_operator_handlers And = load_handler ''and''"
| "binary_operator_handlers Or = load_handler ''or''"
| "binary_operator_handlers Xor = load_handler ''xor''"
| "binary_operator_handlers FAdd = load_handler ''fp_add''"
| "binary_operator_handlers FSub = load_handler ''fp_sub''"
| "binary_operator_handlers FMul = load_handler ''fp_mul''"
| "binary_operator_handlers FDiv = load_handler ''fp_div''"
| "binary_operator_handlers FRem = load_handler ''fp_rem''"

fun comparison_handlers :: "predicate \<Rightarrow> sym_fn option" where
  "comparison_handlers ICMP_EQ = load_handler ''equal''"
| "comparison_handlers ICMP_NE = load_handler ''not_equal''"
| "comparison_handlers ICMP_UGT = load_handler ''unsigned_greater_than''"
| "comparison_handlers ICMP_UGE = load_handler ''unsigned_greater_equal''"
| "comparison_handlers ICMP_ULT = load_handler ''unsigned_less_than''"
| "comparison_handlers ICMP_ULE = load_handler ''unsigned_less_equal''"
| "comparison_handlers ICMP_SGT = load_handler ''signed_greater_than''"
| "comparison_handlers ICMP_SGE = load_handler ''signed_greater_equal''"
| "comparison_handlers ICMP_SLT = load_handler ''signed_less_than''"
| "comparison_handlers ICMP_SLE = load_handler ''signed_less_equal''"
| "comparison_handlers FCMP_OGT = load_handler ''float_ordered_greater_than''"
| "comparison_handlers FCMP_OGE = load_handler ''float_ordered_greater_equal''"
| "comparison_handlers FCMP_OLT = load_handler ''float_ordered_less_than''"
| "comparison_handlers FCMP_OLE = load_handler ''float_ordered_less_equal''"
| "comparison_handlers FCMP_OEQ = load_handler ''float_ordered_equal''"
| "comparison_handlers FCMP_ONE = load_handler ''float_ordered_not_equal''"
| "comparison_handlers FCMP_ORD = load_handler ''float_ordered''"
| "comparison_handlers FCMP_UNO = load_handler ''float_unordered''"
| "comparison_handlers FCMP_UGT = load_handler ''float_unordered_greater_than''"
| "comparison_handlers FCMP_UGE = load_handler ''float_unordered_greater_equal''"
| "comparison_handlers FCMP_ULT = load_handler ''float_unordered_less_than''"
| "comparison_handlers FCMP_ULE = load_handler ''float_unordered_less_equal''"
| "comparison_handlers FCMP_UEQ = load_handler ''float_unordered_equal''"
| "comparison_handlers FCMP_UNE = load_handler ''float_unordered_not_equal''"
| "comparison_handlers FCMP_FALSE = None"
| "comparison_handlers FCMP_TRUE = None"

record runtime_table =
  cov_fun_callback :: sym_fn
  buildInteger :: sym_fn
  buildInteger128 :: sym_fn
  buildFloat :: sym_fn
  buildNullPointer :: sym_fn
  buildTrue :: sym_fn
  buildFalse :: sym_fn
  buildBool :: sym_fn
  buildSExt :: sym_fn
  buildZExt :: sym_fn
  buildTrunc :: sym_fn
  buildBswap :: sym_fn
  buildIntToFloat :: sym_fn
  buildFloatToFloat :: sym_fn
  buildBitsToFloat :: sym_fn
  buildFloatToBits :: sym_fn
  buildFloatToSignedInt :: sym_fn
  buildFloatToUnsignedInt :: sym_fn
  buildFloatAbs :: sym_fn
  buildBoolAnd :: sym_fn
  buildBoolOr :: sym_fn
  buildBoolXor :: sym_fn
  buildBoolToBits :: sym_fn
  pushPathConstraint :: sym_fn
  getParameterExpression :: sym_fn
  setParameterExpression :: sym_fn
  setReturnExpression :: sym_fn
  getReturnExpression :: sym_fn
  memcpy :: sym_fn
  memset :: sym_fn
  memmove :: sym_fn
  readMemory :: sym_fn
  writeMemory :: sym_fn
  buildExtract :: sym_fn
  notifyCall :: sym_fn
  notifyRet :: sym_fn
  notifyBasicBlock :: sym_fn
  binaryOperatorHandlers :: "binary_operator \<Rightarrow> sym_fn option"
  comparisonHandlers :: "predicate \<Rightarrow> sym_fn option"

definition Runtime_ctor :: "data_layout \<Rightarrow> runtime_table" where
  "Runtime_ctor dl =
     (let intPtrType = IntegerTy (ptr_bits dl) in
      \<lparr>cov_fun_callback = import ''_symcc_cov_cb'' VoidTy [IntegerTy 32],
        buildInteger = import ''_sym_build_integer'' PointerTy [IntegerTy 64, IntegerTy 8],
        buildInteger128 = import ''_sym_build_integer128'' PointerTy [IntegerTy 64, IntegerTy 64],
        buildFloat = import ''_sym_build_float'' PointerTy [DoubleTy, IntegerTy 1],
        buildNullPointer = import ''_sym_build_null_pointer'' PointerTy [],
        buildTrue = import ''_sym_build_true'' PointerTy [],
        buildFalse = import ''_sym_build_false'' PointerTy [],
        buildBool = import ''_sym_build_bool'' PointerTy [IntegerTy 1],
        buildSExt = import ''_sym_build_sext'' PointerTy [PointerTy, IntegerTy 8],
        buildZExt = import ''_sym_build_zext'' PointerTy [PointerTy, IntegerTy 8],
        buildTrunc = import ''_sym_build_trunc'' PointerTy [PointerTy, IntegerTy 8],
        buildBswap = import ''_sym_build_bswap'' PointerTy [PointerTy],
        buildIntToFloat = import ''_sym_build_int_to_float'' PointerTy [PointerTy, IntegerTy 1, IntegerTy 1],
        buildFloatToFloat = import ''_sym_build_float_to_float'' PointerTy [PointerTy, IntegerTy 1],
        buildBitsToFloat = import ''_sym_build_bits_to_float'' PointerTy [PointerTy, IntegerTy 1],
        buildFloatToBits = import ''_sym_build_float_to_bits'' PointerTy [PointerTy],
        buildFloatToSignedInt = import ''_sym_build_float_to_signed_integer'' PointerTy [PointerTy, IntegerTy 8],
        buildFloatToUnsignedInt = import ''_sym_build_float_to_unsigned_integer'' PointerTy [PointerTy, IntegerTy 8],
        buildFloatAbs = import ''_sym_build_fp_abs'' PointerTy [PointerTy],
        buildBoolAnd = import ''_sym_build_bool_and'' PointerTy [PointerTy, PointerTy],
        buildBoolOr = import ''_sym_build_bool_or'' PointerTy [PointerTy, PointerTy],
        buildBoolXor = import ''_sym_build_bool_xor'' PointerTy [PointerTy, PointerTy],
        buildBoolToBits = import ''_sym_build_bool_to_bits'' PointerTy [PointerTy, IntegerTy 8],
        pushPathConstraint = import ''_sym_push_path_constraint'' VoidTy [PointerTy, IntegerTy 1, intPtrType],
        getParameterExpression = import ''_sym_get_parameter_expression'' PointerTy [IntegerTy 8],
        setParameterExpression = import ''_sym_set_parameter_expression'' VoidTy [IntegerTy 8, PointerTy],
        setReturnExpression = import ''_sym_set_return_expression'' VoidTy [PointerTy],
        getReturnExpression = import ''_sym_get_return_expression'' PointerTy [],
        memcpy = import ''_sym_memcpy'' VoidTy [PointerTy, PointerTy, intPtrType],
        memset = import ''_sym_memset'' VoidTy [PointerTy, PointerTy, intPtrType],
        memmove = import ''_sym_memmove'' VoidTy [PointerTy, PointerTy, intPtrType],
        readMemory = import ''_sym_read_memory'' PointerTy [intPtrType, intPtrType, IntegerTy 8],
        writeMemory = import ''_sym_write_memory'' VoidTy [intPtrType, intPtrType, PointerTy, IntegerTy 8],
        buildExtract = import ''_sym_build_extract'' PointerTy [PointerTy, IntegerTy 64, IntegerTy 64, IntegerTy 8],
        notifyCall = import ''_sym_notify_call'' VoidTy [intPtrType],
        notifyRet = import ''_sym_notify_ret'' VoidTy [intPtrType],
        notifyBasicBlock = import ''_sym_notify_basic_block'' VoidTy [intPtrType],
        binaryOperatorHandlers = binary_operator_handlers,
        comparisonHandlers = comparison_handlers\<rparr>)"

lemma runtime_fields [simp]:
  "cov_fun_callback (Runtime_ctor dl) = import ''_symcc_cov_cb'' VoidTy [IntegerTy 32]"
  "buildInteger (Runtime_ctor dl) = import ''_sym_build_integer'' PointerTy [IntegerTy 64, IntegerTy 8]"
  "buildInteger128 (Runtime_ctor dl) = import ''_sym_build_integer128'' PointerTy [IntegerTy 64, IntegerTy 64]"
  "buildFloat (Runtime_ctor dl) = import ''_sym_build_float'' PointerTy [DoubleTy, IntegerTy 1]"
  "buildNullPointer (Runtime_ctor dl) = import ''_sym_build_null_pointer'' PointerTy []"
  "buildTrue (Runtime_ctor dl) = import ''_sym_build_true'' PointerTy []"
  "buildFalse (Runtime_ctor dl) = import ''_sym_build_false'' PointerTy []"
  "buildBool (Runtime_ctor dl) = import ''_sym_build_bool'' PointerTy [IntegerTy 1]"
  "buildSExt (Runtime_ctor dl) = import ''_sym_build_sext'' PointerTy [PointerTy, IntegerTy 8]"
  "buildZExt (Runtime_ctor dl) = import ''_sym_build_zext'' PointerTy [PointerTy, IntegerTy 8]"
  "buildTrunc (Runtime_ctor dl) = import ''_sym_build_trunc'' PointerTy [PointerTy, IntegerTy 8]"
  "buildBswap (Runtime_ctor dl) = import ''_sym_build_bswap'' PointerTy [PointerTy]"
  "buildIntToFloat (Runtime_ctor dl) = import ''_sym_build_int_to_float'' PointerTy [PointerTy, IntegerTy 1, IntegerTy 1]"
  "buildFloatToFloat (Runtime_ctor dl) = import ''_sym_build_float_to_float'' PointerTy [PointerTy, IntegerTy 1]"
  "buildBitsToFloat (Runtime_ctor dl) = import ''_sym_build_bits_to_float'' PointerTy [PointerTy, IntegerTy 1]"
  "buildFloatToBits (Runtime_ctor dl) = import ''_sym_build_float_to_bits'' PointerTy [PointerTy]"
  "buildFloatToSignedInt (Runtime_ctor dl) = import ''_sym_build_float_to_signed_integer'' PointerTy [PointerTy, IntegerTy 8]"
  "buildFloatToUnsignedInt (Runtime_ctor dl) = import ''_sym_build_float_to_unsigned_integer'' PointerTy [PointerTy, IntegerTy 8]"
  "buildFloatAbs (Runtime_ctor dl) = import ''_sym_build_fp_abs'' PointerTy [PointerTy]"
  "buildBoolAnd (Runtime_ctor dl) = import ''_sym_build_bool_and'' PointerTy [PointerTy, PointerTy]"
  "buildBoolOr (Runtime_ctor dl) = import ''_sym_build_bool_or'' PointerTy [PointerTy, PointerTy]"
  "buildBoolXor (Runtime_ctor dl) = import ''_sym_build_bool_xor'' PointerTy [PointerTy, PointerTy]"
  "buildBoolToBits (Runtime_ctor dl) = import ''_sym_build_bool_to_bits'' PointerTy [PointerTy, IntegerTy 8]"
  "pushPathConstraint (Runtime_ctor dl) = import ''_sym_push_path_constraint'' VoidTy [PointerTy, IntegerTy 1, IntegerTy (ptr_bits dl)]"
  "getParameterExpression (Runtime_ctor dl) = import ''_sym_get_parameter_expression'' PointerTy [IntegerTy 8]"
  "setParameterExpression (Runtime_ctor dl) = import ''_sym_set_parameter_expression'' VoidTy [IntegerTy 8, PointerTy]"
  "setReturnExpression (Runtime_ctor dl) = import ''_sym_set_return_expression'' VoidTy [PointerTy]"
  "getReturnExpression (Runtime_ctor dl) = import ''_sym_get_return_expression'' PointerTy []"
  "memcpy (Runtime_ctor dl) = import ''_sym_memcpy'' VoidTy [PointerTy, PointerTy, IntegerTy (ptr_bits dl)]"
  "memset (Runtime_ctor dl) = import ''_sym_memset'' VoidTy [PointerTy, PointerTy, IntegerTy (ptr_bits dl)]"
  "memmove (Runtime_ctor dl) = import ''_sym_memmove'' VoidTy [PointerTy, PointerTy, IntegerTy (ptr_bits dl)]"
  "readMemory (Runtime_ctor dl) = import ''_sym_read_memory'' PointerTy [IntegerTy (ptr_bits dl), IntegerTy (ptr_bits dl), IntegerTy 8]"
  "writeMemory (Runtime_ctor dl) = import ''_sym_write_memory'' VoidTy [IntegerTy (ptr_bits dl), IntegerTy (ptr_bits dl), PointerTy, IntegerTy 8]"
  "buildExtract (Runtime_ctor dl) = import ''_sym_build_extract'' PointerTy [PointerTy, IntegerTy 64, IntegerTy 64, IntegerTy 8]"
  "notifyCall (Runtime_ctor dl) = import ''_sym_notify_call'' VoidTy [IntegerTy (ptr_bits dl)]"
  "notifyRet (Runtime_ctor dl) = import ''_sym_notify_ret'' VoidTy [IntegerTy (ptr_bits dl)]"
  "notifyBasicBlock (Runtime_ctor dl) = import ''_sym_notify_basic_block'' VoidTy [IntegerTy (ptr_bits dl)]"
  "binaryOperatorHandlers (Runtime_ctor dl) = binary_operator_handlers"
  "comparisonHandlers (Runtime_ctor dl) = comparison_handlers"
  by (simp_all add: Runtime_ctor_def Let_def)

text \<open>The functions whose calls are redirected to the wrappers of the runtime.\<close>

definition kInterceptedFunctions :: "string list" where
  "kInterceptedFunctions =
     [''malloc'', ''calloc'', ''mmap'', ''mmap64'', ''open'', ''read'', ''lseek'', ''lseek64'',
      ''fopen'', ''fopen64'', ''fread'', ''fseek'', ''fseeko'', ''rewind'', ''fseeko64'',
      ''getc'', ''ungetc'', ''memcpy'', ''memset'', ''strncpy'', ''strchr'', ''memcmp'',
      ''memmove'', ''ntohl'', ''fgets'', ''fgetc'']"

definition isInterceptedFunction :: "string \<Rightarrow> bool" where
  "isInterceptedFunction f \<longleftrightarrow> f \<in> set kInterceptedFunctions"

lemma load_handler_Some:
  "load_handler n = Some h \<Longrightarrow> sym_ret h = PointerTy \<and> sym_args h = [PointerTy, PointerTy]"
  by (auto simp: load_handler_def)

lemma binary_handler_type:
  "binary_operator_handlers b = Some h \<Longrightarrow> sym_ret h = PointerTy \<and> sym_args h = [PointerTy, PointerTy]"
  by (cases b) (auto dest: load_handler_Some)

lemma binary_handler_total: "binary_operator_handlers b \<noteq> None"
  by (cases b) (simp_all add: load_handler_def)

lemma comparison_handler_type:
  "comparison_handlers p = Some h \<Longrightarrow> sym_ret h = PointerTy \<and> sym_args h = [PointerTy, PointerTy]"
  by (cases p) (auto dest: load_handler_Some)

lemma comparison_handler_None:
  "comparison_handlers p = None \<longleftrightarrow> p \<in> {FCMP_FALSE, FCMP_TRUE}"
  by (cases p) (simp_all add: load_handler_def)

end
