(* ===== verification/Symbolizer.thy ===== *)
theory Symbolizer
  imports CompilerRuntime
begin

text \<open>
  compiler/Symbolizer.h and the constructing half of compiler/Symbolizer.cpp: the state of the
  symbolizer, the code it inserts and the functions that insert it.

  A \<open>point\<close> is a place where an \<open>IRBuilder\<close> inserts: before an original instruction, on an edge
  that was split for an invoke, or at the start of a block, behind its phi nodes: first the
  coverage call (\<open>AtEntry\<close>), then what belongs to an invoke that returns there (\<open>AtReturn\<close>),
  then the code before the first instruction. \<open>inserted\<close>
  holds the code of each point in order. \<open>Gen r op xs\<close> is a created instruction with result
  \<open>r\<close>, \<open>Enter b c body\<close> a block that control enters if \<open>c\<close> has the value \<open>b\<close> and
  that it then leaves to the code behind it (what \<open>SplitBlock\<close> and \<open>SplitBlockAndInsertIfThen\<close>
  make), and \<open>Merge r x y\<close> the phi node behind such a block: \<open>x\<close> if the block was passed by,
  \<open>y\<close> if control comes out of it. \<open>'a build\<close> is code that works on the symbolizer and can fail.
\<close>

datatype point = Before nat | OnEdge nat nat | AtReturn nat | AtEntry nat

datatype gop =
  Call sym_fn | Cast cast_op | Shift_right | Fp_cast | Equal_to | Not_equal_to | Conjunction
| Alloca ty | Store | Expr_phi "nat list"

datatype gen =
  Gen val gop "val list"
| Enter bool val "gen list"
| Merge val val val

record input =
  concreteValue :: val
  operandIndex :: nat
  user :: val

record symbolic_computation =
  place :: point
  firstInstruction :: "val option"
  lastInstruction :: "val option"
  inputs :: "input list"

record symbolizer =
  symbolicExpressions :: "val \<Rightarrow> val option"
  phiNodes :: "instruction list"
  expressionUses :: "symbolic_computation list"
  inserted :: "point \<Rightarrow> gen list"
  next_id :: nat
  my_random_number :: int
  diagnostics :: "(string \<times> val option) list"

text \<open>What a symbolizer works with: the layout of the module, the function, the addresses its
  objects have in the compiler's memory, and whether \<open>SYMCC_SILENT\<close> is set.\<close>

record environment =
  dataLayout :: data_layout
  func :: ir_function
  host_address :: "val \<Rightarrow> int"
  block_address :: "nat \<Rightarrow> int"
  silent :: bool

abbreviation rt :: "environment \<Rightarrow> runtime_table" where
  "rt E \<equiv> Runtime_ctor (dataLayout E)"

abbreviation ptrBits :: "environment \<Rightarrow> nat" where
  "ptrBits E \<equiv> ptr_bits (dataLayout E)"

abbreviation intPtrType :: "environment \<Rightarrow> ty" where
  "intPtrType E \<equiv> IntegerTy (ptrBits E)"

type_synonym 'a build = "symbolizer \<Rightarrow> compile_error + 'a \<times> symbolizer"

definition return_build :: "'a \<Rightarrow> 'a build" where
  "return_build x s = Inr (x, s)"

definition bind_build :: "'a build \<Rightarrow> ('a \<Rightarrow> 'b build) \<Rightarrow> 'b build" where
  "bind_build m f s = bind_result (m s) (\<lambda>(x, s'). f x s')"

definition and_then :: "'a build \<Rightarrow> 'b build \<Rightarrow> 'b build" where
  "and_then m k = bind_build m (\<lambda>_. k)"

definition modify :: "(symbolizer \<Rightarrow> symbolizer) \<Rightarrow> unit build" where
  "modify f s = Inr ((), f s)"

definition fail_build :: "compile_error \<Rightarrow> 'a build" where
  "fail_build e s = Inl e"

definition check :: "bool \<Rightarrow> string \<Rightarrow> unit build" where
  "check b msg = (if b then return_build () else fail_build (Assertion msg))"

definition in_case :: "bool \<Rightarrow> unit build \<Rightarrow> unit build" where
  "in_case b m = (if b then m else return_build ())"

fun for_each :: "'a list \<Rightarrow> ('a \<Rightarrow> unit build) \<Rightarrow> unit build" where
  "for_each [] f = return_build ()"
| "for_each (x # xs) f = and_then (f x) (for_each xs f)"

named_theorems build_simps "evaluation of the build functions"

lemmas build_defs = return_build_def bind_build_def and_then_def modify_def fail_build_def

lemma return_build_eq [build_simps]: "return_build x s = Inr (x, s)"
  by (simp add: return_build_def)

lemma bind_build_eq [build_simps]: "bind_build m f s = bind_result (m s) (\<lambda>(x, s'). f x s')"
  by (simp add: bind_build_def)

lemma and_then_eq [build_simps]: "and_then m k s = bind_result (m s) (\<lambda>(x, s'). k s')"
  by (simp add: and_then_def bind_build_def)

lemma modify_eq [build_simps]: "modify f s = Inr ((), f s)"
  by (simp add: modify_def)

lemma check_eq [build_simps]: "check b msg s = (if b then Inr ((), s) else Inl (Assertion msg))"
  by (simp add: check_def fail_build_def return_build_def)

lemma in_case_eq [build_simps]: "in_case b m s = (if b then m s else Inr ((), s))"
  by (simp add: in_case_def return_build_def)

definition warn :: "environment \<Rightarrow> string \<Rightarrow> val option \<Rightarrow> unit build" where
  "warn E msg v = in_case (\<not> silent E) (modify (\<lambda>s. s\<lparr>diagnostics := diagnostics s @ [(msg, v)]\<rparr>))"

subsection \<open>Inserting instructions\<close>

definition insert_code :: "point \<Rightarrow> gen \<Rightarrow> symbolizer \<Rightarrow> symbolizer" where
  "insert_code p g s = s\<lparr>inserted := (inserted s)(p := inserted s p @ [g])\<rparr>"

definition emit :: "point \<Rightarrow> gop \<Rightarrow> ty \<Rightarrow> val list \<Rightarrow> val build" where
  "emit p g t xs s =
     (let r = Made (next_id s) t
      in Inr (r, (insert_code p (Gen r g xs) s)\<lparr>next_id := Suc (next_id s)\<rparr>))"

text \<open>\<open>CreateCall\<close>: LLVM asserts that the arguments have the types of the declaration.\<close>

definition createCall :: "point \<Rightarrow> sym_fn \<Rightarrow> val list \<Rightarrow> val build" where
  "createCall p f xs =
     and_then (check (map type_of xs = sym_args f) ''Calling a function with a bad signature!'')
       (emit p (Call f) (sym_ret f) xs)"

text \<open>A cast to the type a value has already is the value.\<close>

definition createCast :: "point \<Rightarrow> gop \<Rightarrow> val \<Rightarrow> ty \<Rightarrow> val build" where
  "createCast p c v t = (if type_of v = t then return_build v else emit p c t [v])"

definition bit_width :: "ty \<Rightarrow> nat" where
  "bit_width t = (case t of IntegerTy w \<Rightarrow> w | _ \<Rightarrow> 0)"

text \<open>\<open>getIntegerBitWidth\<close> casts to an integer type; vectors, for one, fail the cast.\<close>

definition getIntegerBitWidth :: "ty \<Rightarrow> nat build" where
  "getIntegerBitWidth t =
     and_then (check (isIntegerTy t) ''cast<Ty>() argument of incompatible type!'')
       (return_build (bit_width t))"

definition createZExtOrTrunc :: "point \<Rightarrow> val \<Rightarrow> ty \<Rightarrow> val build" where
  "createZExtOrTrunc p v t =
     createCast p (Cast (if bit_width (type_of v) < bit_width t then ZExt else Trunc)) v t"

text \<open>\<open>SplitBlockAndInsertIfThen\<close>: what \<open>body\<close> inserts at \<open>p\<close> goes into a block of its own.\<close>

definition if_then :: "point \<Rightarrow> val \<Rightarrow> 'a build \<Rightarrow> 'a build" where
  "if_then p c body s =
     bind_result (body (s\<lparr>inserted := (inserted s)(p := [])\<rparr>))
       (\<lambda>(x, s'). Inr (x, s'\<lparr>inserted := (inserted s')(p := inserted s p @ [Enter True c (inserted s' p)])\<rparr>))"

subsection \<open>Expressions\<close>

definition getSymbolicExpression :: "symbolizer \<Rightarrow> val \<Rightarrow> val option" where
  "getSymbolicExpression s v = symbolicExpressions s v"

definition getSymbolicExpressionOrNull :: "symbolizer \<Rightarrow> val \<Rightarrow> val" where
  "getSymbolicExpressionOrNull s v =
     (case getSymbolicExpression s v of None \<Rightarrow> ConstantPointerNull | Some e \<Rightarrow> e)"

definition isLittleEndian :: "environment \<Rightarrow> ty \<Rightarrow> bool" where
  "isLittleEndian E t \<longleftrightarrow> \<not> isAggregateType t \<and> little_endian (dataLayout E)"

definition getTargetPreferredInt :: "environment \<Rightarrow> int \<Rightarrow> val" where
  "getTargetPreferredInt E address = const_int (ptrBits E) address"

definition site :: "environment \<Rightarrow> val \<Rightarrow> val" where
  "site E v = getTargetPreferredInt E (host_address E v)"

definition int1 :: "bool \<Rightarrow> val" where
  "int1 b = const_int 1 (of_bool b)"

definition set_expression :: "val \<Rightarrow> val option \<Rightarrow> unit build" where
  "set_expression v e = modify (\<lambda>s. s\<lparr>symbolicExpressions := (symbolicExpressions s)(v := e)\<rparr>)"

definition createValueExpression :: "environment \<Rightarrow> point \<Rightarrow> val \<Rightarrow> val build" where
  "createValueExpression E p V =
     (if V = ConstantPointerNull then createCall p (buildNullPointer (rt E)) []
      else case type_of V of
        IntegerTy bits \<Rightarrow>
          (if bits = 1 then createCall p (buildBool (rt E)) [V]
           else if bits \<le> 64 then
             bind_build (createCast p (Cast ZExt) V (IntegerTy 64)) (\<lambda>x.
             createCall p (buildInteger (rt E)) [x, const_int 8 (int bits)])
           else
             bind_build (emit p Shift_right (IntegerTy bits) [V, const_int bits 64]) (\<lambda>h.
             bind_build (createCast p (Cast Trunc) h (IntegerTy 64)) (\<lambda>high.
             bind_build (createCast p (Cast Trunc) V (IntegerTy 64)) (\<lambda>low.
             createCall p (buildInteger128 (rt E)) [high, low]))))
      | PointerTy \<Rightarrow>
          bind_build (emit p (Cast PtrToInt) (IntegerTy 64) [V]) (\<lambda>x.
          createCall p (buildInteger (rt E)) [x, const_int 8 (int (ptrBits E))])
      | StructTy ts \<Rightarrow>
          bind_build (emit p (Alloca (StructTy ts)) PointerTy []) (\<lambda>memory.
          bind_build (emit p Store VoidTy [V, memory]) (\<lambda>_.
          bind_build (emit p (Cast PtrToInt) (intPtrType E) [memory]) (\<lambda>address.
          createCall p (readMemory (rt E))
            [address, const_int (ptrBits E) (int (type_store_size (dataLayout E) (StructTy ts))), const_int 8 0])))
      | t \<Rightarrow>
          (if isFloatingPointTy t then
             bind_build (createCast p Fp_cast V DoubleTy) (\<lambda>x.
             createCall p (buildFloat (rt E)) [x, int1 (t = DoubleTy)])
           else fail_build (Unreachable ''Unhandled type for constant expression'')))"

subsection \<open>Symbolic computations\<close>

definition empty_computation :: "point \<Rightarrow> symbolic_computation" where
  "empty_computation p = \<lparr>place = p, firstInstruction = None, lastInstruction = None, inputs = []\<rparr>"

definition merge_computation :: "symbolic_computation \<Rightarrow> symbolic_computation \<Rightarrow> symbolic_computation" where
  "merge_computation c d =
     c\<lparr>firstInstruction := (if firstInstruction c = None then firstInstruction d else firstInstruction c),
       lastInstruction := lastInstruction d,
       inputs := inputs c @ inputs d\<rparr>"

definition argument_value :: "symbolizer \<Rightarrow> val \<times> bool \<Rightarrow> val" where
  "argument_value s = (\<lambda>(arg, symbolic). if symbolic then getSymbolicExpressionOrNull s arg else arg)"

fun computation_inputs :: "val \<Rightarrow> nat \<Rightarrow> (val \<times> bool) list \<Rightarrow> input list" where
  "computation_inputs call i [] = []"
| "computation_inputs call i ((arg, symbolic) # args) =
     (if symbolic then [\<lparr>concreteValue = arg, operandIndex = i, user = call\<rparr>] else [])
     @ computation_inputs call (Suc i) args"

definition forceBuildRuntimeCall :: "point \<Rightarrow> sym_fn \<Rightarrow> (val \<times> bool) list \<Rightarrow> symbolic_computation build" where
  "forceBuildRuntimeCall p f args s =
     bind_result (createCall p f (map (argument_value s) args) s)
       (\<lambda>(call, s'). Inr (\<lparr>place = p, firstInstruction = Some call, lastInstruction = Some call,
          inputs = computation_inputs call 0 args\<rparr>, s'))"

definition buildRuntimeCall :: "point \<Rightarrow> sym_fn \<Rightarrow> (val \<times> bool) list \<Rightarrow> symbolic_computation option build" where
  "buildRuntimeCall p f args s =
     (if list_all (\<lambda>(arg, _). getSymbolicExpression s arg = None) args then Inr (None, s)
      else bind_result (forceBuildRuntimeCall p f args s) (\<lambda>(c, s'). Inr (Some c, s')))"

definition buildRuntimeCall_values :: "point \<Rightarrow> sym_fn \<Rightarrow> val list \<Rightarrow> symbolic_computation option build" where
  "buildRuntimeCall_values p f vs = buildRuntimeCall p f (map (\<lambda>v. (v, True)) vs)"

definition registerSymbolicComputation :: "symbolic_computation \<Rightarrow> val option \<Rightarrow> unit build" where
  "registerSymbolicComputation c concrete =
     and_then (case concrete of None \<Rightarrow> return_build () | Some v \<Rightarrow> set_expression v (lastInstruction c))
       (modify (\<lambda>s. s\<lparr>expressionUses := expressionUses s @ [c]\<rparr>))"

definition register_if_built :: "symbolic_computation option \<Rightarrow> val option \<Rightarrow> unit build" where
  "register_if_built c concrete =
     (case c of None \<Rightarrow> return_build () | Some c' \<Rightarrow> registerSymbolicComputation c' concrete)"

text \<open>The table entry for a predicate; the ones used here are set.\<close>

definition equal_handler :: "environment \<Rightarrow> sym_fn" where
  "equal_handler E = the (comparisonHandlers (rt E) ICMP_EQ)"

definition try_alternative :: "environment \<Rightarrow> point \<Rightarrow> val \<Rightarrow> unit build" where
  "try_alternative E p V s =
     (case getSymbolicExpression s V of
        None \<Rightarrow> Inr ((), s)
      | Some destExpr \<Rightarrow>
          bind_build (createValueExpression E p V) (\<lambda>concreteDestExpr.
          bind_build (createCall p (equal_handler E) [destExpr, concreteDestExpr]) (\<lambda>destAssertion.
          bind_build (createCall p (pushPathConstraint (rt E)) [destAssertion, int1 True, site E V]) (\<lambda>pushAssertion.
          registerSymbolicComputation
            \<lparr>place = p, firstInstruction = Some concreteDestExpr, lastInstruction = Some pushAssertion,
             inputs = [\<lparr>concreteValue = V, operandIndex = 0, user = destAssertion\<rparr>]\<rparr> None))) s)"

end
