(* ===== verification/Visits.thy ===== *)
theory Visits
  imports Symbolizer
begin

text \<open>
  compiler/Symbolizer.cpp, the visitor: one definition per \<open>visit\<close> method and \<open>visit\<close>, LLVM's
  dispatch on the class of an instruction. Each inserts code at \<open>Before (iid I)\<close>; the code
  behind a call goes before the instruction that control reaches next.
\<close>

definition here :: "instruction \<Rightarrow> point" where
  "here I = Before (iid I)"

text \<open>Register what \<open>buildRuntimeCall\<close> has built as the expression of \<open>v\<close>, if it built anything.\<close>

definition build_and_register :: "instruction \<Rightarrow> sym_fn \<Rightarrow> (val \<times> bool) list \<Rightarrow> val option \<Rightarrow> unit build" where
  "build_and_register I f args v = bind_build (buildRuntimeCall (here I) f args) (\<lambda>c. register_if_built c v)"

definition get_expression :: "val \<Rightarrow> val option build" where
  "get_expression v s = Inr (getSymbolicExpression s v, s)"

definition get_expression_or_null :: "val \<Rightarrow> val build" where
  "get_expression_or_null v s = Inr (getSymbolicExpressionOrNull s v, s)"

definition copy_expression :: "instruction \<Rightarrow> val \<Rightarrow> unit build" where
  "copy_expression I v = bind_build (get_expression v) (\<lambda>e. in_case (e \<noteq> None) (set_expression (self I) e))"

definition ignore_result :: "'a build \<Rightarrow> unit build" where
  "ignore_result m = and_then m (return_build ())"

definition visitBinaryOperator :: "environment \<Rightarrow> instruction \<Rightarrow> binary_operator \<Rightarrow> val \<Rightarrow> val \<Rightarrow> unit build" where
  "visitBinaryOperator E I opc x y =
     bind_build
       (if type_of x = IntegerTy 1 then
          (case opc of
             And \<Rightarrow> return_build (Some (buildBoolAnd (rt E)))
           | Or \<Rightarrow> return_build (Some (buildBoolOr (rt E)))
           | Xor \<Rightarrow> return_build (Some (buildBoolXor (rt E)))
           | _ \<Rightarrow> and_then (warn E ''Can't handle Boolean operator'' (Some (self I)))
                   (fail_build (Unreachable ''Unknown Boolean operator'')))
        else return_build (binaryOperatorHandlers (rt E) opc))
       (\<lambda>handler. and_then (check (handler \<noteq> None) ''Unable to handle binary operator'')
         (build_and_register I (the handler) [(x, True), (y, True)] (Some (self I))))"

definition push_condition :: "environment \<Rightarrow> instruction \<Rightarrow> val \<Rightarrow> unit build" where
  "push_condition E I c =
     build_and_register I (pushPathConstraint (rt E)) [(c, True), (c, False), (site E (self I), False)] None"

definition visitSelectInst :: "environment \<Rightarrow> instruction \<Rightarrow> val \<Rightarrow> unit build" where
  "visitSelectInst E I c = push_condition E I c"

definition visitCmpInst :: "environment \<Rightarrow> instruction \<Rightarrow> predicate \<Rightarrow> val \<Rightarrow> val \<Rightarrow> unit build" where
  "visitCmpInst E I p x y =
     (let handler = comparisonHandlers (rt E) p in
      and_then (check (handler \<noteq> None) ''Unable to handle icmp/fcmp variant'')
        (build_and_register I (the handler) [(x, True), (y, True)] (Some (self I))))"

definition visitReturnInst :: "environment \<Rightarrow> instruction \<Rightarrow> val option \<Rightarrow> unit build" where
  "visitReturnInst E I r =
     (case r of
        None \<Rightarrow> return_build ()
      | Some v \<Rightarrow> bind_build (get_expression_or_null v) (\<lambda>e.
                  ignore_result (createCall (here I) (setReturnExpression (rt E)) [e])))"

definition visitBranchInst :: "environment \<Rightarrow> instruction \<Rightarrow> val option \<Rightarrow> unit build" where
  "visitBranchInst E I c = (case c of None \<Rightarrow> return_build () | Some v \<Rightarrow> push_condition E I v)"

definition visitIndirectBrInst :: "environment \<Rightarrow> instruction \<Rightarrow> val \<Rightarrow> unit build" where
  "visitIndirectBrInst E I address = try_alternative E (here I) address"

subsection \<open>Calls\<close>

definition memory_length :: "environment \<Rightarrow> instruction \<Rightarrow> val \<Rightarrow> val build" where
  "memory_length E I n = createZExtOrTrunc (here I) n (intPtrType E)"

definition copy_intrinsic :: "environment \<Rightarrow> instruction \<Rightarrow> sym_fn \<Rightarrow> val list \<Rightarrow> unit build" where
  "copy_intrinsic E I f args =
     and_then (try_alternative E (here I) (args ! 0)) (
     and_then (try_alternative E (here I) (args ! 1)) (
     and_then (try_alternative E (here I) (args ! 2)) (
     bind_build (memory_length E I (args ! 2)) (\<lambda>n.
     ignore_result (createCall (here I) f [args ! 0, args ! 1, n])))))"

definition handleIntrinsicCall :: "environment \<Rightarrow> instruction \<Rightarrow> intrinsic \<Rightarrow> val list \<Rightarrow> unit build" where
  "handleIntrinsicCall E I callee args =
     (if callee \<in> {lifetime_start, lifetime_end, dbg_declare, dbg_value, is_constant, trap,
                   invariant_start, invariant_end, assume_intrinsic} then return_build ()
      else case callee of
        memcpy_intrinsic \<Rightarrow> copy_intrinsic E I (memcpy (rt E)) args
      | memset_intrinsic \<Rightarrow>
          and_then (try_alternative E (here I) (args ! 0)) (
          and_then (try_alternative E (here I) (args ! 2)) (
          bind_build (get_expression_or_null (args ! 1)) (\<lambda>e.
          bind_build (memory_length E I (args ! 2)) (\<lambda>n.
          ignore_result (createCall (here I) (memset (rt E)) [args ! 0, e, n])))))
      | memmove_intrinsic \<Rightarrow> copy_intrinsic E I (memmove (rt E)) args
      | stacksave \<Rightarrow> return_build ()
      | stackrestore \<Rightarrow> return_build ()
      | expect \<Rightarrow> copy_expression I (args ! 0)
      | fabs \<Rightarrow> build_and_register I (buildFloatAbs (rt E)) [(args ! 0, True)] (Some (self I))
      | cttz \<Rightarrow> warn E ''losing track of symbolic expressions at bit-count operation'' (Some (self I))
      | ctpop \<Rightarrow> warn E ''losing track of symbolic expressions at bit-count operation'' (Some (self I))
      | ctlz \<Rightarrow> warn E ''losing track of symbolic expressions at bit-count operation'' (Some (self I))
      | returnaddress \<Rightarrow> warn E ''using concrete value for return address'' None
      | bswap \<Rightarrow> build_and_register I (buildBswap (rt E)) [(args ! 0, True)] (Some (self I))
      | _ \<Rightarrow> warn E ''unhandled LLVM intrinsic'' (Some (self I)))"

definition handleInlineAssembly :: "environment \<Rightarrow> instruction \<Rightarrow> unit build" where
  "handleInlineAssembly E I =
     (if ity I = VoidTy then warn E ''skipping over inline assembly'' (Some (self I))
      else warn E ''losing track of symbolic expressions at inline assembly'' (Some (self I)))"

definition set_parameter :: "environment \<Rightarrow> instruction \<Rightarrow> nat \<times> val \<Rightarrow> unit build" where
  "set_parameter E I = (\<lambda>(n, arg).
     bind_build (get_expression_or_null arg) (\<lambda>e.
     ignore_result (createCall (here I) (setParameterExpression (rt E)) [const_int 8 (int n), e])))"

definition fetch_result :: "environment \<Rightarrow> instruction \<Rightarrow> point \<Rightarrow> unit build" where
  "fetch_result E I returnPoint =
     and_then (createCall (here I) (setReturnExpression (rt E)) [ConstantPointerNull]) (
     bind_build (createCall returnPoint (getReturnExpression (rt E)) []) (\<lambda>e.
     set_expression (self I) (Some e)))"

definition handleFunctionCall :: "environment \<Rightarrow> instruction \<Rightarrow> callee \<Rightarrow> val list \<Rightarrow> point \<Rightarrow> unit build" where
  "handleFunctionCall E I callee args returnPoint =
     (case callee of
        Intrinsic i \<Rightarrow> handleIntrinsicCall E I i args
      | _ \<Rightarrow>
          and_then (createCall returnPoint (notifyRet (rt E)) [site E (self I)]) (
          and_then (createCall (here I) (notifyCall (rt E)) [site E (self I)]) (
          and_then (case callee of Indirect target \<Rightarrow> try_alternative E (here I) target | _ \<Rightarrow> return_build ()) (
          and_then (for_each (enumerate 0 args) (set_parameter E I)) (
          in_case (\<not> user_empty (func E) (self I)) (fetch_result E I returnPoint))))))"

text \<open>The instruction behind a call; a call never ends a block.\<close>

fun next_node :: "instruction list \<Rightarrow> nat \<Rightarrow> nat option" where
  "next_node (J # K # Js) n = (if iid J = n then Some (iid K) else next_node (K # Js) n)"
| "next_node _ n = None"

fun first_some :: "('a \<Rightarrow> 'b option) \<Rightarrow> 'a list \<Rightarrow> 'b option" where
  "first_some f [] = None"
| "first_some f (x # xs) = (case f x of None \<Rightarrow> first_some f xs | Some y \<Rightarrow> Some y)"

definition getNextNode :: "environment \<Rightarrow> instruction \<Rightarrow> nat option" where
  "getNextNode E I = first_some (\<lambda>B. next_node (instrs B) (iid I)) (blocks (func E))"

definition visitCallInst :: "environment \<Rightarrow> instruction \<Rightarrow> callee \<Rightarrow> val list \<Rightarrow> unit build" where
  "visitCallInst E I callee args =
     (if callee = InlineAsm then handleInlineAssembly E I
      else case getNextNode E I of
        None \<Rightarrow> fail_build (Assertion ''Basic block does not end in a terminator'')
      | Some n \<Rightarrow> handleFunctionCall E I callee args (Before n))"

text \<open>An invoke returns to a block that may have other predecessors; the edge is split then.\<close>

definition visitInvokeInst :: "environment \<Rightarrow> instruction \<Rightarrow> callee \<Rightarrow> val list \<Rightarrow> nat \<Rightarrow> unit build" where
  "visitInvokeInst E I callee args normalDest =
     handleFunctionCall E I callee args
       (if 1 < edge_count (func E) normalDest then OnEdge (iid I) normalDest else AtReturn normalDest)"

subsection \<open>Memory and addresses\<close>

definition visitAllocaInst :: "unit build" where
  "visitAllocaInst = return_build ()"

definition store_size :: "environment \<Rightarrow> ty \<Rightarrow> val" where
  "store_size E t = const_int (ptrBits E) (int (type_store_size (dataLayout E) t))"

definition visitLoadInst :: "environment \<Rightarrow> instruction \<Rightarrow> val \<Rightarrow> unit build" where
  "visitLoadInst E I addr =
     (let dataType = ity I in
      and_then (try_alternative E (here I) addr) (
      bind_build (createCast (here I) (Cast PtrToInt) addr (intPtrType E)) (\<lambda>a.
      bind_build (createCall (here I) (readMemory (rt E))
          [a, store_size E dataType, const_int 8 (if isLittleEndian E dataType then 1 else 0)]) (\<lambda>data.
      bind_build
        (if isFloatingPointTy dataType then
           createCall (here I) (buildBitsToFloat (rt E)) [data, int1 (dataType = DoubleTy)]
         else return_build data) (\<lambda>e.
      set_expression (self I) (Some e))))))"

definition visitStoreInst :: "environment \<Rightarrow> instruction \<Rightarrow> val \<Rightarrow> val \<Rightarrow> unit build" where
  "visitStoreInst E I v addr =
     (let dataType = type_of v in
      and_then (try_alternative E (here I) addr) (
      bind_build (get_expression_or_null v) (\<lambda>e.
      bind_build
        (if isFloatingPointTy dataType then createCall (here I) (buildFloatToBits (rt E)) [e]
         else return_build e) (\<lambda>data.
      bind_build (createCast (here I) (Cast PtrToInt) addr (intPtrType E)) (\<lambda>a.
      ignore_result (createCall (here I) (writeMemory (rt E))
        [a, store_size E dataType, data,
         const_int 8 (if little_endian (dataLayout E) then 1 else 0)]))))))"

fun constant_value :: "val \<Rightarrow> int option" where
  "constant_value (ConstantInt w k) = Some k"
| "constant_value _ = None"

definition unsigned_int :: "int \<Rightarrow> int" where
  "unsigned_int k = k mod 2 ^ 32"

text \<open>
  The state of the loop over the indices: the computation built so far and the current address,
  with a flag that tells whether it still is the pointer operand itself (and so stands for its
  symbolic expression).
\<close>

type_synonym gep_state = "symbolic_computation \<times> val \<times> bool"

definition merge_call :: "point \<Rightarrow> sym_fn \<Rightarrow> (val \<times> bool) list \<Rightarrow> symbolic_computation \<Rightarrow> symbolic_computation build" where
  "merge_call p f args c =
     bind_build (forceBuildRuntimeCall p f args) (\<lambda>d. return_build (merge_computation c d))"

definition last_value :: "symbolic_computation \<Rightarrow> val" where
  "last_value c = (case lastInstruction c of Some v \<Rightarrow> v | None \<Rightarrow> ConstantPointerNull)"

definition mul_handler :: "environment \<Rightarrow> sym_fn" where
  "mul_handler E = the (binaryOperatorHandlers (rt E) Mul)"

definition add_handler :: "environment \<Rightarrow> sym_fn" where
  "add_handler E = the (binaryOperatorHandlers (rt E) Add)"

definition element_contribution ::
    "environment \<Rightarrow> point \<Rightarrow> ty \<Rightarrow> val \<Rightarrow> symbolic_computation \<Rightarrow> symbolic_computation build" where
  "element_contribution E p t index c =
     (let elementSize = const_int (ptrBits E) (unsigned_int (int (type_alloc_size (dataLayout E) t))) in
      bind_build (getIntegerBitWidth (type_of index)) (\<lambda>indexWidth.
      if indexWidth \<noteq> ptrBits E then
        bind_build (merge_call p (buildZExt (rt E))
            [(index, True), (const_int 8 (int (ptrBits E) - int indexWidth), False)] c) (\<lambda>c.
        merge_call p (mul_handler E) [(last_value c, False), (elementSize, True)] c)
      else merge_call p (mul_handler E) [(index, True), (elementSize, True)] c))"

definition add_contribution ::
    "environment \<Rightarrow> point \<Rightarrow> val \<times> bool \<Rightarrow> val \<times> bool \<Rightarrow> symbolic_computation \<Rightarrow> gep_state build" where
  "add_contribution E p contribution current c =
     bind_build (merge_call p (add_handler E) [contribution, current] c) (\<lambda>c.
     return_build (c, last_value c, False))"

definition gep_step :: "environment \<Rightarrow> point \<Rightarrow> gep_index \<Rightarrow> gep_state \<Rightarrow> gep_state build" where
  "gep_step E p step = (\<lambda>(c, currentAddress, isPointer).
     (case step of
        StructStep ts index \<Rightarrow>
          bind_build (check (constant_value index \<noteq> None) ''cast<Ty>() argument of incompatible type!'') (\<lambda>_.
          let memberIndex = nat (unsigned_int (the (constant_value index)));
              memberOffset = unsigned_int (int (element_offset (dataLayout E) ts memberIndex))
          in add_contribution E p (const_int (ptrBits E) memberOffset, True) (currentAddress, isPointer) c)
      | ElementStep t index \<Rightarrow>
          (if constant_value index = Some 0 then return_build (c, currentAddress, isPointer)
           else bind_build (element_contribution E p t index c) (\<lambda>c.
                add_contribution E p (last_value c, False) (currentAddress, isPointer) c))))"

fun gep_steps :: "environment \<Rightarrow> point \<Rightarrow> gep_index list \<Rightarrow> gep_state \<Rightarrow> gep_state build" where
  "gep_steps E p [] st = return_build st"
| "gep_steps E p (i # js) st = bind_build (gep_step E p i st) (gep_steps E p js)"

definition visitGetElementPtrInst :: "environment \<Rightarrow> instruction \<Rightarrow> val \<Rightarrow> gep_index list \<Rightarrow> unit build" where
  "visitGetElementPtrInst E I pointer js s =
     (if getSymbolicExpression s pointer = None
        \<and> list_all (\<lambda>j. getSymbolicExpression s (step_operand j) = None) js
      then Inr ((), s)
      else if list_all (\<lambda>j. constant_value (step_operand j) = Some 0) js
      then set_expression (self I) (getSymbolicExpression s pointer) s
      else bind_build (gep_steps E (here I) js (empty_computation (here I), pointer, True)) (\<lambda>(c, _, _).
           registerSymbolicComputation c (Some (self I))) s)"

text \<open>The byte offset and the type of the member that the indices of an \<open>extractvalue\<close> select.\<close>

fun extract_offset :: "data_layout \<Rightarrow> ty \<Rightarrow> nat list \<Rightarrow> int \<Rightarrow> (int \<times> ty) option" where
  "extract_offset dl t [] offset = Some (offset, t)"
| "extract_offset dl (StructTy ts) (i # js) offset =
     (if i < length ts
      then extract_offset dl (ts ! i) js ((offset + int (element_offset dl ts i)) mod 2 ^ 64) else None)"
| "extract_offset dl (ArrayTy n t) (i # js) offset =
     (let elementSize = unsigned_int (int (type_alloc_size dl t)) in
      extract_offset dl t js ((offset + unsigned_int (elementSize * int i)) mod 2 ^ 64))"
| "extract_offset dl t (i # js) offset = None"

definition visitExtractValueInst :: "environment \<Rightarrow> instruction \<Rightarrow> val \<Rightarrow> nat list \<Rightarrow> unit build" where
  "visitExtractValueInst E I aggregate indices =
     (case extract_offset (dataLayout E) (type_of aggregate) indices 0 of
        None \<Rightarrow> fail_build (Assertion ''cast<Ty>() argument of incompatible type!'')
      | Some (offset, indexedType) \<Rightarrow>
          build_and_register I (buildExtract (rt E))
            [(aggregate, True), (const_int 64 offset, False),
             (const_int 64 (int (type_store_size (dataLayout E) (ity I))), False),
             (const_int 8 (if isLittleEndian E (ity I) then 1 else 0), False)] (Some (self I)))"

subsection \<open>Casts\<close>

definition visitBitCastInst :: "environment \<Rightarrow> instruction \<Rightarrow> val \<Rightarrow> unit build" where
  "visitBitCastInst E I x =
     (if isIntegerTy (type_of x) \<and> isFloatingPointTy (ity I) then
        build_and_register I (buildBitsToFloat (rt E)) [(x, True), (int1 (ity I = DoubleTy), False)] (Some (self I))
      else if isFloatingPointTy (type_of x) \<and> isIntegerTy (ity I) then
        build_and_register I (buildFloatToBits (rt E)) [(x, True)] None
      else and_then (check (type_of x = PointerTy \<and> ity I = PointerTy) ''Unhandled non-pointer bit cast'')
             (copy_expression I x))"

definition visitTruncInst :: "environment \<Rightarrow> instruction \<Rightarrow> val \<Rightarrow> unit build" where
  "visitTruncInst E I x =
     bind_build (getIntegerBitWidth (ity I)) (\<lambda>w.
     build_and_register I (buildTrunc (rt E)) [(x, True), (const_int 8 (int w), False)] (Some (self I)))"

definition visitIntToPtrInst :: "instruction \<Rightarrow> val \<Rightarrow> unit build" where
  "visitIntToPtrInst I x = copy_expression I x"

definition visitPtrToIntInst :: "instruction \<Rightarrow> val \<Rightarrow> unit build" where
  "visitPtrToIntInst I x = copy_expression I x"

definition visitSIToFPInst :: "environment \<Rightarrow> instruction \<Rightarrow> val \<Rightarrow> unit build" where
  "visitSIToFPInst E I x =
     build_and_register I (buildIntToFloat (rt E))
       [(x, True), (int1 (ity I = DoubleTy), False), (int1 True, False)] (Some (self I))"

definition visitUIToFPInst :: "environment \<Rightarrow> instruction \<Rightarrow> val \<Rightarrow> unit build" where
  "visitUIToFPInst E I x =
     build_and_register I (buildIntToFloat (rt E))
       [(x, True), (int1 (ity I = DoubleTy), False), (int1 False, False)] (Some (self I))"

definition visitFPExtInst :: "environment \<Rightarrow> instruction \<Rightarrow> val \<Rightarrow> unit build" where
  "visitFPExtInst E I x =
     build_and_register I (buildFloatToFloat (rt E)) [(x, True), (int1 (ity I = DoubleTy), False)] (Some (self I))"

definition visitFPTruncInst :: "environment \<Rightarrow> instruction \<Rightarrow> val \<Rightarrow> unit build" where
  "visitFPTruncInst E I x =
     build_and_register I (buildFloatToFloat (rt E)) [(x, True), (int1 (ity I = DoubleTy), False)] (Some (self I))"

definition visitFPToSI :: "environment \<Rightarrow> instruction \<Rightarrow> val \<Rightarrow> unit build" where
  "visitFPToSI E I x =
     bind_build (getIntegerBitWidth (ity I)) (\<lambda>w.
     build_and_register I (buildFloatToSignedInt (rt E)) [(x, True), (const_int 8 (int w), False)] (Some (self I)))"

definition visitFPToUI :: "environment \<Rightarrow> instruction \<Rightarrow> val \<Rightarrow> unit build" where
  "visitFPToUI E I x =
     bind_build (getIntegerBitWidth (ity I)) (\<lambda>w.
     build_and_register I (buildFloatToUnsignedInt (rt E)) [(x, True), (const_int 8 (int w), False)] (Some (self I)))"

definition visitCastInst :: "environment \<Rightarrow> instruction \<Rightarrow> cast_op \<Rightarrow> val \<Rightarrow> unit build" where
  "visitCastInst E I opc x =
     (if opc \<noteq> SExt \<and> opc \<noteq> ZExt then warn E ''unhandled cast instruction'' (Some (self I))
      else bind_build (getIntegerBitWidth (type_of x)) (\<lambda>srcWidth.
        bind_build (getIntegerBitWidth (ity I)) (\<lambda>destWidth.
        if srcWidth = 1 then
          build_and_register I (buildBoolToBits (rt E)) [(x, True), (const_int 8 (int destWidth), False)]
            (Some (self I))
        else build_and_register I (if opc = SExt then buildSExt (rt E) else buildZExt (rt E))
            [(x, True), (const_int 8 (int destWidth - int srcWidth), False)] (Some (self I)))))"

subsection \<open>Control flow\<close>

definition visitPHINode :: "environment \<Rightarrow> instruction \<Rightarrow> (val \<times> nat) list \<Rightarrow> unit build" where
  "visitPHINode E I incoming =
     and_then (modify (\<lambda>s. s\<lparr>phiNodes := phiNodes s @ [I]\<rparr>))
       (bind_build (emit (here I) (Expr_phi (map snd incoming)) PointerTy (map (\<lambda>_. ConstantPointerNull) incoming))
         (\<lambda>exprPHI. set_expression (self I) (Some exprPHI)))"

definition push_case :: "environment \<Rightarrow> instruction \<Rightarrow> val \<Rightarrow> val \<Rightarrow> val \<Rightarrow> unit build" where
  "push_case E I condition conditionExpr caseValue =
     bind_build (emit (here I) Equal_to (IntegerTy 1) [condition, caseValue]) (\<lambda>caseTaken.
     bind_build (createValueExpression E (here I) caseValue) (\<lambda>caseExpr.
     bind_build (createCall (here I) (equal_handler E) [conditionExpr, caseExpr]) (\<lambda>caseConstraint.
     ignore_result (createCall (here I) (pushPathConstraint (rt E)) [caseConstraint, caseTaken, site E (self I)]))))"

definition visitSwitchInst :: "environment \<Rightarrow> instruction \<Rightarrow> val \<Rightarrow> val list \<Rightarrow> unit build" where
  "visitSwitchInst E I condition cases s =
     (case getSymbolicExpression s condition of
        None \<Rightarrow> Inr ((), s)
      | Some conditionExpr \<Rightarrow>
          bind_build (emit (here I) Not_equal_to (IntegerTy 1) [conditionExpr, ConstantPointerNull])
            (\<lambda>haveSymbolicCondition.
          if_then (here I) haveSymbolicCondition
            (for_each cases (push_case E I condition conditionExpr))) s)"

definition visitUnreachableInst :: "unit build" where
  "visitUnreachableInst = return_build ()"

definition visitInstruction :: "environment \<Rightarrow> instruction \<Rightarrow> unit build" where
  "visitInstruction E I =
     (case iop I of
        LandingPadInst \<Rightarrow> return_build ()
      | ResumeInst _ \<Rightarrow> return_build ()
      | InsertValueInst _ _ \<Rightarrow> return_build ()
      | _ \<Rightarrow> warn E ''unknown instruction'' (Some (self I)))"

text \<open>The dispatch of LLVM's \<open>InstVisitor\<close>: the most specific method for the instruction.\<close>

definition visit_cast :: "environment \<Rightarrow> instruction \<Rightarrow> cast_op \<Rightarrow> val \<Rightarrow> unit build" where
  "visit_cast E I c x =
     (case c of
        BitCast \<Rightarrow> visitBitCastInst E I x
      | Trunc \<Rightarrow> visitTruncInst E I x
      | IntToPtr \<Rightarrow> visitIntToPtrInst I x
      | PtrToInt \<Rightarrow> visitPtrToIntInst I x
      | SIToFP \<Rightarrow> visitSIToFPInst E I x
      | UIToFP \<Rightarrow> visitUIToFPInst E I x
      | FPExt \<Rightarrow> visitFPExtInst E I x
      | FPTrunc \<Rightarrow> visitFPTruncInst E I x
      | FPToSI \<Rightarrow> visitFPToSI E I x
      | FPToUI \<Rightarrow> visitFPToUI E I x
      | _ \<Rightarrow> visitCastInst E I c x)"

fun visit :: "environment \<Rightarrow> instruction \<Rightarrow> opcode \<Rightarrow> unit build" where
  "visit E I (BinaryOperator opc x y) = visitBinaryOperator E I opc x y"
| "visit E I (CmpInst p x y) = visitCmpInst E I p x y"
| "visit E I (SelectInst c x y) = visitSelectInst E I c"
| "visit E I (ReturnInst r) = visitReturnInst E I r"
| "visit E I (BranchInst c bs) = visitBranchInst E I c"
| "visit E I (IndirectBrInst a bs) = visitIndirectBrInst E I a"
| "visit E I (SwitchInst c cs bs) = visitSwitchInst E I c cs"
| "visit E I (CallInst f xs) = visitCallInst E I f xs"
| "visit E I (InvokeInst f xs normal unwind) = visitInvokeInst E I f xs normal"
| "visit E I AllocaInst = visitAllocaInst"
| "visit E I (LoadInst a) = visitLoadInst E I a"
| "visit E I (StoreInst x a) = visitStoreInst E I x a"
| "visit E I (GetElementPtrInst p js) = visitGetElementPtrInst E I p js"
| "visit E I (CastInst c x) = visit_cast E I c x"
| "visit E I (PHINode xs) = visitPHINode E I xs"
| "visit E I (ExtractValueInst x js) = visitExtractValueInst E I x js"
| "visit E I UnreachableInst = visitUnreachableInst"
| "visit E I _ = visitInstruction E I"

end
