(* ===== verification/ShortCircuit.thy ===== *)
theory ShortCircuit
  imports Visits CText
begin

text \<open>
  compiler/Symbolizer.cpp and compiler/Pass.cpp, the phases around the visitor: parameter
  expressions and notifications at the start, phi nodes and short-circuiting at the end, and
  \<open>runOnFunction\<close>, which runs them in order. \<open>places\<close> lists the points of a function, so
  that searching for uses of a value is a computation.
\<close>

definition places :: "ir_function \<Rightarrow> point list" where
  "places F = concat (map (\<lambda>I. Before (iid I) #
     (case iop I of InvokeInst f xs normal unwind \<Rightarrow> [OnEdge (iid I) normal, AtReturn normal] | _ \<Rightarrow> []))
     (all_instructions F))"

definition entry_point :: "ir_function \<Rightarrow> nat" where
  "entry_point F = (case blocks F of [] \<Rightarrow> 0 | B # _ \<Rightarrow> (case first_non_phi B of None \<Rightarrow> 0 | Some n \<Rightarrow> n))"

definition parameter_expression :: "environment \<Rightarrow> nat \<times> ty \<Rightarrow> unit build" where
  "parameter_expression E = (\<lambda>(n, t).
     in_case (\<not> user_empty (func E) (Argument n t))
       (bind_build (createCall (Before (entry_point (func E))) (getParameterExpression (rt E)) [const_int 8 (int n)])
         (\<lambda>e. set_expression (Argument n t) (Some e))))"

definition symbolizeFunctionArguments :: "environment \<Rightarrow> unit build" where
  "symbolizeFunctionArguments E =
     in_case (fname (func E) \<noteq> ''main'') (for_each (enumerate 0 (params (func E))) (parameter_expression E))"

text \<open>Calls at the first insertion point of a block, in front of what is there already.\<close>

definition createCall_in_front :: "point \<Rightarrow> sym_fn \<Rightarrow> val list \<Rightarrow> unit build" where
  "createCall_in_front p f xs s =
     bind_result (createCall p f xs (s\<lparr>inserted := (inserted s)(p := [])\<rparr>))
       (\<lambda>(_, s'). Inr ((), s'\<lparr>inserted := (inserted s')(p := inserted s' p @ inserted s p)\<rparr>))"

definition front_of :: "basic_block \<Rightarrow> point" where
  "front_of B = Before (case first_insertion_point B of None \<Rightarrow> 0 | Some n \<Rightarrow> n)"

definition insertBasicBlockNotification :: "environment \<Rightarrow> basic_block \<Rightarrow> unit build" where
  "insertBasicBlockNotification E B =
     createCall_in_front (front_of B) (notifyBasicBlock (rt E))
       [getTargetPreferredInt E (block_address E (bname B))]"

text \<open>The coverage call goes in front of all that has been inserted; its counter is an \<open>int\<close>.\<close>

definition insertCovs :: "environment \<Rightarrow> basic_block \<Rightarrow> unit build" where
  "insertCovs E B s =
     and_then (warn E ''Inserting cov feedback'' None) (
     and_then (modify (\<lambda>s. s\<lparr>my_random_number := my_random_number s + 1\<rparr>))
       (ignore_result (createCall (AtEntry (bname B)) (cov_fun_callback (rt E)) [const_int 32 (my_random_number s)]))) s"

subsection \<open>Replacing uses\<close>

definition rename_val :: "val \<Rightarrow> val \<Rightarrow> val \<Rightarrow> val" where
  "rename_val x y v = (if v = x then y else v)"

fun replace_uses :: "val \<Rightarrow> val \<Rightarrow> gen \<Rightarrow> gen" where
  "replace_uses x y (Gen r g xs) = Gen r g (map (rename_val x y) xs)"
| "replace_uses x y (Enter b c body) = Enter b (rename_val x y c) (map (replace_uses x y) body)"
| "replace_uses x y (Merge r u v) = Merge r (rename_val x y u) (rename_val x y v)"

fun uses :: "val \<Rightarrow> gen \<Rightarrow> bool" where
  "uses x (Gen r g xs) \<longleftrightarrow> x \<in> set xs"
| "uses x (Enter b c body) \<longleftrightarrow> x = c \<or> list_ex (uses x) body"
| "uses x (Merge r u v) \<longleftrightarrow> x = u \<or> x = v"

definition use_empty :: "environment \<Rightarrow> symbolizer \<Rightarrow> val \<Rightarrow> bool" where
  "use_empty E s x \<longleftrightarrow> list_all (\<lambda>p. list_all (\<lambda>g. \<not> uses x g) (inserted s p)) (places (func E))"

definition replaceAllUsesWith :: "val \<Rightarrow> val \<Rightarrow> symbolizer \<Rightarrow> symbolizer" where
  "replaceAllUsesWith x y s = s\<lparr>inserted := (\<lambda>p. map (replace_uses x y) (inserted s p))\<rparr>"

fun gen_result :: "gen \<Rightarrow> val option" where
  "gen_result (Gen r g xs) = Some r"
| "gen_result (Enter b c body) = None"
| "gen_result (Merge r u v) = Some r"

definition eraseFromParent :: "point \<Rightarrow> val \<Rightarrow> symbolizer \<Rightarrow> symbolizer" where
  "eraseFromParent p x s =
     s\<lparr>inserted := (inserted s)(p := filter (\<lambda>g. gen_result g \<noteq> Some x) (inserted s p))\<rparr>"

subsection \<open>Phi nodes\<close>

definition incoming_values :: "instruction \<Rightarrow> val list" where
  "incoming_values phi = (case iop phi of PHINode xs \<Rightarrow> map fst xs | _ \<Rightarrow> [])"

definition set_incoming :: "val \<Rightarrow> val list \<Rightarrow> gen \<Rightarrow> gen" where
  "set_incoming r ys g = (case g of Gen r' op xs \<Rightarrow> if r' = r then Gen r' op ys else g | _ \<Rightarrow> g)"

definition symbolic_phi :: "symbolizer \<Rightarrow> instruction \<Rightarrow> val" where
  "symbolic_phi s phi = getSymbolicExpressionOrNull s (self phi)"

text \<open>A phi node all of whose inputs are known to be concrete goes to \<open>nodesToErase\<close>.\<close>

definition only_concrete :: "symbolizer \<Rightarrow> instruction \<Rightarrow> bool" where
  "only_concrete s phi = list_all (\<lambda>v. getSymbolicExpression s v = None) (incoming_values phi)"

definition finalize_phi :: "instruction \<Rightarrow> symbolizer \<Rightarrow> symbolizer" where
  "finalize_phi phi s =
     (if only_concrete s phi then s
      else s\<lparr>inserted := (inserted s)(here phi :=
        map (set_incoming (symbolic_phi s phi) (map (getSymbolicExpressionOrNull s) (incoming_values phi)))
          (inserted s (here phi)))\<rparr>)"

definition erase_phi :: "symbolizer \<Rightarrow> instruction \<Rightarrow> symbolizer \<Rightarrow> symbolizer" where
  "erase_phi s0 phi s =
     eraseFromParent (here phi) (symbolic_phi s0 phi)
       (replaceAllUsesWith (symbolic_phi s0 phi) ConstantPointerNull s)"

definition finalizePHINodes :: "symbolizer \<Rightarrow> symbolizer" where
  "finalizePHINodes s =
     (let nodesToErase = filter (only_concrete s) (phiNodes s);
          s1 = fold finalize_phi (phiNodes s) s
      in (fold (erase_phi s) nodesToErase s1)\<lparr>symbolicExpressions := Map.empty\<rparr>)"

subsection \<open>Short-circuiting\<close>

definition find_gen :: "val \<Rightarrow> gen list \<Rightarrow> gen option" where
  "find_gen x code = List.find (\<lambda>g. gen_result g = Some x) code"

text \<open>\<open>Input::getSymbolicOperand\<close> and \<open>Input::replaceOperand\<close>, on the code of the computation.\<close>

definition getSymbolicOperand :: "gen list \<Rightarrow> input \<Rightarrow> val" where
  "getSymbolicOperand code i =
     (case find_gen (user i) code of Some (Gen r g xs) \<Rightarrow> xs ! operandIndex i | _ \<Rightarrow> ConstantPointerNull)"

definition replaceOperand :: "input \<Rightarrow> val \<Rightarrow> gen list \<Rightarrow> gen list" where
  "replaceOperand i v =
     map (\<lambda>g. case g of Gen r op xs \<Rightarrow> if r = user i then Gen r op (xs[operandIndex i := v]) else g | _ \<Rightarrow> g)"

definition at :: "val option \<Rightarrow> gen \<Rightarrow> bool" where
  "at x g \<longleftrightarrow> gen_result g \<noteq> None \<and> gen_result g = x"

text \<open>The instructions of a computation and what surrounds them.\<close>

definition code_before :: "symbolic_computation \<Rightarrow> gen list \<Rightarrow> gen list" where
  "code_before c code = takeWhile (\<lambda>g. \<not> at (firstInstruction c) g) code"

definition code_from :: "symbolic_computation \<Rightarrow> gen list \<Rightarrow> gen list" where
  "code_from c code = dropWhile (\<lambda>g. \<not> at (firstInstruction c) g) code"

definition computation_code :: "symbolic_computation \<Rightarrow> gen list \<Rightarrow> gen list" where
  "computation_code c code =
     takeWhile (\<lambda>g. \<not> at (lastInstruction c) g) (code_from c code)
     @ take 1 (dropWhile (\<lambda>g. \<not> at (lastInstruction c) g) (code_from c code))"

definition code_after :: "symbolic_computation \<Rightarrow> gen list \<Rightarrow> gen list" where
  "code_after c code = drop 1 (dropWhile (\<lambda>g. \<not> at (lastInstruction c) g) (code_from c code))"

fun null_checks :: "point \<Rightarrow> gen list \<Rightarrow> input list \<Rightarrow> val list build" where
  "null_checks p mid [] = return_build []"
| "null_checks p mid (i # js) =
     bind_build (emit p Equal_to (IntegerTy 1) [ConstantPointerNull, getSymbolicOperand mid i]) (\<lambda>c.
     bind_build (null_checks p mid js) (\<lambda>cs. return_build (c # cs)))"

fun conjunction :: "point \<Rightarrow> val \<Rightarrow> val list \<Rightarrow> val build" where
  "conjunction p acc [] = return_build acc"
| "conjunction p acc (c # cs) =
     bind_build (emit p Conjunction (IntegerTy 1) [acc, c]) (\<lambda>acc. conjunction p acc cs)"

definition emit_merge :: "point \<Rightarrow> val \<Rightarrow> val \<Rightarrow> val build" where
  "emit_merge p x y s =
     (let r = Made (next_id s) PointerTy
      in Inr (r, (insert_code p (Merge r x y) s)\<lparr>next_id := Suc (next_id s)\<rparr>))"

definition unknown_concreteness :: "gen list \<Rightarrow> input \<Rightarrow> bool" where
  "unknown_concreteness mid i \<longleftrightarrow> getSymbolicOperand mid i \<noteq> ConstantPointerNull"

text \<open>One argument on the slow path: create its expression if it turns out to be concrete.\<close>

definition check_argument ::
    "environment \<Rightarrow> point \<Rightarrow> nat \<Rightarrow> input \<Rightarrow> val \<Rightarrow> gen list \<Rightarrow> gen list build" where
  "check_argument E p numUnknownConcreteness i nullCheck mid =
     (let originalArgExpression = getSymbolicOperand mid i;
          needRuntimeCheck = unknown_concreteness mid i
      in if needRuntimeCheck \<and> numUnknownConcreteness = 1 then return_build mid
         else bind_build
           (if needRuntimeCheck then
              bind_build (if_then p nullCheck (createValueExpression E p (concreteValue i))) (\<lambda>newArgExpression.
              emit_merge p originalArgExpression newArgExpression)
            else createValueExpression E p (concreteValue i))
           (\<lambda>finalArgExpression. return_build (replaceOperand i finalArgExpression mid)))"

fun check_arguments ::
    "environment \<Rightarrow> point \<Rightarrow> nat \<Rightarrow> (input \<times> val) list \<Rightarrow> gen list \<Rightarrow> gen list build" where
  "check_arguments E p n [] mid = return_build mid"
| "check_arguments E p n ((i, c) # rest) mid =
     bind_build (check_argument E p n i c mid) (check_arguments E p n rest)"

definition slow_path :: "environment \<Rightarrow> symbolic_computation \<Rightarrow> val list \<Rightarrow> gen list \<Rightarrow> unit build" where
  "slow_path E c nullChecks mid =
     (let p = place c;
          numUnknownConcreteness = length (filter (unknown_concreteness mid) (inputs c))
      in bind_build (check_arguments E p numUnknownConcreteness (zip (inputs c) nullChecks) mid) (\<lambda>mid'.
         modify (\<lambda>s. s\<lparr>inserted := (inserted s)(p := inserted s p @ mid')\<rparr>)))"

text \<open>
  The block is split in front of the computation and behind it; \<open>if_not\<close> makes the branch that
  enters the part in between only if the value is false.
\<close>

definition if_not :: "point \<Rightarrow> val \<Rightarrow> unit build \<Rightarrow> unit build" where
  "if_not p c body s =
     bind_result (body (s\<lparr>inserted := (inserted s)(p := [])\<rparr>))
       (\<lambda>(_, s'). Inr ((), s'\<lparr>inserted := (inserted s')(p := inserted s p @ [Enter False c (inserted s' p)])\<rparr>))"

definition short_circuit_body :: "environment \<Rightarrow> symbolic_computation \<Rightarrow> gen list \<Rightarrow> unit build" where
  "short_circuit_body E c mid =
     bind_build (null_checks (place c) mid (inputs c)) (\<lambda>nullChecks.
     bind_build (conjunction (place c) (hd nullChecks) (tl nullChecks)) (\<lambda>allConcrete.
     if_not (place c) allConcrete (slow_path E c nullChecks mid)))"

text \<open>The result behind the computation: null on the fast path, else what it has computed.\<close>

definition final_expression :: "symbolic_computation \<Rightarrow> unit build" where
  "final_expression c s =
     (let finalExpression = Made (next_id s) PointerTy;
          s1 = replaceAllUsesWith (last_value c) finalExpression s
      in Inr ((), (insert_code (place c) (Merge finalExpression ConstantPointerNull (last_value c)) s1)
                    \<lparr>next_id := Suc (next_id s)\<rparr>))"

definition shortCircuit :: "environment \<Rightarrow> symbolic_computation \<Rightarrow> unit build" where
  "shortCircuit E c s =
     (let p = place c; code = inserted s p;
          mid = computation_code c code; rest = code_after c code;
          used = \<not> use_empty E s (last_value c)
      in bind_result (check (inputs c \<noteq> []) ''Symbolic computation has no inputs'' s) (\<lambda>_.
         bind_result (short_circuit_body E c mid (s\<lparr>inserted := (inserted s)(p := code_before c code)\<rparr>))
           (\<lambda>(_, s1).
         bind_result (in_case used (final_expression c) s1) (\<lambda>(_, s2).
         Inr ((), s2\<lparr>inserted := (inserted s2)(p := inserted s2 p
                @ (if used then map (replace_uses (last_value c) (Made (next_id s1) PointerTy)) rest else rest))\<rparr>)))))"

definition shortCircuitExpressionUses :: "environment \<Rightarrow> unit build" where
  "shortCircuitExpressionUses E s = for_each (expressionUses s) (shortCircuit E) s"

subsection \<open>The pass\<close>

definition initial_symbolizer :: "int \<Rightarrow> symbolizer" where
  "initial_symbolizer r =
     \<lparr>symbolicExpressions = Map.empty, phiNodes = [], expressionUses = [], inserted = (\<lambda>_. []),
      next_id = 0, my_random_number = r, diagnostics = []\<rparr>"

definition visit_all :: "environment \<Rightarrow> unit build" where
  "visit_all E = for_each (all_instructions (func E)) (\<lambda>I. visit E I (iop I))"

definition symbolize_function :: "environment \<Rightarrow> bool \<Rightarrow> unit build" where
  "symbolize_function E pureConcolic =
     and_then (symbolizeFunctionArguments E) (
     and_then (for_each (blocks (func E)) (insertBasicBlockNotification E)) (
     and_then (visit_all E) (
     and_then (modify finalizePHINodes) (
     and_then (shortCircuitExpressionUses E)
       (in_case pureConcolic (for_each (blocks (func E)) (insertCovs E)))))))"

text \<open>\<open>runOnFunction\<close>: \<open>None\<close> if the function is left alone (it returns false).\<close>

definition runOnFunction :: "environment \<Rightarrow> bool \<Rightarrow> int \<Rightarrow> compile_error + symbolizer option" where
  "runOnFunction E pureConcolic random =
     (if fname (func E) = ''__sym_ctor'' then Inr None
      else if strstr (fname (func E)) ''sanitizer_cov_trace'' then Inr None
      else bind_result (symbolize_function E pureConcolic (initial_symbolizer random))
             (\<lambda>(_, s). Inr (Some s)))"

text \<open>\<open>doInitialization\<close> on the names of a module's functions and its constructors and destructors.\<close>

record module =
  module_functions :: "string list"
  global_ctors :: "string list"
  global_dtors :: "string list"

definition redirect :: "string \<Rightarrow> string" where
  "redirect f = (if isInterceptedFunction f then f @ ''_symbolized'' else f)"

definition doInitialization :: "module \<Rightarrow> module" where
  "doInitialization M =
     \<lparr>module_functions = map redirect (module_functions M) @ [''__sym_ctor'', ''_sym_initialize'', ''__dtor_runtime''],
      global_ctors = global_ctors M @ [''__sym_ctor''],
      global_dtors = global_dtors M @ [''__dtor_runtime'']\<rparr>"

definition addSymbolizePass :: "string list \<Rightarrow> string list" where
  "addSymbolizePass PM = PM @ [''lowerswitch'', ''symbolize'']"

end
