(* ===== verification/GenSemantics.thy ===== *)
theory GenSemantics
  imports ShortCircuit
begin

text \<open>
  What inserted code does when it runs. A frame holds the values of the function's registers,
  the state \<open>'s\<close> of the run-time library and the program, and whether control has just come
  out of a conditional block (which is all that a phi node behind it needs to know). Calls of the
  run-time library and the ordinary instructions (casts, stores, ...) are parameters of the
  \<open>machine\<close>; comparisons with null and conjunctions have their meaning.
\<close>

datatype 'e rv = Expr "'e option" | Num int

record ('e, 's) machine =
  call_runtime :: "string \<Rightarrow> 'e rv list \<Rightarrow> 's \<Rightarrow> 'e rv \<times> 's"
  primitive :: "gop \<Rightarrow> ty \<Rightarrow> 'e rv list \<Rightarrow> 's \<Rightarrow> 'e rv \<times> 's"

record ('e, 's) frame =
  regs :: "val \<Rightarrow> 'e rv"
  rts :: 's
  came_through :: bool

fun look :: "('e, 's) frame \<Rightarrow> val \<Rightarrow> 'e rv" where
  "look fr (ConstantInt w k) = Num k"
| "look fr ConstantPointerNull = Expr None"
| "look fr v = regs fr v"

definition truth :: "bool \<Rightarrow> 'e rv" where
  "truth b = Num (of_bool b)"

definition gop_value :: "('e, 's) machine \<Rightarrow> gop \<Rightarrow> ty \<Rightarrow> 'e rv list \<Rightarrow> 's \<Rightarrow> 'e rv \<times> 's" where
  "gop_value M op t vs s =
     (case op of
        Call f \<Rightarrow> call_runtime M (sym_name f) vs s
      | Equal_to \<Rightarrow> (truth (vs ! 0 = vs ! 1), s)
      | Not_equal_to \<Rightarrow> (truth (vs ! 0 \<noteq> vs ! 1), s)
      | Conjunction \<Rightarrow> (truth (vs ! 0 = truth True \<and> vs ! 1 = truth True), s)
      | _ \<Rightarrow> primitive M op t vs s)"

definition set_reg :: "val \<Rightarrow> 'e rv \<Rightarrow> ('e, 's) frame \<Rightarrow> ('e, 's) frame" where
  "set_reg r v fr = fr\<lparr>regs := (regs fr)(r := v)\<rparr>"

fun exec :: "('e, 's) machine \<Rightarrow> gen \<Rightarrow> ('e, 's) frame \<Rightarrow> ('e, 's) frame" where
  "exec M (Gen r op xs) fr =
     (let (v, s) = gop_value M op (type_of r) (map (look fr) xs) (rts fr) in set_reg r v (fr\<lparr>rts := s\<rparr>))"
| "exec M (Enter b c body) fr =
     (if look fr c = truth b then (fold (exec M) body fr)\<lparr>came_through := True\<rparr>
      else fr\<lparr>came_through := False\<rparr>)"
| "exec M (Merge r x y) fr = set_reg r (look fr (if came_through fr then y else x)) fr"

definition exec_code :: "('e, 's) machine \<Rightarrow> gen list \<Rightarrow> ('e, 's) frame \<Rightarrow> ('e, 's) frame" where
  "exec_code M code fr = fold (exec M) code fr"

lemma exec_code_Nil [simp]: "exec_code M [] fr = fr"
  by (simp add: exec_code_def)

lemma exec_code_Cons [simp]: "exec_code M (g # gs) fr = exec_code M gs (exec M g fr)"
  by (simp add: exec_code_def)

lemma exec_code_append [simp]: "exec_code M (xs @ ys) fr = exec_code M ys (exec_code M xs fr)"
  by (simp add: exec_code_def)

lemma exec_Enter:
  "exec M (Enter b c body) fr =
     (if look fr c = truth b then (exec_code M body fr)\<lparr>came_through := True\<rparr> else fr\<lparr>came_through := False\<rparr>)"
  by (simp add: exec_code_def)

lemma set_reg_sel [simp]:
  "rts (set_reg r v fr) = rts fr" "came_through (set_reg r v fr) = came_through fr"
  "regs (set_reg r v fr) = (regs fr)(r := v)"
  by (simp_all add: set_reg_def)

lemma truth_eq [simp]: "truth a = truth b \<longleftrightarrow> a = b"
  by (cases a; cases b) (simp_all add: truth_def)

text \<open>Values that exist before the code with numbers from \<open>n\<close> on is created.\<close>

fun older :: "nat \<Rightarrow> val \<Rightarrow> bool" where
  "older n (Made k t) \<longleftrightarrow> k < n"
| "older n v \<longleftrightarrow> True"

lemma older_mono: "older n v \<Longrightarrow> n \<le> m \<Longrightarrow> older m v"
  by (cases v) auto

lemma look_set_reg_Made:
  "look (set_reg (Made k t) v fr) x = (if x = Made k t then v else look fr x)"
  by (cases x) (auto simp: set_reg_def)

lemma look_update [simp]:
  "look (fr\<lparr>rts := s\<rparr>) x = look fr x" "look (fr\<lparr>came_through := b\<rparr>) x = look fr x"
  by (cases x; simp)+

text \<open>Frames that agree on the older values.\<close>

definition same_below :: "nat \<Rightarrow> ('e, 's) frame \<Rightarrow> ('e, 's) frame \<Rightarrow> bool" where
  "same_below n fr fr' \<longleftrightarrow> (\<forall>x. older n x \<longrightarrow> look fr' x = look fr x)"

lemma same_below_refl [simp]: "same_below n fr fr"
  by (simp add: same_below_def)

lemma same_below_trans: "same_below n a b \<Longrightarrow> same_below n b c \<Longrightarrow> same_below n a c"
  by (simp add: same_below_def)

lemma same_below_mono: "same_below m a b \<Longrightarrow> n \<le> m \<Longrightarrow> same_below n a b"
  by (auto simp: same_below_def intro: older_mono)

lemma same_below_set_reg: "n \<le> k \<Longrightarrow> same_below n fr fr' \<Longrightarrow> same_below n fr (set_reg (Made k t) v fr')"
  by (auto simp: same_below_def look_set_reg_Made)

lemma same_below_update [simp]:
  "same_below n fr (fr'\<lparr>rts := s\<rparr>) = same_below n fr fr'"
  "same_below n fr (fr'\<lparr>came_through := b\<rparr>) = same_below n fr fr'"
  by (simp_all add: same_below_def)

lemma same_below_look: "same_below n fr fr' \<Longrightarrow> older n x \<Longrightarrow> look fr' x = look fr x"
  by (simp add: same_below_def)

subsection \<open>Builders that append code at one point\<close>

text \<open>
  \<open>appends p m s x code s'\<close>: \<open>m\<close> succeeds, returns \<open>x\<close>, appends \<open>code\<close> at \<open>p\<close> and
  only takes new numbers besides.
\<close>

definition appends :: "point \<Rightarrow> 'a build \<Rightarrow> symbolizer \<Rightarrow> 'a \<Rightarrow> gen list \<Rightarrow> symbolizer \<Rightarrow> bool" where
  "appends p m s x code s' \<longleftrightarrow> m s = Inr (x, s') \<and> next_id s \<le> next_id s' \<and>
     s' = s\<lparr>inserted := (inserted s)(p := inserted s p @ code), next_id := next_id s'\<rparr>"

lemma appends_return: "appends p (return_build x) s x [] s"
  by (simp add: appends_def return_build_def)

lemma appends_bind:
  assumes "appends p m s x code s1" "appends p (f x) s1 y code' s2"
  shows "appends p (bind_build m f) s y (code @ code') s2"
proof -
  from assms(1) have 1: "s1 = s\<lparr>inserted := (inserted s)(p := inserted s p @ code), next_id := next_id s1\<rparr>"
    "m s = Inr (x, s1)" "next_id s \<le> next_id s1" by (simp_all add: appends_def)
  from assms(2) have 2: "s2 = s1\<lparr>inserted := (inserted s1)(p := inserted s1 p @ code'), next_id := next_id s2\<rparr>"
    "f x s1 = Inr (y, s2)" "next_id s1 \<le> next_id s2" by (simp_all add: appends_def)
  have "s2 = s\<lparr>inserted := (inserted s)(p := inserted s p @ code @ code'), next_id := next_id s2\<rparr>"
    by (subst 2(1), subst (1 2 3) 1(1)) simp
  with 1 2 show ?thesis by (simp add: appends_def bind_build_eq)
qed

lemma appends_emit:
  "appends p (emit p op t xs) s (Made (next_id s) t) [Gen (Made (next_id s) t) op xs]
     (s\<lparr>inserted := (inserted s)(p := inserted s p @ [Gen (Made (next_id s) t) op xs]), next_id := Suc (next_id s)\<rparr>)"
  by (simp add: appends_def emit_def insert_code_def Let_def)

lemma appends_emit_merge:
  "appends p (emit_merge p x y) s (Made (next_id s) PointerTy) [Merge (Made (next_id s) PointerTy) x y]
     (s\<lparr>inserted := (inserted s)(p := inserted s p @ [Merge (Made (next_id s) PointerTy) x y]), next_id := Suc (next_id s)\<rparr>)"
  by (simp add: appends_def emit_merge_def insert_code_def Let_def)

lemma appends_createCall:
  "map type_of xs = sym_args f \<Longrightarrow>
   appends p (createCall p f xs) s (Made (next_id s) (sym_ret f)) [Gen (Made (next_id s) (sym_ret f)) (Call f) xs]
     (s\<lparr>inserted := (inserted s)(p := inserted s p @ [Gen (Made (next_id s) (sym_ret f)) (Call f) xs]), next_id := Suc (next_id s)\<rparr>)"
  by (simp add: appends_def createCall_def emit_def insert_code_def Let_def build_simps)

lemma appends_if_then:
  assumes "appends p body (s\<lparr>inserted := (inserted s)(p := [])\<rparr>) x code s1"
  shows "appends p (if_then p c body) s x [Enter True c code]
           (s\<lparr>inserted := (inserted s)(p := inserted s p @ [Enter True c code]), next_id := next_id s1\<rparr>)"
proof -
  from assms have "body (s\<lparr>inserted := (inserted s)(p := [])\<rparr>) = Inr (x, s1)"
    "next_id s \<le> next_id s1"
    "s1 = s\<lparr>inserted := (inserted s)(p := code), next_id := next_id s1\<rparr>"
    by (simp_all add: appends_def)
  then show ?thesis
    by (cases s1) (auto simp: appends_def if_then_def)
qed

end
