(* ===== verification/ShortCircuitCorrect.thy ===== *)
theory ShortCircuitCorrect
  imports GenSemantics
begin

text \<open>
  The code that \<open>shortCircuit\<close> puts in the place of a symbolic computation, run on any machine,
  does what the reference says (\<open>reference\<close>): nothing if all inputs are concrete, and otherwise
  the computation on the expressions of its inputs, those of the concrete ones being built from
  their values. The lemmas follow the structure of the pass: value expressions, one argument,
  all arguments, the slow path, the branch around it, the replacement in its place.
\<close>

subsection \<open>Value expressions\<close>

text \<open>The types of which \<open>createValueExpression\<close> can make an expression.\<close>

fun has_value_expression :: "ty \<Rightarrow> bool" where
  "has_value_expression (IntegerTy w) = True"
| "has_value_expression PointerTy = True"
| "has_value_expression (StructTy ts) = True"
| "has_value_expression t = isFloatingPointTy t"

text \<open>What the code of \<open>createValueExpression\<close> is to compute: the expression of a concrete value.\<close>

definition cast_value :: "('e, 's) machine \<Rightarrow> gop \<Rightarrow> val \<Rightarrow> ty \<Rightarrow> 'e rv \<Rightarrow> 's \<Rightarrow> 'e rv \<times> 's" where
  "cast_value M op V t v s = (if type_of V = t then (v, s) else primitive M op t [v] s)"

definition value_expression ::
    "environment \<Rightarrow> ('e, 's) machine \<Rightarrow> val \<Rightarrow> 'e rv \<Rightarrow> 's \<Rightarrow> 'e rv \<times> 's" where
  "value_expression E M V v s =
     (if V = ConstantPointerNull then call_runtime M ''_sym_build_null_pointer'' [] s
      else case type_of V of
        IntegerTy bits \<Rightarrow>
          (if bits = 1 then call_runtime M ''_sym_build_bool'' [v] s
           else if bits \<le> 64 then
             let (x, s1) = cast_value M (Cast ZExt) V (IntegerTy 64) v s
             in call_runtime M ''_sym_build_integer'' [x, Num (int bits mod 256)] s1
           else
             let (h, s1) = primitive M Shift_right (IntegerTy bits) [v, Num (64 mod 2 ^ bits)] s;
                 (high, s2) = primitive M (Cast Trunc) (IntegerTy 64) [h] s1;
                 (low, s3) = primitive M (Cast Trunc) (IntegerTy 64) [v] s2
             in call_runtime M ''_sym_build_integer128'' [high, low] s3)
      | PointerTy \<Rightarrow>
          (let (x, s1) = primitive M (Cast PtrToInt) (IntegerTy 64) [v] s
           in call_runtime M ''_sym_build_integer'' [x, Num (int (ptrBits E) mod 256)] s1)
      | StructTy ts \<Rightarrow>
          (let (memory, s1) = primitive M (Alloca (StructTy ts)) PointerTy [] s;
               (u, s2) = primitive M Store VoidTy [v, memory] s1;
               (address, s3) = primitive M (Cast PtrToInt) (IntegerTy (ptrBits E)) [memory] s2
           in call_runtime M ''_sym_read_memory''
                [address, Num (int (type_store_size (dataLayout E) (StructTy ts)) mod 2 ^ ptrBits E), Num 0] s3)
      | t \<Rightarrow>
          (let (x, s1) = cast_value M Fp_cast V DoubleTy v s
           in call_runtime M ''_sym_build_float'' [x, Num (of_bool (t = DoubleTy))] s1))"

text \<open>
  \<open>computes p M m s f\<close>: \<open>m\<close> appends code at \<open>p\<close> whose execution leaves the older values alone,
  puts a value into a new register \<open>x\<close> that \<open>m\<close> returns, and takes value and state from \<open>f\<close>.
\<close>

definition fresh_result :: "symbolizer \<Rightarrow> val \<Rightarrow> symbolizer \<Rightarrow> bool" where
  "fresh_result s x s' \<longleftrightarrow> (\<exists>k t. x = Made k t \<and> next_id s \<le> k \<and> k < next_id s')"

text \<open>Of the values created earlier, code uses none but those of \<open>U\<close>.\<close>

definition uses_from :: "nat \<Rightarrow> val set \<Rightarrow> gen list \<Rightarrow> bool" where
  "uses_from n U code \<longleftrightarrow> (\<forall>g\<in>set code. \<forall>k t. k < n \<longrightarrow> uses (Made k t) g \<longrightarrow> Made k t \<in> U)"

lemma uses_from_simps [simp]:
  "uses_from n U []"
  "uses_from n U (Gen r op xs # gs) \<longleftrightarrow> (\<forall>k t. k < n \<longrightarrow> Made k t \<in> set xs \<longrightarrow> Made k t \<in> U) \<and> uses_from n U gs"
  "uses_from n U (Enter b c body # gs) \<longleftrightarrow>
     (\<forall>k t. k < n \<longrightarrow> Made k t = c \<longrightarrow> Made k t \<in> U) \<and> uses_from n U body \<and> uses_from n U gs"
  "uses_from n U (Merge r x y # gs) \<longleftrightarrow>
     (\<forall>k t. k < n \<longrightarrow> Made k t = x \<or> Made k t = y \<longrightarrow> Made k t \<in> U) \<and> uses_from n U gs"
  "uses_from n U (as @ bs) \<longleftrightarrow> uses_from n U as \<and> uses_from n U bs"
  by (auto simp: uses_from_def list_ex_iff)

lemma uses_from_mono: "uses_from m U code \<Longrightarrow> n \<le> m \<Longrightarrow> U \<subseteq> U' \<Longrightarrow> uses_from n U' code"
  unfolding uses_from_def by (meson order_less_le_trans subsetD)

fun original :: "val \<Rightarrow> bool" where
  "original (Made k t) \<longleftrightarrow> False"
| "original v \<longleftrightarrow> True"

lemma original_older [simp]: "original v \<Longrightarrow> older n v"
  by (cases v) auto

lemma original_not_Made [simp]: "original v \<Longrightarrow> (Made k t = v) = False" "original v \<Longrightarrow> (v = Made k t) = False"
  by (cases v; simp)+

definition computes ::
    "point \<Rightarrow> ('e, 's) machine \<Rightarrow> val build \<Rightarrow> symbolizer \<Rightarrow> (('e, 's) frame \<Rightarrow> 's \<Rightarrow> 'e rv \<times> 's) \<Rightarrow> bool" where
  "computes p M m s f \<longleftrightarrow> (\<exists>x code s'. appends p m s x code s' \<and> fresh_result s x s' \<and> uses_from (next_id s) {} code \<and>
     (\<forall>fr. same_below (next_id s) fr (exec_code M code fr)
        \<and> came_through (exec_code M code fr) = came_through fr
        \<and> (look (exec_code M code fr) x, rts (exec_code M code fr)) = f fr (rts fr)))"

lemma exec_Gen:
  "exec M (Gen r op xs) fr =
     set_reg r (fst (gop_value M op (type_of r) (map (look fr) xs) (rts fr)))
       (fr\<lparr>rts := snd (gop_value M op (type_of r) (map (look fr) xs) (rts fr))\<rparr>)"
  by (simp add: Let_def case_prod_beta)

lemma gop_value_simps:
  "gop_value M (Call f) t vs s = call_runtime M (sym_name f) vs s"
  "gop_value M (Cast c) t vs s = primitive M (Cast c) t vs s"
  "gop_value M Shift_right t vs s = primitive M Shift_right t vs s"
  "gop_value M Fp_cast t vs s = primitive M Fp_cast t vs s"
  "gop_value M (Alloca a) t vs s = primitive M (Alloca a) t vs s"
  "gop_value M Store t vs s = primitive M Store t vs s"
  by (simp_all add: gop_value_def)

lemma older_eq_Made [simp]: "older n x \<Longrightarrow> n \<le> k \<Longrightarrow> (x = Made k t) = False"
  by (cases x) auto

lemma computesI:
  assumes "appends p m s x code s'" "fresh_result s x s'" "uses_from (next_id s) {} code"
    and "\<And>fr. same_below (next_id s) fr (exec_code M code fr)"
    and "\<And>fr. came_through (exec_code M code fr) = came_through fr"
    and "\<And>fr. (look (exec_code M code fr) x, rts (exec_code M code fr)) = f fr (rts fr)"
  shows "computes p M m s f"
  using assms unfolding computes_def by blast

lemmas exec_simps = fresh_result_def exec_Gen gop_value_simps look_set_reg_Made same_below_set_reg case_prod_beta Let_def
  look.simps(1,2) const_int_def int1_def

lemma createCast_same: "type_of v = t \<Longrightarrow> createCast p c v t = return_build v"
  by (simp add: createCast_def)

lemma createCast_other: "type_of v \<noteq> t \<Longrightarrow> createCast p c v t = emit p c t [v]"
  by (simp add: createCast_def)

lemma appends_createCast:
  "type_of v \<noteq> t \<Longrightarrow> appends p (createCast p c v t) s (Made (next_id s) t) [Gen (Made (next_id s) t) c [v]]
     (s\<lparr>inserted := (inserted s)(p := inserted s p @ [Gen (Made (next_id s) t) c [v]]), next_id := Suc (next_id s)\<rparr>)"
  by (simp add: createCast_other appends_emit)

lemma computes_value_expression:
  assumes "has_value_expression (type_of V)" "original V"
  shows "computes p M (createValueExpression E p V) s (\<lambda>fr. value_expression E M V (look fr V))"
proof -
  note D = createValueExpression_def value_expression_def cast_value_def
  consider "V = ConstantPointerNull"
    | w where "V \<noteq> ConstantPointerNull" "type_of V = IntegerTy w" "w = 1"
    | w where "V \<noteq> ConstantPointerNull" "type_of V = IntegerTy w" "w \<noteq> 1" "w = 64"
    | w where "V \<noteq> ConstantPointerNull" "type_of V = IntegerTy w" "w \<noteq> 1" "w < 64"
    | w where "V \<noteq> ConstantPointerNull" "type_of V = IntegerTy w" "64 < w"
    | "V \<noteq> ConstantPointerNull" "type_of V = PointerTy"
    | ts where "V \<noteq> ConstantPointerNull" "type_of V = StructTy ts"
    | "V \<noteq> ConstantPointerNull" "type_of V = DoubleTy"
    | "V \<noteq> ConstantPointerNull" "type_of V = FloatTy"
    | "V \<noteq> ConstantPointerNull" "type_of V = LongDoubleTy"
    using assms(1) by (cases "type_of V"; fastforce intro: linorder_less_linear)
  then show ?thesis using assms
    by cases
      ((simp add: D createCast_same createCast_other, rule computesI,
        (rule appends_bind appends_emit appends_return appends_createCall appends_createCast | (simp; fail))+,
        (simp_all add: exec_simps D)?)[1])+
qed

subsection \<open>Operands\<close>

fun override :: "input list \<Rightarrow> 'a list \<Rightarrow> val \<Rightarrow> nat \<Rightarrow> 'a option" where
  "override (i # js) (x # xs) r k =
     (if r = user i \<and> k = operandIndex i then Some x else override js xs r k)"
| "override _ _ r k = None"

definition with_operands :: "input list \<Rightarrow> val list \<Rightarrow> gen \<Rightarrow> gen" where
  "with_operands js xs g =
     (case g of Gen r op ys \<Rightarrow>
        Gen r op (map (\<lambda>k. case override js xs r k of Some x \<Rightarrow> x | None \<Rightarrow> ys ! k) [0..<length ys])
      | _ \<Rightarrow> g)"

definition input_key :: "input \<Rightarrow> val \<times> nat" where
  "input_key i = (user i, operandIndex i)"

lemma override_None: "(r, k) \<notin> input_key ` set js \<Longrightarrow> override js xs r k = None"
  by (induction js xs r k rule: override.induct) (auto simp: input_key_def)

lemma override_map: "override js (map f xs) r k = map_option f (override js xs r k)"
  by (induction js xs r k rule: override.induct) auto

lemma override_in: "override js xs r k = Some x \<Longrightarrow> x \<in> set xs"
  by (induction js xs r k rule: override.induct) (auto split: if_splits)

lemma gen_result_with_operands [simp]: "gen_result (with_operands js xs g) = gen_result g"
  by (cases g) (simp_all add: with_operands_def)

lemma with_operands_Nil [simp]: "with_operands [] xs = id"
  by (rule ext, rename_tac g, case_tac g) (simp_all add: with_operands_def map_nth)

lemma replaceOperand_with_operands: "replaceOperand i x = map (with_operands [i] [x])"
proof (rule ext, unfold replaceOperand_def, rule map_cong [OF refl])
  fix g
  show "(case g of Gen r op xs \<Rightarrow> if r = user i then Gen r op (xs[operandIndex i := x]) else g | _ \<Rightarrow> g)
      = with_operands [i] [x] g"
    by (cases g) (auto simp: with_operands_def nth_list_update map_nth intro!: nth_equalityI)
qed

lemma with_operands_Cons:
  assumes "distinct (map input_key (i # js))"
  shows "with_operands js xs (with_operands [i] [x] g) = with_operands (i # js) (x # xs) g"
proof -
  have "override js xs (user i) (operandIndex i) = None"
    by (rule override_None) (use assms in \<open>auto simp: input_key_def\<close>)
  then show ?thesis
    by (cases g) (auto simp: with_operands_def split: option.split)
qed

lemma find_gen_map:
  "find_gen x (map (with_operands js xs) code) = map_option (with_operands js xs) (find_gen x code)"
  by (induction code) (auto simp: find_gen_def)

lemma find_gen_Some: "find_gen x code = Some g \<Longrightarrow> g \<in> set code \<and> gen_result g = Some x"
  by (auto simp: find_gen_def find_Some_iff)

lemma find_gen_in_image: "gen_result g = Some x \<Longrightarrow> g \<in> set code \<Longrightarrow> Some x \<in> gen_result ` set code"
  by force

lemma find_gen_distinct:
  "distinct (map gen_result code) \<Longrightarrow> g \<in> set code \<Longrightarrow> gen_result g = Some x \<Longrightarrow> find_gen x code = Some g"
  by (induction code) (auto simp: find_gen_def dest: find_gen_in_image)

lemma getSymbolicOperand_other:
  assumes "input_key i \<noteq> input_key j"
    "\<And>r op ys. find_gen (user j) mid = Some (Gen r op ys) \<Longrightarrow> operandIndex j < length ys"
  shows "getSymbolicOperand (map (with_operands [i] [x]) mid) j = getSymbolicOperand mid j"
  using assms find_gen_Some [of "user j" mid]
  by (fastforce simp: getSymbolicOperand_def find_gen_map with_operands_def input_key_def
      split: option.splits gen.splits)

text \<open>The arguments an input refers to exist.\<close>

definition operand_exists :: "gen list \<Rightarrow> input \<Rightarrow> bool" where
  "operand_exists mid i \<longleftrightarrow> (case find_gen (user i) mid of Some (Gen r op ys) \<Rightarrow> operandIndex i < length ys | _ \<Rightarrow> False)"

lemma operand_exists_with_operands [simp]:
  "operand_exists (map (with_operands js xs) mid) j = operand_exists mid j"
  by (simp add: operand_exists_def find_gen_map with_operands_def split: option.split gen.split)

lemma getSymbolicOperand_same:
  assumes "distinct (map gen_result mid)"
  shows "map (with_operands [i] [getSymbolicOperand mid i]) mid = mid"
proof (rule map_idI)
  fix g assume g: "g \<in> set mid"
  show "with_operands [i] [getSymbolicOperand mid i] g = g"
  proof (cases g)
    case (Gen r op ys)
    have "r = user i \<Longrightarrow> getSymbolicOperand mid i = ys ! operandIndex i"
      using find_gen_distinct [OF assms g] Gen by (simp add: getSymbolicOperand_def)
    with Gen show ?thesis by (auto simp: with_operands_def map_nth intro!: nth_equalityI)
  qed (simp_all add: with_operands_def)
qed

subsection \<open>The reference\<close>

text \<open>
  What a short-circuited computation is to do if some input is symbolic: take the expressions
  of the symbolic inputs, build those of the concrete ones from their values, in order, and run
  the calls of the computation on them.
\<close>

fun fill_inputs ::
    "environment \<Rightarrow> ('e, 's) machine \<Rightarrow> gen list \<Rightarrow> input list \<Rightarrow> ('e, 's) frame \<Rightarrow> 's \<Rightarrow> 'e rv list \<times> 's" where
  "fill_inputs E M mid [] fr s = ([], s)"
| "fill_inputs E M mid (i # js) fr s =
     (let v = look fr (getSymbolicOperand mid i);
          (v', s') = (if v = Expr None
             then value_expression E M (concreteValue i) (look fr (concreteValue i)) s else (v, s));
          (vs, s'') = fill_inputs E M mid js fr s'
      in (v' # vs, s''))"

fun run_calls ::
    "('e, 's) machine \<Rightarrow> (val \<Rightarrow> nat \<Rightarrow> 'e rv option) \<Rightarrow> gen list \<Rightarrow> ('e, 's) frame \<Rightarrow> ('e, 's) frame" where
  "run_calls M ov (Gen r (Call f) ys # gs) fr =
     (let vs = map (\<lambda>k. case ov r k of Some v \<Rightarrow> v | None \<Rightarrow> look fr (ys ! k)) [0..<length ys];
          (v, s) = call_runtime M (sym_name f) vs (rts fr)
      in run_calls M ov gs (set_reg r v (fr\<lparr>rts := s\<rparr>)))"
| "run_calls M ov gs fr = fr"

lemma fill_inputs_cong:
  assumes "\<forall>i\<in>set js. look fr' (getSymbolicOperand mid i) = look fr (getSymbolicOperand mid i)
     \<and> look fr' (concreteValue i) = look fr (concreteValue i)
     \<and> getSymbolicOperand mid' i = getSymbolicOperand mid i"
  shows "fill_inputs E M mid' js fr' s = fill_inputs E M mid js fr s"
  using assms by (induction js arbitrary: s) (auto simp: Let_def case_prod_beta)

fun plain_call :: "nat \<Rightarrow> gen \<Rightarrow> bool" where
  "plain_call n (Gen (Made k t) (Call f) ys) \<longleftrightarrow> k < n \<and> list_all (older n) ys"
| "plain_call n g \<longleftrightarrow> False"

lemma plain_callE:
  assumes "plain_call n g"
  obtains k t f ys where "g = Gen (Made k t) (Call f) ys" "k < n" "list_all (older n) ys"
  using assms by (cases "(n, g)" rule: plain_call.cases) auto

lemma exec_with_operands:
  assumes "list_all (plain_call n) gs" "same_below n a b" "rts b = rts a"
    and "\<forall>x\<in>set xs. Some x \<notin> gen_result ` set gs" "vs = map (look b) xs"
  shows "same_below n (run_calls M (override js vs) gs a) (exec_code M (map (with_operands js xs) gs) b)
    \<and> rts (exec_code M (map (with_operands js xs) gs) b) = rts (run_calls M (override js vs) gs a)
    \<and> came_through (exec_code M (map (with_operands js xs) gs) b) = came_through b"
  using assms
proof (induction gs arbitrary: a b)
  case (Cons g gs)
  then obtain k t f ys where g: "g = Gen (Made k t) (Call f) ys" "k < n" "list_all (older n) ys"
    by (auto elim: plain_callE)
  let ?zs = "map (\<lambda>k'. case override js xs (Made k t) k' of Some x \<Rightarrow> x | None \<Rightarrow> ys ! k') [0..<length ys]"
  let ?vs = "map (\<lambda>k'. case override js vs (Made k t) k' of Some v \<Rightarrow> v | None \<Rightarrow> look a (ys ! k')) [0..<length ys]"
  have "look b (ys ! k') = look a (ys ! k')" if "k' < length ys" for k'
    using that g(3) Cons.prems(2) by (intro same_below_look) (auto simp: list_all_length)
  then have args: "map (look b) ?zs = ?vs"
    using Cons.prems(5) by (auto simp: override_map split: option.split)
  obtain v s where call: "call_runtime M (sym_name f) ?vs (rts a) = (v, s)" by fastforce
  let ?a = "set_reg (Made k t) v (a\<lparr>rts := s\<rparr>)" and ?b = "set_reg (Made k t) v (b\<lparr>rts := s\<rparr>)"
  have "with_operands js xs g = Gen (Made k t) (Call f) ?zs"
    by (simp add: g(1) with_operands_def)
  then have step: "exec M (with_operands js xs g) b = ?b"
    by (simp only: exec_Gen gop_value_simps args call Cons.prems(3) fst_conv snd_conv)
  have "same_below n ?a ?b" using Cons.prems(2) by (auto simp: same_below_def look_set_reg_Made)
  moreover have "vs = map (look ?b) xs"
    using Cons.prems(4,5) g(1) by (auto simp: look_set_reg_Made)
  ultimately show ?case
    using Cons.IH [of ?a ?b] Cons.prems(1,4) call step by (simp add: g(1) Let_def)
qed simp

subsection \<open>The slow path\<close>

definition checked :: "('e, 's) frame \<Rightarrow> gen list \<Rightarrow> input \<Rightarrow> val \<Rightarrow> bool" where
  "checked fr mid i c \<longleftrightarrow> look fr c = truth (look fr (getSymbolicOperand mid i) = Expr None)"

text \<open>With a single input of unknown concreteness, the slow path is only taken if it is symbolic.\<close>

definition must_be_symbolic :: "nat \<Rightarrow> ('e, 's) frame \<Rightarrow> gen list \<Rightarrow> input \<Rightarrow> bool" where
  "must_be_symbolic num fr mid i \<longleftrightarrow>
     (num = 1 \<longrightarrow> unknown_concreteness mid i \<longrightarrow> look fr (getSymbolicOperand mid i) \<noteq> Expr None)"

definition input_ok :: "nat \<Rightarrow> gen list \<Rightarrow> input \<Rightarrow> bool" where
  "input_ok n mid i \<longleftrightarrow> operand_exists mid i \<and> has_value_expression (type_of (concreteValue i))
     \<and> original (concreteValue i) \<and> older n (getSymbolicOperand mid i)"

text \<open>The value an argument gets, and the expression it is given at run time.\<close>

definition filled_value ::
    "environment \<Rightarrow> ('e, 's) machine \<Rightarrow> gen list \<Rightarrow> input \<Rightarrow> ('e, 's) frame \<Rightarrow> 's \<Rightarrow> 'e rv \<times> 's" where
  "filled_value E M mid i fr s =
     (if look fr (getSymbolicOperand mid i) = Expr None
      then value_expression E M (concreteValue i) (look fr (concreteValue i)) s
      else (look fr (getSymbolicOperand mid i), s))"

lemma Made_not_older: "\<not> older n (Made k t) \<longleftrightarrow> n \<le> k"
  by auto

lemma check_argument_appends:
  assumes "input_ok (next_id s) mid i" "distinct (map gen_result mid)"
  shows "\<exists>x code s'. appends p (check_argument E p num i c mid) s (map (with_operands [i] [x]) mid) code s'
    \<and> older (next_id s') x
    \<and> (\<not> older (next_id s) x \<or> x = getSymbolicOperand mid i)
    \<and> uses_from (next_id s) {c, getSymbolicOperand mid i} code
    \<and> (\<forall>fr :: ('e, 's) frame. checked fr mid i c \<longrightarrow> must_be_symbolic num fr mid i \<longrightarrow>
        same_below (next_id s) fr (exec_code M code fr)
        \<and> (look (exec_code M code fr) x, rts (exec_code M code fr)) = filled_value E M mid i fr (rts fr))"
proof -
  let ?op = "getSymbolicOperand mid i" and ?V = "concreteValue i"
  let ?ret = "\<lambda>v. return_build (map (with_operands [i] [v]) mid)"
  have ok: "has_value_expression (type_of ?V)" "original ?V" "older (next_id s) ?op"
    using assms(1) by (simp_all add: input_ok_def)
  consider "?op = ConstantPointerNull" | "?op \<noteq> ConstantPointerNull" "num = 1"
    | "?op \<noteq> ConstantPointerNull" "num \<noteq> 1" by blast
  then show ?thesis
  proof cases
    case 1
    obtain x code s' where b: "appends p (createValueExpression E p ?V) s x code s'" "older (next_id s') x" "\<not> older (next_id s) x"
        "uses_from (next_id s) {} code"
      and e: "\<And>fr :: ('e, 's) frame. same_below (next_id s) fr (exec_code M code fr)
        \<and> (look (exec_code M code fr) x, rts (exec_code M code fr)) = value_expression E M ?V (look fr ?V) (rts fr)"
      using computes_value_expression [OF ok(1,2), where s = s and p = p and M = M and E = E] unfolding computes_def fresh_result_def by fastforce
    have "appends p (check_argument E p num i c mid) s (map (with_operands [i] [x]) mid) (code @ []) s'"
      using 1 appends_bind [where f = ?ret, OF b(1) appends_return]
      by (simp add: check_argument_def unknown_concreteness_def replaceOperand_with_operands Let_def)
    with 1 b e show ?thesis
      by (intro exI [of _ x] exI [of _ code] exI [of _ s'])
        (auto simp: filled_value_def intro: uses_from_mono [of "next_id s" "{}"])
  next
    case 2
    with assms(2) ok show ?thesis
      by (intro exI [of _ ?op] exI [of _ "[]"] exI [of _ s])
         (auto simp: check_argument_def unknown_concreteness_def getSymbolicOperand_same appends_return
            filled_value_def must_be_symbolic_def Let_def)
  next
    case 3
    let ?s0 = "s\<lparr>inserted := (inserted s)(p := [])\<rparr>"
    obtain x code s' where b: "appends p (createValueExpression E p ?V) ?s0 x code s'" "older (next_id s') x" "\<not> older (next_id s) x"
        "uses_from (next_id s) {} code"
      and e: "\<And>fr :: ('e, 's) frame. same_below (next_id s) fr (exec_code M code fr)
        \<and> (look (exec_code M code fr) x, rts (exec_code M code fr)) = value_expression E M ?V (look fr ?V) (rts fr)"
      using computes_value_expression [OF ok(1,2), where s = ?s0 and p = p and M = M and E = E] unfolding computes_def fresh_result_def by fastforce
    have le: "next_id s \<le> next_id s'" using b(1) by (simp add: appends_def)
    let ?r = "Made (next_id s') PointerTy"
    let ?code = "[Enter True c code, Merge ?r ?op x]"
    let ?s'' = "s\<lparr>inserted := (inserted s)(p := inserted s p @ ?code), next_id := Suc (next_id s')\<rparr>"
    have app: "appends p (check_argument E p num i c mid) s (map (with_operands [i] [?r]) mid) ?code ?s''"
      using appends_bind [where f = ?ret, OF appends_bind [where f = "emit_merge p ?op",
          OF appends_if_then [OF b(1), of c] appends_emit_merge] appends_return] 3
      by (simp add: check_argument_def unknown_concreteness_def Let_def replaceOperand_with_operands)
    have "same_below (next_id s) fr (exec_code M ?code fr)
        \<and> (look (exec_code M ?code fr) ?r, rts (exec_code M ?code fr)) = filled_value E M mid i fr (rts fr)"
      if "checked fr mid i c" for fr :: "('e, 's) frame"
      using e [of fr] that le ok(3)
      by (auto simp: checked_def exec_Enter filled_value_def look_set_reg_Made same_below_set_reg simp del: exec.simps(2))
    moreover have "uses_from (next_id s) {c, ?op} ?code"
      using uses_from_mono [OF b(4), of "next_id s" "{c, ?op}"] b(3) by (auto simp: Made_not_older)
    ultimately show ?thesis
      using app le by (intro exI [of _ ?r] exI [of _ ?code] exI [of _ ?s'']) auto
  qed
qed


lemma filled_value_cong:
  assumes "input_ok n mid i" "same_below n fr fr'"
  shows "filled_value E M mid i fr' s = filled_value E M mid i fr s"
  using assms by (simp add: filled_value_def input_ok_def same_below_look)

lemma fill_inputs_Cons:
  "fill_inputs E M mid (i # js) fr s =
     (let (v, s') = filled_value E M mid i fr s; (vs, s'') = fill_inputs E M mid js fr s' in (v # vs, s''))"
  by (simp add: filled_value_def Let_def case_prod_beta)

lemma input_ok_other:
  assumes "input_ok n mid j" "input_key i \<noteq> input_key j"
  shows "getSymbolicOperand (map (with_operands [i] [x]) mid) j = getSymbolicOperand mid j"
    "input_ok n (map (with_operands [i] [x]) mid) j"
proof -
  show eq: "getSymbolicOperand (map (with_operands [i] [x]) mid) j = getSymbolicOperand mid j"
    using assms by (intro getSymbolicOperand_other)
      (auto simp: input_ok_def operand_exists_def)
  with assms(1) show "input_ok n (map (with_operands [i] [x]) mid) j" by (simp add: input_ok_def)
qed

lemma input_ok_mono: "input_ok n mid i \<Longrightarrow> n \<le> m \<Longrightarrow> input_ok m mid i"
  by (auto simp: input_ok_def intro: older_mono)

lemma map_gen_result_with_operands: "map gen_result (map (with_operands js xs) mid) = map gen_result mid"
  by simp

lemma check_arguments_appends:
  assumes "list_all (input_ok (next_id s) mid) js" "distinct (map input_key js)"
    "distinct (map gen_result mid)" "length cs = length js" "list_all (older (next_id s)) cs"
  shows "\<exists>xs code s'. appends p (check_arguments E p num (zip js cs) mid) s (map (with_operands js xs) mid) code s'
    \<and> length xs = length js \<and> list_all (older (next_id s')) xs
    \<and> (\<forall>x\<in>set xs. \<not> older (next_id s) x \<or> x \<in> getSymbolicOperand mid ` set js)
    \<and> uses_from (next_id s) (set cs \<union> getSymbolicOperand mid ` set js) code
    \<and> (\<forall>fr :: ('e, 's) frame. list_all2 (checked fr mid) js cs \<longrightarrow> list_all (must_be_symbolic num fr mid) js \<longrightarrow>
        same_below (next_id s) fr (exec_code M code fr)
        \<and> (map (look (exec_code M code fr)) xs, rts (exec_code M code fr)) = fill_inputs E M mid js fr (rts fr))"
  using assms
proof (induction js arbitrary: cs mid s)
  case Nil
  then show ?case by (intro exI [of _ "[]"] exI [of _ s]) (simp add: appends_return)
next
  case (Cons i js)
  from Cons.prems obtain c cs' where cs: "cs = c # cs'" by (cases cs) auto
  have keys: "input_key j \<noteq> input_key i" if "j \<in> set js" for j
    using that Cons.prems(2) by (metis distinct.simps(2) image_eqI list.set_map list.simps(9))
  obtain x code s1 where 1: "appends p (check_argument E p num i c mid) s (map (with_operands [i] [x]) mid) code s1"
    "older (next_id s1) x" "\<not> older (next_id s) x \<or> x = getSymbolicOperand mid i"
    "uses_from (next_id s) {c, getSymbolicOperand mid i} code"
    "\<And>fr :: ('e, 's) frame. checked fr mid i c \<Longrightarrow> must_be_symbolic num fr mid i \<Longrightarrow>
        same_below (next_id s) fr (exec_code M code fr)
        \<and> (look (exec_code M code fr) x, rts (exec_code M code fr)) = filled_value E M mid i fr (rts fr)"
    using check_argument_appends [of s mid i p E num c M] Cons.prems by fastforce
  let ?mid = "map (with_operands [i] [x]) mid"
  have le: "next_id s \<le> next_id s1" using 1(1) by (simp add: appends_def)
  have same: "getSymbolicOperand ?mid j = getSymbolicOperand mid j \<and> input_ok (next_id s) ?mid j
      \<and> input_ok (next_id s) mid j" if "j \<in> set js" for j
    using that Cons.prems(1) keys input_ok_other [of "next_id s" mid j i x] by (auto simp: list_all_iff) metis+
  have "list_all (input_ok (next_id s1) ?mid) js"
    using same le by (auto simp: list_all_iff intro: input_ok_mono)
  moreover have "list_all (older (next_id s1)) cs'"
    using Cons.prems(5) le by (auto simp: cs list_all_iff intro: older_mono)
  moreover have "distinct (map gen_result ?mid)" using Cons.prems(3) by (simp del: map_map add: map_gen_result_with_operands)
  ultimately obtain xs code' s2 where
    2: "appends p (check_arguments E p num (zip js cs') ?mid) s1 (map (with_operands js xs) ?mid) code' s2"
    "length xs = length js" "list_all (older (next_id s2)) xs"
    "\<forall>x'\<in>set xs. \<not> older (next_id s1) x' \<or> x' \<in> getSymbolicOperand ?mid ` set js"
    "uses_from (next_id s1) (set cs' \<union> getSymbolicOperand ?mid ` set js) code'"
    "\<And>fr :: ('e, 's) frame. list_all2 (checked fr ?mid) js cs' \<Longrightarrow> list_all (must_be_symbolic num fr ?mid) js \<Longrightarrow>
        same_below (next_id s1) fr (exec_code M code' fr)
        \<and> (map (look (exec_code M code' fr)) xs, rts (exec_code M code' fr)) = fill_inputs E M ?mid js fr (rts fr)"
    using Cons.IH [of s1 ?mid cs'] Cons.prems by (fastforce simp: cs)
  have le2: "next_id s1 \<le> next_id s2" using 2(1) by (simp add: appends_def)
  have mid2: "map (with_operands js xs) ?mid = map (with_operands (i # js) (x # xs)) mid"
    using Cons.prems(2) by (simp add: with_operands_Cons)
  have exec: "same_below (next_id s) fr (exec_code M (code @ code') fr)
      \<and> (map (look (exec_code M (code @ code') fr)) (x # xs), rts (exec_code M (code @ code') fr))
        = fill_inputs E M mid (i # js) fr (rts fr)"
    if fr: "list_all2 (checked fr mid) (i # js) cs" "list_all (must_be_symbolic num fr mid) (i # js)"
    for fr :: "('e, 's) frame"
  proof -
    let ?fr = "exec_code M code fr"
    have a: "same_below (next_id s) fr ?fr" "(look ?fr x, rts ?fr) = filled_value E M mid i fr (rts fr)"
      using 1(5) [of fr] fr by (auto simp: cs)
    have op: "look ?fr (getSymbolicOperand mid j) = look fr (getSymbolicOperand mid j)" if "j \<in> set js" for j
      using a(1) same [OF that] by (auto simp: input_ok_def intro: same_below_look)
    have "list_all2 (checked ?fr ?mid) js cs'"
    proof (rule list_all2_all_nthI)
      show "length js = length cs'" using Cons.prems(4) by (simp add: cs)
      fix k assume k: "k < length js"
      then have "checked fr mid (js ! k) (cs' ! k)" "older (next_id s) (cs' ! k)"
        using fr(1) Cons.prems(5) by (auto simp: cs list_all2_nthD list_all_iff list_all2_lengthD)
      then show "checked ?fr ?mid (js ! k) (cs' ! k)"
        using k same op same_below_look [OF a(1)] by (simp add: checked_def)
    qed
    moreover have "list_all (must_be_symbolic num ?fr ?mid) js"
      using fr(2) same op by (auto simp: list_all_iff must_be_symbolic_def unknown_concreteness_def)
    ultimately have b: "same_below (next_id s1) ?fr (exec_code M code' ?fr)"
      "(map (look (exec_code M code' ?fr)) xs, rts (exec_code M code' ?fr)) = fill_inputs E M ?mid js ?fr (rts ?fr)"
      using 2(6) by blast+
    have "fill_inputs E M ?mid js ?fr (rts ?fr) = fill_inputs E M mid js fr (rts ?fr)"
      using same op a(1) by (intro fill_inputs_cong) (auto simp: input_ok_def same_below_look)
    moreover have "look (exec_code M code' ?fr) x = look ?fr x"
      using b(1) 1(2) by (rule same_below_look)
    ultimately show ?thesis
      using a b same_below_trans [OF a(1) same_below_mono [OF b(1) le]]
      by (simp add: fill_inputs_Cons Let_def case_prod_beta prod_eq_iff del: fill_inputs.simps)
  qed
  have "uses_from (next_id s) (set cs \<union> getSymbolicOperand mid ` set (i # js)) (code @ code')"
    using same uses_from_mono [OF 1(4) order_refl, of "set cs \<union> getSymbolicOperand mid ` set (i # js)"]
      uses_from_mono [OF 2(5) le, of "set cs \<union> getSymbolicOperand mid ` set (i # js)"]
    by (auto simp: cs image_subset_iff)
  then show ?case
  proof (intro exI conjI)
    show "appends p (check_arguments E p num (zip (i # js) cs) mid) s
        (map (with_operands (i # js) (x # xs)) mid) (code @ code') s2"
      using appends_bind [where f = "check_arguments E p num (zip js cs')", OF 1(1) 2(1)]
      by (simp add: cs mid2 del: map_map)
  qed (use 1 2 le le2 same exec in \<open>auto intro: older_mono simp: list_all_iff\<close>)
qed

subsection \<open>The whole of a computation\<close>

lemma appends_older: "appends p m s x code s' \<Longrightarrow> next_id s \<le> next_id s'"
  by (simp add: appends_def)

lemma older_Suc: "older n x \<Longrightarrow> older (Suc n) x"
  by (rule older_mono) auto

declare exec.simps(1,2) [simp del]
declare One_nat_def [simp del]

lemma set_reg_rts [simp]: "set_reg r v (fr\<lparr>rts := rts fr\<rparr>) = set_reg r v fr"
  by (simp add: set_reg_def)

lemma exec_null_check:
  "exec M (Gen (Made k t) Equal_to [ConstantPointerNull, x]) fr = set_reg (Made k t) (truth (look fr x = Expr None)) fr"
  by (auto simp: exec_Gen gop_value_def eq_commute [of "Expr None"])

lemma exec_conjunction:
  "look fr x = truth a \<Longrightarrow> look fr y = truth b \<Longrightarrow>
   exec M (Gen (Made k t) Conjunction [x, y]) fr = set_reg (Made k t) (truth (a \<and> b)) fr"
  by (simp add: exec_Gen gop_value_def)

lemma null_checks_append:
  assumes "list_all (\<lambda>i. older (next_id s) (getSymbolicOperand mid i)) js"
  shows "\<exists>cs code s'. appends p (null_checks p mid js) s cs code s' \<and> length cs = length js
    \<and> list_all (older (next_id s')) cs \<and> list_all (\<lambda>c. \<not> older (next_id s) c) cs
    \<and> uses_from (next_id s) (getSymbolicOperand mid ` set js) code
    \<and> (\<forall>fr :: ('e, 's) frame. same_below (next_id s) fr (exec_code M code fr) \<and> rts (exec_code M code fr) = rts fr
        \<and> map (look (exec_code M code fr)) cs = map (\<lambda>i. truth (look fr (getSymbolicOperand mid i) = Expr None)) js)"
  using assms
proof (induction js arbitrary: s)
  case Nil
  then show ?case by (intro exI [of _ "[]"] exI [of _ s]) (simp add: appends_return)
next
  case (Cons i js)
  let ?op = "getSymbolicOperand mid i"
  let ?r = "Made (next_id s) (IntegerTy 1)" and ?g = "Gen (Made (next_id s) (IntegerTy 1)) Equal_to [ConstantPointerNull, ?op]"
  let ?s1 = "s\<lparr>inserted := (inserted s)(p := inserted s p @ [?g]), next_id := Suc (next_id s)\<rparr>"
  have "list_all (\<lambda>i. older (next_id ?s1) (getSymbolicOperand mid i)) js"
    using Cons.prems by (auto simp: list_all_iff intro: older_mono)
  from Cons.IH [OF this] obtain cs code s' where IH:
    "appends p (null_checks p mid js) ?s1 cs code s'" "length cs = length js" "list_all (older (next_id s')) cs"
    "list_all (\<lambda>c. \<not> older (next_id ?s1) c) cs"
    "uses_from (next_id ?s1) (getSymbolicOperand mid ` set js) code"
    "\<And>fr :: ('e, 's) frame. same_below (next_id ?s1) fr (exec_code M code fr) \<and> rts (exec_code M code fr) = rts fr
        \<and> map (look (exec_code M code fr)) cs = map (\<lambda>i. truth (look fr (getSymbolicOperand mid i) = Expr None)) js"
    by blast
  have app: "appends p (null_checks p mid (i # js)) s (?r # cs) ([?g] @ code @ []) s'"
    unfolding null_checks.simps
    by (rule appends_bind [OF appends_emit], rule appends_bind [OF IH(1) appends_return])
  have exec: "same_below (next_id s) fr (exec_code M ([?g] @ code @ []) fr)
      \<and> rts (exec_code M ([?g] @ code @ []) fr) = rts fr
      \<and> map (look (exec_code M ([?g] @ code @ []) fr)) (?r # cs)
        = map (\<lambda>i. truth (look fr (getSymbolicOperand mid i) = Expr None)) (i # js)" for fr :: "('e, 's) frame"
  proof -
    let ?fr = "exec M ?g fr"
    have fr: "?fr = set_reg ?r (truth (look fr ?op = Expr None)) fr"
      by (rule exec_null_check)
    have sb: "same_below (next_id s) fr ?fr" by (simp add: fr same_below_set_reg)
    have "look (exec_code M code ?fr) ?r = truth (look fr ?op = Expr None)"
      using IH(6) [of ?fr] same_below_look [of "next_id ?s1" ?fr "exec_code M code ?fr" ?r]
      by (simp add: fr look_set_reg_Made)
    moreover have "look ?fr (getSymbolicOperand mid j) = look fr (getSymbolicOperand mid j)" if "j \<in> set js" for j
      using that Cons.prems sb by (auto simp: list_all_iff same_below_look)
    ultimately show ?thesis
      using IH(6) [of ?fr] same_below_trans [OF sb same_below_mono [of "next_id ?s1"]]
      by (auto simp: fr cong: map_cong)
  qed
  have olds: "length (?r # cs) = length (i # js)" "list_all (older (next_id s')) (?r # cs)"
    using IH(2,3) appends_older [OF IH(1)] by auto
  have "list_all (\<lambda>c. \<not> older (next_id s) c) (?r # cs)"
    using IH(4) by (auto simp: list_all_iff dest: older_Suc)
  moreover have "uses_from (next_id s) (getSymbolicOperand mid ` set (i # js)) ([?g] @ code @ [])"
    using uses_from_mono [OF IH(5), of "next_id s" "getSymbolicOperand mid ` set (i # js)"] by auto
  ultimately show ?case
    using app exec olds by (intro exI [of _ "?r # cs"] exI conjI) (assumption | rule allI)+
qed

lemma conjunction_appends:
  assumes "older (next_id s) acc" "list_all (older (next_id s)) cs"
  shows "\<exists>x code s'. appends p (conjunction p acc cs) s x code s' \<and> older (next_id s') x
    \<and> (\<not> older (next_id s) x \<or> x = acc) \<and> uses_from (next_id s) (insert acc (set cs)) code
    \<and> (\<forall>fr :: ('e, 's) frame. \<forall>b bs. look fr acc = truth b \<longrightarrow> map (look fr) cs = map truth bs \<longrightarrow>
        same_below (next_id s) fr (exec_code M code fr) \<and> rts (exec_code M code fr) = rts fr
        \<and> look (exec_code M code fr) x = truth (b \<and> list_all id bs))"
  using assms
proof (induction cs arbitrary: s acc)
  case Nil
  then show ?case by (intro exI [of _ acc] exI [of _ "[]"] exI [of _ s]) (simp add: appends_return)
next
  case (Cons c cs)
  let ?r = "Made (next_id s) (IntegerTy 1)" and ?g = "Gen (Made (next_id s) (IntegerTy 1)) Conjunction [acc, c]"
  let ?s1 = "s\<lparr>inserted := (inserted s)(p := inserted s p @ [?g]), next_id := Suc (next_id s)\<rparr>"
  have "list_all (older (next_id ?s1)) cs" "older (next_id ?s1) ?r"
    using Cons.prems by (auto simp: list_all_iff intro: older_mono)
  from Cons.IH [OF this(2,1)] obtain x code s' where IH:
    "appends p (conjunction p ?r cs) ?s1 x code s'" "older (next_id s') x"
    "\<not> older (next_id ?s1) x \<or> x = ?r" "uses_from (next_id ?s1) (insert ?r (set cs)) code"
    "\<And>(fr :: ('e, 's) frame) b bs. look fr ?r = truth b \<Longrightarrow> map (look fr) cs = map truth bs \<Longrightarrow>
        same_below (next_id ?s1) fr (exec_code M code fr) \<and> rts (exec_code M code fr) = rts fr
        \<and> look (exec_code M code fr) x = truth (b \<and> list_all id bs)"
    by blast
  have app: "appends p (conjunction p acc (c # cs)) s x ([?g] @ code) s'"
    unfolding conjunction.simps by (rule appends_bind [OF appends_emit], rule IH(1))
  have fresh: "\<not> older (next_id s) x \<or> x = acc" using IH(3) by (auto dest: older_Suc)
  have "uses_from (next_id s) (insert acc (set (c # cs))) code"
    unfolding uses_from_def
  proof (intro ballI allI impI)
    fix g k t assume g: "g \<in> set code" "k < next_id s" "uses (Made k t) g"
    moreover have "k < next_id ?s1" using g(2) by simp
    ultimately have "Made k t \<in> insert ?r (set cs)" using IH(4) unfolding uses_from_def by blast
    with g(2) show "Made k t \<in> insert acc (set (c # cs))" by auto
  qed
  then have uses: "uses_from (next_id s) (insert acc (set (c # cs))) ([?g] @ code)" by auto
  have exec: "same_below (next_id s) fr (exec_code M ([?g] @ code) fr)
        \<and> rts (exec_code M ([?g] @ code) fr) = rts fr
        \<and> look (exec_code M ([?g] @ code) fr) x = truth (b \<and> list_all id bs)"
    if "look fr acc = truth b" "map (look fr) (c # cs) = map truth bs" for fr :: "('e, 's) frame" and b bs
  proof -
    from that(2) obtain b' bs' where bs: "bs = b' # bs'" "look fr c = truth b'" "map (look fr) cs = map truth bs'"
      by (cases bs) auto
    let ?fr = "exec M ?g fr"
    have fr: "?fr = set_reg ?r (truth (b \<and> b')) fr"
      using that(1) bs(2) by (rule exec_conjunction)
    have "map (look ?fr) cs = map truth bs'"
      using Cons.prems(2) unfolding bs(3) [symmetric]
      by (intro map_cong refl) (auto simp: fr look_set_reg_Made list_all_iff)
    with IH(5) [of ?fr "b \<and> b'" bs'] show ?thesis
      using same_below_trans [OF same_below_set_reg [of "next_id s" "next_id s" fr fr] same_below_mono [of "next_id ?s1"]]
      by (auto simp: fr bs(1) look_set_reg_Made)
  qed
  show ?case
    using app exec IH(2) fresh uses by blast
qed

text \<open>
  What the symbolizer must have recorded: a non-empty run of calls in front of the numbers still
  to be given out, with distinct results; at least one input, and for each a place in one of the
  calls, a value of which an expression can be made, and an operand from outside the run.
\<close>

definition computation_ok :: "nat \<Rightarrow> symbolic_computation \<Rightarrow> gen list \<Rightarrow> bool" where
  "computation_ok n c mid \<longleftrightarrow> mid \<noteq> [] \<and> list_all (plain_call n) mid \<and> distinct (map gen_result mid)
     \<and> firstInstruction c = gen_result (hd mid) \<and> lastInstruction c = gen_result (last mid)
     \<and> inputs c \<noteq> [] \<and> distinct (map input_key (inputs c)) \<and> list_all (input_ok n mid) (inputs c)
     \<and> list_all (\<lambda>i. Some (getSymbolicOperand mid i) \<notin> gen_result ` set mid) (inputs c)"

text \<open>All inputs are concrete: their expressions are null.\<close>

definition all_concrete :: "symbolic_computation \<Rightarrow> gen list \<Rightarrow> ('e, 's) frame \<Rightarrow> bool" where
  "all_concrete c mid fr \<longleftrightarrow> list_all (\<lambda>i. look fr (getSymbolicOperand mid i) = Expr None) (inputs c)"

definition reference ::
    "environment \<Rightarrow> ('e, 's) machine \<Rightarrow> symbolic_computation \<Rightarrow> gen list \<Rightarrow> ('e, 's) frame \<Rightarrow> ('e, 's) frame" where
  "reference E M c mid fr =
     (if all_concrete c mid fr then fr
      else let (vs, s) = fill_inputs E M mid (inputs c) fr (rts fr)
           in run_calls M (override (inputs c) vs) mid (fr\<lparr>rts := s\<rparr>))"


lemma appends_if_not:
  assumes "appends p body (s\<lparr>inserted := (inserted s)(p := [])\<rparr>) x code s1"
  shows "appends p (if_not p c body) s () [Enter False c code]
           (s\<lparr>inserted := (inserted s)(p := inserted s p @ [Enter False c code]), next_id := next_id s1\<rparr>)"
proof -
  from assms have "body (s\<lparr>inserted := (inserted s)(p := [])\<rparr>) = Inr (x, s1)"
    "next_id s \<le> next_id s1"
    "s1 = s\<lparr>inserted := (inserted s)(p := code), next_id := next_id s1\<rparr>"
    by (simp_all add: appends_def)
  then show ?thesis
    by (cases s1) (auto simp: appends_def if_not_def)
qed

lemma appends_append_code:
  "appends p (modify (\<lambda>s. s\<lparr>inserted := (inserted s)(p := inserted s p @ code)\<rparr>)) s () code
     (s\<lparr>inserted := (inserted s)(p := inserted s p @ code)\<rparr>)"
  by (simp add: appends_def modify_def)

lemma filter_set_eq_single:
  assumes "length (filter P xs) = Suc 0" "x \<in> set xs" "P x" "y \<in> set xs" "P y"
  shows "x = y"
proof -
  from assms(1) obtain z where "filter P xs = [z]" by (auto simp: length_Suc_conv)
  then have "{v \<in> set xs. P v} = {z}" by (metis list.set set_filter)
  then have "v \<in> set xs \<and> P v \<Longrightarrow> v = z" for v by blast
  with assms(2-) show ?thesis by metis
qed

lemma filter_single: "length (filter P xs) = 1 \<Longrightarrow> x \<in> set xs \<Longrightarrow> P x \<Longrightarrow> y \<in> set xs \<Longrightarrow> P y \<Longrightarrow> x = y"
  by (metis One_nat_def filter_set_eq_single)

lemma must_be_symbolic_on_slow_path:
  assumes "\<not> all_concrete c mid fr" "i \<in> set (inputs c)"
  shows "must_be_symbolic (length (filter (unknown_concreteness mid) (inputs c))) fr mid i"
proof -
  from assms(1) obtain j where j: "j \<in> set (inputs c)" "look fr (getSymbolicOperand mid j) \<noteq> Expr None"
    by (auto simp: all_concrete_def list_all_iff)
  then have "unknown_concreteness mid j" by (auto simp: unknown_concreteness_def)
  with assms(2) j show ?thesis
    by (auto simp: must_be_symbolic_def dest: filter_single)
qed

lemma input_ok_operand: "input_ok n mid i \<Longrightarrow> older n (getSymbolicOperand mid i)"
  by (simp add: input_ok_def)

text \<open>The values a computation takes from outside.\<close>

definition used_values :: "symbolic_computation \<Rightarrow> gen list \<Rightarrow> val set" where
  "used_values c mid = getSymbolicOperand mid ` set (inputs c) \<union> {x. \<exists>g\<in>set mid. uses x g}"

lemma with_operands_uses:
  assumes "uses x (with_operands js xs g)"
  shows "uses x g \<or> x \<in> set xs"
proof (cases g)
  case (Gen r op ys)
  with assms obtain k where k: "k < length ys"
    "x = (case override js xs r k of Some x \<Rightarrow> x | None \<Rightarrow> ys ! k)"
    by (auto simp: with_operands_def)
  then show ?thesis
    using Gen override_in [of js xs r k] by (cases "override js xs r k") auto
qed (use assms in \<open>simp_all add: with_operands_def\<close>)

lemma slow_path_appends:
  fixes M :: "('e, 's) machine"
  assumes ok: "computation_ok n c mid" and n: "n \<le> next_id s"
    and cs: "length cs = length (inputs c)" "list_all (older (next_id s)) cs"
  shows "\<exists>code s'. appends (place c) (slow_path E c cs mid) s () code s'
    \<and> uses_from (next_id s) (set cs \<union> used_values c mid) code
    \<and> (\<forall>fr0 fr :: ('e, 's) frame. same_below n fr0 fr \<longrightarrow> rts fr = rts fr0 \<longrightarrow>
        \<not> all_concrete c mid fr0 \<longrightarrow> list_all2 (checked fr mid) (inputs c) cs \<longrightarrow>
        same_below n (reference E M c mid fr0) (exec_code M code fr)
        \<and> rts (exec_code M code fr) = rts (reference E M c mid fr0))"
proof -
  let ?num = "length (filter (unknown_concreteness mid) (inputs c))"
  let ?p = "place c"
  note ok' = ok [unfolded computation_ok_def]
  have "list_all (input_ok (next_id s) mid) (inputs c)"
    using ok' n by (auto simp: list_all_iff intro: input_ok_mono)
  with cs ok' obtain xs code s' where
    1: "appends ?p (check_arguments E ?p ?num (zip (inputs c) cs) mid) s (map (with_operands (inputs c) xs) mid) code s'"
    "length xs = length (inputs c)"
    "\<forall>x\<in>set xs. \<not> older (next_id s) x \<or> x \<in> getSymbolicOperand mid ` set (inputs c)"
    "uses_from (next_id s) (set cs \<union> getSymbolicOperand mid ` set (inputs c)) code"
    "\<And>fr :: ('e, 's) frame. list_all2 (checked fr mid) (inputs c) cs \<Longrightarrow> list_all (must_be_symbolic ?num fr mid) (inputs c) \<Longrightarrow>
        same_below (next_id s) fr (exec_code M code fr)
        \<and> (map (look (exec_code M code fr)) xs, rts (exec_code M code fr)) = fill_inputs E M mid (inputs c) fr (rts fr)"
    using check_arguments_appends [of s mid "inputs c" cs ?p E ?num M] by blast
  let ?mid = "map (with_operands (inputs c) xs) mid"
  let ?s'' = "s'\<lparr>inserted := (inserted s')(?p := inserted s' ?p @ ?mid)\<rparr>"
  have app: "appends ?p (slow_path E c cs mid) s () (code @ ?mid) ?s''"
    unfolding slow_path_def Let_def by (rule appends_bind [OF 1(1)], rule appends_append_code)
  have outside: "\<forall>x\<in>set xs. Some x \<notin> gen_result ` set mid"
  proof
    fix x assume x: "x \<in> set xs"
    have "older (next_id s) r" if "Some r \<in> gen_result ` set mid" for r
      using that ok' n by (auto simp: list_all_iff elim!: plain_callE dest!: bspec)
    moreover have "\<forall>i\<in>set (inputs c). Some (getSymbolicOperand mid i) \<notin> gen_result ` set mid"
      using ok' by (simp add: list_all_iff)
    ultimately show "Some x \<notin> gen_result ` set mid" using x 1(3) by blast
  qed
  have "same_below n (reference E M c mid fr0) (exec_code M (code @ ?mid) fr)
        \<and> rts (exec_code M (code @ ?mid) fr) = rts (reference E M c mid fr0)"
    if "same_below n fr0 fr" "rts fr = rts fr0" "\<not> all_concrete c mid fr0"
      "list_all2 (checked fr mid) (inputs c) cs" for fr0 fr :: "('e, 's) frame"
  proof -
    let ?fr = "exec_code M code fr"
    have eq: "look fr (getSymbolicOperand mid i) = look fr0 (getSymbolicOperand mid i)
        \<and> look fr (concreteValue i) = look fr0 (concreteValue i)" if "i \<in> set (inputs c)" for i
      using that ok' \<open>same_below n fr0 fr\<close> by (auto simp: list_all_iff input_ok_def same_below_look)
    with that(3) have "\<not> all_concrete c mid fr" by (simp add: all_concrete_def list_all_iff)
    then have "list_all (must_be_symbolic ?num fr mid) (inputs c)"
      using must_be_symbolic_on_slow_path by (auto simp: list_all_iff)
    from 1(5) [OF that(4) this] obtain vs st where
      fill: "same_below (next_id s) fr ?fr" "map (look ?fr) xs = vs" "rts ?fr = st"
      "fill_inputs E M mid (inputs c) fr (rts fr) = (vs, st)" by (metis prod.inject)
    have "fill_inputs E M mid (inputs c) fr0 (rts fr0) = (vs, st)"
      using fill(4) fill_inputs_cong [of "inputs c" fr mid fr0 mid E M "rts fr0"] eq that(2) by simp
    moreover have "same_below n (fr0\<lparr>rts := st\<rparr>) ?fr"
      using fill(1) n that(1) by (auto simp: same_below_def intro: older_mono)
    ultimately show ?thesis
      using exec_with_operands [of n mid "fr0\<lparr>rts := st\<rparr>" ?fr xs vs M "inputs c"] ok' fill outside that(3)
      by (simp add: reference_def)
  qed
  moreover have "uses_from (next_id s) (set cs \<union> used_values c mid) (code @ ?mid)"
  proof -
    have "uses_from (next_id s) (set cs \<union> used_values c mid) ?mid"
      unfolding uses_from_def
    proof (intro ballI allI impI)
      fix g k t assume g: "g \<in> set ?mid" "k < next_id s" "uses (Made k t) g"
      then obtain g0 where g0: "g0 \<in> set mid" "uses (Made k t) g0 \<or> Made k t \<in> set xs"
        using with_operands_uses by auto
      with 1(3) g(2) show "Made k t \<in> set cs \<union> used_values c mid"
        by (auto simp: used_values_def)
    qed
    moreover have "uses_from (next_id s) (set cs \<union> used_values c mid) code"
      by (rule uses_from_mono [OF 1(4) order_refl]) (auto simp: used_values_def)
    ultimately show ?thesis by simp
  qed
  ultimately show ?thesis using app by blast
qed

text \<open>The code that replaces a computation does what the reference says.\<close>

lemma short_circuit_body_correct:
  fixes M :: "('e, 's) machine"
  assumes ok: "computation_ok (next_id s) c mid"
  shows "\<exists>code s'. appends (place c) (short_circuit_body E c mid) s () code s'
    \<and> uses_from (next_id s) (used_values c mid) code
    \<and> (\<forall>fr :: ('e, 's) frame.
        same_below (next_id s) (reference E M c mid fr) (exec_code M code fr)
        \<and> rts (exec_code M code fr) = rts (reference E M c mid fr)
        \<and> came_through (exec_code M code fr) = (\<not> all_concrete c mid fr))"
proof -
  let ?p = "place c"
  note ok' = ok [unfolded computation_ok_def]
  have "list_all (\<lambda>i. older (next_id s) (getSymbolicOperand mid i)) (inputs c)"
    using ok' by (auto simp: list_all_iff input_ok_operand)
  from null_checks_append [OF this, of ?p M] obtain cs code1 s1 where
    1: "appends ?p (null_checks ?p mid (inputs c)) s cs code1 s1" "length cs = length (inputs c)"
    "list_all (older (next_id s1)) cs" "list_all (\<lambda>c. \<not> older (next_id s) c) cs"
    "uses_from (next_id s) (getSymbolicOperand mid ` set (inputs c)) code1"
    "\<And>fr :: ('e, 's) frame. same_below (next_id s) fr (exec_code M code1 fr) \<and> rts (exec_code M code1 fr) = rts fr
        \<and> map (look (exec_code M code1 fr)) cs
          = map (\<lambda>i. truth (look fr (getSymbolicOperand mid i) = Expr None)) (inputs c)" by blast
  from 1(2) ok' obtain c0 cs' where cs: "cs = c0 # cs'" by (cases cs) auto
  from 1(3) cs have "older (next_id s1) c0" "list_all (older (next_id s1)) cs'" by simp_all
  from conjunction_appends [OF this, of ?p M] obtain x code2 s2 where
    2: "appends ?p (conjunction ?p c0 cs') s1 x code2 s2" "older (next_id s2) x"
    "\<not> older (next_id s1) x \<or> x = c0" "uses_from (next_id s1) (insert c0 (set cs')) code2"
    "\<And>(fr :: ('e, 's) frame) b bs. look fr c0 = truth b \<Longrightarrow> map (look fr) cs' = map truth bs \<Longrightarrow>
        same_below (next_id s1) fr (exec_code M code2 fr) \<and> rts (exec_code M code2 fr) = rts fr
        \<and> look (exec_code M code2 fr) x = truth (b \<and> list_all id bs)" by blast
  have le: "next_id s \<le> next_id s1" "next_id s1 \<le> next_id s2"
    using appends_older [OF 1(1)] appends_older [OF 2(1)] by simp_all
  let ?s2 = "s2\<lparr>inserted := (inserted s2)(?p := [])\<rparr>"
  have "list_all (older (next_id ?s2)) cs" using 1(3) le by (auto simp: list_all_iff intro: older_mono)
  with slow_path_appends [OF ok, of ?s2 cs E M] le 1(2) obtain code3 s3 where
    3: "appends ?p (slow_path E c cs mid) ?s2 () code3 s3"
    "uses_from (next_id ?s2) (set cs \<union> used_values c mid) code3"
    "\<And>fr0 fr :: ('e, 's) frame. same_below (next_id s) fr0 fr \<Longrightarrow> rts fr = rts fr0 \<Longrightarrow>
        \<not> all_concrete c mid fr0 \<Longrightarrow> list_all2 (checked fr mid) (inputs c) cs \<Longrightarrow>
        same_below (next_id s) (reference E M c mid fr0) (exec_code M code3 fr)
        \<and> rts (exec_code M code3 fr) = rts (reference E M c mid fr0)"
    by fastforce
  let ?code = "code1 @ code2 @ [Enter False x code3]"
  let ?s3 = "s2\<lparr>inserted := (inserted s2)(?p := inserted s2 ?p @ [Enter False x code3]), next_id := next_id s3\<rparr>"
  have app: "appends ?p (short_circuit_body E c mid) s () ?code ?s3"
    unfolding short_circuit_body_def
    by (rule appends_bind [OF 1(1)], unfold cs list.sel, rule appends_bind [OF 2(1)], fold cs,
        rule appends_if_not [OF 3(1)])
  have "same_below (next_id s) (reference E M c mid fr) (exec_code M ?code fr)
      \<and> rts (exec_code M ?code fr) = rts (reference E M c mid fr)
      \<and> came_through (exec_code M ?code fr) = (\<not> all_concrete c mid fr)" for fr :: "('e, 's) frame"
  proof -
    let ?f1 = "exec_code M code1 fr"
    let ?f2 = "exec_code M code2 ?f1"
    let ?bs = "map (\<lambda>i. look fr (getSymbolicOperand mid i) = Expr None) (inputs c)"
    have look1: "map (look ?f1) (c0 # cs') = map truth ?bs" using 1(6) [of fr] by (simp add: cs)
    then obtain b bs where bs: "?bs = b # bs" by (cases ?bs) auto
    from look1 bs have "look ?f1 c0 = truth b" "map (look ?f1) cs' = map truth bs" by (metis list.inject list.map(2))+
    note f2 = 2(5) [OF this]
    have conc: "all_concrete c mid fr \<longleftrightarrow> b \<and> list_all id bs"
      using arg_cong [OF bs, of "list_all id"] by (simp add: all_concrete_def list_all_iff)
    have sb: "same_below (next_id s) fr ?f2" "rts ?f2 = rts fr"
      using 1(6) [of fr] f2 le by (auto intro: same_below_trans same_below_mono)
    have "look ?f2 ci = look ?f1 ci" if "ci \<in> set cs" for ci
      using f2 1(3) that by (auto simp: list_all_iff same_below_look)
    then have "map (look ?f2) cs = map truth ?bs" using look1 cs by (metis map_cong)
    moreover have "look ?f2 (getSymbolicOperand mid i) = look fr (getSymbolicOperand mid i)" if "i \<in> set (inputs c)" for i
      using sb(1) that ok' by (auto simp: list_all_iff input_ok_operand same_below_look)
    ultimately have "list_all2 (checked ?f2 mid) (inputs c) cs"
      using 1(2) by (auto simp: list_all2_conv_all_nth checked_def list_eq_iff_nth_eq)
    with 3(3) [OF sb] sb f2 conc show ?thesis
      by (cases "all_concrete c mid fr") (auto simp: exec_Enter reference_def simp del: exec.simps)
  qed
  moreover have "uses_from (next_id s) (used_values c mid) ?code"
  proof -
    have new: "Made k t \<notin> set cs" if "k < next_id s" for k t
      using 1(4) that by (auto simp: list_all_iff)
    have drop: "uses_from (next_id s) U code'" if "uses_from (next_id s) (set cs \<union> U) code'" for U code'
      using that new unfolding uses_from_def by blast
    have "uses_from (next_id s) (used_values c mid) code1"
      by (rule uses_from_mono [OF 1(5) order_refl]) (auto simp: used_values_def)
    moreover have "uses_from (next_id s) (used_values c mid) code2"
      by (rule drop, rule uses_from_mono [OF 2(4) le(1)]) (auto simp: cs)
    moreover have "uses_from (next_id s) (used_values c mid) code3"
      by (rule drop, rule uses_from_mono [OF 3(2)]) (use le in auto)
    moreover have "x \<noteq> Made k t" if "k < next_id s" for k t
      using 2(3) le(1) new [OF that] that by (auto simp: cs)
    ultimately show ?thesis by auto
  qed
  ultimately show ?thesis using app by blast
qed


subsection \<open>The replacement in its place\<close>

lemma takeWhile_dropWhile_at:
  assumes "list_all (\<lambda>g. \<not> P g) xs" "P y"
  shows "takeWhile (\<lambda>g. \<not> P g) (xs @ y # ys) = xs" "dropWhile (\<lambda>g. \<not> P g) (xs @ y # ys) = y # ys"
  using assms by (induction xs) auto

lemma plain_call_result: "plain_call n g \<Longrightarrow> \<exists>k t. gen_result g = Some (Made k t) \<and> k < n"
  by (auto elim: plain_callE)

lemma computation_places:
  assumes ok: "computation_ok n c mid"
    and pre: "list_all (\<lambda>g. gen_result g \<notin> gen_result ` set mid) pre"
  shows "code_before c (pre @ mid @ post) = pre" "computation_code c (pre @ mid @ post) = mid"
    "code_after c (pre @ mid @ post) = post"
proof -
  note ok' = ok [unfolded computation_ok_def]
  from ok' obtain h tl0 where h: "mid = h # tl0" by (cases mid) auto
  from ok' obtain bl l where l: "mid = bl @ [l]" by (cases mid rule: rev_cases) auto
  have res: "gen_result g \<noteq> None" if "g \<in> set mid" for g
    using that ok' plain_call_result [of n g] by (auto simp: list_all_iff)
  have "list_all (\<lambda>g. \<not> at (firstInstruction c) g) pre"
    using pre ok' h by (auto simp: list_all_iff at_def)
  moreover have "at (firstInstruction c) h" using ok' h res by (simp add: at_def)
  ultimately have a: "code_before c (pre @ mid @ post) = pre" "code_from c (pre @ mid @ post) = mid @ post"
    using takeWhile_dropWhile_at [of "at (firstInstruction c)" pre h "tl0 @ post"]
    by (simp_all add: code_before_def code_from_def h)
  have "list_all (\<lambda>g. \<not> at (lastInstruction c) g) bl"
    using ok' by (simp add: l list_all_iff at_def) (metis imageI)
  moreover have "at (lastInstruction c) l" using ok' l res by (simp add: at_def)
  ultimately show "computation_code c (pre @ mid @ post) = mid" "code_after c (pre @ mid @ post) = post"
    using takeWhile_dropWhile_at [of "at (lastInstruction c)" bl l post]
    using a(2) by (simp_all add: computation_code_def code_after_def l One_nat_def)
  show "code_before c (pre @ mid @ post) = pre" by (rule a)
qed

lemma replace_uses_unused: "\<not> uses x g \<Longrightarrow> replace_uses x y g = g"
  by (induction g rule: replace_uses.induct)
    (auto simp: rename_val_def list_ex_iff intro!: map_idI)

lemma map_replace_uses_unused: "list_all (\<lambda>g. \<not> uses x g) code \<Longrightarrow> map (replace_uses x y) code = code"
  by (auto simp: list_all_iff replace_uses_unused intro!: map_idI)

text \<open>Code in SSA form: what is in front of a computation neither defines nor uses its results.\<close>

definition ssa_context :: "symbolic_computation \<Rightarrow> gen list \<Rightarrow> gen list \<Rightarrow> bool" where
  "ssa_context c pre mid \<longleftrightarrow>
     list_all (\<lambda>g. gen_result g \<notin> gen_result ` set mid) pre
     \<and> list_all (\<lambda>g. \<not> uses (last_value c) g) (pre @ mid)"

lemma appends_result:
  assumes "appends p m s x code s'"
  shows "m s = Inr (x, s')" "inserted s' p = inserted s p @ code" "next_id s \<le> next_id s'"
proof -
  from assms have "s' = s\<lparr>inserted := (inserted s)(p := inserted s p @ code), next_id := next_id s'\<rparr>"
    by (simp add: appends_def)
  then have "inserted s' = (inserted s)(p := inserted s p @ code)" by (metis symbolizer.select_convs(4) symbolizer.update_convs(4,5) symbolizer.surjective)
  then show "inserted s' p = inserted s p @ code" by simp
qed (use assms in \<open>simp_all add: appends_def\<close>)

text \<open>Short-circuiting a recorded computation replaces its code by code that equals the
  reference, from every state of the registers: if the expressions of all inputs are null, no
  run-time function is called, the state is as it was and the result is null; otherwise the
  result is what the calls of the computation return for the expressions of the symbolic inputs
  and expressions built from the values of the concrete ones. Later uses of the result are
  redirected, and values that existed before are the same as in the reference.
\<close>

lemma short_circuit_correct:
  fixes M :: "('e, 's) machine"
  assumes code: "inserted s (place c) = pre @ mid @ post"
    and ok: "computation_ok (next_id s) c mid" and ssa: "ssa_context c pre mid"
  shows "\<exists>s' new final. shortCircuit E c s = Inr ((), s')
    \<and> inserted s' (place c) = pre @ new
         @ (if use_empty E s (last_value c) then post else map (replace_uses (last_value c) final) post)
    \<and> (\<forall>fr :: ('e, 's) frame.
        same_below (next_id s) (reference E M c mid fr) (exec_code M new fr)
        \<and> rts (exec_code M new fr) = rts (reference E M c mid fr)
        \<and> (\<not> use_empty E s (last_value c) \<longrightarrow> look (exec_code M new fr) final =
            (if all_concrete c mid fr then Expr None else look (reference E M c mid fr) (last_value c))))
    \<and> (\<not> use_empty E s (last_value c) \<longrightarrow> final = Made (next_id s' - 1) PointerTy)"
proof -
  let ?p = "place c" and ?L = "last_value c"
  note ok' = ok [unfolded computation_ok_def]
  have places: "code_before c (inserted s ?p) = pre" "computation_code c (inserted s ?p) = mid"
    "code_after c (inserted s ?p) = post"
    using computation_places [OF ok] ssa code by (auto simp: ssa_context_def)
  let ?s0 = "s\<lparr>inserted := (inserted s)(?p := pre)\<rparr>"
  from short_circuit_body_correct [of ?s0 c mid E M] ok obtain code s1 where
    1: "appends ?p (short_circuit_body E c mid) ?s0 () code s1"
    "uses_from (next_id s) (used_values c mid) code"
    "\<And>fr :: ('e, 's) frame. same_below (next_id s) (reference E M c mid fr) (exec_code M code fr)
        \<and> rts (exec_code M code fr) = rts (reference E M c mid fr)
        \<and> came_through (exec_code M code fr) = (\<not> all_concrete c mid fr)" by auto
  have s1: "short_circuit_body E c mid ?s0 = Inr ((), s1)" "inserted s1 ?p = pre @ code"
    "next_id s \<le> next_id s1"
    using appends_result [OF 1(1)] by simp_all
  have check: "check (inputs c \<noteq> []) ''Symbolic computation has no inputs'' s = Inr ((), s)"
    using ok' by (simp add: check_eq)
  show ?thesis
  proof (cases "use_empty E s ?L")
    case True
    then show ?thesis
      using 1(3) s1 check
      by (intro exI [of _ "s1\<lparr>inserted := (inserted s1)(?p := pre @ code @ post)\<rparr>"] exI [of _ code] exI)
        (simp add: shortCircuit_def places Let_def build_simps)
  next
    case False
    let ?F = "Made (next_id s1) PointerTy"
    let ?new = "code @ [Merge ?F ConstantPointerNull ?L]"
    from ok' have "lastInstruction c \<in> gen_result ` set mid" "list_all (plain_call (next_id s)) mid"
      by (auto intro: last_in_set)
    then obtain k t where L: "lastInstruction c = Some (Made k t)" "k < next_id s"
      by (fastforce simp: list_all_iff dest: plain_call_result)
    then have L': "?L = Made k t" by (simp add: last_value_def)
    have "?L \<notin> used_values c mid"
      using ok' ssa L \<open>lastInstruction c \<in> gen_result ` set mid\<close>
      by (auto simp: used_values_def ssa_context_def list_all_iff L')
    with 1(2) L(2) have "list_all (\<lambda>g. \<not> uses ?L g) (pre @ code)"
      using ssa by (auto simp: list_all_iff uses_from_def ssa_context_def L')
    then have "map (replace_uses ?L ?F) (inserted s1 ?p) = pre @ code"
      using map_replace_uses_unused s1(2) by metis
    then have result: "\<exists>s'. shortCircuit E c s = Inr ((), s')
        \<and> inserted s' ?p = pre @ ?new @ map (replace_uses ?L ?F) post \<and> next_id s' = Suc (next_id s1)"
      using s1 check False
      by (simp add: shortCircuit_def places Let_def build_simps final_expression_def insert_code_def
          replaceAllUsesWith_def)
    have "same_below (next_id s) (reference E M c mid fr) (exec_code M ?new fr)
        \<and> rts (exec_code M ?new fr) = rts (reference E M c mid fr)
        \<and> look (exec_code M ?new fr) ?F =
            (if all_concrete c mid fr then Expr None else look (reference E M c mid fr) ?L)" for fr :: "('e, 's) frame"
      using 1(3) [of fr] s1(3) L' L(2) same_below_look [of "next_id s" "reference E M c mid fr" "exec_code M code fr" ?L]
      by (auto simp: look_set_reg_Made same_below_set_reg)
    moreover from result obtain s' where "shortCircuit E c s = Inr ((), s')"
      "inserted s' ?p = pre @ ?new @ map (replace_uses ?L ?F) post" "next_id s' = Suc (next_id s1)" by blast
    ultimately show ?thesis using False
      by (intro exI [of _ s'] exI [of _ ?new] exI [of _ ?F] conjI allI impI) (simp_all del: exec_code_append)
  qed
qed

subsection \<open>A concrete function\<close>

text \<open>
  \<open>i32 f(i32 a, i32 b) { return a + b; }\<close> on a 64-bit target, and a machine whose run-time
  calls return an expression that records their name and count the calls.
\<close>

definition demo_layout :: data_layout where
  "demo_layout = \<lparr>ptr_bits = 64, little_endian = True,
     type_store_size = (\<lambda>t. case t of IntegerTy w \<Rightarrow> (w + 7) div 8 | StructTy ts \<Rightarrow> 4 * length ts | _ \<Rightarrow> 8),
     type_alloc_size = (\<lambda>t. case t of IntegerTy w \<Rightarrow> (w + 7) div 8 | StructTy ts \<Rightarrow> 4 * length ts | _ \<Rightarrow> 8),
     element_offset = (\<lambda>ts k. 4 * k)\<rparr>"

definition demo_sum :: instruction where
  "demo_sum = \<lparr>iid = 0, ity = IntegerTy 32, iop = BinaryOperator Add (Argument 0 (IntegerTy 32)) (Argument 1 (IntegerTy 32))\<rparr>"

definition demo_ret :: instruction where
  "demo_ret = \<lparr>iid = 1, ity = VoidTy, iop = ReturnInst (Some (Result 0 (IntegerTy 32)))\<rparr>"

definition demo_function :: ir_function where
  "demo_function = \<lparr>fname = ''f'', params = [IntegerTy 32, IntegerTy 32],
     blocks = [\<lparr>bname = 0, instrs = [demo_sum, demo_ret]\<rparr>]\<rparr>"

definition demo_env :: environment where
  "demo_env = \<lparr>dataLayout = demo_layout, func = demo_function, host_address = (\<lambda>v. 4096),
     block_address = (\<lambda>b. 8192), silent = True\<rparr>"

definition demo_symbolized :: symbolizer where
  "demo_symbolized =
     (case and_then (symbolizeFunctionArguments demo_env) (visit_all demo_env) (initial_symbolizer 1) of
        Inl e \<Rightarrow> initial_symbolizer 0 | Inr (x, s) \<Rightarrow> s)"

definition demo_machine :: "(string, nat) machine" where
  "demo_machine = \<lparr>call_runtime = (\<lambda>f vs n. (Expr (Some f), Suc n)), primitive = (\<lambda>op t vs n. (Num 0, n))\<rparr>"

definition demo_computation :: symbolic_computation where
  "demo_computation =
     \<lparr>place = Before 0, firstInstruction = Some (Made 2 PointerTy), lastInstruction = Some (Made 2 PointerTy),
      inputs = [\<lparr>concreteValue = Argument 0 (IntegerTy 32), operandIndex = 0, user = Made 2 PointerTy\<rparr>,
                \<lparr>concreteValue = Argument 1 (IntegerTy 32), operandIndex = 1, user = Made 2 PointerTy\<rparr>]\<rparr>"

definition demo_call :: gen where
  "demo_call = Gen (Made 2 PointerTy) (Call (import ''_sym_build_add'' PointerTy [PointerTy, PointerTy]))
     [Made 0 PointerTy, Made 1 PointerTy]"

definition demo_parameters :: "gen list" where
  "demo_parameters =
     [Gen (Made 0 PointerTy) (Call (import ''_sym_get_parameter_expression'' PointerTy [IntegerTy 8])) [ConstantInt 8 0],
      Gen (Made 1 PointerTy) (Call (import ''_sym_get_parameter_expression'' PointerTy [IntegerTy 8])) [ConstantInt 8 1]]"

lemmas demo_defs = demo_layout_def demo_sum_def demo_ret_def demo_function_def demo_env_def

lemma demo_symbolized:
  "expressionUses demo_symbolized = [demo_computation]" "next_id demo_symbolized = 4"
  "inserted demo_symbolized (Before 0) = demo_parameters @ [demo_call] @ []"
  by (simp_all add: demo_symbolized_def symbolizeFunctionArguments_def build_simps demo_defs parameter_expression_def
      all_instructions_def user_empty_def initial_symbolizer_def createCall_def emit_def insert_code_def
      set_expression_def entry_point_def first_non_phi_def const_int_def visitBinaryOperator_def visit_all_def visitReturnInst_def get_expression_or_null_def ignore_result_def
      build_and_register_def buildRuntimeCall_def forceBuildRuntimeCall_def getSymbolicExpression_def
      getSymbolicExpressionOrNull_def argument_value_def register_if_built_def registerSymbolicComputation_def
      Let_def load_handler_def here_def self_def demo_computation_def demo_call_def demo_parameters_def)

lemma short_circuit_correct_witness:
  "\<exists>s' new final. shortCircuit demo_env demo_computation demo_symbolized = Inr ((), s')
    \<and> inserted s' (Before 0) = demo_parameters @ new
         @ (if use_empty demo_env demo_symbolized (Made 2 PointerTy) then []
            else map (replace_uses (Made 2 PointerTy) final) [])
    \<and> (\<forall>fr. same_below 4 (reference demo_env demo_machine demo_computation [demo_call] fr) (exec_code demo_machine new fr)
        \<and> rts (exec_code demo_machine new fr) = rts (reference demo_env demo_machine demo_computation [demo_call] fr)
        \<and> (\<not> use_empty demo_env demo_symbolized (Made 2 PointerTy) \<longrightarrow> look (exec_code demo_machine new fr) final =
            (if all_concrete demo_computation [demo_call] fr then Expr None
             else look (reference demo_env demo_machine demo_computation [demo_call] fr) (Made 2 PointerTy))))"
proof -
  have ok: "computation_ok (next_id demo_symbolized) demo_computation [demo_call]"
    unfolding demo_symbolized
    by (simp add: computation_ok_def demo_computation_def demo_call_def input_key_def input_ok_def
        operand_exists_def find_gen_def getSymbolicOperand_def)
  have ssa: "ssa_context demo_computation demo_parameters [demo_call]"
    by (simp add: ssa_context_def demo_computation_def demo_call_def demo_parameters_def last_value_def)
  have place: "place demo_computation = Before 0" "last_value demo_computation = Made 2 PointerTy"
    by (simp_all add: demo_computation_def last_value_def)
  from short_circuit_correct [of demo_symbolized demo_computation demo_parameters "[demo_call]" "[]" demo_env demo_machine,
      unfolded place demo_symbolized(2), OF demo_symbolized(3) ok [unfolded demo_symbolized(2)] ssa]
  show ?thesis by blast
qed

end
