(* ===== verification/PassTotal.thy ===== *)
theory PassTotal
  imports ShortCircuitCorrect
begin

text \<open>
  Which assertions of the pass fail, and on what: \<open>verified\<close> states what LLVM's verifier guarantees
  of an instruction, for the types that symbolic execution supports, \<open>handled\<close> which of these
  instructions the visitor has a case for, and \<open>pass_outcome\<close> concludes that \<open>runOnFunction\<close> returns if
  all instructions are handled and stops at the first one that is not. \<open>ok m R\<close> says that \<open>m\<close> succeeds
  in every state that satisfies the invariant \<open>well_typed\<close>, keeps the invariant and returns a
  value with \<open>R\<close>; its rules are collected in \<open>ok_intros\<close>.
\<close>

definition computation_typed :: "symbolic_computation \<Rightarrow> bool" where
  "computation_typed c \<longleftrightarrow> inputs c \<noteq> [] \<and>
     list_all (\<lambda>i. has_value_expression (type_of (concreteValue i))) (inputs c)"

definition well_typed :: "symbolizer \<Rightarrow> bool" where
  "well_typed s \<longleftrightarrow> (\<forall>v e. symbolicExpressions s v = Some e \<longrightarrow> type_of e = PointerTy)
     \<and> list_all computation_typed (expressionUses s)"

definition ok :: "'a build \<Rightarrow> ('a \<Rightarrow> bool) \<Rightarrow> bool" where
  "ok m R \<longleftrightarrow> (\<forall>s. well_typed s \<longrightarrow> (\<exists>x s'. m s = Inr (x, s') \<and> well_typed s' \<and> R x))"

abbreviation fine :: "unit build \<Rightarrow> bool" where
  "fine m \<equiv> ok m (\<lambda>_. True)"

named_theorems ok_intros "success of the build functions"

lemma well_typed_other [simp]:
  "well_typed (s\<lparr>inserted := f\<rparr>) = well_typed s" "well_typed (s\<lparr>next_id := n\<rparr>) = well_typed s"
  "well_typed (s\<lparr>phiNodes := ps\<rparr>) = well_typed s" "well_typed (s\<lparr>diagnostics := ds\<rparr>) = well_typed s"
  "well_typed (s\<lparr>my_random_number := r\<rparr>) = well_typed s"
  by (simp_all add: well_typed_def)

lemma ok_weaken: "ok m R \<Longrightarrow> (\<And>x. R x \<Longrightarrow> Q x) \<Longrightarrow> ok m Q"
  unfolding ok_def by blast

lemma ok_return [ok_intros]: "R x \<Longrightarrow> ok (return_build x) R"
  by (simp add: ok_def return_build_def)

lemma ok_bind:
  assumes "ok m R" "\<And>x. R x \<Longrightarrow> ok (f x) Q"
  shows "ok (bind_build m f) Q"
  unfolding ok_def
proof (intro allI impI)
  fix s assume "well_typed s"
  with assms(1) obtain x s1 where 1: "m s = Inr (x, s1)" "well_typed s1" "R x" unfolding ok_def by blast
  with assms(2) obtain y s2 where "f x s1 = Inr (y, s2)" "well_typed s2" "Q y" unfolding ok_def by blast
  with 1(1) show "\<exists>y s2. bind_build m f s = Inr (y, s2) \<and> well_typed s2 \<and> Q y" by (simp add: bind_build_eq)
qed

lemma ok_and_then: "ok m R \<Longrightarrow> ok k Q \<Longrightarrow> ok (and_then m k) Q"
  unfolding and_then_def by (rule ok_bind)

lemma fine_and_then [ok_intros]: "fine m \<Longrightarrow> ok k Q \<Longrightarrow> ok (and_then m k) Q"
  by (rule ok_and_then)

lemma fine_ignore: "ok m R \<Longrightarrow> fine (ignore_result m)"
  unfolding ignore_result_def by (rule ok_and_then, assumption, rule ok_return) simp

lemma fine_check [ok_intros]: "b \<Longrightarrow> fine (check b msg)"
  by (simp add: check_def ok_return)

lemma fine_in_case [ok_intros]: "(b \<Longrightarrow> fine m) \<Longrightarrow> fine (in_case b m)"
  by (auto simp: in_case_def intro: ok_return)

lemma fine_modify [ok_intros]: "(\<And>s. well_typed s \<Longrightarrow> well_typed (f s)) \<Longrightarrow> fine (modify f)"
  by (simp add: ok_def modify_def)

lemma fine_warn [ok_intros]: "fine (warn E msg v)"
  by (simp add: warn_def fine_in_case fine_modify)

lemma fine_for_each [ok_intros]: "(\<And>x. x \<in> set xs \<Longrightarrow> fine (f x)) \<Longrightarrow> fine (for_each xs f)"
  by (induction xs) (simp_all add: ok_return fine_and_then)

lemma ok_emit [ok_intros]: "ok (emit p g t xs) (\<lambda>x. type_of x = t)"
  by (simp add: ok_def emit_def insert_code_def Let_def)

lemma ok_createCall [ok_intros]:
  "map type_of xs = sym_args f \<Longrightarrow> ok (createCall p f xs) (\<lambda>x. type_of x = sym_ret f)"
  unfolding createCall_def by (intro ok_intros) simp

lemma fine_createCall [ok_intros]: "map type_of xs = sym_args f \<Longrightarrow> fine (ignore_result (createCall p f xs))"
  by (rule fine_ignore, rule ok_createCall)

lemma ok_createCast [ok_intros]: "ok (createCast p c v t) (\<lambda>x. type_of x = t)"
  by (simp add: createCast_def ok_return ok_emit)

lemma ok_createZExtOrTrunc [ok_intros]: "ok (createZExtOrTrunc p v t) (\<lambda>x. type_of x = t)"
  unfolding createZExtOrTrunc_def by (rule ok_createCast)

lemma ok_getIntegerBitWidth [ok_intros]: "isIntegerTy t \<Longrightarrow> ok (getIntegerBitWidth t) (\<lambda>w. True)"
  unfolding getIntegerBitWidth_def by (intro ok_intros) simp_all

lemma ok_if_then [ok_intros]:
  assumes "ok body R" shows "ok (if_then p c body) R"
  unfolding ok_def
proof (intro allI impI)
  fix s assume "well_typed s"
  with assms obtain x s' where "body (s\<lparr>inserted := (inserted s)(p := [])\<rparr>) = Inr (x, s')" "well_typed s'" "R x"
    unfolding ok_def by (metis well_typed_other(1))
  then show "\<exists>x s'. if_then p c body s = Inr (x, s') \<and> well_typed s' \<and> R x" by (simp add: if_then_def)
qed

lemma fine_set_expression [ok_intros]:
  "(\<And>e'. e = Some e' \<Longrightarrow> type_of e' = PointerTy) \<Longrightarrow> fine (set_expression v e)"
  unfolding set_expression_def by (intro ok_intros) (simp add: well_typed_def)

lemma ok_get_expression [ok_intros]:
  "ok (get_expression v) (\<lambda>e. \<forall>e'. e = Some e' \<longrightarrow> type_of e' = PointerTy)"
  by (simp add: ok_def get_expression_def getSymbolicExpression_def well_typed_def)

lemma type_of_expression_or_null:
  "well_typed s \<Longrightarrow> type_of (getSymbolicExpressionOrNull s v) = PointerTy"
  by (auto simp: getSymbolicExpressionOrNull_def getSymbolicExpression_def well_typed_def split: option.split)

lemma ok_get_expression_or_null [ok_intros]: "ok (get_expression_or_null v) (\<lambda>e. type_of e = PointerTy)"
  by (simp add: ok_def get_expression_or_null_def type_of_expression_or_null)

lemma fine_copy_expression [ok_intros]: "fine (copy_expression I v)"
  unfolding copy_expression_def by (rule ok_bind, rule ok_get_expression) (intro ok_intros; simp)

lemma ok_createValueExpression [ok_intros]:
  assumes "has_value_expression (type_of V)"
  shows "ok (createValueExpression E p V) (\<lambda>x. type_of x = PointerTy)"
proof -
  note rules = ok_intros ok_bind [OF ok_emit] ok_bind [OF ok_createCast]
  show ?thesis
  proof (cases "V = ConstantPointerNull")
    case True
    then show ?thesis
      unfolding createValueExpression_def by (auto intro: ok_weaken [OF ok_createCall])
  next
    case False
    with assms show ?thesis
      by (cases "type_of V")
        (auto simp: createValueExpression_def int1_def
          intro!: ok_bind [OF ok_emit] ok_bind [OF ok_createCast] ok_weaken [OF ok_createCall])
  qed
qed

subsection \<open>Computations\<close>

definition passed_type :: "val \<times> bool \<Rightarrow> ty" where
  "passed_type = (\<lambda>(arg, symbolic). if symbolic then PointerTy else type_of arg)"

definition args_ok :: "sym_fn \<Rightarrow> (val \<times> bool) list \<Rightarrow> bool" where
  "args_ok f args \<longleftrightarrow> map passed_type args = sym_args f \<and> (\<exists>(arg, symbolic)\<in>set args. symbolic)
     \<and> list_all (\<lambda>(arg, symbolic). symbolic \<longrightarrow> has_value_expression (type_of arg)) args"

lemma computation_inputs_typed:
  "list_all (\<lambda>(arg, symbolic). symbolic \<longrightarrow> has_value_expression (type_of arg)) args \<Longrightarrow>
   list_all (\<lambda>i. has_value_expression (type_of (concreteValue i))) (computation_inputs call k args)"
  "(arg, True) \<in> set args \<Longrightarrow> computation_inputs call k args \<noteq> []"
  by (induction call k args rule: computation_inputs.induct) auto

lemma ok_forceBuildRuntimeCall [ok_intros]:
  assumes "args_ok f args"
  shows "ok (forceBuildRuntimeCall p f args)
    (\<lambda>c. computation_typed c \<and> type_of (last_value c) = sym_ret f \<and> lastInstruction c = Some (last_value c))"
  unfolding ok_def
proof (intro allI impI)
  fix s assume s: "well_typed s"
  have "map type_of (map (argument_value s) args) = map passed_type args"
    by (auto simp: argument_value_def passed_type_def type_of_expression_or_null [OF s])
  then obtain x s' where "createCall p f (map (argument_value s) args) s = Inr (x, s')" "well_typed s'"
    "type_of x = sym_ret f"
    using ok_createCall [of "map (argument_value s) args" f p] assms s unfolding ok_def args_ok_def by metis
  then show "\<exists>c s'. forceBuildRuntimeCall p f args s = Inr (c, s') \<and> well_typed s' \<and> computation_typed c
      \<and> type_of (last_value c) = sym_ret f \<and> lastInstruction c = Some (last_value c)"
    using assms computation_inputs_typed(1) computation_inputs_typed(2) [of _ args]
    by (fastforce simp: forceBuildRuntimeCall_def computation_typed_def last_value_def args_ok_def)
qed

lemma ok_buildRuntimeCall [ok_intros]:
  assumes "args_ok f args"
  shows "ok (buildRuntimeCall p f args)
    (\<lambda>c. \<forall>c'. c = Some c' \<longrightarrow> computation_typed c' \<and> type_of (last_value c') = sym_ret f
       \<and> lastInstruction c' = Some (last_value c'))"
  using ok_forceBuildRuntimeCall [OF assms, of p] unfolding ok_def
  by (fastforce simp: buildRuntimeCall_def)

lemma fine_registerSymbolicComputation [ok_intros]:
  assumes "computation_typed c" "concrete \<noteq> None \<Longrightarrow> type_of (last_value c) = PointerTy"
    "lastInstruction c = Some (last_value c)"
  shows "fine (registerSymbolicComputation c concrete)"
  unfolding registerSymbolicComputation_def
  by (intro ok_intros) (use assms in \<open>auto split: option.split intro!: ok_intros simp: well_typed_def\<close>)

lemma fine_build_and_register [ok_intros]:
  assumes "args_ok f args" "v \<noteq> None \<Longrightarrow> sym_ret f = PointerTy"
  shows "fine (build_and_register I f args v)"
  unfolding build_and_register_def register_if_built_def
  by (rule ok_bind, rule ok_buildRuntimeCall, rule assms(1))
    (use assms(2) in \<open>auto split: option.split intro!: ok_intros\<close>)

lemma equal_handler_type [simp]: "sym_args (equal_handler E) = [PointerTy, PointerTy]" "sym_ret (equal_handler E) = PointerTy"
  by (simp_all add: equal_handler_def load_handler_def)

lemma site_type [simp]: "type_of (site E v) = intPtrType E" "type_of (int1 b) = IntegerTy 1"
  "type_of (store_size E t) = intPtrType E"
  by (simp_all add: site_def getTargetPreferredInt_def int1_def store_size_def)

lemma fine_try_alternative [ok_intros]:
  assumes "has_value_expression (type_of V)"
  shows "fine (try_alternative E p V)"
  unfolding ok_def
proof (intro allI impI)
  fix s assume s: "well_typed s"
  show "\<exists>x s'. try_alternative E p V s = Inr (x, s') \<and> well_typed s' \<and> True"
  proof (cases "getSymbolicExpression s V")
    case (Some destExpr)
    then have dest: "type_of destExpr = PointerTy" using s by (simp add: well_typed_def getSymbolicExpression_def)
    have "fine (bind_build (createValueExpression E p V) (\<lambda>concreteDestExpr.
          bind_build (createCall p (equal_handler E) [destExpr, concreteDestExpr]) (\<lambda>destAssertion.
          bind_build (createCall p (pushPathConstraint (rt E)) [destAssertion, int1 True, site E V]) (\<lambda>pushAssertion.
          registerSymbolicComputation
            \<lparr>place = p, firstInstruction = Some concreteDestExpr, lastInstruction = Some pushAssertion,
             inputs = [\<lparr>concreteValue = V, operandIndex = 0, user = destAssertion\<rparr>]\<rparr> None))))"
      by (rule ok_bind [OF ok_createValueExpression [OF assms]], rule ok_bind [OF ok_createCall], simp add: dest,
          rule ok_bind [OF ok_createCall], simp, rule fine_registerSymbolicComputation)
        (simp_all add: computation_typed_def assms last_value_def)
    with s Some show ?thesis unfolding ok_def by (simp add: try_alternative_def)
  qed (use s in \<open>simp add: try_alternative_def\<close>)
qed

subsection \<open>Instructions\<close>

text \<open>
  The typing rules of LLVM that the visitor relies on, for instructions on the types that have
  value expressions (no vectors, no arrays in registers).
\<close>

abbreviation scalar :: "val \<Rightarrow> bool" where
  "scalar v \<equiv> has_value_expression (type_of v)"

fun intrinsic_ok :: "intrinsic \<Rightarrow> val list \<Rightarrow> bool" where
  "intrinsic_ok memcpy_intrinsic (d # x # n # xs) \<longleftrightarrow>
     type_of d = PointerTy \<and> type_of x = PointerTy \<and> isIntegerTy (type_of n)"
| "intrinsic_ok memmove_intrinsic (d # x # n # xs) \<longleftrightarrow>
     type_of d = PointerTy \<and> type_of x = PointerTy \<and> isIntegerTy (type_of n)"
| "intrinsic_ok memset_intrinsic (d # x # n # xs) \<longleftrightarrow> type_of d = PointerTy \<and> isIntegerTy (type_of n)"
| "intrinsic_ok fabs (x # xs) \<longleftrightarrow> scalar x"
| "intrinsic_ok bswap (x # xs) \<longleftrightarrow> scalar x"
| "intrinsic_ok i xs \<longleftrightarrow> i \<notin> {memcpy_intrinsic, memmove_intrinsic, memset_intrinsic, fabs, bswap}"

fun callee_ok :: "callee \<Rightarrow> val list \<Rightarrow> bool" where
  "callee_ok (Intrinsic i) xs = intrinsic_ok i xs"
| "callee_ok (Indirect f) xs \<longleftrightarrow> type_of f = PointerTy"
| "callee_ok c xs \<longleftrightarrow> True"

fun step_ok :: "gep_index \<Rightarrow> bool" where
  "step_ok (StructStep ts i) \<longleftrightarrow> constant_value i \<noteq> None"
| "step_ok (ElementStep t i) \<longleftrightarrow> isIntegerTy (type_of i)"

fun cast_ok :: "cast_op \<Rightarrow> ty \<Rightarrow> ty \<Rightarrow> bool" where
  "cast_ok BitCast from to \<longleftrightarrow> (from = PointerTy \<and> to = PointerTy)
     \<or> (isIntegerTy from \<and> isFloatingPointTy to) \<or> (isFloatingPointTy from \<and> isIntegerTy to)"
| "cast_ok Trunc from to \<longleftrightarrow> isIntegerTy from \<and> isIntegerTy to"
| "cast_ok ZExt from to \<longleftrightarrow> isIntegerTy from \<and> isIntegerTy to"
| "cast_ok SExt from to \<longleftrightarrow> isIntegerTy from \<and> isIntegerTy to"
| "cast_ok FPToSI from to \<longleftrightarrow> isFloatingPointTy from \<and> isIntegerTy to"
| "cast_ok FPToUI from to \<longleftrightarrow> isFloatingPointTy from \<and> isIntegerTy to"
| "cast_ok c from to \<longleftrightarrow> has_value_expression from"

definition arithmetic_type :: "ty \<Rightarrow> bool" where
  "arithmetic_type t \<longleftrightarrow> isIntegerTy t \<or> isFloatingPointTy t"

fun cast_verified :: "cast_op \<Rightarrow> ty \<Rightarrow> ty \<Rightarrow> bool" where
  "cast_verified BitCast from to \<longleftrightarrow> (from = PointerTy \<and> to = PointerTy) \<or> (arithmetic_type from \<and> arithmetic_type to)"
| "cast_verified c from to \<longleftrightarrow> cast_ok c from to"

fun verified :: "environment \<Rightarrow> instruction \<Rightarrow> opcode \<Rightarrow> bool" where
  "verified E I (BinaryOperator opc x y) \<longleftrightarrow> scalar x \<and> type_of y = type_of x"
| "verified E I (CmpInst p x y) \<longleftrightarrow> scalar x \<and> type_of y = type_of x"
| "verified E I (SelectInst c x y) \<longleftrightarrow> type_of c = IntegerTy 1"
| "verified E I (BranchInst c bs) \<longleftrightarrow> (\<forall>v. c = Some v \<longrightarrow> type_of v = IntegerTy 1)"
| "verified E I (IndirectBrInst a bs) \<longleftrightarrow> type_of a = PointerTy"
| "verified E I (SwitchInst c cs bs) \<longleftrightarrow> list_all (\<lambda>v. isIntegerTy (type_of v)) (c # cs)"
| "verified E I (CallInst f xs) \<longleftrightarrow> callee_ok f xs \<and> (f = InlineAsm \<or> getNextNode E I \<noteq> None)"
| "verified E I (InvokeInst f xs b u) \<longleftrightarrow> callee_ok f xs"
| "verified E I (LoadInst a) \<longleftrightarrow> type_of a = PointerTy"
| "verified E I (StoreInst x a) \<longleftrightarrow> type_of a = PointerTy"
| "verified E I (GetElementPtrInst p js) \<longleftrightarrow> type_of p = PointerTy \<and> list_all step_ok js"
| "verified E I (CastInst c x) \<longleftrightarrow> cast_verified c (type_of x) (ity I)"
| "verified E I (ExtractValueInst x js) \<longleftrightarrow> scalar x \<and> extract_offset (dataLayout E) (type_of x) js 0 \<noteq> None"
| "verified E I _ \<longleftrightarrow> True"

text \<open>
  The verifier also accepts instructions that the visitor has no case for: arithmetic on \<open>i1\<close> other than
  the bitwise operators, the comparisons that are always false or true, and bit casts between two integer
  or two floating-point types.
\<close>

fun handled :: "instruction \<Rightarrow> opcode \<Rightarrow> bool" where
  "handled I (BinaryOperator opc x y) \<longleftrightarrow> (type_of x = IntegerTy 1 \<longrightarrow> opc \<in> {And, Or, Xor})"
| "handled I (CmpInst p x y) \<longleftrightarrow> p \<notin> {FCMP_FALSE, FCMP_TRUE}"
| "handled I (CastInst BitCast x) \<longleftrightarrow> type_of x = PointerTy \<or> isIntegerTy (type_of x) \<noteq> isIntegerTy (ity I)"
| "handled I _ \<longleftrightarrow> True"

fun failure :: "opcode \<Rightarrow> compile_error" where
  "failure (CmpInst p x y) = Assertion ''Unable to handle icmp/fcmp variant''"
| "failure (CastInst c x) = Assertion ''Unhandled non-pointer bit cast''"
| "failure _ = Unreachable ''Unknown Boolean operator''"

definition operation_ok :: "environment \<Rightarrow> instruction \<Rightarrow> opcode \<Rightarrow> bool" where
  "operation_ok E I opc \<longleftrightarrow> verified E I opc \<and> handled I opc"

lemma operation_ok_cast: "operation_ok E I (CastInst c x) \<longleftrightarrow> cast_ok c (type_of x) (ity I)"
  by (cases c; cases "type_of x"; cases "ity I") (auto simp: operation_ok_def arithmetic_type_def)

lemma operation_ok_simps [simp]:
  "operation_ok E I (BinaryOperator opc x y) \<longleftrightarrow> scalar x \<and> type_of y = type_of x
     \<and> (type_of x = IntegerTy 1 \<longrightarrow> opc \<in> {And, Or, Xor})"
  "operation_ok E I (CmpInst p x y) \<longleftrightarrow> scalar x \<and> type_of y = type_of x \<and> p \<notin> {FCMP_FALSE, FCMP_TRUE}"
  "operation_ok E I (SelectInst c x y) \<longleftrightarrow> type_of c = IntegerTy 1"
  "operation_ok E I (BranchInst b bs) \<longleftrightarrow> (\<forall>v. b = Some v \<longrightarrow> type_of v = IntegerTy 1)"
  "operation_ok E I (IndirectBrInst a bs) \<longleftrightarrow> type_of a = PointerTy"
  "operation_ok E I (SwitchInst c cs bs) \<longleftrightarrow> list_all (\<lambda>v. isIntegerTy (type_of v)) (c # cs)"
  "operation_ok E I (CallInst f xs) \<longleftrightarrow> callee_ok f xs \<and> (f = InlineAsm \<or> getNextNode E I \<noteq> None)"
  "operation_ok E I (InvokeInst f xs d u) \<longleftrightarrow> callee_ok f xs"
  "operation_ok E I (LoadInst a) \<longleftrightarrow> type_of a = PointerTy"
  "operation_ok E I (StoreInst x a) \<longleftrightarrow> type_of a = PointerTy"
  "operation_ok E I (GetElementPtrInst p' js) \<longleftrightarrow> type_of p' = PointerTy \<and> list_all step_ok js"
  "operation_ok E I (CastInst c' x) \<longleftrightarrow> cast_ok c' (type_of x) (ity I)"
  "operation_ok E I (ExtractValueInst x ks) \<longleftrightarrow> scalar x \<and> extract_offset (dataLayout E) (type_of x) ks 0 \<noteq> None"
  "operation_ok E I (ReturnInst r)" "operation_ok E I AllocaInst" "operation_ok E I (PHINode ps)"
  "operation_ok E I (InsertValueInst x z)" "operation_ok E I UnreachableInst" "operation_ok E I LandingPadInst"
  "operation_ok E I (ResumeInst x)" "operation_ok E I (OtherInst xs)"
  by (simp_all add: operation_ok_cast) (auto simp: operation_ok_def)

lemma isIntegerTy_has: "isIntegerTy t \<Longrightarrow> has_value_expression t"
  by (cases t) auto

lemma isFloatingPointTy_has: "isFloatingPointTy t \<Longrightarrow> has_value_expression t"
  by (cases t) auto

lemmas argument_simps = args_ok_def passed_type_def

lemma fine_visitBinaryOperator:
  assumes "operation_ok E I (BinaryOperator opc x y)"
  shows "fine (visitBinaryOperator E I opc x y)"
  unfolding visitBinaryOperator_def
proof (rule ok_bind [where R = "\<lambda>h. \<exists>f. h = Some f \<and> sym_ret f = PointerTy \<and> sym_args f = [PointerTy, PointerTy]"])
  obtain h where h: "binary_operator_handlers opc = Some h" using binary_handler_total by blast
  have "opc = And \<or> opc = Or \<or> opc = Xor" if "type_of x = IntegerTy 1" using that assms by auto
  then show "ok (if type_of x = IntegerTy 1 then
          (case opc of
             And \<Rightarrow> return_build (Some (buildBoolAnd (rt E)))
           | Or \<Rightarrow> return_build (Some (buildBoolOr (rt E)))
           | Xor \<Rightarrow> return_build (Some (buildBoolXor (rt E)))
           | _ \<Rightarrow> and_then (warn E ''Can't handle Boolean operator'' (Some (self I)))
                   (fail_build (Unreachable ''Unknown Boolean operator'')))
        else return_build (binaryOperatorHandlers (rt E) opc))
      (\<lambda>h. \<exists>f. h = Some f \<and> sym_ret f = PointerTy \<and> sym_args f = [PointerTy, PointerTy])"
    using h binary_handler_type [OF h] by (cases "type_of x = IntegerTy 1") (auto intro!: ok_return)
next
  fix h :: "sym_fn option"
  assume "\<exists>f. h = Some f \<and> sym_ret f = PointerTy \<and> sym_args f = [PointerTy, PointerTy]"
  with assms show "fine (and_then (check (h \<noteq> None) ''Unable to handle binary operator'')
      (build_and_register I (the h) [(x, True), (y, True)] (Some (self I))))"
    by (intro ok_intros) (auto simp: argument_simps)
qed

lemma fine_visitCmpInst: "operation_ok E I (CmpInst p x y) \<Longrightarrow> fine (visitCmpInst E I p x y)"
  using comparison_handler_None [of p] comparison_handler_type [of p]
  by (auto simp: visitCmpInst_def argument_simps intro!: ok_intros)

lemma fine_push_condition: "type_of c = IntegerTy 1 \<Longrightarrow> fine (push_condition E I c)"
  by (auto simp: push_condition_def argument_simps intro!: ok_intros)

lemma fine_visitReturnInst: "fine (visitReturnInst E I r)"
  by (auto simp: visitReturnInst_def intro!: ok_intros ok_bind [OF ok_get_expression_or_null] split: option.split)

lemma fine_copy_intrinsic:
  assumes "type_of d = PointerTy" "type_of x = PointerTy" "isIntegerTy (type_of n)"
    "sym_args f = [PointerTy, PointerTy, intPtrType E]"
  shows "fine (copy_intrinsic E I f (d # x # n # xs))"
  unfolding copy_intrinsic_def memory_length_def
  by (intro ok_intros ok_bind [OF ok_createZExtOrTrunc]) (use assms isIntegerTy_has in auto)

lemma fine_handleIntrinsicCall: "intrinsic_ok i xs \<Longrightarrow> fine (handleIntrinsicCall E I i xs)"
proof (induction i xs rule: intrinsic_ok.induct)
  case (3 d x n xs)
  then show ?case
    by (auto simp: handleIntrinsicCall_def memory_length_def isIntegerTy_has
        intro!: ok_intros ok_bind [OF ok_createZExtOrTrunc] ok_bind [OF ok_get_expression_or_null])
qed (auto simp: handleIntrinsicCall_def argument_simps intro!: fine_copy_intrinsic ok_intros split: intrinsic.split)

lemma fine_set_parameter: "fine (set_parameter E I nv)"
  by (cases nv) (auto simp: set_parameter_def intro!: ok_intros ok_bind [OF ok_get_expression_or_null])

lemma fine_fetch_result: "fine (fetch_result E I p)"
  unfolding fetch_result_def
  by (rule ok_and_then [OF ok_createCall], simp, rule ok_bind [OF ok_createCall], simp, rule fine_set_expression) simp

lemma fine_handleFunctionCall: "callee_ok f xs \<Longrightarrow> fine (handleFunctionCall E I f xs p)"
proof (cases f)
  case (Intrinsic i)
  then show "callee_ok f xs \<Longrightarrow> ?thesis" by (simp add: handleFunctionCall_def fine_handleIntrinsicCall)
qed (auto simp: handleFunctionCall_def intro!: ok_and_then [OF ok_createCall] ok_intros fine_set_parameter fine_fetch_result)

lemma fine_visitLoadInst: "type_of a = PointerTy \<Longrightarrow> fine (visitLoadInst E I a)"
  unfolding visitLoadInst_def Let_def
  by (rule fine_and_then, rule fine_try_alternative, simp, rule ok_bind [OF ok_createCast],
      rule ok_bind [OF ok_createCall], simp, rule ok_bind [where R = "\<lambda>e. type_of e = PointerTy"])
    (auto intro!: ok_intros ok_weaken [OF ok_createCall])

lemma fine_visitStoreInst: "type_of a = PointerTy \<Longrightarrow> fine (visitStoreInst E I x a)"
  unfolding visitStoreInst_def Let_def
  by (rule fine_and_then, rule fine_try_alternative, simp, rule ok_bind [OF ok_get_expression_or_null],
      rule ok_bind [where R = "\<lambda>e. type_of e = PointerTy"])
    (auto intro!: ok_intros ok_weaken [OF ok_createCall] ok_bind [OF ok_createCast])

subsection \<open>Address computations, casts and control flow\<close>

text \<open>
  The loop of \<open>visitGetElementPtrInst\<close>: once a call has been merged, there is a last one;
  \<open>moved\<close> holds if that must be the case.
\<close>

definition gep_state_ok :: "bool \<Rightarrow> gep_state \<Rightarrow> bool" where
  "gep_state_ok moved = (\<lambda>(c, a, pointer). (moved \<longrightarrow> \<not> pointer) \<and>
     type_of a = PointerTy \<and> list_all (\<lambda>i. scalar (concreteValue i)) (inputs c)
     \<and> (pointer \<or> computation_typed c \<and> type_of (last_value c) = PointerTy \<and> lastInstruction c = Some (last_value c)))"

definition merged_ok :: "symbolic_computation \<Rightarrow> bool" where
  "merged_ok c \<longleftrightarrow> computation_typed c \<and> type_of (last_value c) = PointerTy \<and> lastInstruction c = Some (last_value c)"

lemma ok_merge_call:
  assumes "map passed_type args = sym_args f" "sym_ret f = PointerTy"
    "list_all (\<lambda>(arg, symbolic). symbolic \<longrightarrow> scalar arg) args"
    "list_all (\<lambda>i. scalar (concreteValue i)) (inputs c)" "(\<exists>(arg, symbolic)\<in>set args. symbolic) \<or> inputs c \<noteq> []"
  shows "ok (merge_call p f args c) merged_ok"
  unfolding ok_def
proof (intro allI impI)
  fix s assume s: "well_typed s"
  have "map type_of (map (argument_value s) args) = map passed_type args"
    by (auto simp: argument_value_def passed_type_def type_of_expression_or_null [OF s])
  then obtain x s' where call: "createCall p f (map (argument_value s) args) s = Inr (x, s')" "well_typed s'"
    "type_of x = PointerTy"
    using ok_createCall [of "map (argument_value s) args" f p] assms(1,2) s unfolding ok_def by metis
  have "inputs c \<noteq> [] \<or> computation_inputs x 0 args \<noteq> []"
    using assms(5) computation_inputs_typed(2) [of _ args x 0] by fastforce
  with call show "\<exists>c' s'. merge_call p f args c s = Inr (c', s') \<and> well_typed s' \<and> merged_ok c'"
    using assms(4) computation_inputs_typed(1) [OF assms(3), of x 0]
    by (auto simp: merge_call_def build_simps forceBuildRuntimeCall_def merge_computation_def merged_ok_def
        computation_typed_def last_value_def)
qed

lemma handler_types [simp]:
  "sym_args (mul_handler E) = [PointerTy, PointerTy]" "sym_ret (mul_handler E) = PointerTy"
  "sym_args (add_handler E) = [PointerTy, PointerTy]" "sym_ret (add_handler E) = PointerTy"
  by (simp_all add: mul_handler_def add_handler_def load_handler_def)

lemma merged_okD: "merged_ok c \<Longrightarrow> type_of (last_value c) = PointerTy \<and> inputs c \<noteq> []
    \<and> list_all (\<lambda>i. scalar (concreteValue i)) (inputs c)"
  by (simp add: merged_ok_def computation_typed_def)

lemma ok_element_contribution:
  assumes "isIntegerTy (type_of index)" "list_all (\<lambda>i. scalar (concreteValue i)) (inputs c)"
  shows "ok (element_contribution E p t index c) merged_ok"
proof -
  have widened: "ok (merge_call p (mul_handler E) [(last_value c', False), (const_int (ptrBits E) k, True)] c') merged_ok"
    if "merged_ok c'" for c' k
    using merged_okD [OF that] by (intro ok_merge_call) (auto simp: passed_type_def)
  have scalar: "scalar index" using assms(1) by (rule isIntegerTy_has)
  show ?thesis
    unfolding element_contribution_def Let_def
  proof (rule ok_bind [OF ok_getIntegerBitWidth [OF assms(1)]])
    fix w
    let ?size = "const_int (ptrBits E) (unsigned_int (int (type_alloc_size (dataLayout E) t)))"
    have zext: "ok (merge_call p (buildZExt (rt E)) [(index, True), (const_int 8 (int (ptrBits E) - int w), False)] c) merged_ok"
      and "ok (merge_call p (mul_handler E) [(index, True), (?size, True)] c) merged_ok"
      using assms(2) scalar by (intro ok_merge_call; simp add: passed_type_def)+
    note this(2)
    moreover have "ok (bind_build (merge_call p (buildZExt (rt E))
            [(index, True), (const_int 8 (int (ptrBits E) - int w), False)] c) (\<lambda>c.
        merge_call p (mul_handler E) [(last_value c, False), (?size, True)] c)) merged_ok"
      by (rule ok_bind [OF zext widened])
    ultimately show "ok (if w \<noteq> ptrBits E then
        bind_build (merge_call p (buildZExt (rt E))
            [(index, True), (const_int 8 (int (ptrBits E) - int w), False)] c) (\<lambda>c.
        merge_call p (mul_handler E) [(last_value c, False), (?size, True)] c)
      else merge_call p (mul_handler E) [(index, True), (?size, True)] c) merged_ok"
      by simp
  qed
qed

lemma ok_add_contribution:
  assumes "type_of (fst contribution) = PointerTy \<or> snd contribution \<and> scalar (fst contribution)"
    "type_of (fst current) = PointerTy" "list_all (\<lambda>i. scalar (concreteValue i)) (inputs c)"
    "snd contribution \<or> snd current \<or> inputs c \<noteq> []"
  shows "ok (add_contribution E p contribution current c) (gep_state_ok True)"
  unfolding add_contribution_def
  by (rule ok_bind [OF ok_merge_call])
    (use assms in \<open>cases contribution; cases current;
      auto simp: passed_type_def merged_ok_def gep_state_ok_def computation_typed_def intro!: ok_return\<close>)+

lemma gep_state_ok_weaken: "gep_state_ok True st \<Longrightarrow> gep_state_ok moved st"
  by (auto simp: gep_state_ok_def)

lemma ok_gep_step:
  assumes "step_ok i" "gep_state_ok moved st"
  shows "ok (gep_step E p i st) (gep_state_ok (moved \<or> constant_value (step_operand i) \<noteq> Some 0))"
proof (cases st)
  case st: (fields c a pointer)
  show ?thesis
  proof (cases i)
    case (StructStep ts index)
    have "ok (add_contribution E p (const_int (ptrBits E) k, True) (a, pointer) c) (gep_state_ok True)" for k
      using assms(2) by (intro ok_add_contribution) (simp_all add: st gep_state_ok_def)
    then have "ok (add_contribution E p (const_int (ptrBits E) k, True) (a, pointer) c) (gep_state_ok m)" for k m
      by (rule ok_weaken) (rule gep_state_ok_weaken)
    with assms(1) show ?thesis
      by (auto simp: gep_step_def st StructStep Let_def intro!: ok_bind [OF fine_check])
  next
    case (ElementStep t index)
    have "ok (add_contribution E p (last_value c', False) (a, pointer) c') (gep_state_ok True)" if "merged_ok c'" for c'
      using assms(2) merged_okD [OF that] by (intro ok_add_contribution) (simp_all add: st gep_state_ok_def)
    moreover have "ok (element_contribution E p t index c) merged_ok"
      using assms by (intro ok_element_contribution) (simp_all add: st ElementStep gep_state_ok_def)
    ultimately show ?thesis
      using assms(2) by (auto simp: gep_step_def st ElementStep intro: ok_return ok_bind)
  qed
qed

lemma ok_gep_steps:
  "list_all step_ok js \<Longrightarrow> gep_state_ok moved st \<Longrightarrow>
   ok (gep_steps E p js st) (gep_state_ok (moved \<or> \<not> list_all (\<lambda>j. constant_value (step_operand j) = Some 0) js))"
proof (induction js arbitrary: moved st)
  case (Cons i js)
  define m where "m = (moved \<or> constant_value (step_operand i) \<noteq> Some 0)"
  have "ok (gep_steps E p js st') (gep_state_ok (m \<or> \<not> list_all (\<lambda>j. constant_value (step_operand j) = Some 0) js))"
    if "gep_state_ok m st'" for st'
    using Cons.IH [OF _ that] Cons.prems(1) by simp
  then have "ok (gep_steps E p (i # js) st) (gep_state_ok (m \<or> \<not> list_all (\<lambda>j. constant_value (step_operand j) = Some 0) js))"
    using Cons.prems ok_bind [OF ok_gep_step [of i moved st E p, folded m_def], of "gep_steps E p js"] by simp
  then show ?case by (rule ok_weaken) (auto simp: m_def gep_state_ok_def)
qed (simp add: ok_return)

lemma fine_visitGetElementPtrInst:
  assumes "type_of p = PointerTy" "list_all step_ok js"
  shows "fine (visitGetElementPtrInst E I p js)"
  unfolding ok_def
proof (intro allI impI)
  fix s assume s: "well_typed s"
  consider "getSymbolicExpression s p = None \<and> list_all (\<lambda>j. getSymbolicExpression s (step_operand j) = None) js"
    | "list_all (\<lambda>j. constant_value (step_operand j) = Some 0) js"
    | "\<not> list_all (\<lambda>j. constant_value (step_operand j) = Some 0) js"
      "\<not> (getSymbolicExpression s p = None \<and> list_all (\<lambda>j. getSymbolicExpression s (step_operand j) = None) js)"
    by blast
  then show "\<exists>x s'. visitGetElementPtrInst E I p js s = Inr (x, s') \<and> well_typed s' \<and> True"
  proof cases
    case 2
    have "fine (set_expression (self I) (getSymbolicExpression s p))"
      using s by (intro fine_set_expression) (simp add: well_typed_def getSymbolicExpression_def)
    with s 2 show ?thesis unfolding ok_def by (auto simp: visitGetElementPtrInst_def)
  next
    case 3
    have "gep_state_ok False (empty_computation (here I), p, True)"
      using assms(1) by (simp add: gep_state_ok_def empty_computation_def)
    from ok_gep_steps [OF assms(2) this, of E "here I"] 3(1)
    have "ok (gep_steps E (here I) js (empty_computation (here I), p, True)) (gep_state_ok True)" by simp
    then have "fine (bind_build (gep_steps E (here I) js (empty_computation (here I), p, True)) (\<lambda>(c, _, _).
           registerSymbolicComputation c (Some (self I))))"
      by (rule ok_bind) (auto simp: gep_state_ok_def intro!: ok_intros)
    with s 3 show ?thesis unfolding ok_def by (simp add: visitGetElementPtrInst_def)
  qed (use s in \<open>simp add: visitGetElementPtrInst_def\<close>)
qed

lemma fine_visitExtractValueInst:
  "operation_ok E I (ExtractValueInst x js) \<Longrightarrow> fine (visitExtractValueInst E I x js)"
  by (auto simp: visitExtractValueInst_def argument_simps intro!: ok_intros)

lemma cast_ok_has: "cast_ok c from to \<Longrightarrow> has_value_expression from"
  by (cases c) (auto simp: isIntegerTy_has isFloatingPointTy_has)

lemma fine_visit_cast:
  assumes "cast_ok c (type_of x) (ity I)"
  shows "fine (visit_cast E I c x)"
proof -
  note has = cast_ok_has [OF assms]
  have one: "fine (build_and_register I f [(x, True)] v)" if "sym_args f = [PointerTy]" "sym_ret f = PointerTy" for f v
    using has that by (intro ok_intros) (auto simp: argument_simps)
  have two: "fine (build_and_register I f [(x, True), (k, False)] v)"
    if "sym_args f = [PointerTy, type_of k]" "sym_ret f = PointerTy" for f k v
    using has that by (intro ok_intros) (auto simp: argument_simps)
  have three: "fine (build_and_register I f [(x, True), (k, False), (k', False)] v)"
    if "sym_args f = [PointerTy, type_of k, type_of k']" "sym_ret f = PointerTy" for f k k' v
    using has that by (intro ok_intros) (auto simp: argument_simps)
  note rules = one two three fine_warn fine_copy_expression fine_check ok_bind [OF ok_getIntegerBitWidth]
  show ?thesis
  proof (cases c)
    case BitCast
    with assms show ?thesis
      by (cases "type_of x"; cases "ity I") (auto simp: visit_cast_def visitBitCastInst_def intro!: rules fine_and_then)
  qed (use assms in \<open>auto simp: visit_cast_def visitTruncInst_def visitIntToPtrInst_def visitPtrToIntInst_def
      visitSIToFPInst_def visitUIToFPInst_def visitFPExtInst_def visitFPTruncInst_def visitFPToSI_def visitFPToUI_def
      visitCastInst_def intro!: rules\<close>)
qed

lemma fine_visitPHINode: "fine (visitPHINode E I xs)"
  unfolding visitPHINode_def
  by (rule fine_and_then, rule fine_modify, simp, rule ok_bind [OF ok_emit], rule fine_set_expression) simp

lemma fine_push_case:
  "type_of e = PointerTy \<Longrightarrow> isIntegerTy (type_of v) \<Longrightarrow> fine (push_case E I c e v)"
  unfolding push_case_def
  by (rule ok_bind [OF ok_emit], rule ok_bind [OF ok_createValueExpression], erule isIntegerTy_has,
      rule ok_bind [OF ok_createCall]) (auto intro: ok_intros)

lemma fine_visitSwitchInst:
  assumes "operation_ok E I (SwitchInst c cs bs)"
  shows "fine (visitSwitchInst E I c cs)"
  unfolding ok_def
proof (intro allI impI)
  fix s assume s: "well_typed s"
  show "\<exists>x s'. visitSwitchInst E I c cs s = Inr (x, s') \<and> well_typed s' \<and> True"
  proof (cases "getSymbolicExpression s c")
    case (Some e)
    then have "type_of e = PointerTy" using s by (simp add: well_typed_def getSymbolicExpression_def)
    then have "fine (bind_build (emit (here I) Not_equal_to (IntegerTy 1) [e, ConstantPointerNull])
        (\<lambda>h. if_then (here I) h (for_each cs (push_case E I c e))))"
      using assms by (auto intro!: ok_bind [OF ok_emit] ok_if_then fine_for_each fine_push_case simp: list_all_iff)
    with s Some show ?thesis unfolding ok_def by (simp add: visitSwitchInst_def)
  qed (use s in \<open>simp add: visitSwitchInst_def\<close>)
qed

lemma fine_visitInstruction: "fine (visitInstruction E I)"
  unfolding visitInstruction_def by (auto split: opcode.split intro: ok_return fine_warn)

lemma fine_visit: "operation_ok E I opc \<Longrightarrow> fine (visit E I opc)"
proof (cases opc)
  case (CallInst f xs)
  assume "operation_ok E I opc"
  with CallInst show ?thesis
    by (auto simp: visitCallInst_def handleInlineAssembly_def intro!: fine_warn fine_handleFunctionCall
        split: option.split)
next
  case (BranchInst c bs)
  assume "operation_ok E I opc"
  with BranchInst show ?thesis
    by (auto simp: visitBranchInst_def intro: ok_return fine_push_condition split: option.split)
qed (auto simp: fine_visitBinaryOperator fine_visitCmpInst visitSelectInst_def fine_push_condition fine_visitReturnInst
    visitIndirectBrInst_def fine_try_alternative fine_visitSwitchInst visitInvokeInst_def fine_handleFunctionCall
    visitAllocaInst_def visitUnreachableInst_def ok_return fine_visitLoadInst fine_visitStoreInst
    fine_visitGetElementPtrInst fine_visit_cast fine_visitPHINode fine_visitExtractValueInst fine_visitInstruction)

subsection \<open>The whole pass\<close>

definition function_ok :: "environment \<Rightarrow> bool" where
  "function_ok E \<longleftrightarrow> list_all (\<lambda>I. operation_ok E I (iop I)) (all_instructions (func E))"

lemma fine_symbolizeFunctionArguments: "fine (symbolizeFunctionArguments E)"
  unfolding symbolizeFunctionArguments_def parameter_expression_def
  by (auto intro!: ok_intros ok_bind [OF ok_createCall])

lemma fine_createCall_in_front:
  assumes "map type_of xs = sym_args f"
  shows "fine (createCall_in_front p f xs)"
  unfolding ok_def
proof (intro allI impI)
  fix s assume "well_typed s"
  with ok_createCall [OF assms, of p] obtain x s' where
    "createCall p f xs (s\<lparr>inserted := (inserted s)(p := [])\<rparr>) = Inr (x, s')" "well_typed s'"
    unfolding ok_def by (metis well_typed_other(1))
  then show "\<exists>x s'. createCall_in_front p f xs s = Inr (x, s') \<and> well_typed s' \<and> True"
    by (simp add: createCall_in_front_def)
qed

lemma fine_insertBasicBlockNotification: "fine (insertBasicBlockNotification E B)"
  by (simp add: insertBasicBlockNotification_def fine_createCall_in_front getTargetPreferredInt_def)

lemma fine_insertCovs: "fine (insertCovs E B)"
proof -
  have "fine (and_then (warn E ''Inserting cov feedback'' None) (
     and_then (modify (\<lambda>s. s\<lparr>my_random_number := my_random_number s + 1\<rparr>))
       (ignore_result (createCall (AtEntry (bname B)) (cov_fun_callback (rt E)) [const_int 32 r]))))" for r
    by (intro ok_intros) simp_all
  then show ?thesis unfolding ok_def insertCovs_def by blast
qed

lemma finalize_phi_fields [simp]:
  "symbolicExpressions (finalize_phi I s) = symbolicExpressions s" "expressionUses (finalize_phi I s) = expressionUses s"
  by (simp_all add: finalize_phi_def)

lemma erase_phi_fields [simp]: "expressionUses (erase_phi s0 I s) = expressionUses s"
  by (simp add: erase_phi_def eraseFromParent_def replaceAllUsesWith_def)

lemma expressionUses_finalizePHINodes [simp]: "expressionUses (finalizePHINodes s) = expressionUses s"
proof -
  have "expressionUses (fold finalize_phi Is t) = expressionUses t" for Is t
    by (induction Is arbitrary: t) simp_all
  moreover have "expressionUses (fold (erase_phi s0) Is t) = expressionUses t" for s0 Is t
    by (induction Is arbitrary: t) simp_all
  ultimately show ?thesis by (simp add: finalizePHINodes_def Let_def)
qed

lemma fine_finalizePHINodes: "fine (modify finalizePHINodes)"
proof (rule fine_modify)
  fix s assume "well_typed s"
  then have "list_all computation_typed (expressionUses (finalizePHINodes s))"
    by (simp add: well_typed_def del: list_all_iff)
  moreover have "symbolicExpressions (finalizePHINodes s) = Map.empty"
    by (simp add: finalizePHINodes_def Let_def)
  ultimately show "well_typed (finalizePHINodes s)" by (simp add: well_typed_def)
qed

lemma ok_null_checks: "ok (null_checks p mid js) (\<lambda>cs. length cs = length js)"
  by (induction js) (auto intro!: ok_return ok_bind [OF ok_emit] intro: ok_bind)

lemma ok_conjunction: "ok (conjunction p acc cs) (\<lambda>_. True)"
  by (induction cs arbitrary: acc) (auto intro!: ok_return ok_bind [OF ok_emit])

lemma ok_emit_merge: "ok (emit_merge p x y) (\<lambda>_. True)"
  by (simp add: ok_def emit_merge_def insert_code_def Let_def)

lemma ok_check_argument:
  assumes "scalar (concreteValue i)"
  shows "ok (check_argument E p n i c mid) (\<lambda>_. True)"
  unfolding check_argument_def Let_def
  by (auto intro!: ok_return ok_bind [where R = "\<lambda>_. True"] ok_bind [OF ok_if_then] ok_emit_merge
      ok_weaken [OF ok_createValueExpression] ok_createValueExpression assms)

lemma ok_check_arguments:
  "list_all (\<lambda>(i, c). scalar (concreteValue i)) ics \<Longrightarrow> ok (check_arguments E p n ics mid) (\<lambda>_. True)"
  by (induction ics arbitrary: mid) (auto intro!: ok_return ok_bind [OF ok_check_argument])

lemma fine_slow_path: "computation_typed c \<Longrightarrow> fine (slow_path E c cs mid)"
  unfolding slow_path_def Let_def computation_typed_def
  by (intro ok_bind [OF ok_check_arguments] fine_modify) (auto simp: list_all_iff dest: set_zip_leftD)

lemma fine_if_not:
  assumes "fine body" shows "fine (if_not p c body)"
  unfolding ok_def
proof (intro allI impI)
  fix s assume "well_typed s"
  with assms obtain x s' where "body (s\<lparr>inserted := (inserted s)(p := [])\<rparr>) = Inr (x, s')" "well_typed s'"
    unfolding ok_def by (metis well_typed_other(1))
  then show "\<exists>x s'. if_not p c body s = Inr (x, s') \<and> well_typed s' \<and> True" by (simp add: if_not_def)
qed

lemma fine_short_circuit_body: "computation_typed c \<Longrightarrow> fine (short_circuit_body E c mid)"
  unfolding short_circuit_body_def
  by (intro ok_bind [OF ok_null_checks] ok_bind [OF ok_conjunction] fine_if_not fine_slow_path)

lemma fine_shortCircuit:
  assumes "computation_typed c" shows "fine (shortCircuit E c)"
  unfolding ok_def
proof (intro allI impI)
  fix s assume s: "well_typed s"
  let ?code = "inserted s (place c)"
  let ?s0 = "s\<lparr>inserted := (inserted s)(place c := code_before c ?code)\<rparr>"
  obtain s1 where "short_circuit_body E c (computation_code c ?code) ?s0 = Inr ((), s1)" "well_typed s1"
    using fine_short_circuit_body [OF assms, of E "computation_code c ?code"] s
    unfolding ok_def by (metis well_typed_other(1) old.unit.exhaust)
  moreover have "well_typed (replaceAllUsesWith x y t) = well_typed t" for x y t
    by (simp add: replaceAllUsesWith_def)
  ultimately show "\<exists>x s'. shortCircuit E c s = Inr (x, s') \<and> well_typed s' \<and> True"
    using assms
    by (auto simp: shortCircuit_def Let_def build_simps computation_typed_def final_expression_def insert_code_def)
qed

lemma fine_shortCircuitExpressionUses: "fine (shortCircuitExpressionUses E)"
  unfolding ok_def
proof (intro allI impI)
  fix s assume s: "well_typed s"
  then have "fine (for_each (expressionUses s) (shortCircuit E))"
    by (intro fine_for_each fine_shortCircuit) (simp add: well_typed_def list_all_iff)
  with s show "\<exists>x s'. shortCircuitExpressionUses E s = Inr (x, s') \<and> well_typed s' \<and> True"
    unfolding ok_def shortCircuitExpressionUses_def by blast
qed

lemma fine_symbolize_function: "function_ok E \<Longrightarrow> fine (symbolize_function E pure)"
  unfolding symbolize_function_def visit_all_def
  by (intro fine_and_then fine_symbolizeFunctionArguments fine_for_each fine_insertBasicBlockNotification
      fine_visit fine_finalizePHINodes fine_shortCircuitExpressionUses fine_in_case fine_insertCovs)
    (simp add: function_ok_def list_all_iff)

lemma well_typed_initial: "well_typed (initial_symbolizer r)"
  by (simp add: well_typed_def initial_symbolizer_def)

lemma visit_unhandled:
  assumes "verified E I opc" "\<not> handled I opc"
  shows "visit E I opc s = Inl (failure opc)"
proof (cases opc)
  case (BinaryOperator op x y)
  then show ?thesis
    using assms(2) by (cases op) (auto simp: visitBinaryOperator_def warn_def build_simps fail_build_def)
next
  case (CmpInst p x y)
  then have "comparison_handlers p = None" using assms(2) comparison_handler_None [of p] by auto
  then show ?thesis using CmpInst by (simp add: visitCmpInst_def build_simps)
next
  case (CastInst c x)
  then show ?thesis
    using assms
    by (cases c; cases "type_of x"; cases "ity I")
      (auto simp: visit_cast_def visitBitCastInst_def arithmetic_type_def build_simps)
qed (use assms(2) in simp_all)

lemma for_each_stops:
  assumes "\<forall>x\<in>set xs. fine (f x)" "\<And>s. f y s = Inl e" "well_typed s"
  shows "for_each (xs @ y # ys) f s = Inl e"
  using assms(1,3)
proof (induction xs arbitrary: s)
  case (Cons x xs)
  then obtain s1 where "f x s = Inr ((), s1)" "well_typed s1" unfolding ok_def by (metis list.set_intros(1) old.unit.exhaust)
  with Cons show ?case by (simp add: build_simps)
qed (simp add: assms(2) build_simps)

definition function_verified :: "environment \<Rightarrow> bool" where
  "function_verified E \<longleftrightarrow> list_all (\<lambda>I. verified E I (iop I)) (all_instructions (func E))"

definition left_alone :: "string \<Rightarrow> bool" where
  "left_alone f \<longleftrightarrow> f = ''__sym_ctor'' \<or> strstr f ''sanitizer_cov_trace''"

lemma pass_stops:
  assumes "function_verified E" "all_instructions (func E) = Is @ I # Js" "\<forall>J\<in>set Is. handled J (iop J)"
    "\<not> handled I (iop I)"
  shows "symbolize_function E pure (initial_symbolizer random) = Inl (failure (iop I))"
proof -
  let ?front = "and_then (symbolizeFunctionArguments E) (for_each (blocks (func E)) (insertBasicBlockNotification E))"
  have "fine ?front"
    by (intro fine_and_then fine_symbolizeFunctionArguments fine_for_each fine_insertBasicBlockNotification)
  then obtain s where s: "?front (initial_symbolizer random) = Inr ((), s)" "well_typed s"
    using well_typed_initial unfolding ok_def by (metis old.unit.exhaust)
  have "for_each (Is @ I # Js) (\<lambda>I. visit E I (iop I)) s = Inl (failure (iop I))"
    using assms s(2) visit_unhandled
    by (intro for_each_stops) (auto simp: function_verified_def list_all_iff operation_ok_def intro!: fine_visit)
  with s(1) show ?thesis
    by (auto simp: symbolize_function_def visit_all_def assms(2) build_simps bind_result_eq_Inr)
qed

text \<open>C5: The outcome of the pass on every function that LLVM's verifier accepts, for the types that
  symbolic execution supports (no vectors, no arrays in registers). Some functions are left alone
  because of their name. Otherwise the pass returns the instrumented function if the visitor has a
  case for every instruction: no other assertion of the pass fails (every recorded computation has
  an input), every call it creates has arguments of the types the run-time library declares, and
  every value it needs the expression of can be turned into one. If there is an instruction without
  a case (\<open>i1\<close> arithmetic, a comparison that is always false or true, a bit cast between
  integers or between floating-point values), the compiler stops at the first one, with the assertion
  that belongs to it.
\<close>

lemma pass_outcome:
  assumes "function_verified E"
  shows "if left_alone (fname (func E)) then runOnFunction E pure random = Inr None
    else case dropWhile (\<lambda>I. handled I (iop I)) (all_instructions (func E)) of
        [] \<Rightarrow> \<exists>s. runOnFunction E pure random = Inr (Some s)
      | I # _ \<Rightarrow> runOnFunction E pure random = Inl (failure (iop I))"
proof (cases "left_alone (fname (func E))")
  case False
  let ?Is = "all_instructions (func E)"
  have run: "runOnFunction E pure random =
      bind_result (symbolize_function E pure (initial_symbolizer random)) (\<lambda>(_, s). Inr (Some s))"
    using False by (simp add: runOnFunction_def left_alone_def)
  show ?thesis
  proof (cases "dropWhile (\<lambda>I. handled I (iop I)) ?Is")
    case Nil
    then have "function_ok E"
      using assms by (auto simp: function_ok_def function_verified_def operation_ok_def list_all_iff dropWhile_eq_Nil_conv)
    then obtain s' where "symbolize_function E pure (initial_symbolizer random) = Inr ((), s')"
      using fine_symbolize_function [of E pure] well_typed_initial unfolding ok_def by (metis old.unit.exhaust)
    then show ?thesis using False run unfolding Nil by simp
  next
    case (Cons I Js)
    have "?Is = takeWhile (\<lambda>I. handled I (iop I)) ?Is @ I # Js" using Cons by (metis takeWhile_dropWhile_id)
    moreover have "\<not> handled I (iop I)" using Cons by (metis dropWhile_eq_Cons_conv)
    ultimately have "symbolize_function E pure (initial_symbolizer random) = Inl (failure (iop I))"
      using pass_stops [OF assms, of "takeWhile (\<lambda>I. handled I (iop I)) ?Is" I Js]
      by (auto dest: set_takeWhileD)
    then show ?thesis using False Cons run by simp
  qed
qed (auto simp: runOnFunction_def left_alone_def)

text \<open>The addition of the example, and \<open>fcmp true\<close> on two of its arguments.\<close>

definition demo_fcmp :: environment where
  "demo_fcmp = demo_env\<lparr>func := demo_function\<lparr>blocks := [\<lparr>bname = 0, instrs =
     [\<lparr>iid = 0, ity = IntegerTy 1, iop = CmpInst FCMP_TRUE (Argument 0 DoubleTy) (Argument 1 DoubleTy)\<rparr>, demo_ret]\<rparr>]\<rparr>\<rparr>"

lemma pass_outcome_witness:
  "(\<exists>s. runOnFunction demo_env True 7 = Inr (Some s)) \<and>
   runOnFunction demo_fcmp True 7 = Inl (Assertion ''Unable to handle icmp/fcmp variant'')"
proof -
  have "function_verified demo_env" "function_verified demo_fcmp"
    by (simp_all add: function_verified_def demo_fcmp_def demo_defs all_instructions_def)
  from pass_outcome [OF this(1), of True 7] pass_outcome [OF this(2), of True 7] show ?thesis
    by (simp add: demo_fcmp_def demo_defs all_instructions_def left_alone_def)
qed

end
