(* ===== verification/CompilerProps.thy ===== *)
theory CompilerProps
  imports PassTotal WrapperProps
begin

text \<open>
  Properties of the compiler pass, and of the pass and the run-time library together: what the
  instrumentation of single instructions does, how the expressions of arguments reach the
  callee, and what becomes of a struct that is copied through a register.
\<close>

subsection \<open>Lost expressions\<close>

lemma createCall_keeps:
  "createCall p f xs s = Inr (x, s') \<Longrightarrow> symbolicExpressions s' = symbolicExpressions s"
  by (auto simp: createCall_def emit_def insert_code_def Let_def build_simps split: if_splits)

lemma buildRuntimeCall_keeps:
  "buildRuntimeCall p f args s = Inr (c, s') \<Longrightarrow> symbolicExpressions s' = symbolicExpressions s"
  unfolding buildRuntimeCall_def forceBuildRuntimeCall_def
  by (auto simp: bind_result_eq_Inr dest: createCall_keeps split: if_splits)

lemma unregistered_keeps:
  assumes "build_and_register I f args None s = Inr ((), s')"
  shows "symbolicExpressions s' = symbolicExpressions s"
proof -
  from assms obtain c s1 where 1: "buildRuntimeCall (here I) f args s = Inr (c, s1)"
    "register_if_built c None s1 = Inr ((), s')"
    by (auto simp: build_and_register_def bind_build_eq bind_result_eq_Inr)
  from 1(2) have "symbolicExpressions s' = symbolicExpressions s1"
    by (cases c) (auto simp: register_if_built_def registerSymbolicComputation_def build_simps)
  with buildRuntimeCall_keeps [OF 1(1)] show ?thesis by simp
qed

text \<open>C37: a \<open>select\<close> records no expression for its result, although the comment in the code says
  that it copies the one of the chosen operand, and neither does a bit cast from a
  floating-point number to an integer, although it builds one: both results are taken to be
  concrete from then on.
\<close>

lemma select_and_bitcast_lose_expressions:
  assumes "opc = SelectInst c x y \<or>
      opc = CastInst BitCast x \<and> isFloatingPointTy (type_of x) \<and> isIntegerTy (ity I)"
    and "visit E I opc s = Inr ((), s')"
  shows "symbolicExpressions s' (self I) = symbolicExpressions s (self I)"
proof -
  have "\<not> (isIntegerTy (type_of x) \<and> isFloatingPointTy (ity I))" if "isFloatingPointTy (type_of x)"
    using that by (cases "type_of x") auto
  with assms obtain f args where "build_and_register I f args None s = Inr ((), s')"
    by (auto simp: visitSelectInst_def push_condition_def visit_cast_def visitBitCastInst_def)
  then show ?thesis by (simp add: unregistered_keeps)
qed

definition demo_float :: val where
  "demo_float = Argument 0 DoubleTy"

definition demo_cast :: instruction where
  "demo_cast = \<lparr>iid = 2, ity = IntegerTy 64, iop = CastInst BitCast demo_float\<rparr>"

definition demo_float_state :: symbolizer where
  "demo_float_state = (initial_symbolizer 1)\<lparr>symbolicExpressions := [demo_float \<mapsto> Made 0 PointerTy], next_id := 1\<rparr>"

lemma select_and_bitcast_lose_expressions_witness:
  "\<exists>s'. visit demo_env demo_cast (CastInst BitCast demo_float) demo_float_state = Inr ((), s')
    \<and> symbolicExpressions s' (self demo_cast) = None \<and> symbolicExpressions s' demo_float \<noteq> None"
proof -
  let ?r = "visit demo_env demo_cast (CastInst BitCast demo_float) demo_float_state"
  have "\<exists>s'. ?r = Inr ((), s') \<and> symbolicExpressions s' = symbolicExpressions demo_float_state"
    by (simp add: visit_cast_def visitBitCastInst_def demo_float_def demo_cast_def demo_float_state_def
        build_and_register_def buildRuntimeCall_def forceBuildRuntimeCall_def getSymbolicExpression_def
        getSymbolicExpressionOrNull_def argument_value_def createCall_def emit_def insert_code_def Let_def build_simps
        register_if_built_def registerSymbolicComputation_def return_build_def initial_symbolizer_def)
  then obtain s' where s': "?r = Inr ((), s')" "symbolicExpressions s' demo_float \<noteq> None"
    by (auto simp: demo_float_state_def)
  have "symbolicExpressions s' (self demo_cast) = symbolicExpressions demo_float_state (self demo_cast)"
    using select_and_bitcast_lose_expressions [OF _ s'(1)] by (simp add: demo_float_def demo_cast_def)
  with s' show ?thesis by (auto simp: demo_float_state_def demo_float_def demo_cast_def self_def initial_symbolizer_def)
qed

subsection \<open>Structs in registers\<close>

lemma be_value_byte:
  assumes "\<forall>v\<in>set vs. v < 256" "k < length vs"
  shows "be_value vs div 256 ^ k mod 256 = vs ! (length vs - 1 - k)"
proof -
  have "le_bytes (length vs) (be_value vs) = rev vs"
    using le_bytes_le_value [of "rev vs"] assms(1) by (simp add: le_value_rev)
  then have "le_bytes (length vs) (be_value vs) ! k = rev vs ! k" by simp
  then show ?thesis using assms(2) by (simp add: le_bytes_def rev_nth)
qed

text \<open>The last call that a load and a store of a register emit.\<close>

lemma load_of_struct_emits:
  assumes "ity I = StructTy ts" "getSymbolicExpression s addr = None" "type_of addr = PointerTy"
  shows "\<exists>s' r a. visitLoadInst E I addr s = Inr ((), s') \<and> last (inserted s' (here I)) =
      Gen r (Call (readMemory (rt E))) [a, store_size E (StructTy ts), const_int 8 0]"
  using assms
  by (simp add: visitLoadInst_def Let_def build_simps try_alternative_def createCast_def emit_def insert_code_def
      createCall_def store_size_def isLittleEndian_def set_expression_def)

lemma store_of_struct_emits:
  assumes "type_of v = StructTy ts" "getSymbolicExpression s v = Some e" "type_of e = PointerTy"
    "getSymbolicExpression s addr = None" "type_of addr = PointerTy" "little_endian (dataLayout E)"
  shows "\<exists>s' r a. visitStoreInst E I v addr s = Inr ((), s') \<and> last (inserted s' (here I)) =
      Gen r (Call (writeMemory (rt E))) [a, store_size E (StructTy ts), e, const_int 8 1]"
  using assms
  by (simp add: visitStoreInst_def Let_def build_simps try_alternative_def createCast_def emit_def insert_code_def
      createCall_def store_size_def get_expression_or_null_def getSymbolicExpressionOrNull_def ignore_result_def)

text \<open>C30: on a little-endian target, the code for the load of a struct reads its bytes as a
  big-endian number (\<open>isLittleEndian\<close> is false for aggregates), but the code for the store of
  a struct writes a little-endian one (\<open>dataLayout.isLittleEndian()\<close>, whatever the type): if
  some byte is symbolic, copying a struct through a register reverses the bytes of its shadow.
\<close>

lemma struct_copy_reverses_bytes:
  assumes Z: "z3_bv_laws Z isbv val" and len: "len \<noteq> 0" "unat a + unat len < 2 ^ 64" "8 * unat len < 2 ^ 32"
    and shadow: "shadow_ok (simple_backend Z) (simple_usable isbv) (g_shadow_pages rt0) (backend_state rt0) (region a (unat len))"
    and symbolic: "\<exists>c \<in> region a (unat len). shadow_at (g_shadow_pages rt0) c \<noteq> None"
    and little: "little_endian (dataLayout E)"
    and load: "ity L = StructTy ts" "getSymbolicExpression s addr = None" "type_of addr = PointerTy"
    and store: "type_of v = StructTy ts" "getSymbolicExpression s v = Some e" "type_of e = PointerTy"
  shows "\<exists>le_load le_store s1 s2 r1 a1 r2 a2 x rt1 rt2.
    visitLoadInst E L addr s = Inr ((), s1) \<and>
    last (inserted s1 (here L)) =
      Gen r1 (Call (readMemory (rt E))) [a1, store_size E (StructTy ts), const_int 8 (of_bool le_load)] \<and>
    visitStoreInst E S v addr s = Inr ((), s2) \<and>
    last (inserted s2 (here S)) =
      Gen r2 (Call (writeMemory (rt E))) [a2, store_size E (StructTy ts), e, const_int 8 (of_bool le_store)] \<and>
    sym_read_memory (simple_backend Z) a len le_load rt0 = Inr (Some x, rt1) \<and>
    sym_write_memory (simple_backend Z) b len (Some x) le_store rt1 = Inr rt2 \<and>
    (\<forall>k<unat len. sym_byte val rt2 (b + of_nat k) = sym_byte val rt0 (a + of_nat (unat len - 1 - k)))"
proof -
  let ?B = "simple_backend Z" and ?n = "unat len"
  obtain s1 r1 a1 where 1: "visitLoadInst E L addr s = Inr ((), s1)"
    "last (inserted s1 (here L)) = Gen r1 (Call (readMemory (rt E))) [a1, store_size E (StructTy ts), const_int 8 0]"
    using load_of_struct_emits [OF load] by blast
  obtain s2 r2 a2 where 2: "visitStoreInst E S v addr s = Inr ((), s2)"
    "last (inserted s2 (here S)) = Gen r2 (Call (writeMemory (rt E))) [a2, store_size E (StructTy ts), e, const_int 8 1]"
    using store_of_struct_emits [OF store load(2,3) little] by blast
  let ?vs = "bytes_from (sym_byte val rt0) a ?n"
  obtain x b' where read: "sym_read_memory ?B a len False rt0 = Inr (Some x, rt0\<lparr>backend_state := b'\<rparr>)"
    "isbv x" "retained b' x" "z3_width Z x = 8 * ?n" "val x = be_value ?vs"
    using simple.read_memory_correct [OF Z len(1,2,3) shadow, of False] symbolic
    unfolding simple_usable_def simple_backend_simps width_simple_bits_helper by (auto split: if_splits)
  let ?rt1 = "rt0\<lparr>backend_state := b'\<rparr>"
  obtain pages' b'' where wrote: "sym_write_memory ?B b len (Some x) True ?rt1 =
      Inr (?rt1\<lparr>g_shadow_pages := pages', backend_state := b''\<rparr>)"
    "\<forall>k<?n. \<exists>y. shadow_at pages' (b + of_nat k) = Some y \<and> val y = val x div 256 ^ k mod 256"
    using simple.write_memory_correct [of Z isbv val len ?rt1 x b True] Z len read
    unfolding simple_usable_def simple_backend_simps width_simple_bits_helper bits_helper_8 by auto metis
  have bound: "\<forall>y\<in>set ?vs. y < 256"
  proof
    fix y assume "y \<in> set ?vs"
    then obtain k where k: "k < ?n" "y = sym_byte val rt0 (a + of_nat k)" by (auto simp: bytes_from_map)
    have "a + of_nat k \<in> region a ?n"
      using k(1) unat_addr_less [of len] by (simp add: in_region_def unat_of_nat_small)
    then have "isbv e' \<and> z3_width Z e' = 8" if "shadow_at (g_shadow_pages rt0) (a + of_nat k) = Some e'" for e'
      using shadow that unfolding shadow_ok_def simple_usable_def simple_backend_simps bits_helper_8 by blast
    moreover have "unat (memory rt0 (a + of_nat k)) < 2 ^ LENGTH(8)" by (rule unsigned_less)
    ultimately show "y < 256"
      using k(2) z3_bv_lawsD(1) [OF Z] by (fastforce simp: sym_byte_def split: option.splits)
  qed
  have "sym_byte val (?rt1\<lparr>g_shadow_pages := pages', backend_state := b''\<rparr>) (b + of_nat k)
      = sym_byte val rt0 (a + of_nat (?n - 1 - k))" if k: "k < ?n" for k
  proof -
    from wrote(2) k obtain y where "shadow_at pages' (b + of_nat k) = Some y" "val y = be_value ?vs div 256 ^ k mod 256"
      using read(5) by metis
    moreover have "?vs ! (?n - 1 - k) = sym_byte val rt0 (a + of_nat (?n - 1 - k))"
      unfolding bytes_from_map using k by (subst nth_map) auto
    ultimately show ?thesis
      using be_value_byte [OF bound, of k] k by (simp only: sym_byte_def [of val "?rt1\<lparr>g_shadow_pages := pages', backend_state := b''\<rparr>"]) simp
  qed
  with 1 2 read(1) wrote(1) show ?thesis
    by (intro exI [of _ False] exI [of _ True] exI [of _ s1] exI [of _ s2]) auto
qed

definition demo_struct :: ty where
  "demo_struct = StructTy [IntegerTy 16]"

definition demo_struct_load :: instruction where
  "demo_struct_load = \<lparr>iid = 3, ity = demo_struct, iop = LoadInst (Argument 0 PointerTy)\<rparr>"

definition demo_struct_store :: instruction where
  "demo_struct_store = \<lparr>iid = 4, ity = VoidTy, iop = StoreInst (Result 3 demo_struct) (Argument 0 PointerTy)\<rparr>"

definition demo_struct_state :: symbolizer where
  "demo_struct_state = (initial_symbolizer 1)\<lparr>symbolicExpressions := [Result 3 demo_struct \<mapsto> Made 0 PointerTy], next_id := 1\<rparr>"

lemma struct_copy_reverses_bytes_witness:
  "\<exists>le_load le_store s1 s2 r1 a1 r2 a2 x rt1 rt2.
    visitLoadInst demo_env demo_struct_load (Argument 0 PointerTy) demo_struct_state = Inr ((), s1) \<and>
    last (inserted s1 (here demo_struct_load)) = Gen r1 (Call (readMemory (rt demo_env)))
      [a1, store_size demo_env (StructTy [IntegerTy 16]), const_int 8 (of_bool le_load)] \<and>
    visitStoreInst demo_env demo_struct_store (Result 3 demo_struct) (Argument 0 PointerTy) demo_struct_state = Inr ((), s2) \<and>
    last (inserted s2 (here demo_struct_store)) = Gen r2 (Call (writeMemory (rt demo_env)))
      [a2, store_size demo_env (StructTy [IntegerTy 16]), Made 0 PointerTy, const_int 8 (of_bool le_store)] \<and>
    sym_read_memory (simple_backend demo_z3) 0x1004 2 le_load demo_mem = Inr (Some x, rt1) \<and>
    sym_write_memory (simple_backend demo_z3) 0x2000 2 (Some x) le_store rt1 = Inr rt2 \<and>
    (\<forall>k<unat (2 :: addr). sym_byte demo_val rt2 (0x2000 + of_nat k)
       = sym_byte demo_val demo_mem (0x1004 + of_nat (unat (2 :: addr) - 1 - k)))"
proof (rule struct_copy_reverses_bytes [OF demo_bv_laws])
  show "shadow_ok (simple_backend demo_z3) (simple_usable demo_isbv) (g_shadow_pages demo_mem) (backend_state demo_mem)
      (region 0x1004 (unat (2 :: addr)))"
    by (auto simp: shadow_ok_def demo_mem_def shadow_at_demo_pages simple_usable_def bits_helper_8
        demo_rt_def retained_def split: if_splits)
  show "\<exists>c\<in>region 0x1004 (unat (2 :: addr)). shadow_at (g_shadow_pages demo_mem) c \<noteq> None"
    by (intro bexI [of _ "0x1005"]) (simp_all add: demo_mem_def shadow_at_demo_pages in_region_def pageStart_def pageOffset_def kPageSize_def)
qed (simp_all add: demo_env_def demo_layout_def demo_struct_load_def demo_struct_store_def demo_struct_def
      demo_struct_state_def getSymbolicExpression_def initial_symbolizer_def)

subsection \<open>Arguments and their expressions\<close>

text \<open>The run-time library as a machine, as far as the calling protocol is concerned.\<close>

definition helper_machine :: "('e, ('e, 'b) runtime) machine" where
  "helper_machine =
     \<lparr>call_runtime = (\<lambda>f vs rt.
        if f = ''_sym_set_parameter_expression'' then
          (case vs of [Num i, Expr e] \<Rightarrow> (Expr None, sym_set_parameter_expression (word_of_int i) e rt) | _ \<Rightarrow> (Expr None, rt))
        else if f = ''_sym_get_parameter_expression'' then
          (case vs of [Num i] \<Rightarrow> (Expr (sym_get_parameter_expression (word_of_int i) rt), rt) | _ \<Rightarrow> (Expr None, rt))
        else (Expr None, rt)),
      primitive = (\<lambda>op t vs rt. (Num 0, rt))\<rparr>"

abbreviation passed :: "(('e, ('e, 'b) runtime) frame) \<Rightarrow> nat \<Rightarrow> 'e option" where
  "passed fr k \<equiv> sym_get_parameter_expression (of_nat k) (rts fr)"

definition argument_call :: "environment \<Rightarrow> nat \<Rightarrow> nat \<Rightarrow> val \<Rightarrow> gen" where
  "argument_call E k n e = Gen (Made k VoidTy) (Call (setParameterExpression (rt E))) [const_int 8 (int n), e]"

lemma set_parameter_appends:
  assumes "type_of (getSymbolicExpressionOrNull s arg) = PointerTy"
    "g = argument_call E (next_id s) n (getSymbolicExpressionOrNull s arg)"
  shows "appends (here I) (set_parameter E I (n, arg)) s () [g]
    (s\<lparr>inserted := (inserted s)(here I := inserted s (here I) @ [g]), next_id := Suc (next_id s)\<rparr>)"
  using assms
  by (simp add: set_parameter_def get_expression_or_null_def ignore_result_def appends_def createCall_def emit_def
      insert_code_def Let_def build_simps argument_call_def)

lemma word_of_int_mod_256: "(word_of_int (int n mod 256) :: byte) = of_nat n"
  by transfer (simp add: take_bit_eq_mod)

lemma of_nat_byte_eq: "j < 256 \<Longrightarrow> n < 256 \<Longrightarrow> ((of_nat j :: byte) = of_nat n) = (j = n)"
  by (simp add: word_of_nat_eq_iff take_bit_nat_eq_self)

lemma exec_argument_call:
  assumes "look fr e = Expr v"
  shows "exec helper_machine (argument_call E k n e) fr =
    set_reg (Made k VoidTy) (Expr None) (fr\<lparr>rts := sym_set_parameter_expression (of_nat n) v (rts fr)\<rparr>)"
  using assms
  by (simp add: argument_call_def exec_Gen gop_value_simps helper_machine_def const_int_def word_of_int_mod_256)

lemma set_parameters_pass:
  assumes "\<forall>a\<in>set args. type_of (getSymbolicExpressionOrNull s a) = PointerTy
      \<and> older (next_id s) (getSymbolicExpressionOrNull s a)" "n + length args \<le> 256"
  shows "\<exists>code s'. appends (here I) (for_each (enumerate n args) (set_parameter E I)) s () code s' \<and>
    (\<forall>fr :: ('e, ('e, 'b) runtime) frame.
      (\<forall>k<length args. look fr (getSymbolicExpressionOrNull s (args ! k)) = Expr (x k)) \<longrightarrow>
      (\<forall>k<length args. passed (exec_code helper_machine code fr) (n + k) = x k) \<and>
      (\<forall>j<n. passed (exec_code helper_machine code fr) j = passed fr j))"
  using assms
proof (induction args arbitrary: n s x)
  case Nil
  then show ?case by (intro exI [of _ "[]"] exI [of _ s]) (simp add: appends_return)
next
  case (Cons a args)
  let ?e = "getSymbolicExpressionOrNull s"
  let ?g = "argument_call E (next_id s) n (?e a)"
  let ?s1 = "s\<lparr>inserted := (inserted s)(here I := inserted s (here I) @ [?g]), next_id := Suc (next_id s)\<rparr>"
  have e: "getSymbolicExpressionOrNull ?s1 = ?e"
    by (simp add: fun_eq_iff getSymbolicExpressionOrNull_def getSymbolicExpression_def)
  have "\<forall>a\<in>set args. type_of (getSymbolicExpressionOrNull ?s1 a) = PointerTy
      \<and> older (next_id ?s1) (getSymbolicExpressionOrNull ?s1 a)" "Suc n + length args \<le> 256"
    using Cons.prems unfolding e by (auto intro: older_Suc)
  from Cons.IH [OF this, of "\<lambda>k. x (Suc k)"] obtain code s' where
    IH: "appends (here I) (for_each (enumerate (Suc n) args) (set_parameter E I)) ?s1 () code s'"
    "\<And>fr :: ('e, ('e, 'b) runtime) frame. (\<forall>k<length args. look fr (?e (args ! k)) = Expr (x (Suc k))) \<Longrightarrow>
      (\<forall>k<length args. passed (exec_code helper_machine code fr) (Suc n + k) = x (Suc k)) \<and>
      (\<forall>j<Suc n. passed (exec_code helper_machine code fr) j = passed fr j)"
    unfolding e by blast
  have app: "appends (here I) (for_each (enumerate n (a # args)) (set_parameter E I)) s () ([?g] @ code) s'"
    unfolding enumerate_simps for_each.simps and_then_def
    by (rule appends_bind [OF set_parameter_appends IH(1)]) (use Cons.prems in simp_all)
  have "(\<forall>k<length (a # args). passed (exec_code helper_machine ([?g] @ code) fr) (n + k) = x k) \<and>
      (\<forall>j<n. passed (exec_code helper_machine ([?g] @ code) fr) j = passed fr j)"
    if look: "\<forall>k<length (a # args). look fr (?e ((a # args) ! k)) = Expr (x k)" for fr :: "('e, ('e, 'b) runtime) frame"
  proof -
    have "look fr (?e a) = Expr (x 0)" using look by force
    note step = exec_argument_call [OF this, of E "next_id s" n]
    let ?fr = "exec helper_machine ?g fr"
    have at_n: "passed ?fr n = x 0"
      by (simp add: step sym_get_parameter_expression_def sym_set_parameter_expression_def)
    have below: "passed ?fr j = passed fr j" if "j < n" for j
      using that Cons.prems(2) of_nat_byte_eq [of j n]
      by (simp add: step sym_get_parameter_expression_def sym_set_parameter_expression_def)
    have "\<forall>k<length args. look ?fr (?e (args ! k)) = Expr (x (Suc k))"
    proof (intro allI impI)
      fix k assume k: "k < length args"
      then have "look fr (?e (args ! k)) = Expr (x (Suc k))" "older (next_id s) (?e (args ! k))"
        using look Cons.prems(1) by force+
      then show "look ?fr (?e (args ! k)) = Expr (x (Suc k))" by (simp add: step look_set_reg_Made)
    qed
    note rest = IH(2) [OF this]
    have "passed (exec_code helper_machine code ?fr) (n + k) = x k" if "k < Suc (length args)" for k
      using rest at_n that by (cases k) auto
    with rest below show ?thesis by simp
  qed
  with app show ?case by blast
qed

lemma all_length_Cons: "(\<forall>k<length (x # xs). P k) \<longleftrightarrow> P 0 \<and> (\<forall>k<length xs. P (Suc k))"
  by (simp add: All_less_Suc2)

text \<open>The callee asks for the expressions of the parameters that it uses.\<close>

lemma parameter_expressions_fetch:
  shows "\<exists>code s'. for_each (enumerate n ts) (parameter_expression E) s = Inr ((), s') \<and>
    inserted s' (Before (entry_point (func E))) = inserted s (Before (entry_point (func E))) @ code \<and>
    next_id s \<le> next_id s' \<and>
    (\<forall>v. (\<forall>k<length ts. v \<noteq> Argument (n + k) (ts ! k)) \<longrightarrow> symbolicExpressions s' v = symbolicExpressions s v) \<and>
    (\<forall>fr :: ('e, ('e, 'b) runtime) frame.
      same_below (next_id s) fr (exec_code helper_machine code fr) \<and>
      rts (exec_code helper_machine code fr) = rts fr \<and>
      (\<forall>k<length ts. \<not> user_empty (func E) (Argument (n + k) (ts ! k)) \<longrightarrow>
        (\<exists>r. symbolicExpressions s' (Argument (n + k) (ts ! k)) = Some r \<and> older (next_id s') r \<and>
          look (exec_code helper_machine code fr) r = Expr (passed fr (n + k)))))"
proof (induction ts arbitrary: n s)
  case Nil
  then show ?case by (intro exI [of _ "[]"] exI [of _ s]) (simp add: return_build_def)
next
  case (Cons t ts)
  let ?p = "Before (entry_point (func E))"
  show ?case
  proof (cases "user_empty (func E) (Argument n t)")
    case True
    then have step: "parameter_expression E (n, t) s = Inr ((), s)"
      by (simp add: parameter_expression_def in_case_eq)
    from Cons.IH [of "Suc n" s] obtain code s' where IH:
      "for_each (enumerate (Suc n) ts) (parameter_expression E) s = Inr ((), s')"
      "inserted s' ?p = inserted s ?p @ code" "next_id s \<le> next_id s'"
      "\<forall>v. (\<forall>k<length ts. v \<noteq> Argument (Suc n + k) (ts ! k)) \<longrightarrow> symbolicExpressions s' v = symbolicExpressions s v"
      "\<And>fr :: ('e, ('e, 'b) runtime) frame. same_below (next_id s) fr (exec_code helper_machine code fr) \<and>
        rts (exec_code helper_machine code fr) = rts fr \<and>
        (\<forall>k<length ts. \<not> user_empty (func E) (Argument (Suc n + k) (ts ! k)) \<longrightarrow>
        (\<exists>r. symbolicExpressions s' (Argument (Suc n + k) (ts ! k)) = Some r \<and> older (next_id s') r \<and>
          look (exec_code helper_machine code fr) r = Expr (passed fr (Suc n + k))))" by blast
    show ?thesis
      using IH [unfolded add_Suc_shift] step True
      by (intro exI [of _ code] exI [of _ s'])
        (simp only: all_length_Cons nth_Cons_0 nth_Cons_Suc add_0_right for_each.simps enumerate_simps and_then_eq
          bind_result_simps prod.case not_True_eq_False simp_thms, blast)
  next
    case False
    let ?r = "Made (next_id s) PointerTy"
    let ?g = "Gen ?r (Call (getParameterExpression (rt E))) [const_int 8 (int n)]"
    let ?s1 = "s\<lparr>inserted := (inserted s)(?p := inserted s ?p @ [?g]), next_id := Suc (next_id s),
      symbolicExpressions := (symbolicExpressions s)(Argument n t \<mapsto> ?r)\<rparr>"
    have step: "parameter_expression E (n, t) s = Inr ((), ?s1)"
      using False
      by (simp add: parameter_expression_def build_simps createCall_def emit_def insert_code_def set_expression_def Let_def)
    from Cons.IH [of "Suc n" ?s1] obtain code s' where IH:
      "for_each (enumerate (Suc n) ts) (parameter_expression E) ?s1 = Inr ((), s')"
      "inserted s' ?p = inserted ?s1 ?p @ code" "next_id ?s1 \<le> next_id s'"
      "\<forall>v. (\<forall>k<length ts. v \<noteq> Argument (Suc n + k) (ts ! k)) \<longrightarrow> symbolicExpressions s' v = symbolicExpressions ?s1 v"
      "\<And>fr :: ('e, ('e, 'b) runtime) frame. same_below (next_id ?s1) fr (exec_code helper_machine code fr) \<and>
        rts (exec_code helper_machine code fr) = rts fr \<and>
        (\<forall>k<length ts. \<not> user_empty (func E) (Argument (Suc n + k) (ts ! k)) \<longrightarrow>
        (\<exists>r. symbolicExpressions s' (Argument (Suc n + k) (ts ! k)) = Some r \<and> older (next_id s') r \<and>
          look (exec_code helper_machine code fr) r = Expr (passed fr (Suc n + k))))" by blast
    have own: "symbolicExpressions s' (Argument n t) = Some ?r" using IH(4) by simp
    have exec_g: "exec helper_machine ?g fr = set_reg ?r (Expr (passed fr n)) fr" for fr :: "('e, ('e, 'b) runtime) frame"
      by (simp add: exec_Gen gop_value_simps helper_machine_def const_int_def word_of_int_mod_256)
    have exec: "same_below (next_id s) fr (exec_code helper_machine (?g # code) fr) \<and>
        rts (exec_code helper_machine (?g # code) fr) = rts fr \<and>
        (\<forall>k<length (t # ts). \<not> user_empty (func E) (Argument (n + k) ((t # ts) ! k)) \<longrightarrow>
        (\<exists>r. symbolicExpressions s' (Argument (n + k) ((t # ts) ! k)) = Some r \<and> older (next_id s') r \<and>
          look (exec_code helper_machine (?g # code) fr) r = Expr (passed fr (n + k))))" for fr :: "('e, ('e, 'b) runtime) frame"
    proof -
      let ?fr = "exec helper_machine ?g fr"
      note rest = IH(5) [of ?fr]
      have "same_below (next_id s) fr ?fr" unfolding exec_g by (simp add: same_below_set_reg)
      then have sb: "same_below (next_id s) fr (exec_code helper_machine code ?fr)"
        by (rule same_below_trans) (rule same_below_mono [of "next_id ?s1"], use rest in auto)
      have "look (exec_code helper_machine code ?fr) ?r = look ?fr ?r"
        using rest by (intro same_below_look [of "next_id ?s1"]) auto
      then have "look (exec_code helper_machine code ?fr) ?r = Expr (passed fr n)"
        unfolding exec_g by (simp add: look_set_reg_Made)
      moreover have "passed ?fr k = passed fr k" "rts ?fr = rts fr" for k unfolding exec_g by simp_all
      ultimately show ?thesis
        using rest [unfolded add_Suc_shift] sb own IH(3)
        by (simp only: all_length_Cons nth_Cons_0 nth_Cons_Suc add_0_right exec_code_Cons simp_thms)
          auto
    qed
    show ?thesis
      using IH(1-4) [unfolded add_Suc_shift] step exec own
      by (intro exI [of _ "?g # code"] exI [of _ s'])
        (simp only: all_length_Cons nth_Cons_0 nth_Cons_Suc add_0_right for_each.simps enumerate_simps and_then_eq
          bind_result_simps prod.case simp_thms, auto simp del: of_nat_Suc of_nat_add add_Suc_right exec_code_Cons)
  qed
qed

text \<open>C15: an instrumented call hands its arguments' expressions to an instrumented callee: when the
  callee's first instructions run on the state the caller has left, the register that the callee
  takes for the expression of its \<open>k\<close>-th parameter holds the expression of the \<open>k\<close>-th argument,
  for every parameter that is used, for up to 256 arguments (the index is one byte).
\<close>

lemma arguments_reach_callee:
  fixes fr :: "('e, ('e, 'b) runtime) frame"
  assumes s: "well_typed s" and args: "length args \<le> 256"
    "\<forall>a\<in>set args. older (next_id s) (getSymbolicExpressionOrNull s a)"
    "\<forall>k<length args. look fr (getSymbolicExpressionOrNull s (args ! k)) = Expr (x k)"
    and callee: "fname (func E') \<noteq> ''main''" "length (params (func E')) = length args"
  shows "\<exists>code s1 code' s2.
    for_each (enumerate 0 args) (set_parameter E I) s = Inr ((), s1) \<and>
    inserted s1 (here I) = inserted s (here I) @ code \<and>
    symbolizeFunctionArguments E' (initial_symbolizer seed) = Inr ((), s2) \<and>
    inserted s2 (Before (entry_point (func E'))) = code' \<and>
    (\<forall>fr'. rts fr' = rts (exec_code helper_machine code fr) \<longrightarrow>
      (\<forall>k<length args. \<not> user_empty (func E') (Argument k (params (func E') ! k)) \<longrightarrow>
        (\<exists>r. symbolicExpressions s2 (Argument k (params (func E') ! k)) = Some r \<and>
          look (exec_code helper_machine code' fr') r = Expr (x k))))"
proof -
  have "\<forall>a\<in>set args. type_of (getSymbolicExpressionOrNull s a) = PointerTy
      \<and> older (next_id s) (getSymbolicExpressionOrNull s a)"
    using args(2) type_of_expression_or_null [OF s] by simp
  from set_parameters_pass [OF this, of 0 I E x] args(1,3) obtain code s1 where
    caller: "appends (here I) (for_each (enumerate 0 args) (set_parameter E I)) s () code s1"
    "\<forall>k<length args. passed (exec_code helper_machine code fr) k = x k" by auto
  from parameter_expressions_fetch [of 0 "params (func E')" E' "initial_symbolizer seed", unfolded add_0 callee(2)]
  obtain code' s2 where
    callee': "for_each (enumerate 0 (params (func E'))) (parameter_expression E') (initial_symbolizer seed) = Inr ((), s2)"
    "inserted s2 (Before (entry_point (func E'))) =
      inserted (initial_symbolizer seed) (Before (entry_point (func E'))) @ code'"
    "\<And>fr :: ('e, ('e, 'b) runtime) frame. \<forall>k<length args. \<not> user_empty (func E') (Argument k (params (func E') ! k)) \<longrightarrow>
        (\<exists>r. symbolicExpressions s2 (Argument k (params (func E') ! k)) = Some r \<and>
          look (exec_code helper_machine code' fr) r = Expr (passed fr k))"
    by blast
  have "inserted (initial_symbolizer seed) p = []" for p by (simp add: initial_symbolizer_def)
  note inserted = callee'(2) [unfolded this append_Nil]
  have "symbolizeFunctionArguments E' (initial_symbolizer seed) = Inr ((), s2)"
    using callee(1) callee'(1) by (simp add: symbolizeFunctionArguments_def in_case_eq)
  moreover have "\<forall>k<length args. \<not> user_empty (func E') (Argument k (params (func E') ! k)) \<longrightarrow>
        (\<exists>r. symbolicExpressions s2 (Argument k (params (func E') ! k)) = Some r \<and>
          look (exec_code helper_machine code' fr') r = Expr (x k))"
    if "rts fr' = rts (exec_code helper_machine code fr)" for fr' :: "('e, ('e, 'b) runtime) frame"
    using callee'(3) [of fr'] caller(2) that by auto
  ultimately show ?thesis
    using appends_result [OF caller(1)] inserted by blast
qed

definition demo_frame :: "(string, (string, unit) runtime) frame" where
  "demo_frame = \<lparr>regs = (\<lambda>v. Expr (Some ''e'')),
     rts = \<lparr>g_return_value = None, g_function_arguments = (\<lambda>_. None), g_shadow_pages = [],
       expressionRegions = [], expr_memory = (\<lambda>_. None), memory = (\<lambda>_. 0), backend_state = ()\<rparr>,
     came_through = False\<rparr>"

definition demo_caller :: instruction where
  "demo_caller = \<lparr>iid = 5, ity = IntegerTy 32, iop = CallInst (Direct ''f'') [Argument 0 (IntegerTy 32), ConstantInt 32 1]\<rparr>"

definition demo_caller_state :: symbolizer where
  "demo_caller_state = (initial_symbolizer 1)\<lparr>symbolicExpressions := [Argument 0 (IntegerTy 32) \<mapsto> Made 0 PointerTy], next_id := 1\<rparr>"

lemma arguments_reach_callee_witness:
  "\<exists>code s1 code' s2.
    for_each (enumerate 0 [Argument 0 (IntegerTy 32), ConstantInt 32 1]) (set_parameter demo_env demo_caller) demo_caller_state
      = Inr ((), s1) \<and>
    inserted s1 (here demo_caller) = inserted demo_caller_state (here demo_caller) @ code \<and>
    symbolizeFunctionArguments demo_env (initial_symbolizer 3) = Inr ((), s2) \<and>
    inserted s2 (Before (entry_point (func demo_env))) = code' \<and>
    (\<forall>fr'. rts fr' = rts (exec_code helper_machine code demo_frame) \<longrightarrow>
      (\<forall>k<length [Argument 0 (IntegerTy 32), ConstantInt 32 1].
        \<not> user_empty (func demo_env) (Argument k (params (func demo_env) ! k)) \<longrightarrow>
        (\<exists>r. symbolicExpressions s2 (Argument k (params (func demo_env) ! k)) = Some r \<and>
          look (exec_code helper_machine code' fr') r = Expr (if k = 0 then Some ''e'' else None))))"
  by (rule arguments_reach_callee [where x = "\<lambda>k. if k = 0 then Some ''e'' else None"])
    (auto simp: demo_caller_state_def initial_symbolizer_def well_typed_def getSymbolicExpressionOrNull_def
      getSymbolicExpression_def demo_defs demo_frame_def less_Suc_eq nth_Cons')

end
