(* ===== verification/FilePosition.thy ===== *)
theory FilePosition
  imports WrapperProps
begin

text \<open>
  The input offset of the run-time library against the position of the input file, over calls of
  all wrappers that change either: on descriptors (\<open>open\<close>, \<open>read\<close>, \<open>lseek64\<close>, \<open>lseek\<close>) and on
  streams (\<open>fopen\<close>, \<open>fopen64\<close>, \<open>fread\<close>, \<open>fgets\<close>, \<open>getc\<close>, \<open>fgetc\<close>, \<open>ungetc\<close>, \<open>rewind\<close>, \<open>fseek\<close>,
  \<open>fseeko\<close>, \<open>fseeko64\<close>).
\<close>

subsection \<open>The documented behaviour of files\<close>

text \<open>
  \<open>pos fd w\<close> is the file offset of an open descriptor, as \<open>ftell\<close> reports it for a stream on it;
  \<open>moves pos fd w w' p\<close> says that it becomes \<open>p\<close> and that no other descriptor moves.
\<close>

definition others_stay :: "(int \<Rightarrow> 'w \<Rightarrow> u64) \<Rightarrow> int \<Rightarrow> 'w \<Rightarrow> 'w \<Rightarrow> bool" where
  "others_stay pos fd w w' \<longleftrightarrow> (\<forall>fd'. fd' \<noteq> fd \<longrightarrow> pos fd' w' = pos fd' w)"



text \<open>
  \<open>stream_laws\<close>: the same for the streams, with \<open>content fd\<close> the bytes of the file. A stream
  opened for reading starts at 0. Where whole items are read, or bytes, \<open>fread\<close> advances by
  their size (C leaves it open only after an item of which a part was read, and after read
  errors, which these streams do not have). If \<open>fgets\<close> returns its buffer, it has stored the \<open>k\<close>
  bytes from the position on, followed by a null byte. A character of \<open>getc\<close> is one byte, and
  pushing one back goes back by one, except at the beginning of the file. Seeking to where it is possible
  makes \<open>ftell\<close> report the new position; \<open>rewind\<close> is seeking to 0.
\<close>

definition reading_mode :: "string \<Rightarrow> bool" where
  "reading_mode mode \<longleftrightarrow> mode \<noteq> [] \<and> hd mode = CHR ''r''"









subsection \<open>Calls\<close>

text \<open>
  One call of a wrapper, or a computation of the program between two calls, which leaves the files
  alone. What the rules require: a new descriptor differs from that of the input, which is
  open; a stream on a file is opened for reading; \<open>fread\<close> is asked for bytes, or gets all it asked for
  (\<open>fread_loses_partial_item\<close> shows that the offset falls behind otherwise); \<open>fgets\<close> on the input is
  not at the end of the file (\<open>fgets_at_eof_moves_offset\<close>) and reads text without null bytes; a
  character of the input is not pushed back at its beginning; \<open>rewind\<close> can seek.
\<close>

inductive file_step ::
  "'w libc \<Rightarrow> ('e, 'b) backend \<Rightarrow> config \<Rightarrow> (int \<Rightarrow> u64 \<Rightarrow> byte) \<Rightarrow>
   ('e, 'b, 'w) program \<Rightarrow> ('e, 'b, 'w) program \<Rightarrow> bool"
  for L :: "'w libc" and B :: "('e, 'b) backend" and cfg :: config and content :: "int \<Rightarrow> u64 \<Rightarrow> byte" where
  read: "read_symbolized L B fd buf n s = Inr (r, s') \<Longrightarrow> file_step L B cfg content s s'"
| lseek64: "lseek64_symbolized L fd off whence s = (p, s') \<Longrightarrow> file_step L B cfg content s s'"
| lseek: "lseek_symbolized L fd off32 whence s = (r32, s') \<Longrightarrow> file_step L B cfg content s s'"
| open_new: "open_symbolized L cfg path oflag mode s = (fd, s') \<Longrightarrow> fd \<noteq> inputFileDescriptor s \<Longrightarrow>
    file_step L B cfg content s s'"
| fopen: "fopen_symbolized L cfg path mode s = (f, s') \<Longrightarrow>
    f \<noteq> 0 \<Longrightarrow> libc_fileno L f (world s') \<noteq> inputFileDescriptor s \<Longrightarrow> reading_mode (c_string (memory s) mode) \<Longrightarrow>
    file_step L B cfg content s s'"
| fopen64: "fopen64_symbolized L cfg path mode s = (f, s') \<Longrightarrow>
    f \<noteq> 0 \<Longrightarrow> libc_fileno L f (world s') \<noteq> inputFileDescriptor s \<Longrightarrow> reading_mode (c_string (memory s) mode) \<Longrightarrow>
    file_step L B cfg content s s'"
| fopen_fails: "fopen_symbolized L cfg path mode s = (0, s') \<Longrightarrow> file_step L B cfg content s s'"
| fopen64_fails: "fopen64_symbolized L cfg path mode s = (0, s') \<Longrightarrow> file_step L B cfg content s s'"
| fread: "fread_symbolized L B ptr sz nmemb stream s = Inr (k, s') \<Longrightarrow> k = nmemb \<or> sz \<le> 1 \<Longrightarrow>
    file_step L B cfg content s s'"
| fgets: "fgets_symbolized L B str count stream s = Inr (a, s') \<Longrightarrow>
    \<not> is_input_stream L stream s' \<or> a \<noteq> 0 \<and> (\<forall>p. content (inputFileDescriptor s) p \<noteq> 0) \<Longrightarrow>
    file_step L B cfg content s s'"
| getc: "getc_symbolized L B stream s = Inr (c, s') \<Longrightarrow> file_step L B cfg content s s'"
| fgetc: "fgetc_symbolized L B stream s = Inr (c, s') \<Longrightarrow> file_step L B cfg content s s'"
| ungetc: "ungetc_symbolized L c stream s = (c', s') \<Longrightarrow> \<not> is_input_stream L stream s' \<or> inputOffset s \<noteq> 0 \<Longrightarrow>
    file_step L B cfg content s s'"
| rewind: "rewind_symbolized L stream s = s' \<Longrightarrow> fst (libc_fseek L stream 0 SEEK_SET (world s)) \<noteq> -1 \<Longrightarrow>
    file_step L B cfg content s s'"
| fseek: "fseek_symbolized L B stream offset whence s = Inr (z, s') \<Longrightarrow> file_step L B cfg content s s'"
| fseeko: "fseeko_symbolized L B stream offset whence s = Inr (z, s') \<Longrightarrow> file_step L B cfg content s s'"
| fseeko64: "fseeko64_symbolized L B stream off whence s = Inr (z, s') \<Longrightarrow> file_step L B cfg content s s'"
| compute: "file_step L B cfg content s (s\<lparr>memory := m, g_shadow_pages := pages, expressionRegions := regions,
    expr_memory := cells, g_return_value := ret, g_function_arguments := args, backend_state := b\<rparr>)"

inductive_cases file_step_cases: "file_step L B cfg content s s'"

subsection \<open>The offset is the position\<close>

definition position_tracked :: "(int \<Rightarrow> 'w \<Rightarrow> u64) \<Rightarrow> ('e, 'b, 'w) program \<Rightarrow> bool" where
  "position_tracked pos s \<longleftrightarrow>
     0 \<le> inputFileDescriptor s \<longrightarrow> inputOffset s = pos (inputFileDescriptor s) (world s)"


lemma return_expression_frame [simp]:
  "world (sym_set_return_expression e s) = world s"
  "inputOffset (sym_set_return_expression e s) = inputOffset s"
  "inputFileDescriptor (sym_set_return_expression e s) = inputFileDescriptor s"
  "memory (sym_set_return_expression e s) = memory s"
  by (simp_all add: sym_set_return_expression_def)









lemma opened_input_world [simp]: "world (opened_input cfg path ok fd s) = world s"
  by (simp add: opened_input_def Let_def)












text \<open>A concrete C library for the witness: every file has five bytes, all of them 65; stream
  \<open>0x7000\<close> is on descriptor 0 and every other stream on descriptor 9.\<close>

definition demo_fileno :: "addr \<Rightarrow> int" where
  "demo_fileno stream = (if stream = 0x7000 then 0 else 9)"

definition demo_take :: "int \<Rightarrow> nat \<Rightarrow> (int \<Rightarrow> u64) \<Rightarrow> nat" where
  "demo_take fd n w = min n (5 - unat (w fd))"

definition demo_advance :: "int \<Rightarrow> nat \<Rightarrow> (int \<Rightarrow> u64) \<Rightarrow> int \<Rightarrow> u64" where
  "demo_advance fd k w = w(fd := w fd + of_nat k)"

definition demo_seek :: "addr \<Rightarrow> int \<Rightarrow> int \<Rightarrow> (int \<Rightarrow> u64) \<Rightarrow> int \<times> (int \<Rightarrow> u64)" where
  "demo_seek stream off whence w =
     (if whence = SEEK_SET \<and> 0 \<le> off then (0, w(demo_fileno stream := word_of_int off)) else (-1, w))"

definition demo_getc :: "addr \<Rightarrow> (int \<Rightarrow> u64) \<Rightarrow> int \<times> (int \<Rightarrow> u64)" where
  "demo_getc stream w = (if w (demo_fileno stream) < 5 then (65, demo_advance (demo_fileno stream) 1 w) else (EOF, w))"

definition demo_fd_libc :: "(int \<Rightarrow> u64) libc" where
  "demo_fd_libc = \<lparr>wrapper_address = (\<lambda>_. 0x400000),
     libc_malloc = (\<lambda>n w. (0x5000, w)),
     libc_calloc = (\<lambda>k n m w. (0x5000, m, w)),
     libc_mmap64 = (\<lambda>_ _ _ _ _ _ m w. (0x6000, m, w)),
     libc_open = (\<lambda>_ _ _ w. (5, w(5 := 0))),
     libc_read = (\<lambda>fd buf n m w. let k = demo_take fd (unat n) w
       in (int k, set_memory buf 65 k m, demo_advance fd k w)),
     libc_lseek64 = (\<lambda>fd off whence w. if whence = SEEK_SET \<and> off \<noteq> -1 then (off, w(fd := off)) else (-1, w)),
     libc_fopen = (\<lambda>_ _ w. (0x8000, w(9 := 0))),
     libc_fopen64 = (\<lambda>_ _ w. (0x8000, w(9 := 0))),
     libc_fileno = (\<lambda>stream _. demo_fileno stream),
     libc_fread = (\<lambda>ptr sz nmemb stream m w. let k = demo_take (demo_fileno stream) (unat sz * unat nmemb) w
       in (of_nat (k div unat sz), set_memory ptr 65 k m, demo_advance (demo_fileno stream) k w)),
     libc_fgets = (\<lambda>str n stream m w. let k = demo_take (demo_fileno stream) (nat n - 1) w
       in if k = 0 then (0, m, w)
          else (str, (set_memory str 65 k m)(str + of_nat k := 0), demo_advance (demo_fileno stream) k w)),
     libc_rewind = (\<lambda>stream w. w(demo_fileno stream := 0)),
     libc_fseek = demo_seek,
     libc_ftell = (\<lambda>stream w. (uint (w (demo_fileno stream)), w)),
     libc_fseeko = demo_seek,
     libc_ftello = (\<lambda>stream w. (uint (w (demo_fileno stream)), w)),
     libc_fseeko64 = (\<lambda>stream off. demo_seek stream (uint off)),
     libc_ftello64 = (\<lambda>stream w. (uint (w (demo_fileno stream)), w)),
     libc_getc = demo_getc,
     libc_fgetc = demo_getc,
     libc_ungetc = (\<lambda>c stream w. if c = EOF \<or> w (demo_fileno stream) = 0 then (EOF, w)
       else (c, w(demo_fileno stream := w (demo_fileno stream) - 1))),
     libc_memcmp = (\<lambda>xs ys. if xs = ys then 0 else 1)\<rparr>"


lemma demo_advance_moves [simp]:
  "demo_advance fd k w fd = w fd + of_nat k" "others_stay (\<lambda>fd w. w fd) fd w (demo_advance fd k w)"
  by (simp_all add: demo_advance_def others_stay_def)

lemma others_stay_upd [simp]:
  "others_stay (\<lambda>fd w. w fd) fd w (w(fd := p))" "others_stay (\<lambda>fd w. w fd) fd w w"
  by (simp_all add: others_stay_def)





definition demo_fd_program :: "(demo_term, (demo_term, nat, demo_term list list) simple_state, int \<Rightarrow> u64) program" where
  "demo_fd_program = \<lparr>g_return_value = None, g_function_arguments = (\<lambda>_. None), g_shadow_pages = [],
     expressionRegions = [], expr_memory = (\<lambda>_. None), memory = (\<lambda>_. 0), backend_state = demo_state,
     inputFileDescriptor = 0, inputOffset = 0, errno = 0, warnings = [], world = (\<lambda>_. 0)\<rparr>"


subsection \<open>Items read in part\<close>

text \<open>A call that returns has got an expression for every byte.\<close>

lemma generate_input_reads:
  "generate_input B it (address it + of_nat n) offset pages b = Inr (offset', pages', b') \<Longrightarrow> n < 2 ^ 64 \<Longrightarrow>
   \<exists>es. input_exprs B offset n b = Inr (es, b')"
proof (induction n arbitrary: offset it pages b)
  case 0
  then show ?case by (simp add: generate_input.simps [of _ it])
next
  case (Suc n)
  have "address it \<noteq> address it + of_nat (Suc n)" by (rule region_end_neq [OF Suc.prems(2)])
  then obtain e b1 where e: "sym_get_input_byte B offset b = Inr (e, b1)" and
    "generate_input B (fst (write_increment (write_deref_assign pages it e) it))
       (address (fst (write_increment (write_deref_assign pages it e) it)) + of_nat n) (offset + 1)
       (snd (write_increment (write_deref_assign pages it e) it)) b1 = Inr (offset', pages', b')"
    using Suc.prems(1) by (subst (asm) generate_input.simps) (auto simp: bind_result_eq_Inr Let_def add.assoc)
  from Suc.IH [OF this(2)] Suc.prems(2) e show ?case by fastforce
qed

lemma filled_buffer_elsewhere:
  assumes "filled_buffer B True buf n s = Inr s'" "\<not> in_region buf (unat n) c"
  shows "shadow_at (g_shadow_pages s') c = shadow_at (g_shadow_pages s) c"
proof -
  obtain first pages1 where 1: "WriteShadowIterator (g_shadow_pages s) buf = (first, pages1)" by force
  obtain stop pages2 where 2: "WriteShadowIterator pages1 (buf + n) = (stop, pages2)" by force
  obtain offset pages3 b where
    g: "generate_input B first (address stop) (inputOffset s) pages2 (backend_state s) = Inr (offset, pages3, b)"
    using assms 1 2 by (auto simp: filled_buffer_def bind_result_eq_Inr)
  have "address stop = address first + of_nat (unat n)"
    using address_WriteShadowIterator [of "g_shadow_pages s" buf] address_WriteShadowIterator [of pages1 "buf + n"] 1 2
    by simp
  with g have "generate_input B first (address first + of_nat (unat n)) (inputOffset s) pages2 (backend_state s) =
      Inr (offset, pages3, b)" by simp
  from generate_input_reads [OF this unat_addr_less] obtain es where
    "input_exprs B (inputOffset s) (unat n) (backend_state s) = Inr (es, b)" by blast
  from filled_buffer_input [OF this, of buf] assms show ?thesis by auto
qed

text \<open>C40: An \<open>fread\<close> of the input that reaches the end of the file within an item of several bytes
  consumes the bytes of that item, but the wrapper counts whole items only: its
  offset falls behind the position of the file by the \<open>k\<close> bytes of the part, and the shadow
  of those bytes in the buffer is what it was before, an expression of their old contents included.\<close>

lemma fread_loses_partial_item:
  assumes "position_tracked pos s" "0 \<le> inputFileDescriptor s"
    and "\<forall>i \<in> {0, 1, 2}. sym_get_parameter_expression i s = None"
    and "libc_fread L ptr sz nmemb stream (memory s) (world s) = (r, m, w)"
    and "libc_fileno L stream w = inputFileDescriptor s"
    and "pos (inputFileDescriptor s) w = pos (inputFileDescriptor s) (world s) + r * sz + k"
    and "unat r * unat sz + unat k < 2 ^ 64" "0 < k"
    and "fread_symbolized L B ptr sz nmemb stream s = Inr (r', s')"
  shows "r' = r \<and> inputOffset s' + k = pos (inputFileDescriptor s') (world s') \<and> \<not> position_tracked pos s' \<and>
    (\<forall>i < unat k. shadow_at (g_shadow_pages s') (ptr + r * sz + of_nat i) =
      shadow_at (g_shadow_pages s) (ptr + r * sz + of_nat i))"
proof -
  have alt: "alternatives B (wrapper_address L ''fread'') [(0, ptr, 8), (1, sz, 8), (2, nmemb, 8)] s = Inr s"
    by (rule alternatives_concrete) (use assms(3) in simp)
  let ?s2 = "sym_set_return_expression None (s\<lparr>memory := m, world := w\<rparr>)"
  have r: "r' = r" and f: "filled_buffer B True ptr (r * sz) ?s2 = Inr s'"
    using assms(4,5,9) alt
    by (auto simp: fread_symbolized_def Let_def bind_result_eq_Inr is_input_stream_def simp del: alternatives_Cons)
  note off = filled_buffer_offset [OF f]
  then have o: "inputOffset s' + k = pos (inputFileDescriptor s') (world s')"
    using assms(1,2,6) by (simp add: position_tracked_def)
  moreover have "\<not> position_tracked pos s'"
    using o off assms(2,8) by (simp add: position_tracked_def) (metis add_cancel_right_right less_irrefl)
  moreover have "shadow_at (g_shadow_pages s') (ptr + r * sz + of_nat i) =
      shadow_at (g_shadow_pages s) (ptr + r * sz + of_nat i)" if "i < unat k" for i
  proof -
    have n: "unat (r * sz) = unat r * unat sz"
      using assms(7) by (simp add: unat_mult_lem [THEN iffD1])
    have i: "unat (of_nat i :: addr) = i" using that unat_addr_less [of k] by (simp add: unat_of_nat_small)
    have "unat (r * sz + of_nat i) = unat (r * sz) + i"
      using assms(7) that n i unat_add_lem [of "r * sz" "of_nat i"] by simp
    then have "\<not> in_region ptr (unat (r * sz)) (ptr + r * sz + of_nat i)"
      by (simp add: in_region_def add.assoc)
    with filled_buffer_elsewhere [OF f] show ?thesis by (simp add: sym_set_return_expression_def)
  qed
  ultimately show ?thesis using r by blast
qed

text \<open>Two items of four bytes from a file of five: the fifth byte is lost.\<close>

lemma fread_loses_partial_item_witness:
  "\<exists>s'. fread_symbolized demo_fd_libc (simple_backend demo_z3) 0x2000 4 2 0x7000 demo_fd_program = Inr (1, s') \<and>
    inputOffset s' + 1 = world s' (inputFileDescriptor s')"
proof -
  have f: "libc_fread demo_fd_libc 0x2000 4 2 0x7000 (memory demo_fd_program) (world demo_fd_program) =
      (1, set_memory 0x2000 65 5 (\<lambda>_. 0), (\<lambda>_. 0)(0 := 5))"
    by (simp add: demo_fd_libc_def demo_fd_program_def demo_take_def demo_advance_def demo_fileno_def Let_def)
  obtain es b' where es: "input_exprs (simple_backend demo_z3) 0 4 demo_state = Inr (es, b')"
    using demo_input_exprs by blast
  let ?s2 = "sym_set_return_expression None (demo_fd_program\<lparr>memory := set_memory 0x2000 65 5 (\<lambda>_. 0),
    world := (\<lambda>_. 0)(0 := 5)\<rparr>)"
  have "input_exprs (simple_backend demo_z3) (inputOffset ?s2) (unat (4 :: addr)) (backend_state ?s2) = Inr (es, b')"
    using es by (simp add: demo_fd_program_def sym_set_return_expression_def)
  from filled_buffer_input [OF this, of "0x2000"] obtain s' where
    s': "filled_buffer (simple_backend demo_z3) True 0x2000 4 ?s2 = Inr s'" by blast
  have fd: "libc_fileno demo_fd_libc 0x7000 w = 0" for w
    by (simp add: demo_fd_libc_def demo_fileno_def)
  have args: "sym_get_parameter_expression i demo_fd_program = None" for i
    by (simp add: sym_get_parameter_expression_def demo_fd_program_def)
  have start: "inputFileDescriptor demo_fd_program = 0" "inputOffset demo_fd_program = 0"
    "world demo_fd_program = (\<lambda>_. 0)"
    by (simp_all add: demo_fd_program_def)
  have run: "fread_symbolized demo_fd_libc (simple_backend demo_z3) 0x2000 4 2 0x7000 demo_fd_program = Inr (1, s')"
    using f s' by (simp add: fread_symbolized_def tryAlternative_def args Let_def is_input_stream_def fd start)
  have "position_tracked (\<lambda>fd w. w fd) demo_fd_program" by (simp add: position_tracked_def start)
  from fread_loses_partial_item [OF this _ _ f _ _ _ _ run, of 1] run show ?thesis
    by (simp add: args fd start)
qed

end
