(* ===== verification/PureConcolic.thy ===== *)
theory PureConcolic
  imports StdMap CText
begin

text \<open>
  The "pure concolic" mode of runtime/qsym_backend/Runtime.cpp: block counters and branch
  memories that are kept in files of the working directory between runs, and the decision
  whether the solver may save an input for a branch. \<open>concolic\<close> holds the globals of that
  mode and the working directory (\<open>files\<close>, from names to contents; writing a file
  succeeds). Diagnostics on standard error are left out.
\<close>

record concolic =
  counter_map :: "(u32, u32) std_map"
  old_counter_map :: "(u32, u32) std_map"
  takens_0 :: "u32 list"
  takens_1 :: "u32 list"
  curr_trace_map :: u32
  trace_maps :: "u32 list"
  previosuly_blocked_a_save :: bool
  just_visited_bb :: u32
  site_ids :: "addr list"
  map_initialsed :: bool
  prev_blocks_initialised :: bool
  tracemaps_initialised :: bool
  dtor_done :: bool
  files :: "string \<Rightarrow> string option"

subsection \<open>Files of numbers\<close>

text \<open>The lines \<open>std::getline\<close> delivers (none when the file cannot be opened) and the
  conversion \<open>(uint32_t)atol(line.c_str())\<close>.\<close>

definition lines_of_file :: "(string \<Rightarrow> string option) \<Rightarrow> string \<Rightarrow> string list" where
  "lines_of_file fs name = (case fs name of None \<Rightarrow> [] | Some content \<Rightarrow> file_lines content)"

definition line_number :: "string \<Rightarrow> u32" where
  "line_number line = word_of_int (atol line)"

definition read_numbers :: "(string \<Rightarrow> string option) \<Rightarrow> string \<Rightarrow> u32 list" where
  "read_numbers fs name = map line_number (lines_of_file fs name)"

text \<open>Counters: an identifier and its count on alternate lines; \<open>first\<close> and \<open>cb_id\<close> are the
  variables of the loop.\<close>

fun read_counters ::
  "nat \<Rightarrow> u32 \<Rightarrow> string list \<Rightarrow> (u32, u32) std_map \<Rightarrow> (u32, u32) std_map" where
  "read_counters first cb_id [] m = m"
| "read_counters first cb_id (line # rest) m =
     (if first = 0 then read_counters (first + 1) (line_number line) rest m
      else read_counters 0 0 rest (map_set m cb_id (line_number line)))"

definition write_numbers :: "u32 list \<Rightarrow> string" where
  "write_numbers xs = concat (map (\<lambda>x. to_string (unat x) @ [CHR 0x0A]) xs)"

definition write_counters :: "(u32, u32) std_map \<Rightarrow> string" where
  "write_counters m =
     concat (map (\<lambda>(k, v). to_string (unat k) @ [CHR 0x0A] @ to_string (unat v) @ [CHR 0x0A]) m)"

subsection \<open>The decision to save\<close>

definition load_counters :: "'x concolic_scheme \<Rightarrow> 'x concolic_scheme" where
  "load_counters c =
     (if map_initialsed c then c
      else c\<lparr>old_counter_map :=
               read_counters 0 0 (lines_of_file (files c) ''corpus_counters.stats'') (old_counter_map c),
             map_initialsed := True\<rparr>)"

definition load_trace_maps :: "'x concolic_scheme \<Rightarrow> 'x concolic_scheme" where
  "load_trace_maps c =
     (if tracemaps_initialised c then c
      else c\<lparr>trace_maps := trace_maps c @ read_numbers (files c) ''trace_maps.txt'',
             tracemaps_initialised := True\<rparr>)"

definition load_prev_blocks :: "'x concolic_scheme \<Rightarrow> 'x concolic_scheme" where
  "load_prev_blocks c =
     (if prev_blocks_initialised c then c
      else c\<lparr>takens_0 := takens_0 c @ read_numbers (files c) ''prev_0s.txt'',
             takens_1 := takens_1 c @ read_numbers (files c) ''prev_1s.txt'',
             prev_blocks_initialised := True\<rparr>)"

definition load_corpus :: "'x concolic_scheme \<Rightarrow> 'x concolic_scheme" where
  "load_corpus c = load_prev_blocks (load_trace_maps (load_counters c))"

text \<open>The loop over the counters, left at the first one that is new or larger.\<close>

fun counters_improved :: "(u32, u32) std_map \<Rightarrow> (u32, u32) std_map \<Rightarrow> bool" where
  "counters_improved old [] = False"
| "counters_improved old ((k, v) # new) =
     (case map_find old k of
        None \<Rightarrow> True
      | Some v' \<Rightarrow> if v' < v then True else counters_improved old new)"

text \<open>Whether a number is missing from a vector, and the vector with it.\<close>

definition remember :: "u32 \<Rightarrow> u32 list \<Rightarrow> bool \<times> u32 list" where
  "remember x xs = (let found_target = (x \<in> set xs) in (\<not> found_target, if found_target then xs else xs @ [x]))"

definition remember_branch :: "u32 \<Rightarrow> u32 \<Rightarrow> u32 list \<Rightarrow> bool \<times> u32 list" where
  "remember_branch bb tmap takens =
     (let (n1, takens1) = remember bb takens; (n2, takens2) = remember tmap takens1 in (n1 \<or> n2, takens2))"

text \<open>Sites that were saved before are always saved; a refused save is remembered.\<close>

definition allow_known_site :: "addr \<Rightarrow> bool \<Rightarrow> 'x concolic_scheme \<Rightarrow> bool \<times> 'x concolic_scheme" where
  "allow_known_site site_id should_save c2 =
     (let should_save' = (should_save \<or> site_id \<in> set (site_ids c2));
          c3 = (if should_save' then c2\<lparr>site_ids := site_ids c2 @ [site_id]\<rparr> else c2)
      in (should_save', c3\<lparr>previosuly_blocked_a_save := \<not> should_save'\<rparr>))"

definition pure_concolic_should_save ::
  "bool \<Rightarrow> addr \<Rightarrow> 'x concolic_scheme \<Rightarrow> bool \<times> 'x concolic_scheme" where
  "pure_concolic_should_save taken site_id c0 =
     (let c = load_corpus c0;
          improved = counters_improved (old_counter_map c) (counter_map c);
          (should_save2, c1) =
            (if \<not> taken
             then let (n, t) = remember_branch (just_visited_bb c) (curr_trace_map c) (takens_0 c)
               in (n, c\<lparr>takens_0 := t\<rparr>)
             else let (n, t) = remember_branch (just_visited_bb c) (curr_trace_map c) (takens_1 c)
               in (n, c\<lparr>takens_1 := t\<rparr>));
          (should_save3, tmaps) = remember (curr_trace_map c1) (trace_maps c1);
          c2 = c1\<lparr>trace_maps := tmaps\<rparr>;
          should_save = improved \<or> should_save2 \<or> should_save3
      in allow_known_site site_id should_save c2)"

subsection \<open>The end of a run\<close>

definition merge_counter :: "u32 \<Rightarrow> u32 \<Rightarrow> (u32, u32) std_map \<Rightarrow> (u32, u32) std_map" where
  "merge_counter k v old =
     (let old1 = (if map_find old k = None then map_set old k v else old)
      in case map_find old1 k of
           Some v' \<Rightarrow> if v' < v then map_set old1 k v else old1
         | None \<Rightarrow> old1)"

fun merge_counters :: "(u32, u32) std_map \<Rightarrow> (u32, u32) std_map \<Rightarrow> (u32, u32) std_map" where
  "merge_counters old [] = old"
| "merge_counters old ((k, v) # new) = merge_counters (merge_counter k v old) new"

text \<open>\<open>__dtor_runtime\<close> in pure concolic mode. The result tells whether it ends the process;
  repeated calls return.\<close>

definition dtor_pure_concolic :: "'x concolic_scheme \<Rightarrow> bool \<times> 'x concolic_scheme" where
  "dtor_pure_concolic c =
     (if dtor_done c then (False, c)
      else let old = merge_counters (old_counter_map c) (counter_map c)
        in (True, c\<lparr>dtor_done := True, old_counter_map := old,
                    files := (files c)
                      (''corpus_counters.stats'' \<mapsto> write_counters old,
                       ''prev_0s.txt'' \<mapsto> write_numbers (takens_0 c),
                       ''prev_1s.txt'' \<mapsto> write_numbers (takens_1 c),
                       ''trace_maps.txt'' \<mapsto> write_numbers (trace_maps c))\<rparr>))"

subsection \<open>The coverage callback\<close>

text \<open>The counters at a visit of block \<open>cb_id\<close>, up to the call of the solver.\<close>

definition count_block :: "u32 \<Rightarrow> 'x concolic_scheme \<Rightarrow> 'x concolic_scheme" where
  "count_block cb_id c =
     (case map_find (counter_map c) cb_id of
        None \<Rightarrow> c\<lparr>counter_map := map_set (counter_map c) cb_id 1, curr_trace_map := curr_trace_map c + cb_id\<rparr>
      | Some v \<Rightarrow> c\<lparr>counter_map := map_set (counter_map c) cb_id (v + 1)\<rparr>)"

text \<open>The state of these globals when a process starts, with the files it finds.\<close>

definition fresh_process :: "(string \<Rightarrow> string option) \<Rightarrow> concolic" where
  "fresh_process fs =
     \<lparr>counter_map = [], old_counter_map = [], takens_0 = [], takens_1 = [], curr_trace_map = 0,
      trace_maps = [], previosuly_blocked_a_save = False, just_visited_bb = 0, site_ids = [],
      map_initialsed = False, prev_blocks_initialised = False, tracemaps_initialised = False,
      dtor_done = False, files = fs\<rparr>"

subsection \<open>Files and what they hold\<close>

named_theorems corpus_simps "what the corpus files hold and how it is read back"

lemma line_number_to_string [simp, corpus_simps]: "line_number (to_string (unat (x :: u32))) = x"
proof -
  have "unat x < 2 ^ LENGTH(32)" by (rule unsigned_less)
  then have "unat x < 2 ^ 63" by (rule order.strict_trans) simp
  then show ?thesis by (simp add: line_number_def atol_to_string)
qed

lemma no_newline_to_string [simp]: "CHR 0x0A \<notin> set (to_string n)"
  using to_string_digits [of n] by blast

lemma lines_of_numbers [corpus_simps]:
  "file_lines (write_numbers xs) = map (\<lambda>x. to_string (unat x)) xs"
proof -
  have "write_numbers xs = concat (map (\<lambda>l. l @ [CHR 0x0A]) (map (\<lambda>x. to_string (unat x)) xs))"
    by (simp add: write_numbers_def comp_def)
  then show ?thesis by (simp only:) (rule file_lines_concat, simp)
qed

lemma read_write_numbers [corpus_simps]:
  "fs name = Some (write_numbers xs) \<Longrightarrow> read_numbers fs name = xs"
  by (simp add: read_numbers_def lines_of_file_def lines_of_numbers comp_def)

fun counter_lines :: "(u32, u32) std_map \<Rightarrow> string list" where
  "counter_lines [] = []"
| "counter_lines ((k, v) # m) = to_string (unat k) # to_string (unat v) # counter_lines m"

lemma lines_of_counters [corpus_simps]: "file_lines (write_counters m) = counter_lines m"
proof -
  have "write_counters m = concat (map (\<lambda>l. l @ [CHR 0x0A]) (counter_lines m))"
    by (induction m rule: counter_lines.induct) (auto simp: write_counters_def)
  moreover have "\<forall>l \<in> set (counter_lines m). CHR 0x0A \<notin> set l"
    by (induction m rule: counter_lines.induct) auto
  ultimately show ?thesis by (simp add: file_lines_concat)
qed

lemma read_counter_lines:
  "read_counters 0 0 (counter_lines new) m = fold (\<lambda>(k, v) m. map_set m k v) new m"
  by (induction new arbitrary: m rule: counter_lines.induct) auto

lemma read_write_counters [corpus_simps]:
  assumes "map_wf m"
  shows "read_counters 0 0 (file_lines (write_counters m)) [] = m"
proof -
  have "distinct (map fst m)" using assms by (simp add: map_wf_def strict_sorted_iff)
  then have "map_find (fold (\<lambda>(k, v) m. map_set m k v) m []) k = map_find m k" for k
    by (subst sorted_map.lookup_fold_distinct) (auto simp: map_find_def split: option.splits)
  moreover have "map_wf (fold (\<lambda>(k, v) m. map_set m k v) m [])"
    by (rule sorted_map.invar_fold) simp
  ultimately show ?thesis
    using assms by (auto simp: lines_of_counters read_counter_lines intro!: map_wf_ext)
qed

lemma map_wf_read_counters [simp, intro]:
  "map_wf m \<Longrightarrow> map_wf (read_counters first cb_id ls m)"
  by (induction first cb_id ls m rule: read_counters.induct) auto

subsection \<open>Merging keeps the larger count\<close>

text \<open>The order of counters: no entry is below every entry.\<close>

definition larger_count :: "u32 option \<Rightarrow> u32 option \<Rightarrow> u32 option" where
  "larger_count a b =
     (case a of None \<Rightarrow> b | Some x \<Rightarrow> (case b of None \<Rightarrow> Some x | Some y \<Rightarrow> Some (max x y)))"

lemma larger_count_simps [simp]:
  "larger_count None b = b" "larger_count a None = a" "larger_count (Some x) (Some y) = Some (max x y)"
  by (simp_all add: larger_count_def split: option.split)

lemma larger_count_laws:
  "larger_count a a = a" "larger_count a b = larger_count b a"
  "larger_count (larger_count a b) c = larger_count a (larger_count b c)"
  by (simp_all add: larger_count_def max.commute max.assoc max.left_commute split: option.split)

lemma map_find_merge_counter [simp]:
  "map_find (merge_counter k v old) k' =
     (if k' = k then larger_count (map_find old k) (Some v) else map_find old k')"
  by (cases "map_find old k") (auto simp: merge_counter_def max_def)

lemma map_wf_merge_counter [simp, intro]: "map_wf old \<Longrightarrow> map_wf (merge_counter k v old)"
  by (cases "map_find old k") (auto simp: merge_counter_def)

lemma map_wf_merge [simp, intro]: "map_wf old \<Longrightarrow> map_wf (merge_counters old new)"
  by (induction old new rule: merge_counters.induct) simp_all

lemma map_find_merge:
  assumes "map_wf new"
  shows "map_find (merge_counters old new) k = larger_count (map_find old k) (map_find new k)"
  using assms
proof (induction old new rule: merge_counters.induct)
  case (2 old k' v new)
  have "map_find new k' = None" using "2.prems" by (auto simp: map_dom_find dom_def)
  moreover have "map_find ((k', v) # new) k = (if k = k' then Some v else map_find new k)"
    by (simp add: map_find_def)
  ultimately show ?case using "2.IH" "2.prems" by auto
qed simp

lemma counters_improved_iff:
  "counters_improved old new \<longleftrightarrow> (\<exists>(k, v) \<in> set new. larger_count (map_find old k) (Some v) \<noteq> map_find old k)"
  by (induction old new rule: counters_improved.induct)
    (auto simp: max_def split: option.splits)

end
