(* ===== verification/Qsym.thy ===== *)
theory Qsym
  imports LibcWrappers PureConcolic
begin

text \<open>
  runtime/qsym_backend/Runtime.cpp: the backend on top of QSYM. QSYM is a git submodule: the
  record \<open>qsym\<close> holds the parts of it that the code calls, with raw pointers \<open>'e\<close>
  (\<open>Expr*\<close>, an identity that is not used again for another expression), shared pointers
  \<open>'r\<close> (\<open>ExprRef\<close>), the expression builder \<open>'q\<close>, the solver \<open>'s\<close>, its formulas \<open>'z\<close> and
  the call-stack manager \<open>'c\<close>. The record \<open>qsym_state\<close> has the globals of the file; it
  extends those of the pure concolic mode.
\<close>

subsection \<open>The interface of QSYM\<close>

datatype qsym_operation =
  CreateAdd | CreateSub | CreateMul | CreateUDiv | CreateSDiv | CreateURem | CreateSRem
| CreateShl | CreateLShr | CreateAShr | CreateSlt | CreateSle | CreateSgt | CreateSge
| CreateUlt | CreateUle | CreateUgt | CreateUge | CreateEqual | CreateDistinct
| CreateLAnd | CreateAnd | CreateLOr | CreateOr | CreateXor | CreateConcat

datatype qsym_verdict = Sat | Unsat | Unknown

record ('e, 'r, 'q, 's, 'z, 'c) qsym =
  expr_get :: "'r \<Rightarrow> 'e"
  expr_bits :: "'e \<Rightarrow> u32"
  expr_toString :: "'e \<Rightarrow> string"
  expr_simplify :: "'e \<Rightarrow> 'q \<Rightarrow> 'q"
  expr_toZ3Expr :: "'e \<Rightarrow> 'q \<Rightarrow> 'z \<times> 'q"
  pruneExprBuilder_create :: 'q
  symbolicExprBuilder_create :: 'q
  createConstant :: "u64 \<Rightarrow> u32 \<Rightarrow> 'q \<Rightarrow> 'r \<times> 'q"
  createConstantAPInt :: "nat \<Rightarrow> u64 list \<Rightarrow> u32 \<Rightarrow> 'q \<Rightarrow> 'r \<times> 'q"
  createTrue :: "'q \<Rightarrow> 'r \<times> 'q"
  createFalse :: "'q \<Rightarrow> 'r \<times> 'q"
  createBool :: "bool \<Rightarrow> 'q \<Rightarrow> 'r \<times> 'q"
  createBinary :: "qsym_operation \<Rightarrow> 'r \<Rightarrow> 'r \<Rightarrow> 'q \<Rightarrow> 'r \<times> 'q"
  createNeg :: "'r \<Rightarrow> 'q \<Rightarrow> 'r \<times> 'q"
  createNot :: "'r \<Rightarrow> 'q \<Rightarrow> 'r \<times> 'q"
  createSExt :: "'r \<Rightarrow> u32 \<Rightarrow> 'q \<Rightarrow> 'r \<times> 'q"
  createZExt :: "'r \<Rightarrow> u32 \<Rightarrow> 'q \<Rightarrow> 'r \<times> 'q"
  createTrunc :: "'r \<Rightarrow> u32 \<Rightarrow> 'q \<Rightarrow> 'r \<times> 'q"
  createExtract :: "'r \<Rightarrow> u32 \<Rightarrow> u32 \<Rightarrow> 'q \<Rightarrow> 'r \<times> 'q"
  createRead :: "addr \<Rightarrow> 'q \<Rightarrow> 'r \<times> 'q"
  boolToBit :: "'r \<Rightarrow> u32 \<Rightarrow> 'q \<Rightarrow> 'r \<times> 'q"
  new_solver :: "string \<Rightarrow> string \<Rightarrow> string \<Rightarrow> 's"
  solver_setTimeout :: "u32 \<Rightarrow> 's \<Rightarrow> 's"
  solver_addJcc :: "'r \<Rightarrow> bool \<Rightarrow> addr \<Rightarrow> bool \<Rightarrow> 's \<Rightarrow> 's"
  solver_checkAndSave :: "string \<Rightarrow> 's \<Rightarrow> 's"
  solver_push :: "'s \<Rightarrow> 's"
  solver_add :: "'z \<Rightarrow> 's \<Rightarrow> 's"
  solver_check :: "'s \<Rightarrow> qsym_verdict \<times> 's"
  solver_pop :: "'s \<Rightarrow> 's"
  visitCall :: "addr \<Rightarrow> 'c \<Rightarrow> 'c"
  visitRet :: "addr \<Rightarrow> 'c \<Rightarrow> 'c"
  visitBasicBlock :: "addr \<Rightarrow> 'c \<Rightarrow> 'c"

record ('e, 'r, 'q, 's, 'c) qsym_state = concolic +
  allocatedExprRefs :: "('e, 'r) std_map"
  g_expr_builder :: "'q option"
  qsym_solver :: "'s option"
  g_call_stack_manager :: 'c
  g_initialized :: bool
  inputFileName :: string
  standard_input :: string
  atexit_handlers :: "string list"

subsection \<open>Registered expressions\<close>

definition qsym_registerExpression ::
  "('e::linorder, 'r, 'q, 's, 'z, 'c) qsym \<Rightarrow> 'r \<Rightarrow> ('e, 'r, 'q, 's, 'c) qsym_state \<Rightarrow>
   'e \<times> ('e, 'r, 'q, 's, 'c) qsym_state" where
  "qsym_registerExpression Q expr st =
     (let rawExpr = expr_get Q expr
      in (rawExpr,
          if map_count (allocatedExprRefs st) rawExpr = 0
          then st\<lparr>allocatedExprRefs := map_set (allocatedExprRefs st) rawExpr expr\<rparr>
          else st))"

text \<open>A call of a method of the builder, whose result is registered.\<close>

definition qsym_create ::
  "('e::linorder, 'r, 'q, 's, 'z, 'c) qsym \<Rightarrow> ('q \<Rightarrow> 'r \<times> 'q) \<Rightarrow> ('e, 'r, 'q, 's, 'c) qsym_state \<Rightarrow>
   ('e \<times> ('e, 'r, 'q, 's, 'c) qsym_state) result" where
  "qsym_create Q create st =
     bind_result (global (g_expr_builder st)) (\<lambda>q.
       let (expr, q') = create q
       in Inr (qsym_registerExpression Q expr (st\<lparr>g_expr_builder := Some q'\<rparr>)))"

text \<open>The same with the shared pointers of operands, \<open>allocatedExpressions.at\<close>.\<close>

definition qsym_create1 ::
  "('e::linorder, 'r, 'q, 's, 'z, 'c) qsym \<Rightarrow> ('r \<Rightarrow> 'q \<Rightarrow> 'r \<times> 'q) \<Rightarrow> 'e \<Rightarrow>
   ('e, 'r, 'q, 's, 'c) qsym_state \<Rightarrow> ('e \<times> ('e, 'r, 'q, 's, 'c) qsym_state) result" where
  "qsym_create1 Q create a st =
     bind_result (map_at (allocatedExprRefs st) a) (\<lambda>ra. qsym_create Q (create ra) st)"

definition qsym_create2 ::
  "('e::linorder, 'r, 'q, 's, 'z, 'c) qsym \<Rightarrow> ('r \<Rightarrow> 'r \<Rightarrow> 'q \<Rightarrow> 'r \<times> 'q) \<Rightarrow> 'e \<Rightarrow> 'e \<Rightarrow>
   ('e, 'r, 'q, 's, 'c) qsym_state \<Rightarrow> ('e \<times> ('e, 'r, 'q, 's, 'c) qsym_state) result" where
  "qsym_create2 Q create a b st =
     bind_result (map_at (allocatedExprRefs st) a) (\<lambda>ra.
     bind_result (map_at (allocatedExprRefs st) b) (\<lambda>rb. qsym_create Q (create ra rb) st))"

subsection \<open>Builders\<close>

definition qsym_build_integer ::
  "('e::linorder, 'r, 'q, 's, 'z, 'c) qsym \<Rightarrow> u64 \<Rightarrow> byte \<Rightarrow> ('e, 'r, 'q, 's, 'c) qsym_state \<Rightarrow>
   ('e \<times> ('e, 'r, 'q, 's, 'c) qsym_state) result" where
  "qsym_build_integer Q v bits = qsym_create Q (createConstant Q v (ucast bits))"

definition qsym_build_integer128 ::
  "('e::linorder, 'r, 'q, 's, 'z, 'c) qsym \<Rightarrow> u64 \<Rightarrow> u64 \<Rightarrow> ('e, 'r, 'q, 's, 'c) qsym_state \<Rightarrow>
   ('e \<times> ('e, 'r, 'q, 's, 'c) qsym_state) result" where
  "qsym_build_integer128 Q high low = qsym_create Q (createConstantAPInt Q 128 [low, high] 128)"

definition qsym_build_null_pointer ::
  "('e::linorder, 'r, 'q, 's, 'z, 'c) qsym \<Rightarrow> ('e, 'r, 'q, 's, 'c) qsym_state \<Rightarrow>
   ('e \<times> ('e, 'r, 'q, 's, 'c) qsym_state) result" where
  "qsym_build_null_pointer Q = qsym_create Q (createConstant Q 0 (8 * 8))"

definition qsym_build_true ::
  "('e::linorder, 'r, 'q, 's, 'z, 'c) qsym \<Rightarrow> ('e, 'r, 'q, 's, 'c) qsym_state \<Rightarrow>
   ('e \<times> ('e, 'r, 'q, 's, 'c) qsym_state) result" where
  "qsym_build_true Q = qsym_create Q (createTrue Q)"

definition qsym_build_false ::
  "('e::linorder, 'r, 'q, 's, 'z, 'c) qsym \<Rightarrow> ('e, 'r, 'q, 's, 'c) qsym_state \<Rightarrow>
   ('e \<times> ('e, 'r, 'q, 's, 'c) qsym_state) result" where
  "qsym_build_false Q = qsym_create Q (createFalse Q)"

definition qsym_build_bool ::
  "('e::linorder, 'r, 'q, 's, 'z, 'c) qsym \<Rightarrow> bool \<Rightarrow> ('e, 'r, 'q, 's, 'c) qsym_state \<Rightarrow>
   ('e \<times> ('e, 'r, 'q, 's, 'c) qsym_state) result" where
  "qsym_build_bool Q v = qsym_create Q (createBool Q v)"

text \<open>The functions of the macro \<open>DEF_BINARY_EXPR_BUILDER\<close> and the operation each creates.\<close>

datatype qsym_binary_builder =
  Qsym_add | Qsym_sub | Qsym_mul | Qsym_unsigned_div | Qsym_signed_div | Qsym_unsigned_rem
| Qsym_signed_rem | Qsym_shift_left | Qsym_logical_shift_right | Qsym_arithmetic_shift_right
| Qsym_signed_less_than | Qsym_signed_less_equal | Qsym_signed_greater_than
| Qsym_signed_greater_equal | Qsym_unsigned_less_than | Qsym_unsigned_less_equal
| Qsym_unsigned_greater_than | Qsym_unsigned_greater_equal | Qsym_equal | Qsym_not_equal
| Qsym_bool_and | Qsym_and | Qsym_bool_or | Qsym_or | Qsym_bool_xor | Qsym_xor

fun qsymName :: "qsym_binary_builder \<Rightarrow> qsym_operation" where
  "qsymName Qsym_add = CreateAdd"
| "qsymName Qsym_sub = CreateSub"
| "qsymName Qsym_mul = CreateMul"
| "qsymName Qsym_unsigned_div = CreateUDiv"
| "qsymName Qsym_signed_div = CreateSDiv"
| "qsymName Qsym_unsigned_rem = CreateURem"
| "qsymName Qsym_signed_rem = CreateSRem"
| "qsymName Qsym_shift_left = CreateShl"
| "qsymName Qsym_logical_shift_right = CreateLShr"
| "qsymName Qsym_arithmetic_shift_right = CreateAShr"
| "qsymName Qsym_signed_less_than = CreateSlt"
| "qsymName Qsym_signed_less_equal = CreateSle"
| "qsymName Qsym_signed_greater_than = CreateSgt"
| "qsymName Qsym_signed_greater_equal = CreateSge"
| "qsymName Qsym_unsigned_less_than = CreateUlt"
| "qsymName Qsym_unsigned_less_equal = CreateUle"
| "qsymName Qsym_unsigned_greater_than = CreateUgt"
| "qsymName Qsym_unsigned_greater_equal = CreateUge"
| "qsymName Qsym_equal = CreateEqual"
| "qsymName Qsym_not_equal = CreateDistinct"
| "qsymName Qsym_bool_and = CreateLAnd"
| "qsymName Qsym_and = CreateAnd"
| "qsymName Qsym_bool_or = CreateLOr"
| "qsymName Qsym_or = CreateOr"
| "qsymName Qsym_bool_xor = CreateDistinct"
| "qsymName Qsym_xor = CreateXor"

definition qsym_build_binary ::
  "('e::linorder, 'r, 'q, 's, 'z, 'c) qsym \<Rightarrow> qsym_binary_builder \<Rightarrow> 'e \<Rightarrow> 'e \<Rightarrow>
   ('e, 'r, 'q, 's, 'c) qsym_state \<Rightarrow> ('e \<times> ('e, 'r, 'q, 's, 'c) qsym_state) result" where
  "qsym_build_binary Q name = qsym_create2 Q (createBinary Q (qsymName name))"

definition qsym_build_neg ::
  "('e::linorder, 'r, 'q, 's, 'z, 'c) qsym \<Rightarrow> 'e \<Rightarrow> ('e, 'r, 'q, 's, 'c) qsym_state \<Rightarrow>
   ('e \<times> ('e, 'r, 'q, 's, 'c) qsym_state) result" where
  "qsym_build_neg Q = qsym_create1 Q (createNeg Q)"

definition qsym_build_not ::
  "('e::linorder, 'r, 'q, 's, 'z, 'c) qsym \<Rightarrow> 'e \<Rightarrow> ('e, 'r, 'q, 's, 'c) qsym_state \<Rightarrow>
   ('e \<times> ('e, 'r, 'q, 's, 'c) qsym_state) result" where
  "qsym_build_not Q = qsym_create1 Q (createNot Q)"

definition qsym_build_sext ::
  "('e::linorder, 'r, 'q, 's, 'z, 'c) qsym \<Rightarrow> 'e \<Rightarrow> byte \<Rightarrow> ('e, 'r, 'q, 's, 'c) qsym_state \<Rightarrow>
   ('e \<times> ('e, 'r, 'q, 's, 'c) qsym_state) result" where
  "qsym_build_sext Q expr bits = qsym_create1 Q (\<lambda>r. createSExt Q r (ucast bits + expr_bits Q expr)) expr"

definition qsym_build_zext ::
  "('e::linorder, 'r, 'q, 's, 'z, 'c) qsym \<Rightarrow> 'e \<Rightarrow> byte \<Rightarrow> ('e, 'r, 'q, 's, 'c) qsym_state \<Rightarrow>
   ('e \<times> ('e, 'r, 'q, 's, 'c) qsym_state) result" where
  "qsym_build_zext Q expr bits = qsym_create1 Q (\<lambda>r. createZExt Q r (ucast bits + expr_bits Q expr)) expr"

definition qsym_build_trunc ::
  "('e::linorder, 'r, 'q, 's, 'z, 'c) qsym \<Rightarrow> 'e \<Rightarrow> byte \<Rightarrow> ('e, 'r, 'q, 's, 'c) qsym_state \<Rightarrow>
   ('e \<times> ('e, 'r, 'q, 's, 'c) qsym_state) result" where
  "qsym_build_trunc Q expr bits = qsym_create1 Q (\<lambda>r. createTrunc Q r (ucast bits)) expr"

definition qsym_get_input_byte ::
  "('e::linorder, 'r, 'q, 's, 'z, 'c) qsym \<Rightarrow> addr \<Rightarrow> ('e, 'r, 'q, 's, 'c) qsym_state \<Rightarrow>
   ('e \<times> ('e, 'r, 'q, 's, 'c) qsym_state) result" where
  "qsym_get_input_byte Q offset = qsym_create Q (createRead Q offset)"

definition qsym_concat_helper ::
  "('e::linorder, 'r, 'q, 's, 'z, 'c) qsym \<Rightarrow> 'e \<Rightarrow> 'e \<Rightarrow> ('e, 'r, 'q, 's, 'c) qsym_state \<Rightarrow>
   ('e \<times> ('e, 'r, 'q, 's, 'c) qsym_state) result" where
  "qsym_concat_helper Q = qsym_create2 Q (createBinary Q CreateConcat)"

definition qsym_extract_helper ::
  "('e::linorder, 'r, 'q, 's, 'z, 'c) qsym \<Rightarrow> 'e \<Rightarrow> addr \<Rightarrow> addr \<Rightarrow> ('e, 'r, 'q, 's, 'c) qsym_state \<Rightarrow>
   ('e \<times> ('e, 'r, 'q, 's, 'c) qsym_state) result" where
  "qsym_extract_helper Q expr first_bit last_bit =
     qsym_create1 Q (\<lambda>r. createExtract Q r (ucast last_bit) (ucast (first_bit - last_bit + 1))) expr"

definition qsym_bits_helper :: "('e::linorder, 'r, 'q, 's, 'z, 'c) qsym \<Rightarrow> 'e \<Rightarrow> addr" where
  "qsym_bits_helper Q expr = ucast (expr_bits Q expr)"

definition qsym_build_bool_to_bits ::
  "('e::linorder, 'r, 'q, 's, 'z, 'c) qsym \<Rightarrow> 'e \<Rightarrow> byte \<Rightarrow> ('e, 'r, 'q, 's, 'c) qsym_state \<Rightarrow>
   ('e \<times> ('e, 'r, 'q, 's, 'c) qsym_state) result" where
  "qsym_build_bool_to_bits Q expr bits = qsym_create1 Q (\<lambda>r. boolToBit Q r (ucast bits)) expr"

text \<open>The floating-point functions of the interface, of which QSYM supports none: each yields the
  null expression, whatever its arguments.\<close>

datatype 'e qsym_float_builder =
  Unsupported_float | Unsupported_fp_add 'e 'e | Unsupported_fp_sub 'e 'e | Unsupported_fp_mul 'e 'e
| Unsupported_fp_div 'e 'e | Unsupported_fp_rem 'e 'e | Unsupported_fp_abs 'e
| Unsupported_float_ordered_greater_than 'e 'e | Unsupported_float_ordered_greater_equal 'e 'e
| Unsupported_float_ordered_less_than 'e 'e | Unsupported_float_ordered_less_equal 'e 'e
| Unsupported_float_ordered_equal 'e 'e | Unsupported_float_ordered_not_equal 'e 'e
| Unsupported_float_ordered 'e 'e | Unsupported_float_unordered 'e 'e
| Unsupported_float_unordered_greater_than 'e 'e | Unsupported_float_unordered_greater_equal 'e 'e
| Unsupported_float_unordered_less_than 'e 'e | Unsupported_float_unordered_less_equal 'e 'e
| Unsupported_float_unordered_equal 'e 'e | Unsupported_float_unordered_not_equal 'e 'e
| Unsupported_int_to_float 'e | Unsupported_float_to_float 'e | Unsupported_bits_to_float 'e
| Unsupported_float_to_bits 'e | Unsupported_float_to_signed_integer 'e byte
| Unsupported_float_to_unsigned_integer 'e byte

definition qsym_unsupported :: "'e qsym_float_builder \<Rightarrow> 'e option" where
  "qsym_unsupported call = None"

subsection \<open>Constraints, coverage and the call stack\<close>

definition qsym_push_path_constraint ::
  "('e::linorder, 'r, 'q, 's, 'z, 'c) qsym \<Rightarrow> config \<Rightarrow> 'e option \<Rightarrow> bool \<Rightarrow> addr \<Rightarrow>
   ('e, 'r, 'q, 's, 'c) qsym_state \<Rightarrow> ('e, 'r, 'q, 's, 'c) qsym_state result" where
  "qsym_push_path_constraint Q g_config constraint taken site_id st =
     (case constraint of
        None \<Rightarrow> Inr st
      | Some e \<Rightarrow>
          let (should_save, st1) =
                (if is_pure_concolic g_config then pure_concolic_should_save taken site_id st else (True, st))
          in bind_result (map_at (allocatedExprRefs st1) e) (\<lambda>r.
             bind_result (global (qsym_solver st1)) (\<lambda>s.
               Inr (st1\<lparr>qsym_solver := Some (solver_addJcc Q r taken site_id should_save s)\<rparr>))))"

definition symcc_cov_cb ::
  "('e::linorder, 'r, 'q, 's, 'z, 'c) qsym \<Rightarrow> u32 \<Rightarrow> ('e, 'r, 'q, 's, 'c) qsym_state \<Rightarrow>
   ('e, 'r, 'q, 's, 'c) qsym_state result" where
  "symcc_cov_cb Q cb_id st =
     (let new_counter = (map_count (counter_map st) cb_id = 0);
          st1 = count_block cb_id st
      in bind_result
           (if new_counter \<and> map_count (old_counter_map st1) cb_id = 0 \<and> previosuly_blocked_a_save st1
            then bind_result (global (qsym_solver st1)) (\<lambda>s.
                   Inr (st1\<lparr>qsym_solver := Some (solver_checkAndSave Q '''' s)\<rparr>))
            else Inr st1) (\<lambda>st2.
         Inr (st2\<lparr>just_visited_bb := cb_id\<rparr>)))"

definition qsym_notify_call ::
  "('e::linorder, 'r, 'q, 's, 'z, 'c) qsym \<Rightarrow> addr \<Rightarrow> ('e, 'r, 'q, 's, 'c) qsym_state \<Rightarrow>
   ('e, 'r, 'q, 's, 'c) qsym_state" where
  "qsym_notify_call Q site_id st = st\<lparr>g_call_stack_manager := visitCall Q site_id (g_call_stack_manager st)\<rparr>"

definition qsym_notify_ret ::
  "('e::linorder, 'r, 'q, 's, 'z, 'c) qsym \<Rightarrow> addr \<Rightarrow> ('e, 'r, 'q, 's, 'c) qsym_state \<Rightarrow>
   ('e, 'r, 'q, 's, 'c) qsym_state" where
  "qsym_notify_ret Q site_id st = st\<lparr>g_call_stack_manager := visitRet Q site_id (g_call_stack_manager st)\<rparr>"

definition qsym_notify_basic_block ::
  "('e::linorder, 'r, 'q, 's, 'z, 'c) qsym \<Rightarrow> addr \<Rightarrow> ('e, 'r, 'q, 's, 'c) qsym_state \<Rightarrow>
   ('e, 'r, 'q, 's, 'c) qsym_state" where
  "qsym_notify_basic_block Q site_id st =
     st\<lparr>g_call_stack_manager := visitBasicBlock Q site_id (g_call_stack_manager st)\<rparr>"

subsection \<open>Debugging, feasibility, garbage collection\<close>

text \<open>The string left in the static buffer of 4096 characters.\<close>

definition qsym_expr_to_string :: "('e::linorder, 'r, 'q, 's, 'z, 'c) qsym \<Rightarrow> 'e \<Rightarrow> string" where
  "qsym_expr_to_string Q expr =
     (let expr_string = expr_toString Q expr
      in take (min (length expr_string) (4096 - 1)) expr_string)"

definition qsym_feasible ::
  "('e::linorder, 'r, 'q, 's, 'z, 'c) qsym \<Rightarrow> 'e \<Rightarrow> ('e, 'r, 'q, 's, 'c) qsym_state \<Rightarrow>
   (bool \<times> ('e, 'r, 'q, 's, 'c) qsym_state) result" where
  "qsym_feasible Q expr st =
     bind_result (global (g_expr_builder st)) (\<lambda>q.
     bind_result (global (qsym_solver st)) (\<lambda>s.
       let q1 = expr_simplify Q expr q;
           s1 = solver_push Q s;
           (z, q2) = expr_toZ3Expr Q expr q1;
           (verdict, s2) = solver_check Q (solver_add Q z s1);
           s3 = solver_pop Q s2
       in Inr (verdict = Sat, st\<lparr>g_expr_builder := Some q2, qsym_solver := Some s3\<rparr>)))"

definition qsym_collect_garbage ::
  "config \<Rightarrow> ('e::linorder, ('e, 'r, 'q, 's, 'c) qsym_state, 'x) runtime_scheme \<Rightarrow>
   ('e, ('e, 'r, 'q, 's, 'c) qsym_state, 'x) runtime_scheme" where
  "qsym_collect_garbage g_config rt =
     (let st = backend_state rt
      in if length (allocatedExprRefs st) < unat (garbageCollectionThreshold g_config) then rt
         else let reachableExpressions = collectReachableExpressions rt
           in rt\<lparr>backend_state :=
                st\<lparr>allocatedExprRefs := map_erase_if (\<lambda>e. e \<notin> reachableExpressions) (allocatedExprRefs st)\<rparr>\<rparr>)"

subsection \<open>Start and end of the process\<close>

text \<open>The timeout in milliseconds, with the arithmetic of \<open>uint64_t\<close> and the conversion to \<open>int\<close>.\<close>

definition solver_timeout_ms :: "config \<Rightarrow> u32" where
  "solver_timeout_ms g_config = ucast (solverTimeout g_config * 1000)"

text \<open>Reading all of standard input into the file \<open>tmpname\<close> (what \<open>tmpnam\<close> returns), which
  then takes the place of standard input.\<close>

definition redirect_input ::
  "string \<Rightarrow> ('e, 'r, 'q, 's, 'c) qsym_state \<Rightarrow> ('e, 'r, 'q, 's, 'c) qsym_state" where
  "redirect_input tmpname st =
     (let inputData = standard_input st
      in st\<lparr>inputFileName := tmpname,
            files := (files st)(tmpname \<mapsto> inputData),
            atexit_handlers := ''deleteInputFile'' # atexit_handlers st,
            standard_input := inputData\<rparr>)"

definition deleteInputFile :: "('e, 'r, 'q, 's, 'c) qsym_state \<Rightarrow> ('e, 'r, 'q, 's, 'c) qsym_state" where
  "deleteInputFile st = st\<lparr>files := (files st)(inputFileName st := None)\<rparr>"

definition qsym_initialize ::
  "('e::linorder, 'r, 'q, 's, 'z, 'c) qsym \<Rightarrow> (string \<Rightarrow> string option) \<Rightarrow> string \<Rightarrow> config \<Rightarrow>
   ('e, ('e, 'r, 'q, 's, 'c) qsym_state, 'w) program \<Rightarrow>
   config_error + config \<times> ('e, ('e, 'r, 'q, 's, 'c) qsym_state, 'w) program" where
  "qsym_initialize Q env tmpname g_config0 p =
     (let st0 = backend_state p
      in if g_initialized st0 then Inr (g_config0, p)
         else bind_result (loadConfig env g_config0) (\<lambda>g_config.
           let p1 = initLibcWrappers g_config (p\<lparr>backend_state := st0\<lparr>g_initialized := True\<rparr>\<rparr>);
               st1 = backend_state p1
           in if \<not> silent g_config \<and> fullyConcrete g_config then Inr (g_config, p1)
              else let st2 = (if inputFile g_config = [] then redirect_input tmpname st1
                              else st1\<lparr>inputFileName := inputFile g_config\<rparr>);
                       s = new_solver Q (inputFileName st2) (outputDir g_config) (aflCoverageMap g_config);
                       st3 = st2\<lparr>qsym_solver := Some (solver_setTimeout Q (solver_timeout_ms g_config) s),
                                 g_expr_builder := Some (if pruning g_config then pruneExprBuilder_create Q
                                                         else symbolicExprBuilder_create Q)\<rparr>
                in Inr (g_config, p1\<lparr>backend_state := st3\<rparr>)))"

text \<open>\<open>__dtor_runtime\<close>; the result tells whether it calls \<open>exit(0)\<close>.\<close>

definition dtor_runtime ::
  "config \<Rightarrow> ('e, 'r, 'q, 's, 'c) qsym_state \<Rightarrow> bool \<times> ('e, 'r, 'q, 's, 'c) qsym_state" where
  "dtor_runtime g_config st = (if is_pure_concolic g_config then dtor_pure_concolic st else (True, st))"

definition qsym_backend ::
  "('e::linorder, 'r, 'q, 's, 'z, 'c) qsym \<Rightarrow> config \<Rightarrow> ('e, ('e, 'r, 'q, 's, 'c) qsym_state) backend" where
  "qsym_backend Q g_config =
     \<lparr>sym_build_integer = qsym_build_integer Q,
      sym_concat_helper = qsym_concat_helper Q,
      sym_extract_helper = qsym_extract_helper Q,
      sym_bits_helper = qsym_bits_helper Q,
      sym_build_equal = qsym_build_binary Q Qsym_equal,
      sym_build_not_equal = qsym_build_binary Q Qsym_not_equal,
      sym_build_bool_and = qsym_build_binary Q Qsym_bool_and,
      sym_build_zext = qsym_build_zext Q,
      sym_build_trunc = qsym_build_trunc Q,
      sym_push_path_constraint = qsym_push_path_constraint Q g_config,
      sym_get_input_byte = (\<lambda>offset st.
        bind_result (qsym_get_input_byte Q offset st) (\<lambda>(e, st'). Inr (Some e, st')))\<rparr>"

lemma qsym_backend_simps [simp]:
  "sym_build_integer (qsym_backend Q g_config) = qsym_build_integer Q"
  "sym_concat_helper (qsym_backend Q g_config) = qsym_concat_helper Q"
  "sym_extract_helper (qsym_backend Q g_config) = qsym_extract_helper Q"
  "sym_bits_helper (qsym_backend Q g_config) = qsym_bits_helper Q"
  "sym_push_path_constraint (qsym_backend Q g_config) = qsym_push_path_constraint Q g_config"
  by (simp_all add: qsym_backend_def)

end
