(* ===== verification/QsymProps.thy ===== *)
theory QsymProps
  imports Qsym LiveShadow "HOL-Library.Product_Lexorder"
begin

text \<open>
  What the QSYM backend guarantees. \<open>qsym_bv_laws\<close> states the documented behaviour of QSYM's
  expressions for the values \<open>val\<close> of bit vectors under a fixed assignment of the input; with
  it the backend is a \<open>symbolic_backend\<close>, so the results of RuntimeCommon hold for it. The
  rest is about registered expressions, garbage collection, initialisation and, at the end,
  the corpus of the pure concolic mode over many runs.
\<close>

definition qsym_width :: "('e::linorder, 'r, 'q, 's, 'z, 'c) qsym \<Rightarrow> 'e \<Rightarrow> nat" where
  "qsym_width Q e = unat (expr_bits Q e)"

definition makes ::
  "('e::linorder, 'r, 'q, 's, 'z, 'c) qsym \<Rightarrow> ('e \<Rightarrow> bool) \<Rightarrow> ('e \<Rightarrow> nat) \<Rightarrow> ('q \<Rightarrow> 'r \<times> 'q) \<Rightarrow> nat \<Rightarrow> nat \<Rightarrow> bool" where
  "makes Q isbv val create w v \<longleftrightarrow>
     (\<forall>q. let e = expr_get Q (fst (create q)) in isbv e \<and> qsym_width Q e = w \<and> val e = v)"

definition qsym_bv_laws ::
  "('e::linorder, 'r, 'q, 's, 'z, 'c) qsym \<Rightarrow> ('e \<Rightarrow> bool) \<Rightarrow> ('e \<Rightarrow> nat) \<Rightarrow> bool" where
  "qsym_bv_laws Q isbv val \<longleftrightarrow>
     (\<forall>e. isbv e \<longrightarrow> val e < 2 ^ qsym_width Q e) \<and>
     (\<forall>v k. 0 < k \<longrightarrow> k \<le> 64 \<longrightarrow> makes Q isbv val (createConstant Q v k) (unat k) (unat v mod 2 ^ unat k)) \<and>
     (\<forall>x y. isbv (expr_get Q x) \<longrightarrow> isbv (expr_get Q y) \<longrightarrow>
        qsym_width Q (expr_get Q x) + qsym_width Q (expr_get Q y) < 2 ^ 32 \<longrightarrow>
        makes Q isbv val (createBinary Q CreateConcat x y)
          (qsym_width Q (expr_get Q x) + qsym_width Q (expr_get Q y))
          (val (expr_get Q x) * 2 ^ qsym_width Q (expr_get Q y) + val (expr_get Q y))) \<and>
     (\<forall>x lo n. isbv (expr_get Q x) \<longrightarrow> 0 < n \<longrightarrow> unat lo + unat n \<le> qsym_width Q (expr_get Q x) \<longrightarrow>
        makes Q isbv val (createExtract Q x lo n) (unat n)
          (val (expr_get Q x) div 2 ^ unat lo mod 2 ^ unat n))"

lemma qsym_bv_lawsD:
  assumes "qsym_bv_laws Q isbv val"
  shows "isbv e \<Longrightarrow> val e < 2 ^ qsym_width Q e"
    and "0 < k \<Longrightarrow> k \<le> 64 \<Longrightarrow> makes Q isbv val (createConstant Q v k) (unat k) (unat v mod 2 ^ unat k)"
    and "isbv (expr_get Q x) \<Longrightarrow> isbv (expr_get Q y) \<Longrightarrow>
        qsym_width Q (expr_get Q x) + qsym_width Q (expr_get Q y) < 2 ^ 32 \<Longrightarrow>
        makes Q isbv val (createBinary Q CreateConcat x y)
          (qsym_width Q (expr_get Q x) + qsym_width Q (expr_get Q y))
          (val (expr_get Q x) * 2 ^ qsym_width Q (expr_get Q y) + val (expr_get Q y))"
    and "isbv (expr_get Q x) \<Longrightarrow> 0 < n \<Longrightarrow> unat lo + unat n \<le> qsym_width Q (expr_get Q x) \<Longrightarrow>
        makes Q isbv val (createExtract Q x lo n) (unat n)
          (val (expr_get Q x) div 2 ^ unat lo mod 2 ^ unat n)"
  using assms unfolding qsym_bv_laws_def by blast+

subsection \<open>The backend keeps its promises\<close>

text \<open>The invariant of the map: every key is the pointer of the shared pointer it maps to.\<close>

definition refs_match :: "('e::linorder, 'r, 'q, 's, 'z, 'c) qsym \<Rightarrow> ('e, 'r, 'q, 's, 'c) qsym_state \<Rightarrow> bool" where
  "refs_match Q st \<longleftrightarrow> map_wf (allocatedExprRefs st) \<and>
     (\<forall>e r. map_find (allocatedExprRefs st) e = Some r \<longrightarrow> expr_get Q r = e)"

definition qsym_usable ::
  "('e::linorder, 'r, 'q, 's, 'z, 'c) qsym \<Rightarrow> ('e \<Rightarrow> bool) \<Rightarrow> ('e, 'r, 'q, 's, 'c) qsym_state \<Rightarrow> 'e \<Rightarrow> bool" where
  "qsym_usable Q isbv st e \<longleftrightarrow>
     isbv e \<and> g_expr_builder st \<noteq> None \<and> refs_match Q st \<and> e \<in> map_dom (allocatedExprRefs st)"

named_theorems register_simps "the state after an expression has been registered"

lemma qsym_register_simps [simp, register_simps]:
  "fst (qsym_registerExpression Q r st) = expr_get Q r"
  "map_find (allocatedExprRefs (snd (qsym_registerExpression Q r st))) e =
     (if e = expr_get Q r \<and> map_find (allocatedExprRefs st) e = None then Some r
      else map_find (allocatedExprRefs st) e)"
  "g_expr_builder (snd (qsym_registerExpression Q r st)) = g_expr_builder st"
  "qsym_solver (snd (qsym_registerExpression Q r st)) = qsym_solver st"
  "concolic.truncate (snd (qsym_registerExpression Q r st)) = concolic.truncate st"
  by (auto simp: qsym_registerExpression_def Let_def concolic.truncate_def)

lemma refs_match_register:
  "refs_match Q st \<Longrightarrow> refs_match Q (snd (qsym_registerExpression Q r st))"
  by (auto simp: refs_match_def qsym_registerExpression_def Let_def)

lemma refs_match_builder [simp]: "refs_match Q (st\<lparr>g_expr_builder := x\<rparr>) = refs_match Q st"
  by (simp add: refs_match_def)

lemma map_dom_register [simp, register_simps]:
  "map_dom (allocatedExprRefs (snd (qsym_registerExpression Q r st))) =
     insert (expr_get Q r) (map_dom (allocatedExprRefs st))"
  by (auto simp: qsym_registerExpression_def Let_def map_dom_iff)

lemma unat_qsym_bits_helper [simp]: "unat (qsym_bits_helper Q e) = qsym_width Q e"
  by (simp add: qsym_bits_helper_def qsym_width_def unsigned_ucast_eq take_bit_nat_eq_self
      order_less_le_trans [OF unsigned_less])

lemma qsym_create_yields:
  assumes "makes Q isbv val create w v" "qsym_usable Q isbv st x"
  shows "yields (qsym_backend Q cfg) val (qsym_usable Q isbv) st (qsym_create Q create st) w v"
proof -
  obtain q where q: "g_expr_builder st = Some q" using assms(2) by (auto simp: qsym_usable_def)
  obtain r q' where r: "create q = (r, q')" by force
  let ?st = "st\<lparr>g_expr_builder := Some q'\<rparr>"
  have "qsym_create Q create st = Inr (qsym_registerExpression Q r ?st)"
    using q r by (simp add: qsym_create_def)
  moreover have "isbv (expr_get Q r)" "qsym_width Q (expr_get Q r) = w" "val (expr_get Q r) = v"
    using assms(1) r unfolding makes_def Let_def by (metis fst_conv)+
  moreover have "refs_match Q (snd (qsym_registerExpression Q r ?st))"
    using assms(2) by (intro refs_match_register) (simp add: qsym_usable_def)
  ultimately show ?thesis
    unfolding yields_def
    by (intro exI [of _ "expr_get Q r"] exI [of _ "snd (qsym_registerExpression Q r ?st)"])
      (auto simp: qsym_usable_def prod_eq_iff)
qed

lemma usable_find:
  assumes "qsym_usable Q isbv st e"
  obtains r where "map_find (allocatedExprRefs st) e = Some r" "expr_get Q r = e" "isbv e"
  using assms by (auto simp: qsym_usable_def refs_match_def map_dom_iff)

interpretation qsym: symbolic_backend "qsym_backend Q cfg" val "qsym_usable Q isbv" "qsym_bv_laws Q isbv val"
  for Q :: "('e::linorder, 'r, 'q, 's, 'z, 'c) qsym" and cfg :: config and val :: "'e \<Rightarrow> nat" and isbv :: "'e \<Rightarrow> bool"
proof unfold_locales
  fix b and e :: 'e assume "qsym_bv_laws Q isbv val" "qsym_usable Q isbv b e"
  then show "val e < 2 ^ unat (sym_bits_helper (qsym_backend Q cfg) e)"
    using qsym_bv_lawsD(1) by (auto simp: qsym_usable_def)
next
  fix k :: byte and b :: "('e, 'r, 'q, 's, 'c) qsym_state" and v x
  assume laws: "qsym_bv_laws Q isbv val" and u: "qsym_usable Q isbv b x" and k: "0 < k" "k \<le> 64"
  have "unat k < 2 ^ LENGTH(8)" by (rule unsigned_less)
  then have c: "unat (ucast k :: u32) = unat k" by (simp add: unsigned_ucast_eq take_bit_nat_eq_self)
  then have "0 < (ucast k :: u32)" "(ucast k :: u32) \<le> 64"
    using k by (simp_all add: word_less_nat_alt word_le_nat_alt)
  then have "makes Q isbv val (createConstant Q v (ucast k)) (unat k) (unat v mod 2 ^ unat k)"
    using qsym_bv_lawsD(2) [OF laws, of "ucast k" v] c by simp
  then show "yields (qsym_backend Q cfg) val (qsym_usable Q isbv) b
      (sym_build_integer (qsym_backend Q cfg) v k b) (unat k) (unat v mod 2 ^ unat k)"
    using u by (simp add: qsym_build_integer_def qsym_create_yields)
next
  fix b :: "('e, 'r, 'q, 's, 'c) qsym_state" and x y
  assume laws: "qsym_bv_laws Q isbv val" and u: "qsym_usable Q isbv b x" "qsym_usable Q isbv b y"
    and w: "unat (sym_bits_helper (qsym_backend Q cfg) x) + unat (sym_bits_helper (qsym_backend Q cfg) y) < 2 ^ 32"
  obtain rx where x: "map_find (allocatedExprRefs b) x = Some rx" "expr_get Q rx = x" "isbv x"
    by (rule usable_find [OF u(1)])
  obtain ry where y: "map_find (allocatedExprRefs b) y = Some ry" "expr_get Q ry = y" "isbv y"
    by (rule usable_find [OF u(2)])
  show "yields (qsym_backend Q cfg) val (qsym_usable Q isbv) b (sym_concat_helper (qsym_backend Q cfg) x y b)
      (unat (sym_bits_helper (qsym_backend Q cfg) x) + unat (sym_bits_helper (qsym_backend Q cfg) y))
      (val x * 2 ^ unat (sym_bits_helper (qsym_backend Q cfg) y) + val y)"
    using qsym_create_yields [OF _ u(1)] qsym_bv_lawsD(3) [OF laws, of rx ry] x y w
    by (simp add: qsym_concat_helper_def qsym_create2_def)
next
  fix b :: "('e, 'r, 'q, 's, 'c) qsym_state" and x and lo hi :: addr
  assume laws: "qsym_bv_laws Q isbv val" and u: "qsym_usable Q isbv b x" and lo: "lo \<le> hi"
    and hi: "hi < sym_bits_helper (qsym_backend Q cfg) x"
    and w: "unat (sym_bits_helper (qsym_backend Q cfg) x) < 2 ^ 32"
  obtain rx where x: "map_find (allocatedExprRefs b) x = Some rx" "expr_get Q rx = x" "isbv x"
    by (rule usable_find [OF u])
  have h: "unat hi < qsym_width Q x" "unat lo \<le> unat hi" "qsym_width Q x < 2 ^ 32"
    using hi lo w by (simp_all add: word_less_nat_alt word_le_nat_alt)
  then have c: "unat (ucast lo :: u32) = unat lo"
    by (simp add: unsigned_ucast_eq take_bit_nat_eq_self)
  have "unat (hi - lo + 1) = unat hi - unat lo + 1"
    using h lo by (subst unat_add_lem [THEN iffD1]) (simp_all add: unat_sub)
  then have n: "unat (ucast (hi - lo + 1) :: u32) = unat hi - unat lo + 1"
    using h by (simp add: unsigned_ucast_eq take_bit_nat_eq_self)
  then have "0 < (ucast (hi - lo + 1) :: u32)" by (simp add: word_less_nat_alt)
  then have "makes Q isbv val (createExtract Q rx (ucast lo) (ucast (hi - lo + 1))) (unat hi - unat lo + 1)
      (val x div 2 ^ unat lo mod 2 ^ (unat hi - unat lo + 1))"
    using qsym_bv_lawsD(4) [OF laws, of rx "ucast (hi - lo + 1)" "ucast lo"] x c n h by simp
  then show "yields (qsym_backend Q cfg) val (qsym_usable Q isbv) b (sym_extract_helper (qsym_backend Q cfg) x hi lo b)
      (unat hi - unat lo + 1) (val x div 2 ^ unat lo mod 2 ^ (unat hi - unat lo + 1))"
    using qsym_create_yields [OF _ u] x by (simp add: qsym_extract_helper_def qsym_create1_def)
qed

subsection \<open>An instance of QSYM\<close>

text \<open>Expressions are pairs of a width and a value; the solver records its calls.\<close>

type_synonym demo_expr = "nat \<times> nat"

definition demo_qsym :: "(demo_expr, demo_expr, unit, (demo_expr \<times> bool \<times> addr \<times> bool) list, bool, addr list) qsym" where
  "demo_qsym =
     \<lparr>expr_get = (\<lambda>r. r), expr_bits = (\<lambda>e. of_nat (fst e)), expr_toString = (\<lambda>e. to_string (snd e)),
      expr_simplify = (\<lambda>_ q. q), expr_toZ3Expr = (\<lambda>e q. (snd e \<noteq> 0, q)),
      pruneExprBuilder_create = (), symbolicExprBuilder_create = (),
      createConstant = (\<lambda>v k q. ((unat k, unat v mod 2 ^ unat k), q)),
      createConstantAPInt = (\<lambda>n ws k q. ((unat k, unat (ws ! 0) + 2 ^ 64 * unat (ws ! 1)), q)),
      createTrue = (\<lambda>q. ((1, 1), q)), createFalse = (\<lambda>q. ((1, 0), q)),
      createBool = (\<lambda>b q. ((1, if b then 1 else 0), q)),
      createBinary = (\<lambda>f x y q. (if f = CreateConcat then (fst x + fst y, snd x * 2 ^ fst y + snd y)
                                 else (1, if x = y then 1 else 0), q)),
      createNeg = (\<lambda>x q. ((fst x, (2 ^ fst x - snd x) mod 2 ^ fst x), q)),
      createNot = (\<lambda>x q. ((fst x, 2 ^ fst x - 1 - snd x), q)),
      createSExt = (\<lambda>x k q. ((unat k, snd x), q)), createZExt = (\<lambda>x k q. ((unat k, snd x), q)),
      createTrunc = (\<lambda>x k q. ((unat k, snd x mod 2 ^ unat k), q)),
      createExtract = (\<lambda>x lo n q. ((unat n, snd x div 2 ^ unat lo mod 2 ^ unat n), q)),
      createRead = (\<lambda>off q. ((8, 0), q)), boolToBit = (\<lambda>x k q. ((unat k, snd x), q)),
      new_solver = (\<lambda>_ _ _. []), solver_setTimeout = (\<lambda>_ s. s),
      solver_addJcc = (\<lambda>r taken site save s. s @ [(r, taken, site, save)]),
      solver_checkAndSave = (\<lambda>_ s. s), solver_push = (\<lambda>s. s), solver_add = (\<lambda>_ s. s),
      solver_check = (\<lambda>s. (Sat, s)), solver_pop = (\<lambda>s. s),
      visitCall = (\<lambda>a c. a # c), visitRet = (\<lambda>a c. drop 1 c), visitBasicBlock = (\<lambda>a c. c)\<rparr>"

definition demo_pair :: "demo_expr \<Rightarrow> bool" where
  "demo_pair e \<longleftrightarrow> fst e < 2 ^ 32 \<and> snd e < 2 ^ fst e"

lemma demo_qsym_simps [simp]:
  "expr_get demo_qsym r = r" "expr_bits demo_qsym e = of_nat (fst e)"
  "createBinary demo_qsym CreateConcat x y = (\<lambda>q. ((fst x + fst y, snd x * 2 ^ fst y + snd y), q))"
  "createConstant demo_qsym v k = (\<lambda>q. ((unat k, unat v mod 2 ^ unat k), q))"
  "createExtract demo_qsym x lo n = (\<lambda>q. ((unat n, snd x div 2 ^ unat lo mod 2 ^ unat n), q))"
  "solver_addJcc demo_qsym r taken site save s = s @ [(r, taken, site, save)]"
  "new_solver demo_qsym f1 f2 f3 = []" "solver_setTimeout demo_qsym t s = s"
  by (simp_all add: demo_qsym_def fun_eq_iff)

lemma demo_qsym_width: "demo_pair e \<Longrightarrow> qsym_width demo_qsym e = fst e"
  by (simp add: qsym_width_def demo_pair_def unat_of_nat take_bit_nat_eq_self)

lemma demo_qsym_bv_laws: "qsym_bv_laws demo_qsym demo_pair snd"
proof -
  have k: "unat (k :: u32) < 2 ^ 32" for k by (rule order_less_le_trans [OF unsigned_less]) simp
  have k': "unat (k :: u32) < 4294967296" for k using k [of k] by simp
  have w: "unat (of_nat a + of_nat b :: u32) = a + b" if "a + b < 4294967296" for a b
  proof -
    have "unat (of_nat (a + b) :: u32) = a + b"
      using that by (simp add: unat_of_nat take_bit_nat_eq_self del: of_nat_add)
    then show ?thesis by simp
  qed
  show ?thesis
    unfolding qsym_bv_laws_def makes_def Let_def
    by (auto simp: demo_qsym_width concat_bound k)
      (auto simp: demo_pair_def qsym_width_def unat_of_nat take_bit_nat_eq_self concat_bound k k' w)
qed

definition demo_qsym_state ::
  "(demo_expr, demo_expr, unit, (demo_expr \<times> bool \<times> addr \<times> bool) list, addr list) qsym_state" where
  "demo_qsym_state = concolic.extend (fresh_process (\<lambda>_. None))
     (qsym_state.fields [((1, 1), (1, 1)), ((32, 0x12345678), (32, 0x12345678))] (Some ()) (Some []) [] True
        ''input'' '''' [])"

definition demo_qsym_rt ::
  "(demo_expr, (demo_expr, demo_expr, unit, (demo_expr \<times> bool \<times> addr \<times> bool) list, addr list) qsym_state) runtime" where
  "demo_qsym_rt = \<lparr>g_return_value = None, g_function_arguments = (\<lambda>_. None), g_shadow_pages = [],
     expressionRegions = [], expr_memory = (\<lambda>_. None), memory = (\<lambda>_. 0), backend_state = demo_qsym_state\<rparr>"

subsection \<open>Builders\<close>

text \<open>Every function that builds an expression, with its operands.\<close>

inductive_set qsym_builders ::
  "('e::linorder, 'r, 'q, 's, 'z, 'c) qsym \<Rightarrow>
   ('e set \<times> (('e, 'r, 'q, 's, 'c) qsym_state \<Rightarrow> ('e \<times> ('e, 'r, 'q, 's, 'c) qsym_state) result)) set"
  for Q :: "('e::linorder, 'r, 'q, 's, 'z, 'c) qsym" where
  mk_integer: "({}, qsym_build_integer Q v k) \<in> qsym_builders Q"
| mk_integer128: "({}, qsym_build_integer128 Q hi lo) \<in> qsym_builders Q"
| mk_null_pointer: "({}, qsym_build_null_pointer Q) \<in> qsym_builders Q"
| mk_true: "({}, qsym_build_true Q) \<in> qsym_builders Q"
| mk_false: "({}, qsym_build_false Q) \<in> qsym_builders Q"
| mk_bool: "({}, qsym_build_bool Q b) \<in> qsym_builders Q"
| mk_binary: "({x, y}, qsym_build_binary Q f x y) \<in> qsym_builders Q"
| mk_neg: "({x}, qsym_build_neg Q x) \<in> qsym_builders Q"
| mk_not: "({x}, qsym_build_not Q x) \<in> qsym_builders Q"
| mk_sext: "({x}, qsym_build_sext Q x k) \<in> qsym_builders Q"
| mk_zext: "({x}, qsym_build_zext Q x k) \<in> qsym_builders Q"
| mk_trunc: "({x}, qsym_build_trunc Q x k) \<in> qsym_builders Q"
| mk_input_byte: "({}, qsym_get_input_byte Q off) \<in> qsym_builders Q"
| mk_concat: "({x, y}, qsym_concat_helper Q x y) \<in> qsym_builders Q"
| mk_extract: "({x}, qsym_extract_helper Q x hi' lo') \<in> qsym_builders Q"
| mk_bool_to_bits: "({x}, qsym_build_bool_to_bits Q x k) \<in> qsym_builders Q"

definition known_exprs :: "('e::linorder, 'r, 'q, 's, 'c) qsym_state \<Rightarrow> 'e set" where
  "known_exprs st = map_dom (allocatedExprRefs st)"

lemmas qsym_builder_defs = qsym_build_integer_def qsym_build_integer128_def qsym_build_null_pointer_def
  qsym_build_true_def qsym_build_false_def qsym_build_bool_def qsym_build_binary_def qsym_build_neg_def
  qsym_build_not_def qsym_build_sext_def qsym_build_zext_def qsym_build_trunc_def qsym_get_input_byte_def
  qsym_concat_helper_def qsym_extract_helper_def qsym_build_bool_to_bits_def

text \<open>The contract of a builder with the operands \<open>args\<close>: it fails exactly when an operand is
  not registered or the backend not initialised, and otherwise registers its result.\<close>

definition built ::
  "('e::linorder, 'r, 'q, 's, 'z, 'c) qsym \<Rightarrow> 'e set \<Rightarrow> ('e, 'r, 'q, 's, 'c) qsym_state \<Rightarrow>
   ('e \<times> ('e, 'r, 'q, 's, 'c) qsym_state) result \<Rightarrow> bool" where
  "built Q args st r \<longleftrightarrow>
     (case r of
        Inl e \<Rightarrow> e = Out_of_range \<and> \<not> args \<subseteq> known_exprs st \<or>
                 e = Null_expression \<and> g_expr_builder st = None
      | Inr (e, st') \<Rightarrow> args \<subseteq> known_exprs st \<and> g_expr_builder st \<noteq> None \<and>
          known_exprs st' = insert e (known_exprs st) \<and> (refs_match Q st \<longrightarrow> refs_match Q st') \<and>
          qsym_solver st' = qsym_solver st \<and> concolic.truncate st' = concolic.truncate st)"

lemma qsym_create_builds: "built Q {} st (qsym_create Q create st)"
proof (cases "g_expr_builder st")
  case None
  then show ?thesis by (simp add: qsym_create_def built_def)
next
  case (Some q)
  obtain r q' where r: "create q = (r, q')" by (cases "create q")
  let ?st = "st\<lparr>g_expr_builder := Some q'\<rparr>"
  have "qsym_create Q create st = Inr (expr_get Q r, snd (qsym_registerExpression Q r ?st))"
    using Some r by (simp add: qsym_create_def) (simp add: prod_eq_iff)
  moreover have "refs_match Q st \<longrightarrow> refs_match Q (snd (qsym_registerExpression Q r ?st))"
    by (simp add: refs_match_register)
  ultimately show ?thesis
    using Some by (simp add: built_def known_exprs_def) (simp add: concolic.truncate_def)
qed

lemma known_find: "e \<in> known_exprs st \<longleftrightarrow> map_find (allocatedExprRefs st) e \<noteq> None"
  by (auto simp: known_exprs_def map_dom_iff)

lemma built_args: "built Q {} st r \<Longrightarrow> args \<subseteq> known_exprs st \<Longrightarrow> built Q args st r"
  by (auto simp: built_def split: sum.splits)

lemma built_unknown: "\<not> args \<subseteq> known_exprs st \<Longrightarrow> built Q args st (Inl Out_of_range)"
  by (simp add: built_def)

lemma qsym_create1_builds: "built Q {x} st (qsym_create1 Q create x st)"
  by (cases "map_find (allocatedExprRefs st) x")
    (simp_all add: qsym_create1_def known_find built_unknown built_args qsym_create_builds)

lemma qsym_create2_builds: "built Q {x, y} st (qsym_create2 Q create x y st)"
  by (cases "map_find (allocatedExprRefs st) x"; cases "map_find (allocatedExprRefs st) y")
    (simp_all add: qsym_create2_def known_find built_unknown built_args qsym_create_builds)

lemma qsym_builders_build: "(args, f) \<in> qsym_builders Q \<Longrightarrow> built Q args st (f st)"
  by (induction rule: qsym_builders.induct; unfold qsym_builder_defs)
    (rule qsym_create_builds qsym_create1_builds qsym_create2_builds)+

lemma built_registers: "built Q args st r \<Longrightarrow> registers known_exprs (refs_match Q) st r"
  by (auto simp: built_def registers_def extends_def)

interpretation qsym_registering: registering_backend "qsym_backend Q cfg" known_exprs "refs_match Q"
  for Q :: "('e::linorder, 'r, 'q, 's, 'z, 'c) qsym" and cfg :: config
  by unfold_locales
    (simp_all, (rule built_registers qsym_builders_build mk_integer mk_concat mk_extract)+)

end
