(* ===== verification/QsymState.thy ===== *)
theory QsymState
  imports QsymProps
begin

text \<open>
  The states of a process that runs on the QSYM backend: \<open>qsym_step\<close> is one call of the
  instrumented program (or of the libc wrappers) into the run-time library, \<open>qsym_inv\<close> the
  invariant of all states that sequences of calls reach. Then the properties of memory
  accesses, garbage collection and initialisation.
\<close>

subsection \<open>Steps\<close>

type_synonym ('e, 'r, 'q, 's, 'c) qsym_runtime = "('e, ('e, 'r, 'q, 's, 'c) qsym_state) runtime"

definition region_exprs :: "('e, 'b, 'x) runtime_scheme \<Rightarrow> 'e set" where
  "region_exprs rt = {e. \<exists>(start, len) \<in> set (expressionRegions rt). \<exists>i < unat len.
     expr_memory rt (start + 8 * of_nat i) = Some e}"

inductive qsym_step ::
  "('e::linorder, 'r, 'q, 's, 'z, 'c) qsym \<Rightarrow> config \<Rightarrow>
   ('e, 'r, 'q, 's, 'c) qsym_runtime \<Rightarrow> ('e, 'r, 'q, 's, 'c) qsym_runtime \<Rightarrow> bool"
  for Q :: "('e::linorder, 'r, 'q, 's, 'z, 'c) qsym" and cfg :: config where
  build: "(args, f) \<in> qsym_builders Q \<Longrightarrow> f (backend_state rt) = Inr (e, b) \<Longrightarrow>
    qsym_step Q cfg rt (rt\<lparr>backend_state := b\<rparr>)"
| branch: "qsym_push_path_constraint Q cfg constraint taken site (backend_state rt) = Inr b \<Longrightarrow>
    qsym_step Q cfg rt (rt\<lparr>backend_state := b\<rparr>)"
| cover: "symcc_cov_cb Q bb (backend_state rt) = Inr b \<Longrightarrow>
    qsym_step Q cfg rt (rt\<lparr>backend_state := b\<rparr>)"
| feasible: "qsym_feasible Q x (backend_state rt) = Inr (r, b) \<Longrightarrow>
    qsym_step Q cfg rt (rt\<lparr>backend_state := b\<rparr>)"
| call: "qsym_step Q cfg rt (rt\<lparr>backend_state := qsym_notify_call Q site (backend_state rt)\<rparr>)"
| ret: "qsym_step Q cfg rt (rt\<lparr>backend_state := qsym_notify_ret Q site (backend_state rt)\<rparr>)"
| block: "qsym_step Q cfg rt (rt\<lparr>backend_state := qsym_notify_basic_block Q site (backend_state rt)\<rparr>)"
| read: "sym_read_memory (qsym_backend Q cfg) a n le rt = Inr (v, rt') \<Longrightarrow> qsym_step Q cfg rt rt'"
| write_mem: "sym_write_memory (qsym_backend Q cfg) a n v le rt = Inr rt' \<Longrightarrow> qsym_step Q cfg rt rt'"
| copy: "sym_memcpy (qsym_backend Q cfg) dest src n rt = Inr rt' \<Longrightarrow> qsym_step Q cfg rt rt'"
| move: "sym_memmove (qsym_backend Q cfg) dest src n rt = Inr rt' \<Longrightarrow> qsym_step Q cfg rt rt'"
| set: "set_option v \<subseteq> known_exprs (backend_state rt) \<Longrightarrow>
    sym_memset (qsym_backend Q cfg) a v n rt = Inr rt' \<Longrightarrow> qsym_step Q cfg rt rt'"
| cell: "set_option v \<subseteq> known_exprs (backend_state rt) \<Longrightarrow>
    qsym_step Q cfg rt (rt\<lparr>expr_memory := (expr_memory rt)(a := v)\<rparr>)"
| region: "region_exprs (registerExpressionRegion (a, n) rt) \<subseteq> known_exprs (backend_state rt) \<Longrightarrow>
    qsym_step Q cfg rt (registerExpressionRegion (a, n) rt)"
| program: "qsym_step Q cfg rt (rt\<lparr>memory := m, g_return_value := r, g_function_arguments := args\<rparr>)"
| collect: "qsym_step Q cfg rt (qsym_collect_garbage cfg rt)"

inductive_cases qsym_step_cases: "qsym_step Q cfg rt rt'"

definition qsym_inv ::
  "('e::linorder, 'r, 'q, 's, 'z, 'c) qsym \<Rightarrow> ('e, 'r, 'q, 's, 'c) qsym_runtime \<Rightarrow> bool" where
  "qsym_inv Q rt \<longleftrightarrow> pages_ok (g_shadow_pages rt) \<and> refs_match Q (backend_state rt) \<and>
     holds (g_shadow_pages rt) (known_exprs (backend_state rt)) \<and>
     region_exprs rt \<subseteq> known_exprs (backend_state rt)"

named_theorems same_exprs "steps of the backend that leave the registered expressions alone"

lemma load_corpus_exprs [simp, same_exprs]: "allocatedExprRefs (load_corpus st) = allocatedExprRefs st"
  by (simp add: load_corpus_def load_prev_blocks_def load_trace_maps_def load_counters_def)

lemma should_save_exprs [simp, same_exprs]:
  "allocatedExprRefs (snd (pure_concolic_should_save taken site st)) = allocatedExprRefs st"
  by (simp add: pure_concolic_should_save_def allow_known_site_def Let_def split_def)

lemma push_exprs [same_exprs]:
  "qsym_push_path_constraint Q cfg c taken site st = Inr st' \<Longrightarrow> allocatedExprRefs st' = allocatedExprRefs st"
  by (auto simp: qsym_push_path_constraint_def bind_result_eq_Inr Let_def split_def split: option.splits if_splits)

lemma cover_exprs [same_exprs]:
  "symcc_cov_cb Q bb st = Inr st' \<Longrightarrow> allocatedExprRefs st' = allocatedExprRefs st"
  by (auto simp: symcc_cov_cb_def bind_result_eq_Inr Let_def count_block_def split: option.splits if_splits)

lemma feasible_exprs [same_exprs]:
  "qsym_feasible Q x st = Inr (r, st') \<Longrightarrow> allocatedExprRefs st' = allocatedExprRefs st"
  by (auto simp: qsym_feasible_def bind_result_eq_Inr Let_def split_def)

lemma notify_exprs [simp, same_exprs]:
  "allocatedExprRefs (qsym_notify_call Q site st) = allocatedExprRefs st"
  "allocatedExprRefs (qsym_notify_ret Q site st) = allocatedExprRefs st"
  "allocatedExprRefs (qsym_notify_basic_block Q site st) = allocatedExprRefs st"
  by (simp_all add: qsym_notify_call_def qsym_notify_ret_def qsym_notify_basic_block_def)

lemma region_exprs_simps [simp]:
  "region_exprs (rt\<lparr>backend_state := b\<rparr>) = region_exprs rt"
  "region_exprs (rt\<lparr>g_shadow_pages := p\<rparr>) = region_exprs rt"
  "region_exprs (rt\<lparr>memory := m\<rparr>) = region_exprs rt"
  "region_exprs (rt\<lparr>g_return_value := r\<rparr>) = region_exprs rt"
  "region_exprs (rt\<lparr>g_function_arguments := args\<rparr>) = region_exprs rt"
  by (simp_all add: region_exprs_def)

lemma qsym_inv_backend:
  assumes "qsym_inv Q rt" "refs_match Q b" "known_exprs (backend_state rt) \<subseteq> known_exprs b"
  shows "qsym_inv Q (rt\<lparr>backend_state := b\<rparr>)"
  using assms holds_mono [OF _ assms(3)] by (auto simp: qsym_inv_def)

lemma qsym_inv_same:
  assumes "qsym_inv Q rt" "allocatedExprRefs b = allocatedExprRefs (backend_state rt)"
  shows "qsym_inv Q (rt\<lparr>backend_state := b\<rparr>)"
  by (rule qsym_inv_backend [OF assms(1)]) (use assms in \<open>simp_all add: qsym_inv_def refs_match_def known_exprs_def\<close>)

text \<open>Operations on memory: their effect and that they keep shadow memory live.\<close>

lemma qsym_inv_memory:
  assumes "qsym_inv Q rt" "memory_effect rt rt'"
    "holds (g_shadow_pages rt') (known_exprs (backend_state rt'))"
    "extends known_exprs (refs_match Q) (backend_state rt) (backend_state rt')"
  shows "qsym_inv Q rt'"
  using assms unfolding memory_effect_def qsym_inv_def extends_def by auto

lemma collect_pages [simp]:
  "g_shadow_pages (qsym_collect_garbage cfg rt) = g_shadow_pages rt"
  "expressionRegions (qsym_collect_garbage cfg rt) = expressionRegions rt"
  "expr_memory (qsym_collect_garbage cfg rt) = expr_memory rt"
  by (simp_all add: qsym_collect_garbage_def Let_def)

lemma collect_known:
  "known_exprs (backend_state (qsym_collect_garbage cfg rt)) =
     (if length (allocatedExprRefs (backend_state rt)) < unat (garbageCollectionThreshold cfg)
      then known_exprs (backend_state rt)
      else known_exprs (backend_state rt) \<inter> collectReachableExpressions rt)"
  by (auto simp: qsym_collect_garbage_def Let_def known_exprs_def)

lemma reachable_exprs:
  assumes "pages_ok (g_shadow_pages rt)"
  shows "collectReachableExpressions rt = region_exprs rt \<union> {e. \<exists>a. shadow_at (g_shadow_pages rt) a = Some e}"
  using collectReachable_iff [OF assms] by (auto simp: region_exprs_def)

lemma qsym_inv_collect:
  assumes "qsym_inv Q rt"
  shows "qsym_inv Q (qsym_collect_garbage cfg rt)"
proof -
  have ok: "pages_ok (g_shadow_pages rt)" using assms by (simp add: qsym_inv_def)
  have "refs_match Q (backend_state (qsym_collect_garbage cfg rt))"
    using assms by (auto simp: qsym_inv_def refs_match_def qsym_collect_garbage_def Let_def split: if_splits)
  moreover have "region_exprs (qsym_collect_garbage cfg rt) = region_exprs rt"
    by (simp add: region_exprs_def)
  moreover have "holds (g_shadow_pages rt) (known_exprs (backend_state (qsym_collect_garbage cfg rt)))"
    using assms by (auto simp: qsym_inv_def holds_def collect_known reachable_exprs [OF ok])
  ultimately show ?thesis
    using assms by (auto simp: qsym_inv_def collect_known reachable_exprs [OF ok])
qed

lemma memory_live:
  assumes "qsym_inv Q rt"
  shows "live known_exprs (refs_match Q) rt"
  using assms by (simp add: qsym_inv_def live_def)

lemma qsym_inv_moved:
  assumes "qsym_inv Q rt" "memory_effect rt rt'"
    "\<And>S. holds (g_shadow_pages rt) S \<Longrightarrow> holds (g_shadow_pages rt') S \<and> backend_state rt' = backend_state rt"
  shows "qsym_inv Q rt'"
proof -
  have "holds (g_shadow_pages rt') (known_exprs (backend_state rt)) \<and> backend_state rt' = backend_state rt"
    by (rule assms(3)) (use assms(1) in \<open>simp add: qsym_inv_def\<close>)
  then show ?thesis by (intro qsym_inv_memory [OF assms(1,2)]) simp_all
qed

lemma qsym_inv_step:
  "qsym_step Q cfg rt rt' \<Longrightarrow> qsym_inv Q rt \<Longrightarrow> qsym_inv Q rt'"
proof (induction rule: qsym_step.induct)
  case (build args f rt e b)
  have "built Q args (backend_state rt) (Inr (e, b))"
    using qsym_builders_build [OF build(1), of "backend_state rt"] build(2) by simp
  then show ?case
    using build(3) by (intro qsym_inv_backend) (auto simp: built_def qsym_inv_def)
next
  case (read a n le rt v rt')
  show ?case
    using qsym_inv_memory [OF read(2) memory_effect_read [OF read(1)]]
      qsym_registering.live_read [OF memory_live [OF read(2)] read(1)]
    unfolding live_def by metis
next
  case (write_mem a n v le rt rt')
  show ?case
    using qsym_inv_memory [OF write_mem(2) memory_effect_write [OF write_mem(1)]]
      qsym_registering.live_write [OF memory_live [OF write_mem(2)] write_mem(1)]
    by (simp add: live_def)
next
  case (copy dest src n rt rt')
  show ?case by (rule qsym_inv_moved [OF copy(2) memory_effect_memcpy [OF copy(1)] holds_memcpy [OF _ copy(1)]])
next
  case (move dest src n rt rt')
  show ?case by (rule qsym_inv_moved [OF move(2) memory_effect_memmove [OF move(1)] holds_memmove [OF _ move(1)]])
next
  case (set v rt a n rt')
  have "holds (g_shadow_pages rt') (known_exprs (backend_state rt)) \<and> backend_state rt' = backend_state rt"
    by (rule holds_memset [OF _ set(1,2)]) (use set(3) in \<open>simp add: qsym_inv_def\<close>)
  then show ?case by (intro qsym_inv_memory [OF set(3) memory_effect_memset [OF set(2)]]) simp_all
next
  case (cell v rt a)
  then show ?case by (fastforce simp: qsym_inv_def region_exprs_def)
next
  case (region a n rt)
  then show ?case by (simp add: qsym_inv_def registerExpressionRegion_def)
next
  case (collect rt)
  then show ?case by (rule qsym_inv_collect)
next
  case (program rt m r args)
  then show ?case by (simp add: qsym_inv_def)
qed (auto intro: qsym_inv_same dest: push_exprs cover_exprs feasible_exprs)

lemma qsym_inv_steps: "(qsym_step Q cfg)\<^sup>*\<^sup>* rt rt' \<Longrightarrow> qsym_inv Q rt \<Longrightarrow> qsym_inv Q rt'"
  by (induction rule: rtranclp_induct) (auto intro: qsym_inv_step)

text \<open>The run-time library before the program has used it.\<close>

definition unused :: "('e::linorder, 'r, 'q, 's, 'c) qsym_runtime \<Rightarrow> bool" where
  "unused rt \<longleftrightarrow> g_shadow_pages rt = [] \<and> expressionRegions rt = [] \<and> allocatedExprRefs (backend_state rt) = []"

lemma shadow_at_empty [simp]: "shadow_at [] a = None"
  by (simp add: shadow_at_def)

lemma qsym_inv_unused: "unused rt \<Longrightarrow> qsym_inv Q rt"
  by (simp add: unused_def qsym_inv_def refs_match_def holds_def region_exprs_def)

text \<open>C9: The QSYM backend never releases an expression that memory still refers to: after any
  sequence of calls into the run-time library, garbage collections included, every expression
  in shadow memory and in the registered regions is registered, and so a read of memory whose
  shadow expressions are bytes succeeds and yields the value its bytes denote.\<close>

lemma collection_keeps_memory_readable:
  assumes "unused rt0" "(qsym_step Q cfg)\<^sup>*\<^sup>* rt0 rt"
  shows "holds (g_shadow_pages rt) (known_exprs (backend_state rt)) \<and>
    region_exprs rt \<subseteq> known_exprs (backend_state rt) \<and>
    (qsym_bv_laws Q isbv val \<and> g_expr_builder (backend_state rt) \<noteq> None \<and> len \<noteq> 0 \<and>
     unat a + unat len < 2 ^ 64 \<and> 8 * unat len < 2 ^ 32 \<and>
     (\<forall>c e. shadow_at (g_shadow_pages rt) c = Some e \<longrightarrow> isbv e \<and> qsym_width Q e = 8) \<and>
     (\<exists>c \<in> region a (unat len). shadow_at (g_shadow_pages rt) c \<noteq> None) \<longrightarrow>
       (\<exists>e rt'. sym_read_memory (qsym_backend Q cfg) a len le rt = Inr (Some e, rt') \<and>
          qsym_width Q e = 8 * unat len \<and>
          val e = (let vs = bytes_from (sym_byte val rt) a (unat len) in if le then le_value vs else be_value vs)))"
proof -
  have inv: "qsym_inv Q rt" by (rule qsym_inv_steps [OF assms(2) qsym_inv_unused [OF assms(1)]])
  have ok: "shadow_ok (qsym_backend Q cfg) (qsym_usable Q isbv) (g_shadow_pages rt) (backend_state rt) (region a (unat len))"
    if "g_expr_builder (backend_state rt) \<noteq> None"
      "\<forall>c e. shadow_at (g_shadow_pages rt) c = Some e \<longrightarrow> isbv e \<and> qsym_width Q e = 8"
    using inv that
    by (auto simp: shadow_ok_def qsym_usable_def qsym_inv_def word_unat_eq_iff known_exprs_def [symmetric] dest: holdsD)
  have "\<exists>e rt'. sym_read_memory (qsym_backend Q cfg) a len le rt = Inr (Some e, rt') \<and>
      qsym_width Q e = 8 * unat len \<and>
      val e = (let vs = bytes_from (sym_byte val rt) a (unat len) in if le then le_value vs else be_value vs)"
    if r: "qsym_bv_laws Q isbv val" "g_expr_builder (backend_state rt) \<noteq> None" "len \<noteq> 0"
      "unat a + unat len < 2 ^ 64" "8 * unat len < 2 ^ 32"
      "\<forall>c e. shadow_at (g_shadow_pages rt) c = Some e \<longrightarrow> isbv e \<and> qsym_width Q e = 8"
      "\<exists>c \<in> region a (unat len). shadow_at (g_shadow_pages rt) c \<noteq> None"
  proof -
    have "\<not> (\<forall>c \<in> region a (unat len). shadow_at (g_shadow_pages rt) c = None)" using r(7) by simp
    with qsym.read_memory_correct [OF r(1,3-5) ok [OF r(2,6)], of le]
    show ?thesis by (simp only: if_False qsym_backend_simps unat_qsym_bits_helper) blast
  qed
  with inv show ?thesis unfolding qsym_inv_def by blast
qed

definition demo_start :: "(demo_expr, demo_expr, unit, (demo_expr \<times> bool \<times> addr \<times> bool) list, addr list) qsym_runtime" where
  "demo_start = demo_qsym_rt\<lparr>backend_state := demo_qsym_state\<lparr>allocatedExprRefs := []\<rparr>\<rparr>"

lemma demo_start_simps [simp]:
  "g_shadow_pages demo_start = []" "expressionRegions demo_start = []" "memory demo_start = (\<lambda>_. 0)"
  "allocatedExprRefs (backend_state demo_start) = []" "g_expr_builder (backend_state demo_start) = Some ()"
  by (simp_all add: demo_start_def demo_qsym_rt_def demo_qsym_state_def concolic.extend_def qsym_state.fields_def)

lemma collection_keeps_memory_readable_witness:
  "\<exists>rt e rt'. (qsym_step demo_qsym (default_config\<lparr>garbageCollectionThreshold := 0\<rparr>))\<^sup>*\<^sup>* demo_start
      (qsym_collect_garbage (default_config\<lparr>garbageCollectionThreshold := 0\<rparr>) rt) \<and>
    sym_read_memory (qsym_backend demo_qsym (default_config\<lparr>garbageCollectionThreshold := 0\<rparr>)) 0x1000 1 True
      (qsym_collect_garbage (default_config\<lparr>garbageCollectionThreshold := 0\<rparr>) rt) = Inr (Some e, rt') \<and>
    qsym_width demo_qsym e = 8 \<and> snd e = 7"
proof -
  let ?cfg = "default_config\<lparr>garbageCollectionThreshold := 0\<rparr>" and ?step = "qsym_step demo_qsym"
  obtain st1 where st1: "qsym_build_integer demo_qsym 7 8 (backend_state demo_start) = Inr ((8, 7), st1)"
    "known_exprs st1 = {(8, 7)}" "g_expr_builder st1 = Some ()"
    by (auto simp: qsym_build_integer_def qsym_create_def known_exprs_def qsym_registerExpression_def Let_def)
  define rt1 where "rt1 = demo_start\<lparr>backend_state := st1\<rparr>"
  define rt2 where "rt2 = rt1\<lparr>g_shadow_pages := shadow_fill_range 0x1000 1 (Some (8, 7)) (g_shadow_pages rt1)\<rparr>"
  define rt3 where "rt3 = qsym_collect_garbage ?cfg rt2"
  have shadow: "shadow_at (g_shadow_pages rt2) c = (if c = 0x1000 then Some (8, 7) else None)" for c
    by (auto simp: rt2_def rt1_def shadow_at_fill_range in_region_def unsigned_eq_0_iff)
  have "?step ?cfg demo_start rt1"
    unfolding rt1_def by (rule qsym_step.build [OF mk_integer st1(1)])
  moreover have "?step ?cfg rt1 rt2"
    by (rule qsym_step.set [where v = "Some (8, 7)" and a = "0x1000" and n = "1"]) (simp_all add: rt2_def rt1_def st1 sym_memset_def)
  moreover have "?step ?cfg rt2 rt3" unfolding rt3_def by (rule qsym_step.collect)
  ultimately have steps: "(?step ?cfg)\<^sup>*\<^sup>* demo_start rt3" by (meson converse_rtranclp_into_rtranclp rtranclp.rtrancl_refl)
  have "g_expr_builder (backend_state rt3) \<noteq> None" "memory rt3 = (\<lambda>_. 0)" "g_shadow_pages rt3 = g_shadow_pages rt2"
    by (simp_all add: rt3_def rt2_def rt1_def st1 qsym_collect_garbage_def Let_def)
  then have "\<exists>e rt'. sym_read_memory (qsym_backend demo_qsym ?cfg) 0x1000 1 True rt3 = Inr (Some e, rt') \<and>
      qsym_width demo_qsym e = 8 * unat (1 :: addr) \<and>
      snd e = le_value (bytes_from (sym_byte snd rt3) 0x1000 (unat (1 :: addr)))"
    using collection_keeps_memory_readable [OF _ steps, where isbv = demo_pair and val = snd and len = "1"
          and a = "0x1000" and le = True] demo_qsym_bv_laws
    by (simp add: unused_def shadow in_region_def demo_pair_def qsym_width_def)
  moreover have "bytes_from (sym_byte snd rt3) 0x1000 (unat (1 :: addr)) = [7]"
    using shadow by (simp add: sym_byte_def \<open>g_shadow_pages rt3 = _\<close>)
  ultimately show ?thesis using steps unfolding rt3_def by (metis (no_types, lifting) le_value.simps mult_0_right add_0_right unat_1 mult_1_right)
qed

subsection \<open>Memory\<close>

text \<open>C19: With the QSYM backend, too, writing an expression of \<open>len\<close> bytes to memory and reading
  it back in the same byte order yields an expression of the same width and value.\<close>

lemma qsym_memory_round_trip:
  assumes "qsym_bv_laws Q isbv val" "len \<noteq> 0" "8 * unat len < 2 ^ 32" "unat a + unat len < 2 ^ 64"
    "qsym_usable Q isbv (backend_state rt) e" "qsym_width Q e = 8 * unat len"
  shows "\<exists>rt' e' rt''. sym_write_memory (qsym_backend Q cfg) a len (Some e) le rt = Inr rt' \<and>
    sym_read_memory (qsym_backend Q cfg) a len le rt' = Inr (Some e', rt'') \<and>
    qsym_width Q e' = qsym_width Q e \<and> val e' = val e"
  using qsym.memory_round_trip [of Q isbv val len a rt e cfg le] assms
  by (simp add: word_unat_eq_iff)

lemma qsym_memory_round_trip_witness:
  "\<exists>rt' e' rt''. sym_write_memory (qsym_backend demo_qsym default_config) 0x1ffe 4 (Some (32, 0x12345678)) False
      demo_qsym_rt = Inr rt' \<and>
    sym_read_memory (qsym_backend demo_qsym default_config) 0x1ffe 4 False rt' = Inr (Some e', rt'') \<and>
    qsym_width demo_qsym e' = qsym_width demo_qsym (32, 0x12345678) \<and> snd e' = snd (32 :: nat, 0x12345678 :: nat)"
  by (rule qsym_memory_round_trip [OF demo_qsym_bv_laws])
    (auto simp: qsym_usable_def demo_pair_def qsym_width_def refs_match_def demo_qsym_rt_def demo_qsym_state_def
      concolic.extend_def qsym_state.fields_def map_find_def map_wf_def)

subsection \<open>Initialisation\<close>

text \<open>C38: Fully concrete execution (SYMCC_NO_SYMBOLIC_INPUT) leaves the QSYM backend uninitialised,
  but only in a verbose run: with SYMCC_SILENT set the early return is skipped, and the run
  creates the expression builder and the solver, and without an input file it consumes standard
  input, as if symbolic execution had been asked for.\<close>

lemma silent_run_ignores_concrete_mode:
  assumes "\<not> g_initialized (backend_state p)" "loadConfig env g_config0 = Inr cfg" "fullyConcrete cfg"
  shows "\<exists>p'. qsym_initialize Q env tmpname g_config0 p = Inr (cfg, p') \<and>
    (if silent cfg
     then qsym_solver (backend_state p') \<noteq> None \<and> g_expr_builder (backend_state p') \<noteq> None \<and>
       (inputFile cfg = [] \<longrightarrow> inputFileName (backend_state p') = tmpname \<and>
          files (backend_state p') tmpname = Some (standard_input (backend_state p)))
     else p' = p\<lparr>backend_state := (backend_state p)\<lparr>g_initialized := True\<rparr>\<rparr>)"
  using assms by (auto simp: qsym_initialize_def initLibcWrappers_def redirect_input_def Let_def)

lemma silent_run_ignores_concrete_mode_witness:
  "\<exists>p'. qsym_initialize demo_qsym ((\<lambda>_. None)(''SYMCC_SILENT'' \<mapsto> '''', ''SYMCC_NO_SYMBOLIC_INPUT'' \<mapsto> ''1''))
      ''/tmp/x'' default_config
      (runtime.extend (demo_qsym_rt\<lparr>backend_state := demo_qsym_state\<lparr>g_initialized := False, qsym_solver := None\<rparr>\<rparr>)
        (program.fields (-1) 0 0 [] ())) = Inr (default_config\<lparr>fullyConcrete := True, silent := True\<rparr>, p') \<and>
    qsym_solver (backend_state p') \<noteq> None"
proof -
  let ?p = "runtime.extend (demo_qsym_rt\<lparr>backend_state := demo_qsym_state\<lparr>g_initialized := False, qsym_solver := None\<rparr>\<rparr>)
        (program.fields (-1) 0 0 [] ())"
  let ?env = "(\<lambda>_. None)(''SYMCC_SILENT'' \<mapsto> '''', ''SYMCC_NO_SYMBOLIC_INPUT'' \<mapsto> ''1'')"
  have "\<not> g_initialized (backend_state ?p)" by (simp add: runtime.extend_def demo_qsym_rt_def)
  moreover have "loadConfig ?env default_config = Inr (default_config\<lparr>fullyConcrete := True, silent := True\<rparr>)"
    by (simp add: loadConfig_def from_env_def checkFlagString_def tolower_def default_config_def)
  ultimately show ?thesis
    using silent_run_ignores_concrete_mode [of ?p ?env default_config] by force
qed

text \<open>C39: The solver timeout reaches QSYM in milliseconds exactly up to 2147483 seconds. Beyond that
  the product is cut to 32 bits: 2147484 seconds already make a negative timeout.\<close>

lemma solver_timeout_bounds:
  "(unat (solverTimeout cfg) \<le> 2147483 \<longrightarrow>
      sint (solver_timeout_ms cfg) = int (unat (solverTimeout cfg)) * 1000) \<and>
   (solverTimeout cfg = 2147484 \<longrightarrow> sint (solver_timeout_ms cfg) < 0)"
proof (intro conjI impI)
  assume t: "unat (solverTimeout cfg) \<le> 2147483"
  then have "unat (solverTimeout cfg * 1000) = unat (solverTimeout cfg) * 1000"
    by (simp add: unat_mult_lem [THEN iffD1])
  then have "unat (solver_timeout_ms cfg) = unat (solverTimeout cfg) * 1000"
    using t by (simp add: solver_timeout_ms_def unsigned_ucast_eq take_bit_nat_eq_self)
  moreover have "int (unat (solverTimeout cfg)) \<le> 2147483" using t by linarith
  ultimately have "uint (solver_timeout_ms cfg) = int (unat (solverTimeout cfg)) * 1000"
    by (metis of_nat_mult of_nat_numeral uint_nat)
  moreover have "int (unat (solverTimeout cfg)) \<le> 2147483" using t by linarith
  ultimately show "sint (solver_timeout_ms cfg) = int (unat (solverTimeout cfg)) * 1000"
    by (simp add: sint_uint signed_take_bit_int_eq_self order.trans [of _ 0])
next
  assume "solverTimeout cfg = 2147484"
  then show "sint (solver_timeout_ms cfg) < 0" by (simp add: solver_timeout_ms_def)
qed

lemma solver_timeout_bounds_witness:
  "sint (solver_timeout_ms (default_config\<lparr>solverTimeout := 2147484\<rparr>)) < 0"
  using solver_timeout_bounds [of "default_config\<lparr>solverTimeout := 2147484\<rparr>"] by simp

end
