(* ===== verification/CorpusRuns.thy ===== *)
theory CorpusRuns
  imports QsymProps
begin

text \<open>
  The corpus of the pure concolic mode over the life of a process and over many processes: a
  run is a sequence of coverage callbacks and branches followed by \<open>__dtor_runtime\<close>, which
  leaves the corpus files for the next run. \<open>corpus_inv\<close> describes the globals in terms of
  the files found at the start and of the blocks visited so far.
\<close>

subsection \<open>Runs\<close>

datatype 'e event = Visit u32 | Branch "'e option" bool addr

fun run_event ::
  "('e::linorder, 'r, 'q, 's, 'z, 'c) qsym \<Rightarrow> config \<Rightarrow> 'e event \<Rightarrow> ('e, 'r, 'q, 's, 'c) qsym_state \<Rightarrow>
   ('e, 'r, 'q, 's, 'c) qsym_state result" where
  "run_event Q cfg (Visit bb) st = symcc_cov_cb Q bb st"
| "run_event Q cfg (Branch c taken site) st = qsym_push_path_constraint Q cfg c taken site st"

fun run_events ::
  "('e::linorder, 'r, 'q, 's, 'z, 'c) qsym \<Rightarrow> config \<Rightarrow> 'e event list \<Rightarrow> ('e, 'r, 'q, 's, 'c) qsym_state \<Rightarrow>
   ('e, 'r, 'q, 's, 'c) qsym_state result" where
  "run_events Q cfg [] st = Inr st"
| "run_events Q cfg (e # es) st = bind_result (run_event Q cfg e st) (run_events Q cfg es)"

fun visits :: "'e event list \<Rightarrow> u32 list" where
  "visits [] = []"
| "visits (Visit bb # es) = bb # visits es"
| "visits (Branch c taken site # es) = visits es"

text \<open>A branch whose condition depends on the input.\<close>

fun symbolic_branch :: "'e event \<Rightarrow> bool" where
  "symbolic_branch (Branch (Some c) taken site) = True"
| "symbolic_branch _ = False"

subsection \<open>What the files say\<close>

definition corpus_counts :: "(string \<Rightarrow> string option) \<Rightarrow> u32 \<Rightarrow> u32 option" where
  "corpus_counts fs = map_find (read_counters 0 0 (lines_of_file fs ''corpus_counters.stats'') [])"

definition visit_count :: "u32 list \<Rightarrow> u32 \<Rightarrow> u32 option" where
  "visit_count vs k = (let n = count_list vs k in if n = 0 then None else Some (of_nat n))"

definition corpus_inv ::
  "(string \<Rightarrow> string option) \<Rightarrow> u32 list \<Rightarrow> bool \<Rightarrow> 'x concolic_scheme \<Rightarrow> bool" where
  "corpus_inv fs vs loaded c \<longleftrightarrow>
     files c = fs \<and> \<not> dtor_done c \<and> map_wf (counter_map c) \<and> map_find (counter_map c) = visit_count vs \<and>
     curr_trace_map c = sum_list (remdups vs) \<and> just_visited_bb c = (if vs = [] then 0 else last vs) \<and>
     map_initialsed c = loaded \<and> prev_blocks_initialised c = loaded \<and> tracemaps_initialised c = loaded \<and>
     old_counter_map c = (if loaded then read_counters 0 0 (lines_of_file fs ''corpus_counters.stats'') [] else []) \<and>
     (\<exists>new0 new1 newt.
        takens_0 c = (if loaded then read_numbers fs ''prev_0s.txt'' @ new0 else []) \<and>
        takens_1 c = (if loaded then read_numbers fs ''prev_1s.txt'' @ new1 else []) \<and>
        trace_maps c = (if loaded then read_numbers fs ''trace_maps.txt'' @ newt else []))"

lemma visit_count_snoc:
  "visit_count (vs @ [bb]) k =
     (if k = bb then (case visit_count vs bb of None \<Rightarrow> Some 1 | Some v \<Rightarrow> Some (v + 1)) else visit_count vs k)"
  by (simp add: visit_count_def Let_def)

lemma visit_count_None: "visit_count vs k = None \<longleftrightarrow> k \<notin> set vs"
  by (simp add: visit_count_def count_list_0_iff)

lemma sum_remdups: "sum_list (remdups vs) = (\<Sum>x\<in>set vs. x :: u32)"
  by (simp add: distinct_sum_list_conv_Sum)

lemma corpus_inv_fresh: "corpus_inv fs [] False (fresh_process fs)"
  by (simp add: corpus_inv_def fresh_process_def visit_count_def fun_eq_iff)

lemma count_block_frame [simp]:
  "takens_0 (count_block bb c) = takens_0 c" "takens_1 (count_block bb c) = takens_1 c"
  "trace_maps (count_block bb c) = trace_maps c" "files (count_block bb c) = files c"
  "old_counter_map (count_block bb c) = old_counter_map c" "dtor_done (count_block bb c) = dtor_done c"
  "map_initialsed (count_block bb c) = map_initialsed c" "site_ids (count_block bb c) = site_ids c"
  "prev_blocks_initialised (count_block bb c) = prev_blocks_initialised c"
  "tracemaps_initialised (count_block bb c) = tracemaps_initialised c"
  by (simp_all add: count_block_def split: option.split)

lemma corpus_inv_visit:
  assumes "corpus_inv fs vs loaded c"
  shows "corpus_inv fs (vs @ [bb]) loaded ((count_block bb c)\<lparr>just_visited_bb := bb\<rparr>)"
proof -
  have find: "map_find (counter_map c) bb = visit_count vs bb" using assms by (simp add: corpus_inv_def)
  have m: "map_find (counter_map (count_block bb c)) = visit_count (vs @ [bb])"
    using assms by (auto simp: corpus_inv_def count_block_def visit_count_snoc fun_eq_iff split: option.split)
  have t: "curr_trace_map (count_block bb c) = sum_list (remdups (vs @ [bb]))"
  proof (cases "bb \<in> set vs")
    case True
    then obtain v where "visit_count vs bb = Some v" using visit_count_None [of vs bb] by auto
    then show ?thesis
      using assms find True by (simp add: count_block_def corpus_inv_def sum_remdups insert_absorb)
  next
    case False
    then have "visit_count vs bb = None" by (simp add: visit_count_None)
    then show ?thesis
      using assms find False by (simp add: count_block_def corpus_inv_def sum_remdups add.commute)
  qed
  have "map_wf (counter_map (count_block bb c))"
    using assms by (auto simp: corpus_inv_def count_block_def split: option.split)
  with m t assms show ?thesis by (simp add: corpus_inv_def)
qed

lemma corpus_inv_load:
  "corpus_inv fs vs loaded c \<Longrightarrow> corpus_inv fs vs True (load_corpus c)"
  by (auto simp: corpus_inv_def load_corpus_def load_counters_def load_trace_maps_def load_prev_blocks_def)

lemma remember_branch_grows: "\<exists>new. snd (remember_branch bb t xs) = xs @ new"
  by (simp add: remember_branch_def remember_def Let_def)


lemma corpus_inv_save:
  assumes "corpus_inv fs vs loaded c"
  shows "corpus_inv fs vs True (snd (pure_concolic_should_save taken site c))"
proof -
  let ?c = "load_corpus c"
  have load: "corpus_inv fs vs True ?c" by (rule corpus_inv_load [OF assms])
  obtain new0 where 0: "snd (remember_branch (just_visited_bb ?c) (curr_trace_map ?c) (takens_0 ?c)) = takens_0 ?c @ new0"
    using remember_branch_grows by blast
  obtain new1 where 1: "snd (remember_branch (just_visited_bb ?c) (curr_trace_map ?c) (takens_1 ?c)) = takens_1 ?c @ new1"
    using remember_branch_grows by blast
  have t: "\<exists>newt. snd (remember x xs) = xs @ newt" for x xs by (simp add: remember_def Let_def)
  obtain newt where t: "snd (remember (curr_trace_map ?c) (trace_maps ?c)) = trace_maps ?c @ newt"
    using t by blast
  show ?thesis
    using load 0 1 t by (cases taken) (auto simp: corpus_inv_def pure_concolic_should_save_def allow_known_site_def Let_def split_def)
qed

lemma corpus_inv_truncate: "corpus_inv fs vs loaded (concolic.truncate c) = corpus_inv fs vs loaded c"
  by (simp add: corpus_inv_def concolic.truncate_def)

lemma corpus_inv_event:
  assumes "is_pure_concolic cfg" "run_event Q cfg e st = Inr st'" "corpus_inv fs vs loaded st"
  shows "corpus_inv fs (vs @ visits [e]) (loaded \<or> symbolic_branch e) st'"
proof (cases e)
  case (Visit bb)
  have "concolic.truncate st' = concolic.truncate ((count_block bb st)\<lparr>just_visited_bb := bb\<rparr>)"
    using assms(2) Visit
    by (auto simp: symcc_cov_cb_def Let_def bind_result_eq_Inr concolic.truncate_def split: if_splits)
  moreover have "corpus_inv fs (vs @ [bb]) loaded (concolic.truncate ((count_block bb st)\<lparr>just_visited_bb := bb\<rparr>))"
    using corpus_inv_visit [OF assms(3), of bb] by (simp only: corpus_inv_truncate)
  ultimately show ?thesis using Visit corpus_inv_truncate [of fs "vs @ [bb]" loaded st'] by simp
next
  case (Branch c taken site)
  show ?thesis
  proof (cases c)
    case None
    with Branch assms show ?thesis by (simp add: qsym_push_path_constraint_def)
  next
    case (Some x)
    then obtain s where "st' = (snd (pure_concolic_should_save taken site st))\<lparr>qsym_solver := s\<rparr>"
      using assms(1,2) Branch
      by (auto simp: qsym_push_path_constraint_def Let_def split_def bind_result_eq_Inr)
    with corpus_inv_save [OF assms(3), of taken site] Branch Some show ?thesis by (simp add: corpus_inv_def)
  qed
qed


lemma visits_Cons: "visits (e # es) = visits [e] @ visits es"
  by (cases e) simp_all

lemma corpus_inv_events:
  assumes "is_pure_concolic cfg"
  shows "run_events Q cfg es st = Inr st' \<Longrightarrow> corpus_inv fs vs loaded st \<Longrightarrow>
    corpus_inv fs (vs @ visits es) (loaded \<or> list_ex symbolic_branch es) st'"
proof (induction es arbitrary: st vs loaded)
  case (Cons e es)
  then obtain st1 where st1: "run_event Q cfg e st = Inr st1" "run_events Q cfg es st1 = Inr st'"
    by (auto simp: bind_result_eq_Inr)
  from Cons.IH [OF st1(2) corpus_inv_event [OF assms st1(1) Cons.prems(2)]]
  show ?case by (simp add: visits_Cons [of e es] disj_assoc)
qed simp

subsection \<open>What a run leaves behind\<close>

definition end_files :: "config \<Rightarrow> ('e, 'r, 'q, 's, 'c) qsym_state \<Rightarrow> string \<Rightarrow> string option" where
  "end_files cfg st = files (snd (dtor_runtime cfg st))"

text \<open>A state of a new process whose concolic part is that of \<open>fresh_process\<close>.\<close>

definition new_process :: "(string \<Rightarrow> string option) \<Rightarrow> ('e, 'r, 'q, 's, 'c) qsym_state \<Rightarrow> bool" where
  "new_process fs st \<longleftrightarrow> concolic.truncate st = fresh_process fs"

lemma corpus_inv_run:
  assumes "is_pure_concolic cfg" "new_process fs st" "run_events Q cfg es st = Inr st'"
  shows "corpus_inv fs (visits es) (list_ex symbolic_branch es) st'"
proof -
  have "corpus_inv fs [] False st"
    using corpus_inv_fresh [of fs] assms(2) corpus_inv_truncate [of fs "[]" False st] by (simp add: new_process_def)
  from corpus_inv_events [OF assms(1,3) this] show ?thesis by simp
qed

lemma read_files_dtor:
  assumes "\<not> dtor_done c" "map_wf (old_counter_map c)"
  shows "corpus_counts (files (snd (dtor_pure_concolic c))) =
      map_find (merge_counters (old_counter_map c) (counter_map c))"
    "read_numbers (files (snd (dtor_pure_concolic c))) ''prev_0s.txt'' = takens_0 c"
    "read_numbers (files (snd (dtor_pure_concolic c))) ''prev_1s.txt'' = takens_1 c"
    "read_numbers (files (snd (dtor_pure_concolic c))) ''trace_maps.txt'' = trace_maps c"
proof -
  have "map_wf (merge_counters (old_counter_map c) (counter_map c))" using assms(2) by simp
  then show "corpus_counts (files (snd (dtor_pure_concolic c))) =
      map_find (merge_counters (old_counter_map c) (counter_map c))"
    using assms(1) by (simp add: corpus_counts_def dtor_pure_concolic_def Let_def lines_of_file_def read_write_counters)
qed (use assms(1) in \<open>simp_all add: dtor_pure_concolic_def Let_def read_write_numbers\<close>)

text \<open>One run from files to files, and a sequence of runs, each in a new process.\<close>

inductive corpus_run ::
  "('e::linorder, 'r, 'q, 's, 'z, 'c) qsym \<Rightarrow> config \<Rightarrow> (string \<Rightarrow> string option) \<Rightarrow> 'e event list \<Rightarrow>
   (string \<Rightarrow> string option) \<Rightarrow> bool"
  for Q :: "('e::linorder, 'r, 'q, 's, 'z, 'c) qsym" and cfg :: config where
  run: "new_process fs st \<Longrightarrow> run_events Q cfg es st = Inr st' \<Longrightarrow> corpus_run Q cfg fs es (end_files cfg st')"

inductive_simps corpus_run_iff: "corpus_run Q cfg fs es fs'"

inductive corpus_runs ::
  "('e::linorder, 'r, 'q, 's, 'z, 'c) qsym \<Rightarrow> config \<Rightarrow> (string \<Rightarrow> string option) \<Rightarrow> 'e event list list \<Rightarrow>
   (string \<Rightarrow> string option) \<Rightarrow> bool"
  for Q :: "('e::linorder, 'r, 'q, 's, 'z, 'c) qsym" and cfg :: config where
  none: "corpus_runs Q cfg fs [] fs"
| more: "corpus_run Q cfg fs es fs1 \<Longrightarrow> corpus_runs Q cfg fs1 ess fs' \<Longrightarrow> corpus_runs Q cfg fs (es # ess) fs'"

lemma corpus_run_effect:
  assumes "is_pure_concolic cfg" "corpus_run Q cfg fs es fs'" "list_ex symbolic_branch es"
  shows "corpus_counts fs' k = larger_count (corpus_counts fs k) (visit_count (visits es) k)"
    "name \<in> {''prev_0s.txt'', ''prev_1s.txt'', ''trace_maps.txt''} \<Longrightarrow>
     \<exists>new. read_numbers fs' name = read_numbers fs name @ new"
proof -
  obtain st st' where r: "new_process fs st" "run_events Q cfg es st = Inr st'" "fs' = end_files cfg st'"
    using assms(2) by (auto simp: corpus_run_iff)
  have inv: "corpus_inv fs (visits es) True st'" using corpus_inv_run [OF assms(1) r(1,2)] assms(3) by simp
  have fs': "fs' = files (snd (dtor_pure_concolic st'))"
    using r(3) assms(1) by (simp add: end_files_def dtor_runtime_def)
  have "\<not> dtor_done st'" "map_wf (old_counter_map st')" using inv by (auto simp: corpus_inv_def)
  note files = read_files_dtor [OF this, folded fs']
  show "corpus_counts fs' k = larger_count (corpus_counts fs k) (visit_count (visits es) k)"
    using inv unfolding files(1) by (simp add: map_find_merge corpus_inv_def) (simp add: corpus_counts_def)
  assume "name \<in> {''prev_0s.txt'', ''prev_1s.txt'', ''trace_maps.txt''}"
  then show "\<exists>new. read_numbers fs' name = read_numbers fs name @ new"
    using inv files(2-4) by (auto simp: corpus_inv_def)
qed

text \<open>C8: The corpus in pure concolic mode grows monotonically over any number of runs, provided
  that each of them meets a branch on symbolic data: afterwards every counter in
  corpus_counters.stats is the largest of its initial value and its counts in the runs, and the
  files prev_0s.txt, prev_1s.txt and trace_maps.txt still start with what they held.\<close>

lemma corpus_accumulates:
  assumes "is_pure_concolic cfg" "corpus_runs Q cfg fs ess fs'"
    "\<forall>es \<in> set ess. list_ex symbolic_branch es"
  shows "corpus_counts fs' k =
      fold (\<lambda>es m. larger_count m (visit_count (visits es) k)) ess (corpus_counts fs k) \<and>
    (\<forall>name \<in> {''prev_0s.txt'', ''prev_1s.txt'', ''trace_maps.txt''}.
       \<exists>new. read_numbers fs' name = read_numbers fs name @ new)"
  using assms(2,3)
proof (induction rule: corpus_runs.induct)
  case (more fs es fs1 ess fs')
  have ex: "list_ex symbolic_branch es" using more.prems by simp
  note run = corpus_run_effect [OF assms(1) more.hyps(1) ex]
  have IH: "corpus_counts fs' k =
      fold (\<lambda>es m. larger_count m (visit_count (visits es) k)) ess (corpus_counts fs1 k)"
    "\<And>name. name \<in> {''prev_0s.txt'', ''prev_1s.txt'', ''trace_maps.txt''} \<Longrightarrow>
       \<exists>new. read_numbers fs' name = read_numbers fs1 name @ new"
    using more.IH more.prems by auto
  have "\<exists>new. read_numbers fs' name = read_numbers fs name @ new"
    if "name \<in> {''prev_0s.txt'', ''prev_1s.txt'', ''trace_maps.txt''}" for name
    using run(2) [OF that] IH(2) [OF that] by auto
  with IH(1) run(1) show ?case by simp
qed simp

text \<open>C31: A run in pure concolic mode that meets no branch on symbolic data destroys the corpus: the
  files of earlier runs are only loaded when the first constraint is pushed, but written at every
  exit. Afterwards the counters are those of the last run alone, and the lists of solved
  branches and traces are empty.\<close>

lemma concrete_run_erases_corpus:
  assumes "is_pure_concolic cfg" "corpus_run Q cfg fs es fs'" "\<not> list_ex symbolic_branch es"
  shows "corpus_counts fs' = visit_count (visits es) \<and> read_numbers fs' ''prev_0s.txt'' = [] \<and>
    read_numbers fs' ''prev_1s.txt'' = [] \<and> read_numbers fs' ''trace_maps.txt'' = []"
proof -
  obtain st st' where r: "new_process fs st" "run_events Q cfg es st = Inr st'" "fs' = end_files cfg st'"
    using assms(2) by (auto simp: corpus_run_iff)
  have inv: "corpus_inv fs (visits es) False st'" using corpus_inv_run [OF assms(1) r(1,2)] assms(3) by simp
  have fs': "fs' = files (snd (dtor_pure_concolic st'))"
    using r(3) assms(1) by (simp add: end_files_def dtor_runtime_def)
  have "\<not> dtor_done st'" "map_wf (old_counter_map st')" using inv by (auto simp: corpus_inv_def)
  note files = read_files_dtor [OF this, folded fs']
  have "corpus_counts fs' = visit_count (visits es)"
    by (rule ext) (use inv in \<open>simp add: files(1) map_find_merge corpus_inv_def\<close>)
  then show ?thesis using inv files(2-4) by (simp add: corpus_inv_def)
qed

text \<open>The coverage callback: at any time the counter of a block is the number of its visits in
  this run (modulo 2^32; blocks never visited have none), the trace number is the sum of the
  identifiers of the blocks visited, each counted once, so it does not depend on their order,
  and the current block is the last one visited.\<close>

lemma coverage_counts:
  assumes "is_pure_concolic cfg" "new_process fs st" "run_events Q cfg es st = Inr st'"
  shows "map_find (counter_map st') bb =
      (if bb \<in> set (visits es) then Some (of_nat (count_list (visits es) bb)) else None) \<and>
    curr_trace_map st' = (\<Sum>b \<in> set (visits es). b) \<and>
    just_visited_bb st' = (if visits es = [] then 0 else last (visits es))"
  using corpus_inv_run [OF assms]
  by (auto simp: corpus_inv_def visit_count_def Let_def sum_remdups count_list_0_iff)

lemma fst_remember_branch: "fst (remember_branch bb t xs) \<longleftrightarrow> bb \<notin> set xs \<or> t \<notin> set xs"
  by (auto simp: remember_branch_def remember_def Let_def)

lemma set_remember_branch: "set (snd (remember_branch bb t xs)) = {bb, t} \<union> set xs"
  by (auto simp: remember_branch_def remember_def Let_def)

text \<open>C20: The decision to save at a branch. With the corpus loaded, an input is saved exactly if some
  counter of this run is new or larger than in the corpus, or the block or the trace has not
  been seen before with this outcome of a branch, or the trace is new altogether, or the site
  has been saved earlier in this run. Afterwards block and trace count as seen, the site is
  remembered if it was saved, and the solver knows whether a save was blocked.\<close>

lemma should_save_spec:
  fixes st :: "'x concolic_scheme" and site :: addr and taken :: bool
  defines "c \<equiv> load_corpus st" and "c' \<equiv> snd (pure_concolic_should_save taken site st)"
  shows "(fst (pure_concolic_should_save taken site st) \<longleftrightarrow>
      (\<exists>(bb, v) \<in> set (counter_map c). larger_count (map_find (old_counter_map c) bb) (Some v) \<noteq> map_find (old_counter_map c) bb) \<or>
      just_visited_bb c \<notin> set (if taken then takens_1 c else takens_0 c) \<or>
      curr_trace_map c \<notin> set (if taken then takens_1 c else takens_0 c) \<or>
      curr_trace_map c \<notin> set (trace_maps c) \<or> site \<in> set (site_ids c)) \<and>
    set (if taken then takens_1 c' else takens_0 c') =
      {just_visited_bb c, curr_trace_map c} \<union> set (if taken then takens_1 c else takens_0 c) \<and>
    (if taken then takens_0 c' = takens_0 c else takens_1 c' = takens_1 c) \<and>
    set (trace_maps c') = {curr_trace_map c} \<union> set (trace_maps c) \<and>
    set (site_ids c') = (if fst (pure_concolic_should_save taken site st) then {site} else {}) \<union> set (site_ids c) \<and>
    previosuly_blocked_a_save c' = (\<not> fst (pure_concolic_should_save taken site st)) \<and>
    counter_map c' = counter_map c \<and> old_counter_map c' = old_counter_map c"
proof -
  have t: "fst (remember x xs) \<longleftrightarrow> x \<notin> set xs" "set (snd (remember x xs)) = {x} \<union> set xs" for x xs
    by (auto simp: remember_def Let_def)
  show ?thesis
    unfolding c_def c'_def pure_concolic_should_save_def allow_known_site_def Let_def split_def
    by (cases taken) (auto simp: counters_improved_iff split_def t fst_remember_branch set_remember_branch)
qed

subsection \<open>Witnesses\<close>

definition demo_concolic :: config where
  "demo_concolic = default_config\<lparr>is_pure_concolic := True\<rparr>"

lemma demo_new_process: "new_process (\<lambda>_. None) demo_qsym_state"
  by (simp add: new_process_def demo_qsym_state_def concolic.extend_def concolic.truncate_def
      qsym_state.fields_def fresh_process_def)

text \<open>Two visits of a block and a branch on symbolic data between them.\<close>

definition demo_events :: "demo_expr event list" where
  "demo_events = [Visit 5, Branch (Some (1, 1)) True 7, Visit 5]"

lemma demo_events_run: "\<exists>st'. run_events demo_qsym demo_concolic demo_events demo_qsym_state = Inr st'"
  by (simp add: demo_events_def demo_concolic_def symcc_cov_cb_def qsym_push_path_constraint_def
      demo_qsym_state_def concolic.extend_def qsym_state.fields_def fresh_process_def count_block_def
      pure_concolic_should_save_def allow_known_site_def load_corpus_def load_prev_blocks_def load_trace_maps_def load_counters_def
      Let_def split_def map_at_def map_find_def)

lemma demo_concrete_run: "\<exists>st'. run_events demo_qsym demo_concolic [Visit 5, Branch None True 7] demo_qsym_state = Inr st'"
  by (simp add: demo_concolic_def symcc_cov_cb_def qsym_push_path_constraint_def demo_qsym_state_def
      concolic.extend_def qsym_state.fields_def fresh_process_def count_block_def Let_def map_find_def)

lemma demo_pure_concolic [simp]: "is_pure_concolic demo_concolic"
  by (simp add: demo_concolic_def)

lemma corpus_accumulates_witness:
  "\<exists>fs'. corpus_runs demo_qsym demo_concolic (\<lambda>_. None) [demo_events] fs' \<and> corpus_counts fs' 5 = Some 2"
proof -
  obtain st' where "run_events demo_qsym demo_concolic demo_events demo_qsym_state = Inr st'"
    using demo_events_run by blast
  from corpus_run.intros [OF demo_new_process this]
  have run: "corpus_runs demo_qsym demo_concolic (\<lambda>_. None) [demo_events] (end_files demo_concolic st')"
    by (rule corpus_runs.more [OF _ corpus_runs.none])
  have "corpus_counts (end_files demo_concolic st') 5 = Some 2"
    using corpus_accumulates [OF demo_pure_concolic run, of 5]
    by (simp add: demo_events_def corpus_counts_def lines_of_file_def visit_count_def)
  with run show ?thesis by blast
qed

lemma concrete_run_erases_corpus_witness:
  "\<exists>fs'. corpus_run demo_qsym demo_concolic (\<lambda>_. None) [Visit 5, Branch None True 7] fs' \<and>
    read_numbers fs' ''trace_maps.txt'' = []"
proof -
  obtain st' where "run_events demo_qsym demo_concolic [Visit 5, Branch None True 7] demo_qsym_state = Inr st'"
    using demo_concrete_run by blast
  note run = corpus_run.intros [OF demo_new_process this]
  from concrete_run_erases_corpus [OF demo_pure_concolic run] run show ?thesis by auto
qed

lemma coverage_counts_witness:
  "\<exists>st'. run_events demo_qsym demo_concolic demo_events demo_qsym_state = Inr st' \<and>
    map_find (counter_map st') 5 = Some 2 \<and> curr_trace_map st' = 5"
proof -
  obtain st' where run: "run_events demo_qsym demo_concolic demo_events demo_qsym_state = Inr st'"
    using demo_events_run by blast
  from coverage_counts [OF demo_pure_concolic demo_new_process run, of 5] run show ?thesis
    by (simp add: demo_events_def)
qed

lemma should_save_spec_witness:
  "fst (pure_concolic_should_save True 7 (count_block 5 (fresh_process (\<lambda>_. None)))) \<and>
   \<not> previosuly_blocked_a_save (snd (pure_concolic_should_save True 7 (count_block 5 (fresh_process (\<lambda>_. None)))))"
  using should_save_spec [of True 7 "count_block 5 (fresh_process (\<lambda>_. None))"]
  by (simp add: load_corpus_def load_prev_blocks_def load_trace_maps_def load_counters_def fresh_process_def
      count_block_def read_numbers_def lines_of_file_def)

end
