(* ===== verification/KleeLibc.thy ===== *)
theory KleeLibc
  imports LibcWrappers
begin

text \<open>
  models/klee-libc: the C library functions that are compiled with the symbolic compiler, so
  that instrumented programs run them on symbolic data. Memory is a function from addresses to
  bytes, \<open>char\<close> is signed. A loop with no bound of its own is a \<open>partial_function\<close> with value
  \<open>None\<close> when it does not end; loops that count down are recursive in their counter.
\<close>

abbreviation c_char :: "byte \<Rightarrow> int" where
  "c_char b \<equiv> sint b"

subsection \<open>Strings\<close>

partial_function (option) strlen_loop :: "mem \<Rightarrow> addr \<Rightarrow> addr option" where
  "strlen_loop m s = (if m s \<noteq> 0 then strlen_loop m (s + 1) else Some s)"

definition klee_strlen :: "mem \<Rightarrow> addr \<Rightarrow> addr option" where
  "klee_strlen m str = map_option (\<lambda>s. s - str) (strlen_loop m str)"

partial_function (option) strcmp_loop :: "mem \<Rightarrow> addr \<Rightarrow> addr \<Rightarrow> int option" where
  "strcmp_loop m a b =
     (if m a \<noteq> 0 \<and> m a = m b then strcmp_loop m (a + 1) (b + 1) else Some (c_char (m a) - c_char (m b)))"

definition klee_strcmp :: "mem \<Rightarrow> addr \<Rightarrow> addr \<Rightarrow> int option" where
  "klee_strcmp = strcmp_loop"

definition klee_strcoll :: "mem \<Rightarrow> addr \<Rightarrow> addr \<Rightarrow> int option" where
  "klee_strcoll = klee_strcmp"

partial_function (option) klee_strchr_loop :: "mem \<Rightarrow> byte \<Rightarrow> addr \<Rightarrow> addr option option" where
  "klee_strchr_loop m c p =
     (if m p = c then Some (Some p) else if m p = 0 then Some None else klee_strchr_loop m c (p + 1))"

definition klee_strchr :: "mem \<Rightarrow> addr \<Rightarrow> int \<Rightarrow> addr option option" where
  "klee_strchr m p ch = klee_strchr_loop m (word_of_int ch) p"

partial_function (option) strrchr_loop :: "mem \<Rightarrow> byte \<Rightarrow> addr option \<Rightarrow> addr \<Rightarrow> addr option option" where
  "strrchr_loop m ch l t =
     (let l' = (if m t = ch then Some t else l)
      in if m t = 0 then Some l' else strrchr_loop m ch l' (t + 1))"

definition klee_strrchr :: "mem \<Rightarrow> addr \<Rightarrow> int \<Rightarrow> addr option option" where
  "klee_strrchr m t c = strrchr_loop m (word_of_int c) None t"

text \<open>The copying loops; the pair has the memory and the address of the terminator written.\<close>

partial_function (option) strcpy_loop :: "mem \<Rightarrow> addr \<Rightarrow> addr \<Rightarrow> (mem \<times> addr) option" where
  "strcpy_loop m dest src =
     (let m1 = m(dest := m src)
      in if m src \<noteq> 0 then strcpy_loop m1 (dest + 1) (src + 1) else Some (m1, dest))"

definition klee_strcpy :: "mem \<Rightarrow> addr \<Rightarrow> addr \<Rightarrow> (addr \<times> mem) option" where
  "klee_strcpy m dest src = map_option (\<lambda>(m', _). (dest, m')) (strcpy_loop m dest src)"

definition klee_stpcpy :: "mem \<Rightarrow> addr \<Rightarrow> addr \<Rightarrow> (addr \<times> mem) option" where
  "klee_stpcpy m dest src = map_option (\<lambda>(m', stop). (stop, m')) (strcpy_loop m dest src)"

definition klee_strcat :: "mem \<Rightarrow> addr \<Rightarrow> addr \<Rightarrow> (addr \<times> mem) option" where
  "klee_strcat m s extra =
     Option.bind (strlen_loop m s) (\<lambda>stop.
       map_option (\<lambda>(m', _). (s, m')) (strcpy_loop m stop extra))"

subsection \<open>Bounded loops\<close>

fun bcmp_loop :: "mem \<Rightarrow> addr \<Rightarrow> addr \<Rightarrow> nat \<Rightarrow> int" where
  "bcmp_loop m p1 p2 0 = 0"
| "bcmp_loop m p1 p2 (Suc n) = (if m p1 \<noteq> m p2 then 1 else bcmp_loop m (p1 + 1) (p2 + 1) n)"

definition klee_bcmp :: "mem \<Rightarrow> addr \<Rightarrow> addr \<Rightarrow> addr \<Rightarrow> int" where
  "klee_bcmp m s1 s2 n = bcmp_loop m s1 s2 (unat n)"

text \<open>\<open>memchr\<close> compares the byte as \<open>unsigned char\<close> with the \<open>int\<close> as it is.\<close>

fun memchr_loop :: "mem \<Rightarrow> addr \<Rightarrow> int \<Rightarrow> nat \<Rightarrow> addr option" where
  "memchr_loop m p c 0 = None"
| "memchr_loop m p c (Suc n) = (if uint (m p) = c then Some p else memchr_loop m (p + 1) c n)"

definition klee_memchr :: "mem \<Rightarrow> addr \<Rightarrow> int \<Rightarrow> addr \<Rightarrow> addr option" where
  "klee_memchr m s c n = (if n \<noteq> 0 then memchr_loop m s c (unat n) else None)"

fun strncmp_loop :: "mem \<Rightarrow> addr \<Rightarrow> addr \<Rightarrow> nat \<Rightarrow> int" where
  "strncmp_loop m s1 s2 0 = 0"
| "strncmp_loop m s1 s2 (Suc n) =
     (if m s1 \<noteq> m s2 then uint (m s1) - uint (m s2)
      else if m s1 = 0 then 0 else strncmp_loop m (s1 + 1) (s2 + 1) n)"

definition klee_strncmp :: "mem \<Rightarrow> addr \<Rightarrow> addr \<Rightarrow> addr \<Rightarrow> int" where
  "klee_strncmp m s1 s2 n = (if n = 0 then 0 else strncmp_loop m s1 s2 (unat n))"

fun pad_loop :: "mem \<Rightarrow> addr \<Rightarrow> nat \<Rightarrow> mem" where
  "pad_loop m d 0 = m"
| "pad_loop m d (Suc n) = pad_loop (m(d := 0)) (d + 1) n"

fun strncpy_loop :: "mem \<Rightarrow> addr \<Rightarrow> addr \<Rightarrow> nat \<Rightarrow> mem" where
  "strncpy_loop m d s 0 = m"
| "strncpy_loop m d s (Suc n) =
     (let m1 = m(d := m s)
      in if m s = 0 then pad_loop m1 (d + 1) n else strncpy_loop m1 (d + 1) (s + 1) n)"

definition klee_strncpy :: "mem \<Rightarrow> addr \<Rightarrow> addr \<Rightarrow> addr \<Rightarrow> addr \<times> mem" where
  "klee_strncpy m dst src n = (dst, if n \<noteq> 0 then strncpy_loop m dst src (unat n) else m)"

definition klee_mempcpy :: "mem \<Rightarrow> addr \<Rightarrow> addr \<Rightarrow> addr \<Rightarrow> addr \<times> mem" where
  "klee_mempcpy m destaddr srcaddr len = (destaddr + len, copy_memory destaddr srcaddr (unat len) m)"

subsection \<open>Characters and byte order\<close>

definition klee_tolower :: "u32 \<Rightarrow> u32" where
  "klee_tolower ch = (if ch - 65 < 26 then ch - (65 - 97) else ch)"

definition klee_toupper :: "u32 \<Rightarrow> u32" where
  "klee_toupper ch = (if ch - 97 < 26 then ch + (65 - 97) else ch)"

definition klee_htons :: "16 word \<Rightarrow> 16 word" where
  "klee_htons v = drop_bit 8 v OR push_bit 8 v"

definition klee_htonl :: "u32 \<Rightarrow> u32" where
  "klee_htonl v = ucast (klee_htons (ucast (drop_bit 16 v))) OR push_bit 16 (ucast (klee_htons (ucast v)))"

definition klee_ntohs :: "16 word \<Rightarrow> 16 word" where
  "klee_ntohs = klee_htons"

definition klee_ntohl :: "u32 \<Rightarrow> u32" where
  "klee_ntohl = klee_htonl"

text \<open>\<open>putchar\<close> on the result of \<open>write(1, &x, 1)\<close>.\<close>

definition klee_putchar :: "(byte \<Rightarrow> 'w \<Rightarrow> int \<times> 'w) \<Rightarrow> int \<Rightarrow> 'w \<Rightarrow> int \<times> 'w" where
  "klee_putchar write_stdout c w =
     (let (n, w') = write_stdout (word_of_int c) w in (if n = 1 then c else EOF, w'))"

subsection \<open>Numbers\<close>

definition digit_value :: "int \<Rightarrow> int option" where
  "digit_value c =
     (if 48 \<le> c \<and> c \<le> 57 then Some (c - 48)
      else if 65 \<le> c \<and> c \<le> 90 then Some (c - (65 - 10))
      else if 97 \<le> c \<and> c \<le> 122 then Some (c - (97 - 10))
      else None)"

definition c_isspace :: "byte \<Rightarrow> bool" where
  "c_isspace b \<longleftrightarrow> b = 32 \<or> (9 \<le> b \<and> b \<le> 13)"

text \<open>\<open>do c = *s++; while (isspace(c))\<close>: the character and the address behind it.\<close>

partial_function (option) space_loop :: "mem \<Rightarrow> addr \<Rightarrow> (byte \<times> addr) option" where
  "space_loop m s = (if c_isspace (m s) then space_loop m (s + 1) else Some (m s, s + 1))"

text \<open>The loop over the digits: \<open>any\<close> and \<open>acc\<close> as in the source, and the final \<open>s\<close>.\<close>

partial_function (option) digit_loop ::
  "mem \<Rightarrow> int \<Rightarrow> u64 \<Rightarrow> int \<Rightarrow> byte \<Rightarrow> addr \<Rightarrow> int \<Rightarrow> u64 \<Rightarrow> (int \<times> u64 \<times> addr) option" where
  "digit_loop m base cutoff cutlim c s any acc =
     (case digit_value (c_char c) of
        None \<Rightarrow> Some (any, acc, s)
      | Some d \<Rightarrow>
          if base \<le> d then Some (any, acc, s)
          else if any < 0 \<or> cutoff < acc \<or> acc = cutoff \<and> cutlim < d
          then digit_loop m base cutoff cutlim (m s) (s + 1) (-1) acc
          else digit_loop m base cutoff cutlim (m s) (s + 1) 1 (acc * word_of_int base + word_of_int d))"

text \<open>Sign and base prefix: whether negative, the base, the next character and the address
  behind it.\<close>

definition read_prefix :: "mem \<Rightarrow> int \<Rightarrow> byte \<Rightarrow> addr \<Rightarrow> bool \<times> int \<times> byte \<times> addr" where
  "read_prefix m base0 c0 s0 =
     (let (neg, c1, s1) =
            (if c0 = 45 then (True, m s0, s0 + 1)
             else if c0 = 43 then (False, m s0, s0 + 1) else (False, c0, s0));
          (base1, c2, s2) =
            (if (base0 = 0 \<or> base0 = 16) \<and> c1 = 48 \<and> (m s1 = 120 \<or> m s1 = 88)
             then (16, m (s1 + 1), s1 + 2) else (base0, c1, s1));
          base2 = (if base1 = 0 then (if c2 = 48 then 8 else 10) else base1)
      in (neg, base2, c2, s2))"

record number_result =
  number :: u64
  endptr :: addr
  number_errno :: "int option"

definition EINVAL :: int where
  "EINVAL = 22"

definition ERANGE :: int where
  "ERANGE = 34"

definition finish_number :: "addr \<Rightarrow> u64 \<Rightarrow> (u64 \<Rightarrow> u64) \<Rightarrow> int \<times> u64 \<times> addr \<Rightarrow> number_result" where
  "finish_number nptr range_value sgn_apply = (\<lambda>(any, acc, s).
     if any < 0 then \<lparr>number = range_value, endptr = s - 1, number_errno = Some ERANGE\<rparr>
     else if any = 0 then \<lparr>number = acc, endptr = nptr, number_errno = Some EINVAL\<rparr>
     else \<lparr>number = sgn_apply acc, endptr = s - 1, number_errno = None\<rparr>)"

definition klee_strtol :: "mem \<Rightarrow> addr \<Rightarrow> int \<Rightarrow> number_result option" where
  "klee_strtol m nptr base0 =
     Option.bind (space_loop m nptr) (\<lambda>(c0, s0).
       let (neg, base, c, s) = read_prefix m base0 c0 s0
       in if base < 2 \<or> 36 < base
          then Some \<lparr>number = 0, endptr = nptr, number_errno = Some EINVAL\<rparr>
          else
            let limit = (if neg then 2 ^ 63 else 2 ^ 63 - 1 :: u64);
                cutlim = uint (limit mod word_of_int base);
                cutoff = limit div word_of_int base
            in map_option (finish_number nptr (if neg then - (2 ^ 63) else 2 ^ 63 - 1) (\<lambda>acc. if neg then - acc else acc))
                 (digit_loop m base cutoff cutlim c s 0 0))"

definition klee_strtoul :: "mem \<Rightarrow> addr \<Rightarrow> int \<Rightarrow> number_result option" where
  "klee_strtoul m nptr base0 =
     Option.bind (space_loop m nptr) (\<lambda>(c0, s0).
       let (neg, base, c, s) = read_prefix m base0 c0 s0
       in if base < 2 \<or> 36 < base
          then Some \<lparr>number = 0, endptr = nptr, number_errno = Some EINVAL\<rparr>
          else
            let limit = (- 1 :: u64);
                cutoff = limit div word_of_int base;
                cutlim = uint (limit mod word_of_int base)
            in map_option (finish_number nptr (- 1) (\<lambda>acc. if neg then - acc else acc))
                 (digit_loop m base cutoff cutlim c s 0 0))"

definition klee_atoi :: "mem \<Rightarrow> addr \<Rightarrow> u32 option" where
  "klee_atoi m str = map_option (\<lambda>r. ucast (number r)) (klee_strtol m str 10)"

subsection \<open>Terminated strings\<close>

abbreviation byte_of :: "char \<Rightarrow> byte" where
  "byte_of c \<equiv> of_nat (of_char c)"

fun text_at :: "mem \<Rightarrow> addr \<Rightarrow> string \<Rightarrow> bool" where
  "text_at m a [] = (m a = 0)"
| "text_at m a (c # cs) = (m a = byte_of c \<and> m a \<noteq> 0 \<and> text_at m (a + 1) cs)"

fun compare_texts :: "string \<Rightarrow> string \<Rightarrow> int" where
  "compare_texts [] [] = 0"
| "compare_texts [] (d # ds) = - c_char (byte_of d)"
| "compare_texts (c # cs) [] = c_char (byte_of c)"
| "compare_texts (c # cs) (d # ds) =
     (if c = d then compare_texts cs ds else c_char (byte_of c) - c_char (byte_of d))"

lemma byte_of_eq [simp]: "byte_of c = byte_of d \<longleftrightarrow> c = d"
proof
  assume "byte_of c = byte_of d"
  then have "unat (byte_of c) = unat (byte_of d)" by simp
  moreover have "of_char c < (256 :: nat)" "of_char d < (256 :: nat)" by simp_all
  ultimately have "of_char c = (of_char d :: nat)" by (simp add: unat_of_nat take_bit_nat_eq_self)
  then show "c = d" by simp
qed simp

lemma strlen_loop_text: "text_at m a s \<Longrightarrow> strlen_loop m a = Some (a + of_nat (length s))"
  by (induction s arbitrary: a) (subst strlen_loop.simps, auto simp: add.assoc)+

lemma strlen_loop_sound:
  assumes "strlen_loop m a = Some r"
  shows "m r = 0 \<and> (\<exists>n. r = a + of_nat n)"
proof (rule strlen_loop.raw_induct [OF _ assms, of "\<lambda>m a r. m r = 0 \<and> (\<exists>n. r = a + of_nat n)"])
  fix loop m s r
  assume IH: "\<And>m s r. loop m s = Some r \<Longrightarrow> m r = 0 \<and> (\<exists>n. r = s + of_nat n)"
    and r: "(if m s \<noteq> 0 then loop m (s + 1) else Some s) = Some r"
  show "m r = 0 \<and> (\<exists>n. r = s + of_nat n)"
  proof (cases "m s = 0")
    case True
    with r have "m r = 0" "r = s + of_nat 0" by simp_all
    then show ?thesis by blast
  next
    case False
    with IH [of m "s + 1" r] r obtain n where "m r = 0" "r = s + of_nat (Suc n)" by (auto simp: add.assoc)
    then show ?thesis by blast
  qed
qed

lemma strlen_loop_diverges: "strlen_loop m a = None \<longleftrightarrow> (\<forall>n. m (a + of_nat n) \<noteq> 0)"
proof
  assume none: "strlen_loop m a = None"
  have "strlen_loop m a \<noteq> None" if "m (a + of_nat n) = 0" for n
    using that
  proof (induction n arbitrary: a)
    case (Suc n)
    then have "strlen_loop m (a + 1) \<noteq> None" by (simp add: add.assoc)
    then show ?case by (subst strlen_loop.simps) simp
  qed (subst strlen_loop.simps, simp)
  with none show "\<forall>n. m (a + of_nat n) \<noteq> 0" by blast
next
  assume n: "\<forall>n. m (a + of_nat n) \<noteq> 0"
  show "strlen_loop m a = None"
    using strlen_loop_sound [of m a] n by (cases "strlen_loop m a") auto
qed

lemma strcmp_loop_text:
  "text_at m a s \<Longrightarrow> text_at m b t \<Longrightarrow> strcmp_loop m a b = Some (compare_texts s t)"
proof (induction s t arbitrary: a b rule: compare_texts.induct)
  case (4 c cs d ds)
  then show ?case by (subst strcmp_loop.simps) auto
qed (subst strcmp_loop.simps; auto)+

text \<open>The searches: the first and the last index up to the terminator that holds the character.\<close>

definition first_at :: "mem \<Rightarrow> addr \<Rightarrow> nat \<Rightarrow> byte \<Rightarrow> nat option" where
  "first_at m a n c = List.find (\<lambda>k. m (a + of_nat k) = c) [0..<Suc n]"

definition last_at :: "mem \<Rightarrow> addr \<Rightarrow> nat \<Rightarrow> byte \<Rightarrow> nat option" where
  "last_at m a n c = List.find (\<lambda>k. m (a + of_nat k) = c) (rev [0..<Suc n])"

lemma find_map: "List.find P (List.map f xs) = map_option f (List.find (\<lambda>x. P (f x)) xs)"
  by (induction xs) auto

lemma find_append: "List.find P (xs @ ys) = (case List.find P xs of None \<Rightarrow> List.find P ys | Some x \<Rightarrow> Some x)"
  by (induction xs) auto

lemma upt_0_Suc: "[0..<Suc n] = 0 # List.map Suc [0..<n]"
  by (simp add: upt_conv_Cons map_Suc_upt del: upt_Suc)

lemma first_at_0: "first_at m a 0 c = (if m a = c then Some 0 else None)"
  by (simp add: first_at_def)

lemma first_at_Suc: "first_at m a (Suc n) c = (if m a = c then Some 0 else map_option Suc (first_at m (a + 1) n c))"
  unfolding first_at_def upt_0_Suc [of "Suc n"] by (simp add: find_map add.assoc del: upt_Suc)

lemma last_at_0: "last_at m a 0 c = (if m a = c then Some 0 else None)"
  by (simp add: last_at_def)

lemma last_at_Suc: "last_at m a (Suc n) c =
  (case last_at m (a + 1) n c of None \<Rightarrow> if m a = c then Some 0 else None | Some k \<Rightarrow> Some (Suc k))"
  unfolding last_at_def upt_0_Suc [of "Suc n"]
  by (simp add: find_map find_append add.assoc rev_map del: upt_Suc split: option.splits)

lemma klee_strchr_loop_text:
  "text_at m p s \<Longrightarrow> klee_strchr_loop m c p = Some (map_option (\<lambda>k. p + of_nat k) (first_at m p (length s) c))"
proof (induction s arbitrary: p)
  case Nil
  then show ?case by (subst klee_strchr_loop.simps) (simp add: first_at_0)
next
  case (Cons x xs)
  then show ?case
    by (subst klee_strchr_loop.simps) (auto simp: first_at_Suc option.map_comp comp_def add.assoc)
qed

lemma strrchr_loop_text:
  "text_at m t s \<Longrightarrow> strrchr_loop m c l t =
     Some (case last_at m t (length s) c of None \<Rightarrow> l | Some k \<Rightarrow> Some (t + of_nat k))"
proof (induction s arbitrary: t l)
  case Nil
  then show ?case by (subst strrchr_loop.simps) (simp add: last_at_0)
next
  case (Cons x xs)
  then show ?case
    by (subst strrchr_loop.simps) (auto simp: last_at_Suc add.assoc Let_def split: option.splits)
qed

lemma text_at_cong: "(\<And>c. in_region a (Suc (length s)) c \<Longrightarrow> m' c = m c) \<Longrightarrow> Suc (length s) < 2 ^ 64 \<Longrightarrow>
  text_at m' a s = text_at m a s"
proof (induction s arbitrary: a)
  case (Cons c cs)
  have "text_at m' (a + 1) cs = text_at m (a + 1) cs"
    by (rule Cons.IH) (use Cons.prems in \<open>auto simp: in_region_Suc\<close>)
  with Cons.prems show ?case by simp
qed simp

lemma strcpy_loop_text:
  "text_at m src s \<Longrightarrow> Suc (length s) < 2 ^ 64 \<Longrightarrow>
   (\<And>c. in_region dest (Suc (length s)) c \<Longrightarrow> \<not> in_region src (Suc (length s)) c) \<Longrightarrow>
   \<exists>m'. strcpy_loop m dest src = Some (m', dest + of_nat (length s)) \<and> text_at m' dest s \<and>
     (\<forall>c. \<not> in_region dest (Suc (length s)) c \<longrightarrow> m' c = m c)"
proof (induction s arbitrary: m dest src)
  case Nil
  then show ?case by (subst strcpy_loop.simps) (auto simp: in_region_def)
next
  case (Cons c cs)
  let ?m = "m(dest := m src)"
  have len: "Suc (length cs) < 2 ^ 64" using Cons.prems(2) by simp
  have sub: "in_region (a + 1) (Suc (length cs)) x \<Longrightarrow> in_region a (Suc (length (c # cs))) x" for a x
    using in_region_Suc [of "Suc (length cs)" a x] Cons.prems(2) by simp
  have "text_at ?m (src + 1) cs"
  proof -
    have "\<not> in_region (src + 1) (Suc (length cs)) dest"
      using Cons.prems(3) [of dest] sub [of src dest] by auto
    then show ?thesis using Cons.prems(1) len by (subst text_at_cong [of _ _ ?m m]) auto
  qed
  moreover have "\<not> in_region (src + 1) (Suc (length cs)) x" if "in_region (dest + 1) (Suc (length cs)) x" for x
    using Cons.prems(3) sub that by blast
  ultimately obtain m' where m': "strcpy_loop ?m (dest + 1) (src + 1) = Some (m', dest + 1 + of_nat (length cs))"
    "text_at m' (dest + 1) cs" "\<forall>x. \<not> in_region (dest + 1) (Suc (length cs)) x \<longrightarrow> m' x = ?m x"
    using Cons.IH [of ?m "src + 1" "dest + 1"] len by blast
  have "\<not> in_region (dest + 1) (Suc (length cs)) dest"
    using len by (simp add: in_region_def unsigned_minus_1_eq_mask mask_eq_exp_minus_1)
  then have "m' dest = m src" using m'(3) by simp
  moreover have "m' x = m x" if "\<not> in_region dest (Suc (length (c # cs))) x" for x
  proof -
    have "x \<noteq> dest" using that by auto
    moreover have "\<not> in_region (dest + 1) (Suc (length cs)) x" using that sub by blast
    ultimately show ?thesis using m'(3) by simp
  qed
  ultimately show ?case
    using m'(1,2) Cons.prems(1) by (subst strcpy_loop.simps) (auto simp: Let_def add.assoc)
qed

text \<open>C22: The unbounded loops of the string functions end on terminated strings: strlen returns the
  length, strcmp the difference at the first mismatch (of the bytes as signed characters), strchr
  the address of the first byte, strrchr that of the last byte, up to the terminator and included, that is the character
  searched for (as a byte), both null if there is none, and strcpy to a separate region returns
  with the string copied and nothing else changed. Without any terminator strlen never returns.\<close>

lemma string_loops_terminate:
  "(text_at m a s \<longrightarrow>
      klee_strlen m a = Some (of_nat (length s)) \<and>
      (text_at m b t \<longrightarrow> klee_strcmp m a b = Some (compare_texts s t)) \<and>
      klee_strchr m a ch = Some (map_option (\<lambda>k. a + of_nat k) (first_at m a (length s) (word_of_int ch))) \<and>
      klee_strrchr m a ch = Some (map_option (\<lambda>k. a + of_nat k) (last_at m a (length s) (word_of_int ch))) \<and>
      (Suc (length s) < 2 ^ 64 \<and> (\<forall>c. in_region dest (Suc (length s)) c \<longrightarrow> \<not> in_region a (Suc (length s)) c) \<longrightarrow>
         (\<exists>m'. klee_strcpy m dest a = Some (dest, m') \<and> text_at m' dest s \<and>
            (\<forall>c. \<not> in_region dest (Suc (length s)) c \<longrightarrow> m' c = m c)))) \<and>
   (klee_strlen m a = None \<longleftrightarrow> (\<forall>n. m (a + of_nat n) \<noteq> 0))"
proof (intro conjI impI)
  assume s: "text_at m a s"
  show "klee_strlen m a = Some (of_nat (length s))"
    by (simp add: klee_strlen_def strlen_loop_text [OF s])
  show "klee_strcmp m a b = Some (compare_texts s t)" if "text_at m b t"
    by (simp add: klee_strcmp_def strcmp_loop_text [OF s that])
  show "klee_strchr m a ch = Some (map_option (\<lambda>k. a + of_nat k) (first_at m a (length s) (word_of_int ch)))"
    by (simp add: klee_strchr_def klee_strchr_loop_text [OF s])
  show "klee_strrchr m a ch = Some (map_option (\<lambda>k. a + of_nat k) (last_at m a (length s) (word_of_int ch)))"
    by (simp add: klee_strrchr_def strrchr_loop_text [OF s] split: option.splits)
  assume "Suc (length s) < 2 ^ 64 \<and> (\<forall>c. in_region dest (Suc (length s)) c \<longrightarrow> \<not> in_region a (Suc (length s)) c)"
  then show "\<exists>m'. klee_strcpy m dest a = Some (dest, m') \<and> text_at m' dest s \<and>
      (\<forall>c. \<not> in_region dest (Suc (length s)) c \<longrightarrow> m' c = m c)"
    using strcpy_loop_text [OF s, of dest] by (auto simp: klee_strcpy_def)
next
  show "klee_strlen m a = None \<longleftrightarrow> (\<forall>n. m (a + of_nat n) \<noteq> 0)"
    by (simp add: klee_strlen_def strlen_loop_diverges)
qed

text \<open>The string \<open>oho\<close>: its first and last \<open>o\<close>, and the terminator.\<close>

lemma string_loops_terminate_witness:
  "klee_strlen ((\<lambda>_. 0)(100 := 111, 101 := 104, 102 := 111)) 100 = Some 3 \<and>
   klee_strcmp ((\<lambda>_. 0)(100 := 111, 101 := 104, 102 := 111)) 100 101 = Some (111 - 104) \<and>
   klee_strchr ((\<lambda>_. 0)(100 := 111, 101 := 104, 102 := 111)) 100 111 = Some (Some 100) \<and>
   klee_strrchr ((\<lambda>_. 0)(100 := 111, 101 := 104, 102 := 111)) 100 111 = Some (Some 102) \<and>
   klee_strchr ((\<lambda>_. 0)(100 := 111, 101 := 104, 102 := 111)) 100 0 = Some (Some 103) \<and>
   klee_strrchr ((\<lambda>_. 0)(100 := 111, 101 := 104, 102 := 111)) 100 112 = Some None"
proof -
  let ?m = "(\<lambda>_. 0)(100 := 111, 101 := 104, 102 := 111) :: mem"
  have "text_at ?m 100 ''oho''" "text_at ?m 101 ''ho''" by (simp_all add: of_char_def)
  note spec = string_loops_terminate [of ?m 100 "''oho''" 101 "''ho''", THEN conjunct1, rule_format, OF this(1)]
  have len: "length ''oho'' = Suc (Suc (Suc 0))" by simp
  note spec = spec [unfolded len]
  from spec [of 111] spec [of 0] spec [of 112] \<open>text_at ?m 101 ''ho''\<close> show ?thesis
    by (simp add: of_char_def first_at_Suc first_at_0 last_at_Suc last_at_0)
qed

subsection \<open>Decimal numbers\<close>

text \<open>What the digit loop has computed: \<open>any\<close> is negative once the value is beyond the limit,
  and the accumulator is the value of the digits otherwise.\<close>

definition digits_done :: "nat \<Rightarrow> nat \<Rightarrow> bool \<Rightarrow> string \<Rightarrow> int \<times> u64 \<Rightarrow> bool" where
  "digits_done limit v0 seen t = (\<lambda>(any, acc).
     let v = parse_digits v0 t
     in if limit < v then any < 0
        else any = (if seen \<or> t \<noteq> [] \<and> is_digit (hd t) then 1 else 0) \<and> unat acc = v)"

lemma c_char_uint: "c_char (b :: byte) = (if uint b < 128 then uint b else uint b - 256)"
proof -
  have r: "0 \<le> uint b" "uint b < 256" using uint_lt2p [of b] by simp_all
  have "sint b = (uint b + 128) mod 256 - 128"
    by (simp add: sint_uint signed_take_bit_eq_take_bit_shift take_bit_eq_mod)
  also have "\<dots> = (if uint b < 128 then uint b else uint b - 256)"
  proof (cases "uint b < 128")
    case False
    then have "(uint b + 128) mod 256 = (uint b - 128) mod 256"
      using mod_add_self2 [of "uint b - 128" 256] by (simp add: algebra_simps)
    with False r show ?thesis by (simp add: mod_pos_pos_trivial)
  qed (use r in \<open>simp add: mod_pos_pos_trivial\<close>)
  finally show ?thesis .
qed

lemma of_char_less_256: "of_char c < (256 :: nat)"
  by simp

lemma uint_byte_of: "uint (byte_of c) = int (of_char c)"
  by (simp add: uint_nat unat_of_nat take_bit_nat_eq_self)

lemma digit_value_char:
  assumes "n < 256" "c = (if n < 128 then int n else int n - 256)"
  shows "48 \<le> n \<and> n \<le> 57 \<Longrightarrow> digit_value c = Some (int (n - 48))"
    and "\<not> (48 \<le> n \<and> n \<le> 57) \<Longrightarrow> digit_value c = Some d \<Longrightarrow> 10 \<le> d"
  using assms by (auto simp: digit_value_def split: if_splits)

lemma digit_value_text:
  "is_digit c \<Longrightarrow> digit_value (c_char (byte_of c)) = Some (int (digit_val c))"
  "is_digit c \<Longrightarrow> digit_val c < 10"
  "\<not> is_digit c \<Longrightarrow> digit_value (c_char (byte_of c)) = Some d \<Longrightarrow> 10 \<le> d"
proof -
  have c: "c_char (byte_of c) = (if of_char c < (128 :: nat) then int (of_char c) else int (of_char c) - 256)"
    by (simp add: c_char_uint uint_byte_of del: of_nat_of_char)
  note vals = digit_value_char [OF of_char_less_256 c]
  show "is_digit c \<Longrightarrow> digit_value (c_char (byte_of c)) = Some (int (digit_val c))"
    "\<not> is_digit c \<Longrightarrow> digit_value (c_char (byte_of c)) = Some d \<Longrightarrow> 10 \<le> d"
    using vals unfolding is_digit_def digit_val_def by blast+
  show "is_digit c \<Longrightarrow> digit_val c < 10"
    unfolding is_digit_def digit_val_def by arith
qed

lemma parse_digits_ge: "v \<le> parse_digits v t"
proof (induction t arbitrary: v)
  case (Cons c cs)
  from Cons.IH [of "10 * v + digit_val c"] show ?case by simp
qed simp

lemma decimal_compare:
  "d < 10 \<Longrightarrow> r < 10 \<Longrightarrow> q < v \<or> v = q \<and> r < d \<longleftrightarrow> 10 * q + r < 10 * v + (d :: nat)"
  by (cases v q rule: linorder_cases) auto

lemma limit_check:
  assumes "cutoff = of_nat (limit div 10)" "cutlim = int (limit mod 10)" "limit < 2 ^ 64" "d < 10"
  shows "cutoff < acc \<or> acc = cutoff \<and> cutlim < int d \<longleftrightarrow> limit < 10 * unat (acc :: u64) + d"
proof -
  have "unat cutoff = limit div 10" using assms(1,3) by (simp add: unat_of_nat_small)
  then have "cutoff < acc \<or> acc = cutoff \<and> cutlim < int d \<longleftrightarrow>
      limit div 10 < unat acc \<or> unat acc = limit div 10 \<and> limit mod 10 < d"
    using assms(2) by (simp add: word_less_nat_alt word_unat_eq_iff)
  also have "\<dots> \<longleftrightarrow> limit < 10 * unat acc + d"
    using decimal_compare [OF assms(4), of "limit mod 10" "limit div 10" "unat acc"] by simp
  finally show ?thesis .
qed

lemma next_value:
  assumes "10 * unat (acc :: u64) + d < 2 ^ 64"
  shows "unat (acc * 10 + of_nat d) = 10 * unat acc + d"
proof -
  have "acc * 10 + of_nat d = of_nat (10 * unat acc + d)" by (simp add: mult.commute)
  then show ?thesis using assms by (simp only: unat_of_nat_small)
qed

lemma digit_loop_text:
  assumes "text_at m p t" "cutoff = of_nat (limit div 10)" "cutlim = int (limit mod 10)" "limit < 2 ^ 64"
    and "any < 0 \<or> any = (if seen then 1 else 0) \<and> unat acc = v0 \<and> v0 \<le> limit"
  shows "\<exists>any' acc'. digit_loop m 10 cutoff cutlim (m p) (p + 1) any acc =
        Some (any', acc', p + 1 + of_nat (length (takeWhile is_digit t))) \<and>
      (any < 0 \<longrightarrow> any' < 0) \<and> (\<not> any < 0 \<longrightarrow> digits_done limit v0 seen t (any', acc'))"
  using assms(1,5)
proof (induction t arbitrary: p any seen acc v0)
  case Nil
  then show ?case
    by (subst digit_loop.simps) (auto simp: digit_value_def digits_done_def)
next
  case (Cons c cs)
  have m: "m p = byte_of c" and cs: "text_at m (p + 1) cs" using Cons.prems by simp_all
  show ?case
  proof (cases "is_digit c")
    case False
    have "digit_loop m 10 cutoff cutlim (m p) (p + 1) any acc = Some (any, acc, p + 1)"
      using digit_value_text(3) [OF False] by (subst digit_loop.simps) (auto simp: m split: option.splits)
    then show ?thesis using False Cons.prems(2) by (auto simp: digits_done_def)
  next
    case True
    note d = digit_value_text(1,2) [OF True]
    let ?d = "digit_val c"
    let ?over = "any < 0 \<or> cutoff < acc \<or> acc = cutoff \<and> cutlim < int (digit_val c)"
    define any1 acc1 where "any1 = (if ?over then -1 else 1 :: int)"
      and "acc1 = (if ?over then acc else acc * 10 + of_nat ?d)"
    have step: "digit_loop m 10 cutoff cutlim (m p) (p + 1) any acc =
        digit_loop m 10 cutoff cutlim (m (p + 1)) (p + 1 + 1) any1 acc1"
      using d by (subst digit_loop.simps) (simp add: m any1_def acc1_def)
    have over: "?over \<longleftrightarrow> limit < 10 * v0 + ?d" if "\<not> any < 0"
      using limit_check [OF assms(2-4) d(2), of acc] that Cons.prems(2) by auto
    have "any1 < 0 \<or> any1 = (if True then 1 else 0) \<and> unat acc1 = 10 * v0 + ?d \<and> 10 * v0 + ?d \<le> limit"
    proof (cases ?over)
      case False
      then have le: "10 * v0 + ?d \<le> limit" and v0: "unat acc = v0" using over Cons.prems(2) by auto
      have "unat (acc * 10 + of_nat ?d) = 10 * v0 + ?d"
        using next_value [of acc ?d] v0 le assms(4) by simp
      moreover have "any1 = 1" "acc1 = acc * 10 + of_nat ?d" using False by (auto simp: any1_def acc1_def)
      ultimately show ?thesis using le by simp
    qed (simp add: any1_def)
    from Cons.IH [OF cs this] obtain any' acc' where
      res: "digit_loop m 10 cutoff cutlim (m (p + 1)) (p + 1 + 1) any1 acc1 =
        Some (any', acc', p + 1 + 1 + of_nat (length (takeWhile is_digit cs)))"
      and neg: "any1 < 0 \<longrightarrow> any' < 0"
      and fin: "\<not> any1 < 0 \<longrightarrow> digits_done limit (10 * v0 + ?d) True cs (any', acc')"
      by (elim exE conjE)
    have "digits_done limit v0 seen (c # cs) (any', acc')" if "\<not> any < 0"
    proof (cases ?over)
      case True
      then have "limit < parse_digits (10 * v0 + ?d) cs"
        using over [OF that] parse_digits_ge [of "10 * v0 + ?d" cs] by linarith
      with True neg \<open>is_digit c\<close> show ?thesis by (simp add: digits_done_def any1_def)
    next
      case False
      then have "digits_done limit (10 * v0 + ?d) True cs (any', acc')" using fin by (simp add: any1_def)
      with \<open>is_digit c\<close> show ?thesis by (simp add: digits_done_def Let_def)
    qed
    moreover have "any < 0 \<longrightarrow> any' < 0" using neg by (simp add: any1_def)
    moreover have "digit_loop m 10 cutoff cutlim (m p) (p + 1) any acc =
        Some (any', acc', p + 1 + of_nat (length (takeWhile is_digit (c # cs))))"
      using True by (simp only: step res) (simp add: add.assoc)
    ultimately show ?thesis by blast
  qed
qed

definition has_digits :: "string \<Rightarrow> bool" where
  "has_digits s \<longleftrightarrow> (let ds = snd (split_sign s) in ds \<noteq> [] \<and> is_digit (hd ds))"

definition decimal_value :: "string \<Rightarrow> int" where
  "decimal_value s = (let (neg, ds) = split_sign s in if neg then - int (parse_digits 0 ds) else int (parse_digits 0 ds))"

definition decimal_end :: "string \<Rightarrow> nat" where
  "decimal_end s = length s - length (dropWhile is_digit (snd (split_sign s)))"

lemma c_isspace_text [simp]: "c_isspace (byte_of c) = is_space c" "\<not> c_isspace 0"
  by (simp_all add: c_isspace_def is_space_def word_le_nat_alt word_unat_eq_iff unat_of_nat take_bit_nat_eq_self)

lemma skip_space_Cons [simp]: "skip_space (c # cs) = (if is_space c then skip_space cs else c # cs)"
  by (simp add: skip_space_def)

lemma skip_space_Nil [simp]: "skip_space [] = []"
  by (simp add: skip_space_def)

lemma space_loop_text:
  "text_at m a s \<Longrightarrow> \<exists>p k. space_loop m a = Some (m p, p + 1) \<and> text_at m p (skip_space s) \<and>
     p = a + of_nat k \<and> length s = k + length (skip_space s)"
proof (induction s arbitrary: a)
  case Nil
  then show ?case by (subst space_loop.simps) (auto intro: exI [of _ 0])
next
  case (Cons c cs)
  show ?case
  proof (cases "is_space c")
    case True
    from Cons obtain p k where k: "space_loop m (a + 1) = Some (m p, p + 1)" "text_at m p (skip_space cs)"
      "p = a + 1 + of_nat k" "length cs = k + length (skip_space cs)"
      by force
    then have "p = a + of_nat (Suc k)" "length (c # cs) = Suc k + length (skip_space (c # cs))"
      using True by simp_all
    moreover have "space_loop m a = space_loop m (a + 1)"
      using True Cons.prems by (subst space_loop.simps) simp
    ultimately show ?thesis using k(1,2) True by (metis skip_space_Cons)
  next
    case False
    with Cons.prems show ?thesis by (subst space_loop.simps) (auto intro!: exI [of _ 0])
  qed
qed

lemma byte_of_sign: "byte_of c = 45 \<longleftrightarrow> c = CHR ''-''" "byte_of c = 43 \<longleftrightarrow> c = CHR ''+''"
  using byte_of_eq [of c "CHR ''-''"] byte_of_eq [of c "CHR ''+''"] by (simp_all del: byte_of_eq)

lemma read_prefix_text:
  assumes "text_at m p (skip_space s)"
  shows "\<exists>q k. read_prefix m 10 (m p) (p + 1) = (fst (split_sign s), 10, m q, q + 1) \<and>
    text_at m q (snd (split_sign s)) \<and> q = p + of_nat k \<and> length (skip_space s) = k + length (snd (split_sign s))"
proof (cases "skip_space s")
  case Nil
  with assms show ?thesis by (auto simp: read_prefix_def split_sign_def intro!: exI [of _ p] exI [of _ 0])
next
  case (Cons c cs)
  consider "c = CHR ''-''" | "c = CHR ''+''" | "c \<noteq> CHR ''-''" "c \<noteq> CHR ''+''" by blast
  then show ?thesis
  proof cases
    case 3
    with assms Cons show ?thesis
      by (auto simp: read_prefix_def split_sign_def byte_of_sign intro!: exI [of _ p] exI [of _ 0])
  qed (use assms Cons in \<open>auto simp: read_prefix_def split_sign_def add.commute intro!: exI [of _ "p + 1"] exI [of _ 1]\<close>)
qed

lemma number_text:
  assumes "text_at m a s"
  obtains c0 s0 c s' where "space_loop m a = Some (c0, s0)"
    "read_prefix m 10 c0 s0 = (fst (split_sign s), 10, c, s')"
    "\<And>(limit :: nat) (cutoff :: u64) cutlim. limit < 2 ^ 64 \<Longrightarrow> cutoff = of_nat (limit div 10) \<Longrightarrow> cutlim = int (limit mod 10) \<Longrightarrow>
       \<exists>any acc. digit_loop m 10 cutoff cutlim c s' 0 0 = Some (any, acc, a + of_nat (decimal_end s) + 1) \<and>
         digits_done limit 0 False (snd (split_sign s)) (any, acc)"
proof -
  obtain p k where p: "space_loop m a = Some (m p, p + 1)" "text_at m p (skip_space s)" "p = a + of_nat k"
    "length s = k + length (skip_space s)"
    using space_loop_text [OF assms] by blast
  obtain q j where q: "read_prefix m 10 (m p) (p + 1) = (fst (split_sign s), 10, m q, q + 1)"
    "text_at m q (snd (split_sign s))" "q = p + of_nat j" "length (skip_space s) = j + length (snd (split_sign s))"
    using read_prefix_text [OF p(2)] by blast
  let ?ds = "snd (split_sign s)"
  have "length ?ds = length (takeWhile is_digit ?ds) + length (dropWhile is_digit ?ds)"
    by (metis length_append takeWhile_dropWhile_id)
  then have "decimal_end s = k + (j + length (takeWhile is_digit ?ds))"
    using p(4) q(4) by (simp add: decimal_end_def)
  then have e: "q + 1 + of_nat (length (takeWhile is_digit ?ds)) = a + of_nat (decimal_end s) + 1"
    using p(3) q(3) by (simp add: algebra_simps)
  show thesis
  proof (rule that [OF p(1) q(1)])
    fix limit :: nat and cutoff :: u64 and cutlim :: int
    assume "limit < 2 ^ 64" "cutoff = of_nat (limit div 10)" "cutlim = int (limit mod 10)"
    from digit_loop_text [OF q(2) this(2,3,1), of 0 False 0 0]
    show "\<exists>any acc. digit_loop m 10 cutoff cutlim (m q) (q + 1) 0 0 = Some (any, acc, a + of_nat (decimal_end s) + 1) \<and>
         digits_done limit 0 False ?ds (any, acc)"
      unfolding e by simp
  qed
qed

lemma digits_done_outcome:
  assumes "digits_done limit 0 False (snd (split_sign s)) (any, acc)"
  obtains (over) "limit < parse_digits 0 (snd (split_sign s))" "any < 0" "has_digits s"
  | (none) "\<not> has_digits s" "any = 0" "acc = 0" "parse_digits 0 (snd (split_sign s)) = 0"
  | (ok) "parse_digits 0 (snd (split_sign s)) \<le> limit" "any = 1" "has_digits s"
      "unat acc = parse_digits 0 (snd (split_sign s))"
proof -
  let ?v = "parse_digits 0 (snd (split_sign s))"
  have zero: "?v = 0" if "\<not> has_digits s"
    using that by (cases "snd (split_sign s)") (auto simp: has_digits_def Let_def)
  show thesis
  proof (cases "limit < ?v")
    case True
    with assms zero show ?thesis by (intro over) (auto simp: digits_done_def Let_def)
  next
    case False
    with assms have "any = (if has_digits s then 1 else 0) \<and> unat acc = ?v"
      by (simp add: digits_done_def has_digits_def Let_def)
    with False zero show ?thesis by (cases "has_digits s") (auto intro: none ok simp: unat_eq_0)
  qed
qed

lemma ucast_word_of_sint: "ucast (w :: u64) = (word_of_int (sint w) :: u32)"
  by (rule bit_word_eqI) (simp add: bit_unsigned_iff bit_signed_iff min_def)

lemma sint_word64: "- (2 ^ 63) \<le> i \<Longrightarrow> i < 2 ^ 63 \<Longrightarrow> sint (word_of_int i :: u64) = i"
  by (simp add: signed_of_int signed_take_bit_int_eq_self)

text \<open>The value returned, as a signed number.\<close>

lemma signed_results:
  "sint (- (2 ^ 63) :: u64) = - (2 ^ 63)" "sint (2 ^ 63 - 1 :: u64) = 2 ^ 63 - 1"
  "unat (acc :: u64) = v \<Longrightarrow> v < 2 ^ 63 \<Longrightarrow> sint acc = int v"
  "unat (acc :: u64) = v \<Longrightarrow> v \<le> 2 ^ 63 \<Longrightarrow> sint (- acc) = - int v"
proof -
  show "sint (- (2 ^ 63) :: u64) = - (2 ^ 63)" "sint (2 ^ 63 - 1 :: u64) = 2 ^ 63 - 1" by simp_all
  assume v: "unat acc = v"
  then have acc: "acc = word_of_int (int v)" by auto
  show "v < 2 ^ 63 \<Longrightarrow> sint acc = int v"
    unfolding acc by (rule sint_word64) simp_all
  show "v \<le> 2 ^ 63 \<Longrightarrow> sint (- acc) = - int v"
    using sint_word64 [of "- int v"] unfolding acc by simp
qed

lemma strtol_text:
  assumes "text_at m a s"
  obtains r where "klee_strtol m a 10 = Some r" "sint (number r) = atol s"
    "endptr r = (if has_digits s then a + of_nat (decimal_end s) else a)"
    "number_errno r = (if \<not> has_digits s then Some EINVAL else if decimal_value s \<noteq> atol s then Some ERANGE else None)"
proof -
  obtain neg ds where sp: "split_sign s = (neg, ds)" by force
  then have ds: "ds = snd (split_sign s)" by simp
  define limit :: nat where "limit = (if neg then 2 ^ 63 else 2 ^ 63 - 1)"
  let ?limit = "(if neg then 2 ^ 63 else 2 ^ 63 - 1) :: u64"
  obtain c0 s0 c s' where start: "space_loop m a = Some (c0, s0)" "read_prefix m 10 c0 s0 = (neg, 10, c, s')"
    and digits: "\<And>(limit :: nat) (cutoff :: u64) cutlim. limit < 2 ^ 64 \<Longrightarrow> cutoff = of_nat (limit div 10) \<Longrightarrow> cutlim = int (limit mod 10) \<Longrightarrow>
       \<exists>any acc. digit_loop m 10 cutoff cutlim c s' 0 0 = Some (any, acc, a + of_nat (decimal_end s) + 1) \<and>
         digits_done limit 0 False ds (any, acc)"
    using number_text [OF assms] sp by (metis fst_conv snd_conv)
  have "limit < 2 ^ 64" "?limit div word_of_int 10 = of_nat (limit div 10)" "uint (?limit mod word_of_int 10) = int (limit mod 10)"
    by (auto simp: limit_def)
  from digits [OF this] obtain any acc where
    loop: "digit_loop m 10 (?limit div word_of_int 10) (uint (?limit mod word_of_int 10)) c s' 0 0 =
      Some (any, acc, a + of_nat (decimal_end s) + 1)" and fin: "digits_done limit 0 False ds (any, acc)"
    by blast
  let ?r = "finish_number a (if neg then - (2 ^ 63) else 2 ^ 63 - 1) (\<lambda>acc. if neg then - acc else acc)
    (any, acc, a + of_nat (decimal_end s) + 1)"
  have "endptr ?r = (if has_digits s then a + of_nat (decimal_end s) else a) \<and>
      number_errno ?r = (if \<not> has_digits s then Some EINVAL else if decimal_value s \<noteq> atol s then Some ERANGE else None) \<and>
      sint (number ?r) = atol s"
    using fin [unfolded ds]
  proof (cases rule: digits_done_outcome)
    case over
    then show ?thesis
      using sp by (cases neg) (simp_all add: finish_number_def decimal_value_def atol_def limit_def signed_results)
  next
    case none
    then show ?thesis using sp by (simp add: finish_number_def atol_def)
  next
    case ok
    then show ?thesis
      using sp by (cases neg) (simp_all add: finish_number_def decimal_value_def atol_def limit_def signed_results)
  qed
  moreover have "klee_strtol m a 10 = Some ?r"
    unfolding klee_strtol_def by (simp only: start bind.simps Let_def split loop) simp
  ultimately show thesis using that by blast
qed

lemma strtoul_text:
  assumes "text_at m a s"
  obtains r where "klee_strtoul m a 10 = Some r"
    "endptr r = (if has_digits s then a + of_nat (decimal_end s) else a)"
    "(number r, number_errno r) = (case stoul s of Inl Invalid_argument \<Rightarrow> (0, Some EINVAL)
       | Inl Stoul_out_of_range \<Rightarrow> (2 ^ 64 - 1, Some ERANGE) | Inr v \<Rightarrow> (v, None))"
proof -
  obtain neg ds where sp: "split_sign s = (neg, ds)" by force
  then have ds: "ds = snd (split_sign s)" by simp
  let ?limit = "2 ^ 64 - 1 :: nat"
  obtain c0 s0 c s' where start: "space_loop m a = Some (c0, s0)" "read_prefix m 10 c0 s0 = (neg, 10, c, s')"
    and digits: "\<And>(limit :: nat) (cutoff :: u64) cutlim. limit < 2 ^ 64 \<Longrightarrow> cutoff = of_nat (limit div 10) \<Longrightarrow> cutlim = int (limit mod 10) \<Longrightarrow>
       \<exists>any acc. digit_loop m 10 cutoff cutlim c s' 0 0 = Some (any, acc, a + of_nat (decimal_end s) + 1) \<and>
         digits_done limit 0 False ds (any, acc)"
    using number_text [OF assms] sp by (metis fst_conv snd_conv)
  have "?limit < 2 ^ 64" "(- 1 :: u64) div word_of_int 10 = of_nat (?limit div 10)"
    "uint ((- 1 :: u64) mod word_of_int 10) = int (?limit mod 10)"
    by (simp_all add: word_div_def uint_mod unsigned_minus_1_eq_mask mask_eq_exp_minus_1)
  from digits [OF this] obtain any acc where
    loop: "digit_loop m 10 ((- 1) div word_of_int 10) (uint ((- 1 :: u64) mod word_of_int 10)) c s' 0 0 =
      Some (any, acc, a + of_nat (decimal_end s) + 1)" and fin: "digits_done ?limit 0 False ds (any, acc)"
    by blast
  let ?r = "finish_number a (- 1) (\<lambda>acc. if neg then - acc else acc) (any, acc, a + of_nat (decimal_end s) + 1)"
  have "endptr ?r = (if has_digits s then a + of_nat (decimal_end s) else a) \<and>
    (number ?r, number_errno ?r) = (case stoul s of Inl Invalid_argument \<Rightarrow> (0, Some EINVAL)
       | Inl Stoul_out_of_range \<Rightarrow> (2 ^ 64 - 1, Some ERANGE) | Inr v \<Rightarrow> (v, None))"
    using fin [unfolded ds]
  proof (cases rule: digits_done_outcome)
    case over
    then have "2 ^ 64 \<le> parse_digits 0 ds" using ds by simp
    with over sp show ?thesis by (simp add: finish_number_def stoul_def has_digits_def)
  next
    case none
    then have "stoul s = Inl Invalid_argument" using sp by (auto simp: stoul_def has_digits_def)
    with none show ?thesis by (simp add: finish_number_def)
  next
    case ok
    then have v: "parse_digits 0 ds = unat acc" using ds by simp
    then have "stoul s = Inr (if neg then - acc else acc)"
      using ok(3) sp unat_addr_less [of acc] by (simp add: stoul_def has_digits_def)
    with ok(2,3) show ?thesis by (simp add: finish_number_def)
  qed
  moreover have "klee_strtoul m a 10 = Some ?r"
    unfolding klee_strtoul_def by (simp only: start bind.simps Let_def split loop) simp
  ultimately show thesis using that by blast
qed

text \<open>C11: The number parsers terminate on terminated strings and agree, in base 10, with the functions
  of the standard library that the runtime uses: strtol returns what atol specifies, with EINVAL
  exactly for a string without digits and ERANGE exactly when the value had to be clamped; atoi is
  its low half; strtoul succeeds and fails like std::stoul; the end pointers are behind the digits.\<close>

lemma decimal_conversions:
  assumes "text_at m a s"
  shows "(\<exists>r. klee_strtol m a 10 = Some r \<and> sint (number r) = atol s \<and>
      endptr r = (if has_digits s then a + of_nat (decimal_end s) else a) \<and>
      number_errno r = (if \<not> has_digits s then Some EINVAL else if decimal_value s \<noteq> atol s then Some ERANGE else None)) \<and>
    klee_atoi m a = Some (word_of_int (atol s)) \<and>
    (\<exists>r. klee_strtoul m a 10 = Some r \<and>
      endptr r = (if has_digits s then a + of_nat (decimal_end s) else a) \<and>
      (number r, number_errno r) = (case stoul s of Inl Invalid_argument \<Rightarrow> (0, Some EINVAL)
        | Inl Stoul_out_of_range \<Rightarrow> (2 ^ 64 - 1, Some ERANGE) | Inr v \<Rightarrow> (v, None)))"
proof -
  obtain r where r: "klee_strtol m a 10 = Some r" "sint (number r) = atol s"
    "endptr r = (if has_digits s then a + of_nat (decimal_end s) else a)"
    "number_errno r = (if \<not> has_digits s then Some EINVAL else if decimal_value s \<noteq> atol s then Some ERANGE else None)"
    using strtol_text [OF assms] by blast
  have "klee_atoi m a = Some (word_of_int (atol s))"
    unfolding klee_atoi_def r(1) r(2) [symmetric] by (simp add: ucast_word_of_sint)
  moreover obtain u where "klee_strtoul m a 10 = Some u"
    "endptr u = (if has_digits s then a + of_nat (decimal_end s) else a)"
    "(number u, number_errno u) = (case stoul s of Inl Invalid_argument \<Rightarrow> (0, Some EINVAL)
       | Inl Stoul_out_of_range \<Rightarrow> (2 ^ 64 - 1, Some ERANGE) | Inr v \<Rightarrow> (v, None))"
    by (rule strtoul_text [OF assms])
  ultimately show ?thesis using r by (intro conjI exI) assumption+
qed

lemma decimal_conversions_witness:
  "klee_atoi ((\<lambda>_. 0)(100 := 32, 101 := 45, 102 := 52, 103 := 50)) 100 = Some (- 42)"
proof -
  let ?m = "(\<lambda>_. 0)(100 := 32, 101 := 45, 102 := 52, 103 := 50) :: mem"
  have "text_at ?m 100 '' -42''" by (simp add: of_char_def)
  moreover have "atol '' -42'' = - 42"
    by (simp add: atol_def split_sign_def is_space_def is_digit_def digit_val_def of_char_def)
  ultimately show ?thesis using decimal_conversions [of ?m 100 "'' -42''"] by simp
qed

end
