(* ===== verification/CoverageGuards.thy ===== *)
theory CoverageGuards
  imports Prelude
begin

text \<open>
  The coverage functions of runtime/RuntimeCommon.cpp: numbering the guards of a module and
  recording the bounds of the counters. The guards are \<open>uint32_t\<close> cells at 4-byte steps;
  \<open>guard_count\<close> is the static \<open>N\<close>. The loop over the guards is a \<open>partial_function\<close>: a region
  that ends too close to the end of the address space would never be left. Messages to the
  terminal are left out.
\<close>

record coverage =
  guards :: "addr \<Rightarrow> u32"
  guard_count :: u64
  perm_start :: "addr option"
  perm_end :: "addr option"

partial_function (option) guard_loop :: "addr \<Rightarrow> addr \<Rightarrow> coverage \<Rightarrow> coverage option" where
  "guard_loop x stop c =
     (if x < stop
      then let n = guard_count c + 1
           in guard_loop (x + 4) stop (c\<lparr>guards := (guards c)(x := ucast n), guard_count := n\<rparr>)
      else Some c)"

definition trace_pc_guard_init :: "addr \<Rightarrow> addr \<Rightarrow> coverage \<Rightarrow> coverage option" where
  "trace_pc_guard_init start stop c =
     (if start = stop \<or> guards c start \<noteq> 0 then Some c else guard_loop start stop c)"

definition trace_pc_guard :: "addr option \<Rightarrow> coverage \<Rightarrow> coverage" where
  "trace_pc_guard guard c = c"

definition counters_8bit_init :: "addr \<Rightarrow> addr \<Rightarrow> coverage \<Rightarrow> coverage" where
  "counters_8bit_init start stop c =
     (let c1 = (if perm_start c = None then c\<lparr>perm_start := Some start\<rparr> else c)
      in if perm_end c1 = None then c1\<lparr>perm_end := Some stop\<rparr> else c1)"

definition get_perm_start :: "coverage \<Rightarrow> addr option" where
  "get_perm_start c = perm_start c"

definition get_perm_end :: "coverage \<Rightarrow> addr option" where
  "get_perm_end c = perm_end c"

definition iterate_8bit_counters :: "coverage \<Rightarrow> coverage" where
  "iterate_8bit_counters c = c"

text \<open>The guards of a module of \<open>n\<close> guards that ends before the end of the address space.\<close>

definition guard_region :: "addr \<Rightarrow> nat \<Rightarrow> addr \<Rightarrow> bool" where
  "guard_region start n stop \<longleftrightarrow> stop = start + of_nat (4 * n) \<and> unat start + 4 * n < 2 ^ 64"

lemma guard_region_Suc:
  assumes "guard_region start (Suc n) stop"
  shows "start < stop" "guard_region (start + 4) n stop" "unat (start + 4) = unat start + 4"
proof -
  have b: "unat start + 4 * Suc n < 2 ^ 64" and stop: "stop = start + of_nat (4 * Suc n)"
    using assms by (simp_all add: guard_region_def)
  have small: "unat (start + of_nat k) = unat start + k" if "unat start + k < 2 ^ 64" for k
    using that unat_of_nat_small [of "unat start + k"] by simp
  from small [of "4 * Suc n"] b stop show "start < stop" by (simp add: word_less_nat_alt)
  from small [of 4] b show four: "unat (start + 4) = unat start + 4" by simp
  with b stop show "guard_region (start + 4) n stop" by (simp add: guard_region_def algebra_simps)
qed

lemma guard_region_0: "guard_region start 0 stop \<Longrightarrow> stop = start"
  by (simp add: guard_region_def)

lemma guard_loop_region:
  assumes "guard_region start n stop"
  shows "\<exists>c'. guard_loop start stop c = Some c' \<and> guard_count c' = guard_count c + of_nat n \<and>
    (\<forall>i<n. guards c' (start + of_nat (4 * i)) = ucast (guard_count c + of_nat (Suc i))) \<and>
    (\<forall>a. unat a < unat start \<longrightarrow> guards c' a = guards c a) \<and> perm_start c' = perm_start c \<and> perm_end c' = perm_end c"
  using assms
proof (induction n arbitrary: start c)
  case 0
  from guard_region_0 [OF this] show ?case by (subst guard_loop.simps) simp
next
  case (Suc n)
  note r = guard_region_Suc [OF Suc.prems]
  let ?c = "c\<lparr>guards := (guards c)(start := ucast (guard_count c + 1)), guard_count := guard_count c + 1\<rparr>"
  obtain c' where c': "guard_loop (start + 4) stop ?c = Some c'"
    "guard_count c' = guard_count c + 1 + of_nat n"
    "\<forall>i<n. guards c' (start + 4 + of_nat (4 * i)) = ucast (guard_count c + 1 + of_nat (Suc i))"
    "\<forall>a. unat a < unat start + 4 \<longrightarrow> guards c' a = guards ?c a"
    "perm_start c' = perm_start c" "perm_end c' = perm_end c"
    using Suc.IH [OF r(2), of ?c] r(3) by auto
  have "guards c' (start + of_nat (4 * i)) = ucast (guard_count c + of_nat (Suc i))" if "i < Suc n" for i
  proof (cases i)
    case 0
    then show ?thesis using c'(4) by simp
  next
    case (Suc j)
    then show ?thesis using c'(3) that by (auto simp: algebra_simps)
  qed
  moreover have "guards c' a = guards c a" if "unat a < unat start" for a
    using c'(4) that by auto
  moreover have "guard_loop start stop c = Some c'"
    using r(1) c'(1) by (subst guard_loop.simps) (simp add: Let_def)
  ultimately show ?case using c'(2,5,6) by (auto simp: algebra_simps)
qed

text \<open>
  Initialising a module returns and gives its guards the numbers that follow those of the
  modules before it. As long as fewer than 2^32 guards exist in all, no guard is 0 (which would
  switch it off) and no two guards share a number. A module that is already numbered stays as
  it is.
\<close>

lemma guards_numbered:
  assumes "guard_region start n stop" "guards c start = 0" "unat (guard_count c) + n < 2 ^ 32"
  shows "\<exists>c'. trace_pc_guard_init start stop c = Some c' \<and>
    (\<forall>i<n. unat (guards c' (start + of_nat (4 * i))) = unat (guard_count c) + Suc i) \<and>
    unat (guard_count c') = unat (guard_count c) + n \<and>
    (0 < n \<longrightarrow> trace_pc_guard_init start stop c' = Some c')"
proof -
  obtain c' where c': "guard_loop start stop c = Some c'" "guard_count c' = guard_count c + of_nat n"
    "\<forall>i<n. guards c' (start + of_nat (4 * i)) = ucast (guard_count c + of_nat (Suc i))"
    using guard_loop_region [OF assms(1), of c] by blast
  have count: "unat (guard_count c + of_nat k) = unat (guard_count c) + k" if "k \<le> n" for k
    using that assms(3) unat_of_nat_small [of "unat (guard_count c) + k"] by simp
  have num: "unat (guards c' (start + of_nat (4 * i))) = unat (guard_count c) + Suc i" if "i < n" for i
  proof -
    have "unat (guards c' (start + of_nat (4 * i))) = unat (guard_count c + of_nat (Suc i)) mod 2 ^ 32"
      using c'(3) that by (simp add: unsigned_ucast_eq unsigned_take_bit_eq take_bit_eq_mod del: of_nat_Suc)
    also have "\<dots> = unat (guard_count c) + Suc i"
      using that assms(3) by (subst count) simp_all
    finally show ?thesis .
  qed
  have init: "trace_pc_guard_init start stop c = Some c'"
  proof (cases "start = stop")
    case True
    then show ?thesis using c'(1) assms(2) by (simp add: trace_pc_guard_init_def) (simp add: guard_loop.simps)
  qed (use c'(1) assms(2) in \<open>simp add: trace_pc_guard_init_def\<close>)
  have "trace_pc_guard_init start stop c' = Some c'" if "0 < n"
    using num [of 0] that by (auto simp: trace_pc_guard_init_def)
  with init num count [of n] c'(2) show ?thesis by auto
qed

text \<open>The bounds of the counters are those of the first module only.\<close>

lemma counters_first_module:
  "get_perm_start (counters_8bit_init a b (counters_8bit_init s e c)) = get_perm_start (counters_8bit_init s e c)"
  "get_perm_end (counters_8bit_init a b (counters_8bit_init s e c)) = get_perm_end (counters_8bit_init s e c)"
  by (simp_all add: counters_8bit_init_def get_perm_start_def get_perm_end_def Let_def)

end
