(* ===== verification/Linkage.thy ===== *)
theory Linkage
  imports CompilerRuntime
begin

text \<open>
  Linking: the pass imports the functions of the run-time library by name (compiler/Runtime.cpp),
  and runtime/RuntimeCommon.h declares them. \<open>prototypes\<close> are the declarations, \<open>imported\<close> is what
  the pass imports; the result is that each import has a declaration that fits.
\<close>

subsection \<open>The declarations\<close>

datatype c_type = C_expr | C_pointer | C_bool | C_uint8 | C_uint32 | C_uint64 | C_uintptr | C_int | C_double | C_void

type_synonym prototype = "c_type \<times> c_type list"

definition prototypes_values :: "(string \<times> prototype) list" where
  "prototypes_values =
     [(''_sym_build_integer'', C_expr, [C_uint64, C_uint8]),
      (''_sym_build_integer128'', C_expr, [C_uint64, C_uint64]),
      (''_sym_build_float'', C_expr, [C_double, C_int]),
      (''_sym_build_null_pointer'', C_expr, []),
      (''_sym_build_true'', C_expr, []),
      (''_sym_build_false'', C_expr, []),
      (''_sym_build_bool'', C_expr, [C_bool]),
      (''_sym_build_neg'', C_expr, [C_expr])]"

definition arithmetic_names :: "string list" where
  "arithmetic_names =
        [''add'', ''sub'', ''mul'', ''unsigned_div'', ''signed_div'', ''unsigned_rem'', ''signed_rem'',
         ''shift_left'', ''logical_shift_right'', ''arithmetic_shift_right'',
         ''fp_add'', ''fp_sub'', ''fp_mul'', ''fp_div'', ''fp_rem'']"

definition prototypes_unary :: "(string \<times> prototype) list" where
  "prototypes_unary =
      [(''_sym_build_fp_abs'', C_expr, [C_expr]),
       (''_sym_build_not'', C_expr, [C_expr])]"

definition boolean_names :: "string list" where
  "boolean_names =
        [''signed_less_than'', ''signed_less_equal'', ''signed_greater_than'', ''signed_greater_equal'',
         ''unsigned_less_than'', ''unsigned_less_equal'', ''unsigned_greater_than'', ''unsigned_greater_equal'',
         ''equal'', ''not_equal'', ''bool_and'', ''and'', ''bool_or'', ''or'', ''bool_xor'', ''xor'',
         ''float_ordered_greater_than'', ''float_ordered_greater_equal'', ''float_ordered_less_than'',
         ''float_ordered_less_equal'', ''float_ordered_equal'', ''float_ordered_not_equal'', ''float_ordered'',
         ''float_unordered'', ''float_unordered_greater_than'', ''float_unordered_greater_equal'',
         ''float_unordered_less_than'', ''float_unordered_less_equal'', ''float_unordered_equal'',
         ''float_unordered_not_equal'']"

definition prototypes_other :: "(string \<times> prototype) list" where
  "prototypes_other =
      [(''_sym_build_sext'', C_expr, [C_expr, C_uint8]),
       (''_sym_build_zext'', C_expr, [C_expr, C_uint8]),
       (''_sym_build_trunc'', C_expr, [C_expr, C_uint8]),
       (''_sym_build_bswap'', C_expr, [C_expr]),
       (''_sym_build_int_to_float'', C_expr, [C_expr, C_int, C_int]),
       (''_sym_build_float_to_float'', C_expr, [C_expr, C_int]),
       (''_sym_build_bits_to_float'', C_expr, [C_expr, C_int]),
       (''_sym_build_float_to_bits'', C_expr, [C_expr]),
       (''_sym_build_float_to_signed_integer'', C_expr, [C_expr, C_uint8]),
       (''_sym_build_float_to_unsigned_integer'', C_expr, [C_expr, C_uint8]),
       (''_sym_build_bool_to_bits'', C_expr, [C_expr, C_uint8]),
       (''_sym_concat_helper'', C_expr, [C_expr, C_expr]),
       (''_sym_extract_helper'', C_expr, [C_expr, C_uintptr, C_uintptr]),
       (''_sym_bits_helper'', C_uintptr, [C_expr]),
       (''_sym_set_parameter_expression'', C_void, [C_uint8, C_expr]),
       (''_sym_get_parameter_expression'', C_expr, [C_uint8]),
       (''_sym_set_return_expression'', C_void, [C_expr]),
       (''_sym_get_return_expression'', C_expr, []),
       (''_sym_push_path_constraint'', C_void, [C_expr, C_int, C_uintptr]),
       (''_sym_get_input_byte'', C_expr, [C_uintptr]),
       (''_sym_read_memory'', C_expr, [C_pointer, C_uintptr, C_bool]),
       (''_sym_write_memory'', C_void, [C_pointer, C_uintptr, C_expr, C_bool]),
       (''_sym_memcpy'', C_void, [C_pointer, C_pointer, C_uintptr]),
       (''_sym_memset'', C_void, [C_pointer, C_expr, C_uintptr]),
       (''_sym_memmove'', C_void, [C_pointer, C_pointer, C_uintptr]),
       (''_sym_build_extract'', C_expr, [C_expr, C_uint64, C_uint64, C_bool]),
       (''_sym_notify_call'', C_void, [C_uintptr]),
       (''_sym_notify_ret'', C_void, [C_uintptr]),
       (''_sym_notify_basic_block'', C_void, [C_uintptr]),
       (''_symcc_cov_cb'', C_void, [C_uint32]),
       (''_sym_expr_to_string'', C_pointer, [C_expr]),
       (''_sym_feasible'', C_bool, [C_expr]),
       (''_sym_register_expression_region'', C_void, [C_pointer, C_uintptr]),
       (''_sym_collect_garbage'', C_void, [])]"

definition two_expressions :: "string \<Rightarrow> string \<times> prototype" where
  "two_expressions f = (''_sym_build_'' @ f, C_expr, [C_expr, C_expr])"

definition prototypes :: "(string \<times> prototype) list" where
  "prototypes = prototypes_values @ map two_expressions arithmetic_names @ prototypes_unary
     @ map two_expressions boolean_names @ prototypes_other"

text \<open>The types with which the calling convention of a target with \<open>n\<close>-bit pointers passes them.\<close>

fun passed_as :: "nat \<Rightarrow> c_type \<Rightarrow> ty set" where
  "passed_as n C_expr = {PointerTy}"
| "passed_as n C_pointer = {PointerTy, IntegerTy n}"
| "passed_as n C_bool = {IntegerTy 1, IntegerTy 8}"
| "passed_as n C_uint8 = {IntegerTy 8}"
| "passed_as n C_uint32 = {IntegerTy 32}"
| "passed_as n C_uint64 = {IntegerTy 64}"
| "passed_as n C_uintptr = {IntegerTy n}"
| "passed_as n C_int = {IntegerTy 32}"
| "passed_as n C_double = {DoubleTy}"
| "passed_as n C_void = {VoidTy}"

text \<open>
  \<open>declares\<close>: the function has a declaration that takes its result and all arguments with the types of the
  C declaration. \<open>declares_flags\<close>: so does it but for its parameters of type \<open>int\<close>, of which there is one at least and
  which all are \<open>i1\<close> in the IR.
\<close>

definition declares :: "nat \<Rightarrow> sym_fn \<Rightarrow> bool" where
  "declares n f \<longleftrightarrow> list_ex (\<lambda>(name, r, ts). name = sym_name f \<and> sym_ret f \<in> passed_as n r \<and>
     list_all2 (\<lambda>t c. t \<in> passed_as n c) (sym_args f) ts) prototypes"

definition declares_flags :: "nat \<Rightarrow> sym_fn \<Rightarrow> bool" where
  "declares_flags n f \<longleftrightarrow> list_ex (\<lambda>(name, r, ts). name = sym_name f \<and> sym_ret f \<in> passed_as n r \<and>
     list_all2 (\<lambda>t c. if c = C_int then t = IntegerTy 1 else t \<in> passed_as n c) (sym_args f) ts \<and>
     C_int \<in> set ts) prototypes"

subsection \<open>The imports\<close>

text \<open>Every function of the table that the pass can call, without those that have flags.\<close>

definition imported :: "data_layout \<Rightarrow> sym_fn list" where
  "imported dl = (let R = Runtime_ctor dl in
     [cov_fun_callback R, buildInteger R, buildInteger128 R, buildNullPointer R, buildTrue R, buildFalse R,
      buildBool R, buildSExt R, buildZExt R, buildTrunc R, buildBswap R, buildFloatToBits R,
      buildFloatToSignedInt R, buildFloatToUnsignedInt R, buildFloatAbs R,
      buildBoolAnd R, buildBoolOr R, buildBoolXor R, buildBoolToBits R, getParameterExpression R,
      setParameterExpression R, setReturnExpression R, getReturnExpression R, memcpy R, memset R, memmove R,
      readMemory R, writeMemory R, buildExtract R, notifyCall R, notifyRet R, notifyBasicBlock R]
     @ List.map_filter (binaryOperatorHandlers R)
         [Add, Sub, Mul, UDiv, SDiv, URem, SRem, Shl, LShr, AShr, And, Or, Xor, FAdd, FSub, FMul, FDiv, FRem]
     @ List.map_filter (comparisonHandlers R)
         [FCMP_FALSE, FCMP_OEQ, FCMP_OGT, FCMP_OGE, FCMP_OLT, FCMP_OLE, FCMP_ONE, FCMP_ORD, FCMP_UNO, FCMP_UEQ,
          FCMP_UGT, FCMP_UGE, FCMP_ULT, FCMP_ULE, FCMP_UNE, FCMP_TRUE, ICMP_EQ, ICMP_NE, ICMP_UGT, ICMP_UGE,
          ICMP_ULT, ICMP_ULE, ICMP_SGT, ICMP_SGE, ICMP_SLT, ICMP_SLE])"

text \<open>The functions with flags.\<close>

definition flagged :: "data_layout \<Rightarrow> sym_fn list" where
  "flagged dl = (let R = Runtime_ctor dl in
     [buildFloat R, buildIntToFloat R, buildFloatToFloat R, buildBitsToFloat R, pushPathConstraint R])"

lemma declaresI:
  assumes "(n, r, ts) \<in> set prototypes" "t \<in> passed_as k r" "list_all2 (\<lambda>t c. t \<in> passed_as k c) args ts"
  shows "declares k (import n t args)"
  unfolding declares_def list_ex_iff by (rule bexI [OF _ assms(1)]) (use assms(2,3) in simp)

lemma declares_flagsI:
  assumes "(n, r, ts) \<in> set prototypes" "t \<in> passed_as k r"
    "list_all2 (\<lambda>t c. if c = C_int then t = IntegerTy 1 else t \<in> passed_as k c) args ts" "C_int \<in> set ts"
  shows "declares_flags k (import n t args)"
  unfolding declares_flags_def list_ex_iff by (rule bexI [OF _ assms(1)]) (use assms(2-) in simp)

lemma prototypes_sets:
  "x \<in> set prototypes_values \<Longrightarrow> x \<in> set prototypes"
  "n \<in> set arithmetic_names \<Longrightarrow> (''_sym_build_'' @ n, C_expr, [C_expr, C_expr]) \<in> set prototypes"
  "x \<in> set prototypes_unary \<Longrightarrow> x \<in> set prototypes"
  "n \<in> set boolean_names \<Longrightarrow> (''_sym_build_'' @ n, C_expr, [C_expr, C_expr]) \<in> set prototypes"
  "x \<in> set prototypes_other \<Longrightarrow> x \<in> set prototypes"
  by (auto simp: prototypes_def two_expressions_def)

lemma handler_declared:
  "n \<in> set (arithmetic_names @ boolean_names) \<Longrightarrow> load_handler n = Some f \<Longrightarrow>
   declares k f"
  using prototypes_sets(2,4) by (auto simp: load_handler_def intro!: declaresI)

text \<open>Looking for an entry of a table: it is the first one, or behind it.\<close>

lemmas in_table = list.set_intros

lemma binary_handler_declared: "binary_operator_handlers opc = Some f \<Longrightarrow> declares k f"
  by (cases opc; simp only: binary_operator_handlers.simps; erule handler_declared [rotated])
    (unfold arithmetic_names_def boolean_names_def append.simps, (rule in_table(1) | rule in_table(2))+)

lemma comparison_handler_declared: "comparison_handlers p = Some f \<Longrightarrow> declares k f"
  by (cases p; simp only: comparison_handlers.simps option.distinct; erule handler_declared [rotated])
    (unfold arithmetic_names_def boolean_names_def append.simps, (rule in_table(1) | rule in_table(2))+)

lemma Boolean_operations_declared:
  "declares (ptr_bits dl) (buildBoolAnd (Runtime_ctor dl))"
  "declares (ptr_bits dl) (buildBoolOr (Runtime_ctor dl))"
  "declares (ptr_bits dl) (buildBoolXor (Runtime_ctor dl))"
  using prototypes_sets(4) [of "''bool_and''"] prototypes_sets(4) [of "''bool_or''"] prototypes_sets(4) [of "''bool_xor''"]
  by (auto simp: boolean_names_def intro!: declaresI)

lemma values_declared:
  "declares (ptr_bits dl) (buildInteger (Runtime_ctor dl))"
  "declares (ptr_bits dl) (buildInteger128 (Runtime_ctor dl))"
  "declares (ptr_bits dl) (buildNullPointer (Runtime_ctor dl))"
  "declares (ptr_bits dl) (buildTrue (Runtime_ctor dl))"
  "declares (ptr_bits dl) (buildFalse (Runtime_ctor dl))"
  "declares (ptr_bits dl) (buildBool (Runtime_ctor dl))"
  unfolding runtime_fields
  by (rule declaresI, rule prototypes_sets(1), unfold prototypes_values_def, (rule in_table(1) | rule in_table(2))+, simp, simp)+

lemma float_abs_declared:
  "declares (ptr_bits dl) (buildFloatAbs (Runtime_ctor dl))"
  unfolding runtime_fields
  by (rule declaresI, rule prototypes_sets(3), unfold prototypes_unary_def, (rule in_table(1) | rule in_table(2))+, simp, simp)+

lemma others_declared:
  "declares (ptr_bits dl) (cov_fun_callback (Runtime_ctor dl))"
  "declares (ptr_bits dl) (buildSExt (Runtime_ctor dl))"
  "declares (ptr_bits dl) (buildZExt (Runtime_ctor dl))"
  "declares (ptr_bits dl) (buildTrunc (Runtime_ctor dl))"
  "declares (ptr_bits dl) (buildBswap (Runtime_ctor dl))"
  "declares (ptr_bits dl) (buildFloatToBits (Runtime_ctor dl))"
  "declares (ptr_bits dl) (buildFloatToSignedInt (Runtime_ctor dl))"
  "declares (ptr_bits dl) (buildFloatToUnsignedInt (Runtime_ctor dl))"
  "declares (ptr_bits dl) (buildBoolToBits (Runtime_ctor dl))"
  "declares (ptr_bits dl) (getParameterExpression (Runtime_ctor dl))"
  "declares (ptr_bits dl) (setParameterExpression (Runtime_ctor dl))"
  "declares (ptr_bits dl) (setReturnExpression (Runtime_ctor dl))"
  "declares (ptr_bits dl) (getReturnExpression (Runtime_ctor dl))"
  "declares (ptr_bits dl) (memcpy (Runtime_ctor dl))"
  "declares (ptr_bits dl) (memset (Runtime_ctor dl))"
  "declares (ptr_bits dl) (memmove (Runtime_ctor dl))"
  "declares (ptr_bits dl) (readMemory (Runtime_ctor dl))"
  "declares (ptr_bits dl) (writeMemory (Runtime_ctor dl))"
  "declares (ptr_bits dl) (buildExtract (Runtime_ctor dl))"
  "declares (ptr_bits dl) (notifyCall (Runtime_ctor dl))"
  "declares (ptr_bits dl) (notifyRet (Runtime_ctor dl))"
  "declares (ptr_bits dl) (notifyBasicBlock (Runtime_ctor dl))"
  unfolding runtime_fields
  by (rule declaresI, rule prototypes_sets(5), unfold prototypes_other_def, (rule in_table(1) | rule in_table(2))+, simp, simp)+

lemma build_float_declared: "declares_flags (ptr_bits dl) (buildFloat (Runtime_ctor dl))"
  unfolding runtime_fields
  by (rule declares_flagsI, rule prototypes_sets(1), unfold prototypes_values_def, (rule in_table(1) | rule in_table(2))+, simp, simp, simp)

lemma flags_declared:
  "declares_flags (ptr_bits dl) (buildIntToFloat (Runtime_ctor dl))"
  "declares_flags (ptr_bits dl) (buildFloatToFloat (Runtime_ctor dl))"
  "declares_flags (ptr_bits dl) (buildBitsToFloat (Runtime_ctor dl))"
  "declares_flags (ptr_bits dl) (pushPathConstraint (Runtime_ctor dl))"
  unfolding runtime_fields
  by (rule declares_flagsI, rule prototypes_sets(5), unfold prototypes_other_def, (rule in_table(1) | rule in_table(2))+, simp, simp, simp)+

lemma list_all_ConsI: "P x \<Longrightarrow> list_all P xs \<Longrightarrow> list_all P (x # xs)"
  by simp

lemmas all_declared = Boolean_operations_declared values_declared float_abs_declared others_declared

text \<open>C7: The functions that the pass imports exist in the run-time library with the types the pass
  gives them. Apart from five functions each has a declaration of its name in RuntimeCommon.h, on every data
  layout, with a return type and parameter types that are passed as in the call. The five, for constants of
  floating-point type, three conversions and path constraints, have one too, but the library declares flags of
  theirs as \<open>int\<close>, and the pass declares every one of these flags as \<open>i1\<close>.\<close>

lemma imports_match_declarations:
  "list_all (declares (ptr_bits dl)) (imported dl) \<and> list_all (declares_flags (ptr_bits dl)) (flagged dl)"
proof
  have binary: "list_all (declares (ptr_bits dl)) (List.map_filter (binaryOperatorHandlers (Runtime_ctor dl)) bs)" for bs
    by (auto simp: list_all_iff List.map_filter_def intro: binary_handler_declared)
  have comparison: "list_all (declares (ptr_bits dl)) (List.map_filter (comparisonHandlers (Runtime_ctor dl)) ps)" for ps
    by (auto simp: list_all_iff List.map_filter_def intro: comparison_handler_declared)
  show "list_all (declares (ptr_bits dl)) (imported dl)"
    unfolding imported_def Let_def list_all_append
    by (rule conjI [OF _ conjI [OF binary comparison]]) ((rule list_all_ConsI, rule all_declared)+, simp)
  show "list_all (declares_flags (ptr_bits dl)) (flagged dl)"
    unfolding flagged_def Let_def by ((rule list_all_ConsI, rule build_float_declared flags_declared)+, simp)
qed

end
