(* ===== verification/VisitRecords.thy ===== *)
theory VisitRecords
  imports PassTotal
begin

text \<open>
  What the visitor records. \<open>bounded\<close> says that inserted code and recorded expressions only
  mention values created so far; \<open>recorded\<close> that the code of a computation stands in one piece at
  its point, in SSA form with what surrounds it. \<open>sound\<close> and \<open>visiting\<close> are the triples for the
  operations that only insert code and for those that record computations; \<open>visit_all_records\<close>
  concludes that the visitor establishes the invariant for all instructions.
\<close>

subsection \<open>Values created so far\<close>

fun below :: "nat \<Rightarrow> gen \<Rightarrow> bool" where
  "below n (Gen r op xs) \<longleftrightarrow> older n r \<and> list_all (older n) xs"
| "below n (Enter b c body) \<longleftrightarrow> older n c \<and> list_all (below n) body"
| "below n (Merge r x y) \<longleftrightarrow> older n r \<and> older n x \<and> older n y"

definition bounded :: "symbolizer \<Rightarrow> bool" where
  "bounded s \<longleftrightarrow> (\<forall>p. list_all (below (next_id s)) (inserted s p)) \<and>
     (\<forall>v e. symbolicExpressions s v = Some e \<longrightarrow> older (next_id s) e)"

lemma below_mono: "below n g \<Longrightarrow> n \<le> m \<Longrightarrow> below m g"
  by (induction n g rule: below.induct) (auto simp: list_all_iff intro: older_mono)

lemma below_uses: "below n g \<Longrightarrow> uses (Made k t) g \<Longrightarrow> k < n"
  by (induction n g rule: below.induct) (auto simp: list_all_iff list_ex_iff)

lemma below_result: "below n g \<Longrightarrow> gen_result g = Some (Made k t) \<Longrightarrow> k < n"
  by (cases g) auto

lemma bounded_mono:
  assumes "bounded s" "next_id s \<le> n"
  shows "list_all (below n) (inserted s p)" "symbolicExpressions s v = Some e \<Longrightarrow> older n e"
  using assms unfolding bounded_def list_all_iff by (blast intro: below_mono older_mono)+

lemma bounded_expression [simp]:
  assumes "bounded s" "next_id s \<le> n"
  shows "older n (getSymbolicExpressionOrNull s v)"
  using bounded_mono(2) [OF assms] by (auto simp: getSymbolicExpressionOrNull_def getSymbolicExpression_def split: option.split)

text \<open>Growth of the code at the points, with new numbers only.\<close>

definition code_grows :: "symbolizer \<Rightarrow> symbolizer \<Rightarrow> bool" where
  "code_grows s s' \<longleftrightarrow> (\<forall>p. \<exists>code. inserted s' p = inserted s p @ code)"

lemma code_grows_refl [simp]: "code_grows s s"
  by (simp add: code_grows_def)

lemma code_grows_trans: "code_grows s t \<Longrightarrow> code_grows t u \<Longrightarrow> code_grows s u"
  unfolding code_grows_def by (metis append.assoc)

definition grown :: "symbolizer \<Rightarrow> symbolizer \<Rightarrow> bool" where
  "grown s s' \<longleftrightarrow> next_id s \<le> next_id s' \<and> expressionUses s' = expressionUses s \<and> phiNodes s' = phiNodes s \<and>
     (\<forall>p. \<exists>code. inserted s' p = inserted s p @ code)"

lemma grown_code: "grown s s' \<Longrightarrow> code_grows s s'"
  by (simp add: grown_def code_grows_def)

lemma grown_refl [simp]: "grown s s"
  by (simp add: grown_def)

lemma grown_trans: "grown s t \<Longrightarrow> grown t u \<Longrightarrow> grown s u"
  unfolding grown_def by (metis append.assoc order_trans)

text \<open>\<open>sound n m R\<close>: from states with at least \<open>n\<close> numbers, \<open>m\<close> only grows the code, keeps it
  bounded, and its results satisfy \<open>R\<close>.\<close>

definition sound :: "nat \<Rightarrow> 'a build \<Rightarrow> (nat \<Rightarrow> 'a \<Rightarrow> bool) \<Rightarrow> bool" where
  "sound n m R \<longleftrightarrow> (\<forall>s x s'. n \<le> next_id s \<longrightarrow> bounded s \<longrightarrow> m s = Inr (x, s') \<longrightarrow>
     grown s s' \<and> bounded s' \<and> R (next_id s') x)"

abbreviation anything :: "nat \<Rightarrow> 'a \<Rightarrow> bool" where
  "anything \<equiv> \<lambda>_ _. True"

named_theorems sound_intros "builders that only grow the code"

lemma soundD:
  assumes "sound n m R" "m s = Inr (x, s')" "n \<le> next_id s" "bounded s"
  shows "grown s s'" "bounded s'" "R (next_id s') x"
  using assms unfolding sound_def by blast+

lemma sound_weaken: "sound n m R \<Longrightarrow> (\<And>k x. n \<le> k \<Longrightarrow> R k x \<Longrightarrow> Q k x) \<Longrightarrow> sound n m Q"
  unfolding sound_def grown_def by (meson order_trans)

lemma sound_return [sound_intros]: "(\<And>k. n \<le> k \<Longrightarrow> R k x) \<Longrightarrow> sound n (return_build x) R"
  by (simp add: sound_def return_build_def)

lemma sound_bind [sound_intros]:
  assumes "sound n m R" "\<And>k x. n \<le> k \<Longrightarrow> R k x \<Longrightarrow> sound k (f x) Q"
  shows "sound n (bind_build m f) Q"
  unfolding sound_def
proof (intro allI impI)
  fix s y s2
  assume s: "n \<le> next_id s" "bounded s" and "bind_build m f s = Inr (y, s2)"
  then obtain x s1 where 1: "m s = Inr (x, s1)" "f x s1 = Inr (y, s2)"
    by (auto simp: bind_build_eq bind_result_eq_Inr)
  note m = soundD [OF assms(1) 1(1) s]
  have "n \<le> next_id s1" using m(1) s(1) by (simp add: grown_def)
  then have "sound (next_id s1) (f x) Q" using assms(2) m(3) by blast
  note f = soundD [OF this 1(2) order_refl m(2)]
  then show "grown s s2 \<and> bounded s2 \<and> Q (next_id s2) y" using grown_trans [OF m(1)] by blast
qed

lemma sound_and_then [sound_intros]: "sound n m anything \<Longrightarrow> (\<And>k. n \<le> k \<Longrightarrow> sound k m' Q) \<Longrightarrow> sound n (and_then m m') Q"
  unfolding and_then_def by (rule sound_bind) auto

lemma sound_ignore [sound_intros]: "sound n m R \<Longrightarrow> sound n (ignore_result m) anything"
  unfolding ignore_result_def and_then_def by (rule sound_bind, assumption) (rule sound_return, simp)

lemma sound_fail [sound_intros]: "sound n (fail_build e) R"
  by (simp add: sound_def fail_build_def)

lemma sound_check [sound_intros]: "sound n (check b msg) anything"
  by (simp add: check_def sound_return sound_fail)

lemma sound_in_case [sound_intros]: "sound n m anything \<Longrightarrow> sound n (in_case b m) anything"
  by (simp add: in_case_def sound_return)

lemma sound_warn [sound_intros]: "sound n (warn E msg v) anything"
  by (simp add: sound_def warn_def build_simps grown_def bounded_def)

lemma sound_mono: "sound n m R \<Longrightarrow> n \<le> k \<Longrightarrow> sound k m R"
  unfolding sound_def by (meson order_trans)

lemma sound_for_each [sound_intros]:
  "(\<And>k x. x \<in> set xs \<Longrightarrow> n \<le> k \<Longrightarrow> sound k (f x) anything) \<Longrightarrow> sound n (for_each xs f) anything"
proof (induction xs arbitrary: n)
  case (Cons x xs)
  have "sound n (and_then (f x) (for_each xs f)) anything"
  proof (rule sound_and_then)
    fix k assume "n \<le> k"
    then show "sound k (for_each xs f) anything"
      by (intro Cons.IH) (use Cons.prems in auto)
  qed (use Cons.prems in auto)
  then show ?case by simp
qed (simp add: sound_return)

lemma sound_emit [sound_intros]:
  assumes "list_all (older n) xs"
  shows "sound n (emit p g t xs) older"
  unfolding sound_def
proof (intro allI impI)
  fix s x s' assume n: "n \<le> next_id s" and b: "bounded s" and e: "emit p g t xs s = Inr (x, s')"
  have "list_all (older (Suc (next_id s))) xs"
    using assms n by (auto simp: list_all_iff intro: older_mono)
  then show "grown s s' \<and> bounded s' \<and> older (next_id s') x"
    using e bounded_mono [OF b, of "Suc (next_id s)"]
    by (auto simp: emit_def insert_code_def Let_def grown_def bounded_def)
qed

lemma sound_createCall [sound_intros]: "list_all (older n) xs \<Longrightarrow> sound n (createCall p f xs) older"
  unfolding createCall_def
  by (rule sound_and_then [OF sound_check], rule sound_emit) (auto simp: list_all_iff intro: older_mono)

lemma sound_createCast [sound_intros]: "older n v \<Longrightarrow> sound n (createCast p c v t) older"
  unfolding createCast_def by (auto intro: sound_intros older_mono)

lemma sound_getIntegerBitWidth [sound_intros]: "sound n (getIntegerBitWidth t) anything"
  unfolding getIntegerBitWidth_def by (rule sound_and_then [OF sound_check], rule sound_return) simp

lemma sound_createZExtOrTrunc [sound_intros]: "older n v \<Longrightarrow> sound n (createZExtOrTrunc p v t) older"
  unfolding createZExtOrTrunc_def by (rule sound_createCast)

lemma sound_get_expression [sound_intros]: "sound n (get_expression v) (\<lambda>k e. \<forall>e'. e = Some e' \<longrightarrow> older k e')"
  by (auto simp: sound_def get_expression_def getSymbolicExpression_def bounded_def)

lemma sound_get_expression_or_null [sound_intros]: "sound n (get_expression_or_null v) older"
  by (auto simp: sound_def get_expression_or_null_def)

lemma sound_set_expression [sound_intros]:
  assumes "\<And>e'. e = Some e' \<Longrightarrow> older n e'"
  shows "sound n (set_expression v e) anything"
  using assms unfolding sound_def set_expression_def
  by (auto simp: build_simps grown_def bounded_def intro: older_mono)

lemma older_constants [simp]:
  "older n (const_int w k)" "older n (int1 b)" "older n (site E v)" "older n (getTargetPreferredInt E k)"
  "older n (store_size E t)"
  by (simp_all add: const_int_def int1_def site_def getTargetPreferredInt_def store_size_def)

lemma sound_createValueExpression [sound_intros]:
  assumes "older n V"
  shows "sound n (createValueExpression E p V) older"
  unfolding createValueExpression_def
  by (auto split: ty.split intro!: sound_createCall sound_fail sound_bind [OF sound_createCast]
      sound_bind [OF sound_emit] intro: older_mono [OF assms] older_mono)
subsection \<open>Recorded computations\<close>

fun val_id :: "val \<Rightarrow> nat" where
  "val_id (Made k t) = k"
| "val_id v = 0"

definition result_id :: "gen \<Rightarrow> nat" where
  "result_id g = (case gen_result g of Some v \<Rightarrow> val_id v | None \<Rightarrow> 0)"

definition first_id :: "symbolic_computation \<Rightarrow> nat" where
  "first_id c = (case firstInstruction c of Some v \<Rightarrow> val_id v | None \<Rightarrow> 0)"

definition last_id :: "symbolic_computation \<Rightarrow> nat" where
  "last_id c = (case lastInstruction c of Some v \<Rightarrow> val_id v | None \<Rightarrow> 0)"

text \<open>Code that neither defines nor uses the values with numbers between \<open>lo\<close> and \<open>hi\<close>.\<close>

definition avoids :: "nat \<Rightarrow> nat \<Rightarrow> gen \<Rightarrow> bool" where
  "avoids lo hi g \<longleftrightarrow> (\<forall>k t. lo \<le> k \<longrightarrow> k \<le> hi \<longrightarrow> \<not> uses (Made k t) g \<and> gen_result g \<noteq> Some (Made k t))"

text \<open>One input: the operand of a call of the computation, from outside of it.\<close>

definition input_placed :: "nat \<Rightarrow> gen list \<Rightarrow> input \<Rightarrow> bool" where
  "input_placed n mid i \<longleftrightarrow> operand_exists mid i \<and> original (concreteValue i) \<and>
     older n (getSymbolicOperand mid i) \<and> Some (getSymbolicOperand mid i) \<notin> gen_result ` set mid"

definition run_ok :: "nat \<Rightarrow> symbolic_computation \<Rightarrow> gen list \<Rightarrow> bool" where
  "run_ok n c mid \<longleftrightarrow> mid \<noteq> [] \<and> list_all (plain_call n) mid \<and> sorted_wrt (<) (map result_id mid)
     \<and> firstInstruction c = gen_result (hd mid) \<and> lastInstruction c = gen_result (last mid)
     \<and> list_all (\<lambda>g. \<not> uses (last_value c) g) mid
     \<and> inputs c \<noteq> [] \<and> distinct (map input_key (inputs c)) \<and> list_all (input_placed n mid) (inputs c)"

definition recorded :: "symbolizer \<Rightarrow> symbolic_computation \<Rightarrow> bool" where
  "recorded s c \<longleftrightarrow> (\<exists>pre mid post. inserted s (place c) = pre @ mid @ post
     \<and> list_all (avoids (first_id c) (last_id c)) pre \<and> run_ok (next_id s) c mid)"

definition in_order :: "symbolic_computation list \<Rightarrow> bool" where
  "in_order cs \<longleftrightarrow> sorted_wrt (\<lambda>c d. last_id c < first_id d) cs"

lemma plain_call_mono: "plain_call n g \<Longrightarrow> n \<le> m \<Longrightarrow> plain_call m g"
  by (erule plain_callE) (auto simp: list_all_iff intro: older_mono)

lemma run_ok_mono: "run_ok n c mid \<Longrightarrow> n \<le> m \<Longrightarrow> run_ok m c mid"
  by (auto simp: run_ok_def input_placed_def list_all_iff intro: plain_call_mono older_mono)

lemma recorded_grown:
  assumes "recorded s c" "grown s s'"
  shows "recorded s' c"
proof -
  obtain pre mid post where 1: "inserted s (place c) = pre @ mid @ post"
    "list_all (avoids (first_id c) (last_id c)) pre" "run_ok (next_id s) c mid"
    using assms(1) unfolding recorded_def by blast
  obtain code where "inserted s' (place c) = (pre @ mid @ post) @ code"
    using assms(2) 1(1) unfolding grown_def by metis
  then have "inserted s' (place c) = pre @ mid @ (post @ code)" by simp
  moreover have "run_ok (next_id s') c mid" using 1(3) assms(2) by (auto simp: grown_def intro: run_ok_mono)
  ultimately show ?thesis using 1(2) unfolding recorded_def by blast
qed

lemma plain_call_Made: "plain_call n g \<Longrightarrow> \<exists>t. gen_result g = Some (Made (result_id g) t) \<and> result_id g < n"
  by (erule plain_callE) (simp add: result_id_def)

lemma run_ok_ids:
  assumes "run_ok n c mid" "g \<in> set mid"
  shows "first_id c \<le> result_id g" "result_id g \<le> last_id c" "\<exists>t. gen_result g = Some (Made (result_id g) t)"
    and "last_id c < n" "\<exists>t. last_value c = Made (last_id c) t" "first_id c = result_id (hd mid)"
proof -
  note r = assms(1) [unfolded run_ok_def]
  have made: "\<exists>t. gen_result h = Some (Made (result_id h) t) \<and> result_id h < n" if "h \<in> set mid" for h
    using r that plain_call_Made by (auto simp: list_all_iff)
  have ends: "hd mid \<in> set mid" "last mid \<in> set mid" using assms(2) by (auto intro: list.set_sel(1) last_in_set)
  have f: "first_id c = result_id (hd mid)" using r made [OF ends(1)] by (auto simp: first_id_def)
  have l: "last_id c = result_id (last mid)" using r made [OF ends(2)] by (auto simp: last_id_def)
  have ne: "mid \<noteq> []" using assms(2) by auto
  obtain i where i: "i < length mid" "g = mid ! i" using assms(2) by (auto simp: in_set_conv_nth)
  have sorted: "\<And>i j. i < j \<Longrightarrow> j < length mid \<Longrightarrow> result_id (mid ! i) < result_id (mid ! j)"
    using r by (auto simp: sorted_wrt_iff_nth_less)
  show "first_id c \<le> result_id g"
    using sorted [of 0 i] i ends(1) by (cases "i = 0") (auto simp: f hd_conv_nth simp flip: length_greater_0_conv)
  have "i = length mid - 1 \<or> i < length mid - 1" using i(1) by arith
  then show "result_id g \<le> last_id c"
    using sorted [of i "length mid - 1"] i by (auto simp: l last_conv_nth ne)
  show "\<exists>t. gen_result g = Some (Made (result_id g) t)" using made [OF assms(2)] by blast
  show "last_id c < n" using made [OF ends(2)] l by simp
  show "\<exists>t. last_value c = Made (last_id c) t"
    using made [OF ends(2)] r l by (auto simp: last_value_def)
  show "first_id c = result_id (hd mid)" by (rule f)
qed

text \<open>With the types of the inputs, this is what short-circuiting asks for.\<close>

lemma run_ok_computation_ok:
  assumes "run_ok n c mid" "computation_typed c"
  shows "computation_ok n c mid"
proof -
  note r = assms(1) [unfolded run_ok_def]
  have "inj_on gen_result (set mid)"
  proof (rule inj_onI)
    fix g h assume gh: "g \<in> set mid" "h \<in> set mid" "gen_result g = gen_result h"
    then have "result_id g = result_id h" by (simp add: result_id_def)
    then show "g = h"
      using gh(1,2) r by (auto simp: in_set_conv_nth sorted_wrt_iff_nth_less) (metis less_irrefl linorder_neqE_nat)
  qed
  moreover have "distinct mid" using r strict_sorted_imp_sorted distinct_map by (metis strict_sorted_iff)
  ultimately have "distinct (map gen_result mid)" by (simp add: distinct_map)
  then show ?thesis
    using r assms(2) by (auto simp: computation_ok_def input_ok_def input_placed_def computation_typed_def list_all_iff)
qed

lemma recorded_context:
  assumes "list_all (avoids (first_id c) (last_id c)) pre" "run_ok n c mid"
  shows "ssa_context c pre mid"
proof -
  from assms(2) have h: "last mid \<in> set mid" by (simp add: run_ok_def)
  from run_ok_ids(5) [OF assms(2) this] obtain t where t: "last_value c = Made (last_id c) t" by blast
  have le: "first_id c \<le> last_id c"
    using run_ok_ids(1,2) [OF assms(2) h] by simp
  have away: "\<not> uses (Made k u) g \<and> gen_result g \<noteq> Some (Made k u)"
    if "g \<in> set pre" "first_id c \<le> k" "k \<le> last_id c" for g k u
    using assms(1) that by (simp add: avoids_def list_all_iff)
  have "gen_result g \<noteq> gen_result h" if "g \<in> set pre" "h \<in> set mid" for g h
    using run_ok_ids(1,2,3) [OF assms(2) that(2)] away [OF that(1)] by metis
  moreover have "\<not> uses (last_value c) g" if "g \<in> set (pre @ mid)" for g
  proof (cases "g \<in> set pre")
    case True
    then show ?thesis using away le by (simp add: t)
  next
    case False
    then show ?thesis using that assms(2) by (auto simp: run_ok_def list_all_iff)
  qed
  ultimately show ?thesis by (auto simp: ssa_context_def list_all_iff)
qed

text \<open>The invariant of the visitor.\<close>

definition visited :: "symbolizer \<Rightarrow> bool" where
  "visited s \<longleftrightarrow> bounded s \<and> list_all (recorded s) (expressionUses s) \<and> in_order (expressionUses s)"

lemma visited_grown: "visited s \<Longrightarrow> grown s s' \<Longrightarrow> bounded s' \<Longrightarrow> visited s'"
  using recorded_grown by (auto simp: visited_def list_all_iff grown_def)

lemma recorded_last_id: "recorded s c \<Longrightarrow> last_id c < next_id s"
proof -
  assume "recorded s c"
  then obtain mid where m: "run_ok (next_id s) c mid" unfolding recorded_def by blast
  then have "last mid \<in> set mid" by (simp add: run_ok_def)
  from run_ok_ids(4) [OF m this] show ?thesis .
qed

lemma visited_register:
  assumes "visited s" "grown s s1" "bounded s1"
    and code: "inserted s1 (place c) = pre @ mid" "list_all (below (first_id c)) pre"
    and run: "run_ok (next_id s1) c mid" "next_id s \<le> first_id c"
    and reg: "registerSymbolicComputation c concrete s1 = Inr (x, s2)"
  shows "visited s2 \<and> next_id s2 = next_id s1 \<and> inserted s2 = inserted s1 \<and> phiNodes s2 = phiNodes s1 \<and>
    expressionUses s2 = expressionUses s @ [c]"
proof -
  have v1: "visited s1" using visited_grown assms(1-3) by blast
  have uses: "expressionUses s1 = expressionUses s" using assms(2) by (simp add: grown_def)
  from reg have s2: "inserted s2 = inserted s1" "next_id s2 = next_id s1" "phiNodes s2 = phiNodes s1"
    "expressionUses s2 = expressionUses s1 @ [c]"
    "symbolicExpressions s2 = (case concrete of None \<Rightarrow> symbolicExpressions s1
       | Some v \<Rightarrow> (symbolicExpressions s1)(v := lastInstruction c))"
    by (auto simp: registerSymbolicComputation_def set_expression_def build_simps split: option.splits)
  have h: "last mid \<in> set mid" using run(1) by (simp add: run_ok_def)
  have "lastInstruction c = Some (last_value c)" "older (next_id s1) (last_value c)"
    using run_ok_ids(4,5) [OF run(1) h] by (auto simp: last_value_def split: option.splits)
  then have "bounded s2" using assms(3) s2 by (auto simp: bounded_def split: option.splits if_splits)
  moreover have "recorded s2 c"
  proof -
    have "list_all (avoids (first_id c) (last_id c)) pre"
      using code(2) below_uses below_result by (fastforce simp: list_all_iff avoids_def)
    then show ?thesis
      unfolding recorded_def using code(1) run(1) s2 by (intro exI [of _ pre] exI [of _ mid] exI [of _ "[]"]) simp
  qed
  moreover have "recorded s2 d" if "recorded s1 d" for d
    using that s2(1,2) by (simp add: recorded_def)
  moreover have "last_id d < first_id c" if "d \<in> set (expressionUses s1)" for d
    using that assms(1) uses run(2) recorded_last_id by (fastforce simp: visited_def list_all_iff)
  ultimately show ?thesis
    using v1 s2 uses by (auto simp: visited_def list_all_iff in_order_def sorted_wrt_append)
qed

text \<open>\<open>visiting p n m R\<close>: \<open>m\<close> preserves the invariant and records computations at \<open>p\<close> only.\<close>

definition visiting :: "point \<Rightarrow> nat \<Rightarrow> 'a build \<Rightarrow> (nat \<Rightarrow> 'a \<Rightarrow> bool) \<Rightarrow> bool" where
  "visiting p n m R \<longleftrightarrow> (\<forall>s x s'. n \<le> next_id s \<longrightarrow> visited s \<longrightarrow> m s = Inr (x, s') \<longrightarrow>
     visited s' \<and> next_id s \<le> next_id s' \<and> code_grows s s' \<and> phiNodes s' = phiNodes s \<and> R (next_id s') x \<and>
     (\<exists>cs. expressionUses s' = expressionUses s @ cs \<and> list_all (\<lambda>c. place c = p) cs))"

named_theorems visiting_intros "steps of the visitor"

lemma visiting_sound:
  assumes "sound n m R"
  shows "visiting p n m R"
  unfolding visiting_def
proof (intro allI impI)
  fix s x s' assume "n \<le> next_id s" "visited s" "m s = Inr (x, s')"
  moreover from this have "bounded s" by (simp add: visited_def)
  ultimately have "grown s s'" "bounded s'" "R (next_id s') x" using soundD [OF assms] by blast+
  with visited_grown [OF \<open>visited s\<close>] show "visited s' \<and> next_id s \<le> next_id s' \<and> code_grows s s' \<and> phiNodes s' = phiNodes s \<and>
     R (next_id s') x \<and>
     (\<exists>cs. expressionUses s' = expressionUses s @ cs \<and> list_all (\<lambda>c. place c = p) cs)"
    by (auto simp: grown_def code_grows_def)
qed

lemma visiting_bind:
  assumes "visiting p n m R" "\<And>k x. n \<le> k \<Longrightarrow> R k x \<Longrightarrow> visiting p k (f x) Q"
  shows "visiting p n (bind_build m f) Q"
  unfolding visiting_def
proof (intro allI impI)
  fix s y s2
  assume s: "n \<le> next_id s" "visited s" and "bind_build m f s = Inr (y, s2)"
  then obtain x s1 where 1: "m s = Inr (x, s1)" "f x s1 = Inr (y, s2)"
    by (auto simp: bind_build_eq bind_result_eq_Inr)
  from assms(1) s 1(1) obtain cs where m: "visited s1" "next_id s \<le> next_id s1" "code_grows s s1" "phiNodes s1 = phiNodes s"
    "R (next_id s1) x" "expressionUses s1 = expressionUses s @ cs" "list_all (\<lambda>c. place c = p) cs"
    unfolding visiting_def by blast
  from m(2) s(1) have "n \<le> next_id s1" by simp
  from assms(2) [OF this m(5)] m(1) 1(2) obtain ds where f: "visited s2" "next_id s1 \<le> next_id s2"
    "code_grows s1 s2" "phiNodes s2 = phiNodes s1" "Q (next_id s2) y" "expressionUses s2 = expressionUses s1 @ ds" "list_all (\<lambda>c. place c = p) ds"
    unfolding visiting_def by blast
  from m f code_grows_trans [OF m(3) f(3)] show "visited s2 \<and> next_id s \<le> next_id s2 \<and> code_grows s s2 \<and> phiNodes s2 = phiNodes s \<and> Q (next_id s2) y \<and>
     (\<exists>cs. expressionUses s2 = expressionUses s @ cs \<and> list_all (\<lambda>c. place c = p) cs)"
    by auto
qed

lemma visiting_and_then [visiting_intros]:
  "visiting p n m anything \<Longrightarrow> (\<And>k. n \<le> k \<Longrightarrow> visiting p k m' Q) \<Longrightarrow> visiting p n (and_then m m') Q"
  unfolding and_then_def by (rule visiting_bind) auto

subsection \<open>Single calls and runs of calls\<close>

lemma computation_inputs_sound:
  "i \<in> set (computation_inputs call k args) \<Longrightarrow>
   user i = call \<and> k \<le> operandIndex i \<and> operandIndex i < k + length args \<and>
   args ! (operandIndex i - k) = (concreteValue i, True)"
proof (induction call k args rule: computation_inputs.induct)
  case (2 call k arg symbolic args)
  from "2.prems" consider "i = \<lparr>concreteValue = arg, operandIndex = k, user = call\<rparr>" "symbolic"
    | "i \<in> set (computation_inputs call (Suc k) args)" by (auto split: if_splits)
  then show ?case
  proof cases
    case 2
    note IH = "2.IH" [OF this]
    then obtain j where "operandIndex i = Suc (k + j)" by (metis add_Suc le_Suc_ex)
    with IH show ?thesis by simp
  qed simp
qed simp

lemma computation_inputs_distinct: "distinct (map input_key (computation_inputs call k args))"
proof (induction call k args rule: computation_inputs.induct)
  case (2 call k arg symbolic args)
  have "input_key i \<noteq> (call, k)" if "i \<in> set (computation_inputs call (Suc k) args)" for i
    using computation_inputs_sound [OF that] by (simp add: input_key_def)
  with 2 show ?case by (auto simp: input_key_def)
qed simp

text \<open>
  A run of calls under construction, with results between \<open>lo\<close> and \<open>hi\<close> and inputs whose
  expressions are older than \<open>l0\<close>.
\<close>

definition part_ok :: "nat \<Rightarrow> nat \<Rightarrow> nat \<Rightarrow> symbolic_computation \<Rightarrow> gen list \<Rightarrow> bool" where
  "part_ok l0 lo hi c mid \<longleftrightarrow> list_all (plain_call hi) mid \<and> sorted_wrt (<) (map result_id mid)
     \<and> list_all (\<lambda>g. lo \<le> result_id g) mid
     \<and> firstInstruction c = (if mid = [] then None else gen_result (hd mid))
     \<and> lastInstruction c = (if mid = [] then None else gen_result (last mid))
     \<and> list_all (\<lambda>g. \<forall>k t. uses (Made k t) g \<longrightarrow> k < result_id g) mid
     \<and> distinct (map input_key (inputs c))
     \<and> list_all (\<lambda>i. operand_exists mid i \<and> original (concreteValue i) \<and> older l0 (getSymbolicOperand mid i)) (inputs c)"

lemma part_ok_empty: "part_ok l0 lo hi (empty_computation p) []"
  by (simp add: part_ok_def empty_computation_def)

lemma operand_exists_result: "operand_exists mid i \<Longrightarrow> \<exists>g\<in>set mid. gen_result g = Some (user i)"
  using find_gen_Some [of "user i" mid] by (auto simp: operand_exists_def split: option.splits)

lemma part_ok_ids:
  assumes "part_ok l0 lo hi c mid" "g \<in> set mid"
  shows "\<exists>t. gen_result g = Some (Made (result_id g) t)" "lo \<le> result_id g" "result_id g < hi"
  using assms plain_call_Made [of hi g] by (auto simp: part_ok_def list_all_iff)

lemma find_gen_append: "find_gen x (xs @ ys) = (case find_gen x xs of Some g \<Rightarrow> Some g | None \<Rightarrow> find_gen x ys)"
  by (induction xs) (auto simp: find_gen_def)

lemma find_gen_None: "(\<And>g. g \<in> set xs \<Longrightarrow> gen_result g \<noteq> Some x) \<Longrightarrow> find_gen x xs = None"
  by (simp add: find_gen_def find_None_iff)

lemma part_ok_merge:
  assumes c: "part_ok l0 lo m c mid" and d: "part_ok l0 m hi d mid'" and "lo \<le> m" "m \<le> hi" "mid' \<noteq> []"
  shows "part_ok l0 lo hi (merge_computation c d) (mid @ mid')"
proof -
  note C = c [unfolded part_ok_def] and D = d [unfolded part_ok_def]
  have apart: "result_id g < result_id h" if "g \<in> set mid" "h \<in> set mid'" for g h
    using part_ok_ids(3) [OF c that(1)] part_ok_ids(2) [OF d that(2)] by simp
  have left: "operand_exists (mid @ mid') i = operand_exists mid i \<and> getSymbolicOperand (mid @ mid') i = getSymbolicOperand mid i"
    if "operand_exists mid i" for i
    using that by (auto simp: operand_exists_def getSymbolicOperand_def find_gen_append split: option.splits)
  have right: "operand_exists (mid @ mid') i = operand_exists mid' i \<and> getSymbolicOperand (mid @ mid') i = getSymbolicOperand mid' i
      \<and> (\<forall>g\<in>set mid. gen_result g \<noteq> Some (user i))"
    if i: "operand_exists mid' i" for i
  proof -
    obtain h where h: "h \<in> set mid'" "gen_result h = Some (user i)" using operand_exists_result [OF i] by blast
    have "gen_result g \<noteq> Some (user i)" if "g \<in> set mid" for g
      using apart [OF that h(1)] h(2) by (auto simp: result_id_def)
    then show ?thesis
      using find_gen_None [of mid "user i"] by (simp add: operand_exists_def getSymbolicOperand_def find_gen_append)
  qed
  have "False" if "x \<in> input_key ` set (inputs c)" "x \<in> input_key ` set (inputs d)" for x
  proof -
    from that obtain i j where ij: "i \<in> set (inputs c)" "j \<in> set (inputs d)" "input_key i = input_key j"
      unfolding image_iff by metis
    then have "operand_exists mid i" "operand_exists mid' j" using C D by (auto simp: list_all_iff)
    then show ?thesis using operand_exists_result [of mid i] right [of j] ij(3) by (auto simp: input_key_def)
  qed
  then have "input_key ` set (inputs c) \<inter> input_key ` set (inputs d) = {}" by blast
  then have "distinct (map input_key (inputs c @ inputs d))" using C D by simp
  moreover have "sorted_wrt (<) (map result_id (mid @ mid'))"
    using C D apart by (auto simp: sorted_wrt_append)
  moreover have "list_all (plain_call hi) (mid @ mid')"
    using C D assms(4) by (auto simp: list_all_iff intro: plain_call_mono)
  moreover have "list_all (\<lambda>g. lo \<le> result_id g) (mid @ mid')"
    using C D assms(3) by (auto simp: list_all_iff intro: order_trans)
  moreover have "list_all (\<lambda>i. operand_exists (mid @ mid') i \<and> original (concreteValue i)
      \<and> older l0 (getSymbolicOperand (mid @ mid') i)) (inputs c @ inputs d)"
    using C D left right by (auto simp: list_all_iff)
  moreover have "gen_result (hd mid) \<noteq> None" if "mid \<noteq> []"
    using part_ok_ids(1) [OF c, of "hd mid"] that by auto
  ultimately show ?thesis
    using C D assms(5) by (auto simp: part_ok_def merge_computation_def)
qed

lemma part_ok_run:
  assumes "part_ok l0 lo hi c mid" "l0 \<le> lo" "mid \<noteq> []" "inputs c \<noteq> []" "lo \<le> hi"
  shows "run_ok hi c mid \<and> first_id c = result_id (hd mid) \<and> lo \<le> first_id c"
proof -
  note C = assms(1) [unfolded part_ok_def]
  have hd: "hd mid \<in> set mid" and last: "last mid \<in> set mid" using assms(3) by simp_all
  obtain t u where t: "gen_result (hd mid) = Some (Made (result_id (hd mid)) t)"
    and u: "gen_result (last mid) = Some (Made (result_id (last mid)) u)"
    using part_ok_ids(1) [OF assms(1)] hd last by meson
  have "result_id g \<le> result_id (last mid)" if "g \<in> set mid" for g
    using C that assms(3) by (cases mid rule: rev_cases) (auto simp: sorted_wrt_append)
  then have "\<not> uses (last_value c) g" if "g \<in> set mid" for g
    using that C u assms(3) by (fastforce simp: list_all_iff last_value_def)
  moreover have "input_placed hi mid i" if "i \<in> set (inputs c)" for i
  proof -
    have i: "operand_exists mid i" "original (concreteValue i)" "older l0 (getSymbolicOperand mid i)"
      using that C by (auto simp: list_all_iff)
    have "gen_result g \<noteq> Some (getSymbolicOperand mid i)" if "g \<in> set mid" for g
      using part_ok_ids(1,2) [OF assms(1) that] i(3) assms(2) by (auto dest: order_trans)
    moreover have "older hi (getSymbolicOperand mid i)" using i(3) assms(2,5) by (auto intro: older_mono)
    ultimately show ?thesis using i(1,2) unfolding input_placed_def by (metis imageE)
  qed
  ultimately have "run_ok hi c mid" using C assms(3,4) by (auto simp: run_ok_def list_all_iff)
  moreover have "lo \<le> result_id (hd mid)" using part_ok_ids(2) [OF assms(1) hd] .
  ultimately show ?thesis using C assms(3) t by (simp add: first_id_def)
qed

text \<open>What a call passes: original values as inputs, values created before otherwise.\<close>

definition args_placed :: "nat \<Rightarrow> (val \<times> bool) list \<Rightarrow> bool" where
  "args_placed n args \<longleftrightarrow> list_all (\<lambda>(arg, symbolic). if symbolic then original arg else older n arg) args"

lemma args_placed_mono: "args_placed n args \<Longrightarrow> n \<le> m \<Longrightarrow> args_placed m args"
  by (auto simp: args_placed_def list_all_iff intro: older_mono split: if_splits)

lemma force_call:
  assumes "forceBuildRuntimeCall p f args s = Inr (c, s')" "args_placed (next_id s) args" "bounded s"
    and l0: "\<And>arg. older l0 (getSymbolicExpressionOrNull s arg)"
  obtains g where "s' = s\<lparr>inserted := (inserted s)(p := inserted s p @ [g]), next_id := Suc (next_id s)\<rparr>"
    "bounded s'" "part_ok l0 (next_id s) (Suc (next_id s)) c [g]" "place c = p"
    "\<And>arg. (arg, True) \<in> set args \<Longrightarrow> inputs c \<noteq> []" "older (next_id s') (last_value c)"
proof -
  let ?r = "Made (next_id s) (sym_ret f)" and ?g = "Gen (Made (next_id s) (sym_ret f)) (Call f) (map (argument_value s) args)"
  from assms(1) have c: "c = \<lparr>place = p, firstInstruction = Some ?r, lastInstruction = Some ?r,
      inputs = computation_inputs ?r 0 args\<rparr>"
    and s': "s' = s\<lparr>inserted := (inserted s)(p := inserted s p @ [?g]), next_id := Suc (next_id s)\<rparr>"
    by (auto simp: forceBuildRuntimeCall_def createCall_def emit_def insert_code_def Let_def build_simps bind_result_eq_Inr
        split: if_splits)
  have old: "older (next_id s) (argument_value s a)" if "a \<in> set args" for a
    using that assms(2,3) by (fastforce simp: argument_value_def args_placed_def list_all_iff)
  have "bounded s'"
    using assms(3) old bounded_mono [OF assms(3), of "Suc (next_id s)"]
    by (auto simp: bounded_def s' list_all_iff intro: older_mono [OF old])
  moreover have "operand_exists [?g] i \<and> original (concreteValue i) \<and> older l0 (getSymbolicOperand [?g] i)"
    if "i \<in> set (computation_inputs ?r 0 args)" for i
  proof -
    note i = computation_inputs_sound [OF that]
    then have "(concreteValue i, True) \<in> set args" by (metis add_0 diff_zero nth_mem)
    with i assms(2) l0 show ?thesis
      by (auto simp: operand_exists_def getSymbolicOperand_def find_gen_def argument_value_def args_placed_def list_all_iff)
  qed
  moreover have "k < next_id s" if "uses (Made k t) ?g" for k t
  proof -
    from that obtain a where "a \<in> set args" "Made k t = argument_value s a" by (auto simp only: uses.simps set_map)
    with old [of a] show ?thesis by (metis older.simps(1))
  qed
  ultimately have "part_ok l0 (next_id s) (Suc (next_id s)) c [?g]"
    using old computation_inputs_distinct [of ?r 0 args]
    by (auto simp: part_ok_def c result_id_def list_all_iff intro: older_mono [OF old])
  moreover have "inputs c \<noteq> []" if "(arg, True) \<in> set args" for arg
    using computation_inputs_typed(2) [OF that] by (simp add: c)
  ultimately show thesis
    using that [of ?g] s' \<open>bounded s'\<close> by (simp add: c last_value_def)
qed

subsection \<open>Every visit records well-placed computations\<close>

lemma visited_bounded: "visited s \<Longrightarrow> bounded s"
  by (simp add: visited_def)

lemma bounded_all_below: "bounded s \<Longrightarrow> list_all (below (next_id s)) (inserted s p)"
  by (simp add: bounded_def)

text \<open>Code appended at one point, the last piece of which is a run of calls that is registered.\<close>

lemma visiting_run:
  assumes "visited s" "grown s s1" "bounded s1" "inserted s1 p = inserted t p @ mid" "bounded t" "next_id s \<le> next_id t"
    and part: "part_ok l0 (next_id t) (next_id s1) c mid" "l0 \<le> next_id t" "mid \<noteq> []" "inputs c \<noteq> []" "place c = p"
      "next_id t \<le> next_id s1"
    and reg: "registerSymbolicComputation c v s1 = Inr (x, s')"
  shows "visited s' \<and> next_id s \<le> next_id s' \<and> code_grows s s' \<and> phiNodes s' = phiNodes s \<and>
     (\<exists>cs. expressionUses s' = expressionUses s @ cs \<and> list_all (\<lambda>c. place c = p) cs)"
proof -
  have run: "run_ok (next_id s1) c mid" "next_id t \<le> first_id c"
    using part_ok_run [OF part(1,2,3,4,6)] by simp_all
  have "list_all (below (first_id c)) (inserted t p)"
    using bounded_all_below [OF assms(5), of p] run(2) by (auto simp: list_all_iff intro: below_mono)
  moreover have "next_id s \<le> first_id c" using run(2) assms(6) by simp
  ultimately show ?thesis
    using visited_register [OF assms(1-3) _ _ run(1) _ reg, of "inserted t p"] assms(2,4) part(5)
    by (auto simp: grown_def code_grows_def)
qed

lemma visiting_build_and_register [visiting_intros]:
  assumes "args_placed n args" "\<exists>arg. (arg, True) \<in> set args"
  shows "visiting (here I) n (build_and_register I f args v) anything"
  unfolding visiting_def
proof (intro allI impI)
  fix s x s' assume n: "n \<le> next_id s" and s: "visited s" and m: "build_and_register I f args v s = Inr (x, s')"
  have b: "bounded s" using s by (rule visited_bounded)
  show "visited s' \<and> next_id s \<le> next_id s' \<and> code_grows s s' \<and> phiNodes s' = phiNodes s \<and> True \<and>
     (\<exists>cs. expressionUses s' = expressionUses s @ cs \<and> list_all (\<lambda>c. place c = here I) cs)"
  proof (cases "list_all (\<lambda>(arg, _). getSymbolicExpression s arg = None) args")
    case True
    with m s show ?thesis by (simp add: build_and_register_def buildRuntimeCall_def register_if_built_def build_simps)
  next
    case False
    with m obtain c s1 where 1: "forceBuildRuntimeCall (here I) f args s = Inr (c, s1)"
      "registerSymbolicComputation c v s1 = Inr (x, s')"
      by (auto simp: build_and_register_def buildRuntimeCall_def register_if_built_def build_simps bind_result_eq_Inr)
    obtain g where g: "s1 = s\<lparr>inserted := (inserted s)(here I := inserted s (here I) @ [g]), next_id := Suc (next_id s)\<rparr>"
      "bounded s1" "part_ok (next_id s) (next_id s) (Suc (next_id s)) c [g]" "place c = here I" "inputs c \<noteq> []"
      using force_call [OF 1(1) args_placed_mono [OF assms(1) n] b, of "next_id s"] assms(2) b
      by (metis bounded_expression order_refl)
    have "grown s s1" by (simp add: g(1) grown_def)
    then show ?thesis
      using visiting_run [OF s _ g(2) _ b order_refl _ _ _ g(5,4) _ 1(2), of "[g]" "next_id s"] g(1,3) by simp
  qed
qed

lemma visiting_return [visiting_intros]: "(\<And>k. n \<le> k \<Longrightarrow> R k x) \<Longrightarrow> visiting p n (return_build x) R"
  by (rule visiting_sound, rule sound_return)

lemma visiting_fail [visiting_intros]: "visiting p n (fail_build e) R"
  by (rule visiting_sound, rule sound_fail)

lemmas visiting_grow [visiting_intros] =
  visiting_sound [OF sound_check] visiting_sound [OF sound_warn] visiting_sound [OF sound_ignore [OF sound_createCall]]
  visiting_sound [OF sound_set_expression]

lemma visiting_in_case [visiting_intros]: "visiting p n m anything \<Longrightarrow> visiting p n (in_case b m) anything"
  by (simp add: in_case_def visiting_return)

lemma visiting_for_each:
  "(\<And>k x. x \<in> set xs \<Longrightarrow> n \<le> k \<Longrightarrow> visiting p k (f x) anything) \<Longrightarrow> visiting p n (for_each xs f) anything"
proof (induction xs arbitrary: n)
  case (Cons x xs)
  have "visiting p n (and_then (f x) (for_each xs f)) anything"
    by (intro visiting_and_then Cons.IH Cons.prems) (use Cons.prems in auto)
  then show ?case by simp
qed (simp add: visiting_return)

text \<open>The call that ends \<open>createValueExpression\<close>.\<close>

definition ends_in_call :: "nat \<Rightarrow> point \<Rightarrow> val build \<Rightarrow> bool" where
  "ends_in_call n p m \<longleftrightarrow> (\<forall>s x s'. n \<le> next_id s \<longrightarrow> bounded s \<longrightarrow> m s = Inr (x, s') \<longrightarrow>
     (\<exists>t f xs. grown s t \<and> bounded t \<and> list_all (older (next_id t)) xs \<and> createCall p f xs t = Inr (x, s')))"

lemma ends_in_call_createCall: "list_all (older n) xs \<Longrightarrow> ends_in_call n p (createCall p f xs)"
  unfolding ends_in_call_def list_all_iff by (metis grown_refl older_mono)

lemma ends_in_call_bind:
  assumes "sound n m R" "\<And>k x. n \<le> k \<Longrightarrow> R k x \<Longrightarrow> ends_in_call k p (f x)"
  shows "ends_in_call n p (bind_build m f)"
  unfolding ends_in_call_def
proof (intro allI impI)
  fix s y s2
  assume s: "n \<le> next_id s" "bounded s" and "bind_build m f s = Inr (y, s2)"
  then obtain x s1 where 1: "m s = Inr (x, s1)" "f x s1 = Inr (y, s2)"
    by (auto simp: bind_build_eq bind_result_eq_Inr)
  note m = soundD [OF assms(1) 1(1) s]
  have "n \<le> next_id s1" using m(1) s(1) by (simp add: grown_def)
  from assms(2) [OF this m(3)] m(2) 1(2)
  show "\<exists>t f xs. grown s t \<and> bounded t \<and> list_all (older (next_id t)) xs \<and> createCall p f xs t = Inr (y, s2)"
    unfolding ends_in_call_def by (meson grown_trans m(1) order_refl)
qed

lemma ends_in_call_fail: "ends_in_call n p (fail_build e)"
  by (simp add: ends_in_call_def fail_build_def)

lemma ends_in_call_value:
  assumes "older n V"
  shows "ends_in_call n p (createValueExpression E p V)"
  unfolding createValueExpression_def
  by (auto split: ty.split intro!: ends_in_call_createCall ends_in_call_fail ends_in_call_bind [OF sound_createCast]
      ends_in_call_bind [OF sound_emit] intro: older_mono [OF assms] older_mono)

lemma createCall_result:
  "createCall p f xs s = Inr (x, s') \<Longrightarrow> x = Made (next_id s) (sym_ret f) \<and>
     s' = s\<lparr>inserted := (inserted s)(p := inserted s p @ [Gen x (Call f) xs]), next_id := Suc (next_id s)\<rparr>"
  by (auto simp: createCall_def emit_def insert_code_def Let_def build_simps split: if_splits)

lemma visiting_try_alternative [visiting_intros]:
  assumes "original V"
  shows "visiting p n (try_alternative E p V) anything"
  unfolding visiting_def
proof (intro allI impI)
  fix s x s' assume n: "n \<le> next_id s" and s: "visited s" and m: "try_alternative E p V s = Inr (x, s')"
  have b: "bounded s" using s by (rule visited_bounded)
  show "visited s' \<and> next_id s \<le> next_id s' \<and> code_grows s s' \<and> phiNodes s' = phiNodes s \<and> True \<and>
     (\<exists>cs. expressionUses s' = expressionUses s @ cs \<and> list_all (\<lambda>c. place c = p) cs)"
  proof (cases "getSymbolicExpression s V")
    case None
    with m s show ?thesis by (simp add: try_alternative_def)
  next
    case (Some e)
    obtain v s1 q s2 r s3 where
      1: "createValueExpression E p V s = Inr (v, s1)" and
      2: "createCall p (equal_handler E) [e, v] s1 = Inr (q, s2)" and
      3: "createCall p (pushPathConstraint (rt E)) [q, int1 True, site E V] s2 = Inr (r, s3)" and
      4: "registerSymbolicComputation \<lparr>place = p, firstInstruction = Some v, lastInstruction = Some r,
             inputs = [\<lparr>concreteValue = V, operandIndex = 0, user = q\<rparr>]\<rparr> None s3 = Inr (x, s')"
      using m Some by (auto simp: try_alternative_def bind_build_eq bind_result_eq_Inr)
    obtain t f xs where t: "grown s t" "bounded t" "list_all (older (next_id t)) xs" "createCall p f xs t = Inr (v, s1)"
      using ends_in_call_value [of "next_id s" V p E] assms 1 b unfolding ends_in_call_def by force
    have le: "next_id s \<le> next_id t" using t(1) by (simp add: grown_def)
    have e: "older (next_id t) e" using bounded_mono(2) [OF b le] Some by (simp add: getSymbolicExpression_def)
    note c1 = createCall_result [OF t(4)] and c2 = createCall_result [OF 2] and c3 = createCall_result [OF 3]
    let ?n = "next_id t"
    define g1 g2 g3 where g: "g1 = Gen v (Call f) xs" "g2 = Gen q (Call (equal_handler E)) [e, v]"
      "g3 = Gen r (Call (pushPathConstraint (rt E))) [q, int1 True, site E V]"
    have nums: "v = Made ?n (sym_ret f)" "q = Made (Suc ?n) (sym_ret (equal_handler E))"
      "r = Made (Suc (Suc ?n)) (sym_ret (pushPathConstraint (rt E)))" "next_id s3 = Suc (Suc (Suc ?n))"
      and ins: "inserted s3 p = inserted t p @ [g1, g2, g3]" "grown t s3"
      using c1 c2 c3 by (auto simp: g grown_def)
    have b3: "bounded s3"
    proof -
      have "bounded s1" using soundD(2) [OF sound_createCall [OF t(3)] t(4) order_refl t(2)] .
      moreover have "list_all (older (next_id s1)) [e, v]" using c1 e by (auto intro: older_mono)
      ultimately have "bounded s2" using soundD(2) [OF sound_createCall 2 order_refl] by blast
      moreover have "list_all (older (next_id s2)) [q, int1 True, site E V]" using c2 by simp
      ultimately show ?thesis using soundD(2) [OF sound_createCall 3 order_refl] by blast
    qed
    have uses: "k < ?n" if "Made k u \<in> set xs" for k u
      using t(3) that by (fastforce simp: list_all_iff)
    let ?c = "\<lparr>place = p, firstInstruction = Some v, lastInstruction = Some r,
             inputs = [\<lparr>concreteValue = V, operandIndex = 0, user = q\<rparr>]\<rparr>"
    have "part_ok ?n ?n (next_id s3) ?c [g1, g2, g3]"
      using t(3) e uses assms
      by (auto simp: part_ok_def g nums result_id_def operand_exists_def getSymbolicOperand_def find_gen_def list_all_iff
          int1_def site_def getTargetPreferredInt_def const_int_def intro: older_mono)
    then show ?thesis
      using visiting_run [OF s grown_trans [OF t(1) ins(2)] b3 ins(1) t(2) le _ _ _ _ _ _ 4, of ?n] nums(4) by simp
  qed
qed

subsection \<open>Address computations\<close>

text \<open>What the loop over the indices has built when it started from \<open>t\<close>.\<close>

definition gep_placed :: "symbolizer \<Rightarrow> point \<Rightarrow> symbolizer \<Rightarrow> symbolic_computation \<Rightarrow> bool" where
  "gep_placed t p s c \<longleftrightarrow> (\<exists>mid. inserted s = (inserted t)(p := inserted t p @ mid) \<and> bounded s \<and>
     symbolicExpressions s = symbolicExpressions t \<and> expressionUses s = expressionUses t \<and> phiNodes s = phiNodes t \<and>
     next_id t \<le> next_id s \<and> place c = p \<and> part_ok (next_id t) (next_id t) (next_id s) c mid \<and>
     older (next_id s) (last_value c) \<and> (mid = [] \<longleftrightarrow> inputs c = []))"

lemma gep_placed_merge_call:
  assumes "gep_placed t p s c" "bounded t" "merge_call p f args c s = Inr (c', s')" "args_placed (next_id s) args"
    "(\<exists>arg. (arg, True) \<in> set args) \<or> inputs c \<noteq> []"
  shows "gep_placed t p s' c' \<and> next_id s \<le> next_id s' \<and> inputs c' \<noteq> []"
proof -
  obtain mid where mid: "inserted s = (inserted t)(p := inserted t p @ mid)" "bounded s"
     "symbolicExpressions s = symbolicExpressions t" "expressionUses s = expressionUses t" "phiNodes s = phiNodes t"
     "next_id t \<le> next_id s" "place c = p" "part_ok (next_id t) (next_id t) (next_id s) c mid"
     "older (next_id s) (last_value c)" "mid = [] \<longleftrightarrow> inputs c = []"
    using assms(1) unfolding gep_placed_def by blast
  obtain d where d: "forceBuildRuntimeCall p f args s = Inr (d, s')" "c' = merge_computation c d"
    using assms(3) by (auto simp: merge_call_def build_simps bind_result_eq_Inr)
  have "older (next_id t) (getSymbolicExpressionOrNull s a)" for a
    using bounded_expression [OF assms(2) order_refl, of a] mid(3)
    by (simp add: getSymbolicExpressionOrNull_def getSymbolicExpression_def)
  from force_call [OF d(1) assms(4) mid(2) this] obtain g where
    g: "s' = s\<lparr>inserted := (inserted s)(p := inserted s p @ [g]), next_id := Suc (next_id s)\<rparr>" "bounded s'"
    "part_ok (next_id t) (next_id s) (Suc (next_id s)) d [g]" "\<And>arg. (arg, True) \<in> set args \<Longrightarrow> inputs d \<noteq> []"
    "older (next_id s') (last_value d)"
    by metis
  have inputs: "inputs c' \<noteq> []" using assms(5) g(4) by (auto simp: d(2) merge_computation_def)
  have part: "part_ok (next_id t) (next_id t) (Suc (next_id s)) c' (mid @ [g])"
    unfolding d(2) by (rule part_ok_merge [OF mid(8) g(3) mid(6)]) simp_all
  have "gep_placed t p s' c'"
    unfolding gep_placed_def
    using mid g part d(2) inputs by (intro exI [of _ "mid @ [g]"]) (auto simp: merge_computation_def last_value_def)
  with inputs show ?thesis using g(1) by simp
qed

lemma original_const [simp]: "original (const_int w k)"
  by (simp add: const_int_def)

lemma gep_last_value: "gep_placed t p s c \<Longrightarrow> older (next_id s) (last_value c)"
  unfolding gep_placed_def by blast

lemma gep_element_contribution:
  assumes "gep_placed t p s c" "bounded t" "original index" "element_contribution E p ty index c s = Inr (c', s')"
  shows "gep_placed t p s' c' \<and> next_id s \<le> next_id s' \<and> inputs c' \<noteq> []"
proof (cases "bit_width (type_of index) \<noteq> ptrBits E")
  case True
  let ?size = "const_int (ptrBits E) (unsigned_int (int (type_alloc_size (dataLayout E) ty)))"
  let ?gap = "const_int 8 (int (ptrBits E) - int (bit_width (type_of index)))"
  from assms(4) True obtain d s1 where
    1: "merge_call p (buildZExt (rt E)) [(index, True), (?gap, False)] c s = Inr (d, s1)" and
    2: "merge_call p (mul_handler E) [(last_value d, False), (?size, True)] d s1 = Inr (c', s')"
    by (auto simp: element_contribution_def getIntegerBitWidth_def build_simps bind_result_eq_Inr Let_def split: if_splits)
  have d: "gep_placed t p s1 d \<and> next_id s \<le> next_id s1 \<and> inputs d \<noteq> []"
    by (rule gep_placed_merge_call [OF assms(1,2) 1]) (use assms(3) in \<open>auto simp: args_placed_def\<close>)
  then have "args_placed (next_id s1) [(last_value d, False), (?size, True)]"
    by (auto simp: args_placed_def intro: gep_last_value)
  with d show ?thesis using gep_placed_merge_call [OF _ assms(2) 2] by force
next
  case False
  let ?size = "const_int (ptrBits E) (unsigned_int (int (type_alloc_size (dataLayout E) ty)))"
  from assms(4) False have "merge_call p (mul_handler E) [(index, True), (?size, True)] c s = Inr (c', s')"
    by (auto simp: element_contribution_def getIntegerBitWidth_def build_simps bind_result_eq_Inr Let_def split: if_splits)
  then show ?thesis
    by (rule gep_placed_merge_call [OF assms(1,2)]) (use assms(3) in \<open>auto simp: args_placed_def\<close>)
qed

text \<open>The state of the loop: a partial computation and the current address.\<close>

definition gep_state :: "symbolizer \<Rightarrow> point \<Rightarrow> symbolizer \<Rightarrow> gep_state \<Rightarrow> bool" where
  "gep_state t p s = (\<lambda>(c, address, isPointer). gep_placed t p s c \<and>
     (if isPointer then original address else older (next_id s) address))"

lemma gep_add_contribution:
  assumes "gep_placed t p s c" "bounded t" "args_placed (next_id s) [contribution, current]"
    "snd contribution \<or> inputs c \<noteq> []" "add_contribution E p contribution current c s = Inr (st, s')"
  shows "gep_state t p s' st \<and> next_id s \<le> next_id s' \<and> inputs (fst st) \<noteq> []"
proof -
  from assms(5) obtain d where
    1: "merge_call p (add_handler E) [contribution, current] c s = Inr (d, s')" and st: "st = (d, last_value d, False)"
    by (auto simp: add_contribution_def build_simps bind_result_eq_Inr)
  have "(\<exists>arg. (arg, True) \<in> set [contribution, current]) \<or> inputs c \<noteq> []"
    using assms(4) by (cases contribution) auto
  from gep_placed_merge_call [OF assms(1,2) 1 assms(3) this] show ?thesis
    by (auto simp: st gep_state_def intro: gep_last_value)
qed

lemma gep_step_placed:
  assumes "gep_state t p s (c, address, isPointer)" "bounded t" "original (step_operand i)"
    "gep_step E p i (c, address, isPointer) s = Inr (st, s')"
  shows "gep_state t p s' st \<and> next_id s \<le> next_id s' \<and>
    (inputs c \<noteq> [] \<or> constant_value (step_operand i) \<noteq> Some 0 \<longrightarrow> inputs (fst st) \<noteq> [])"
proof -
  have c: "gep_placed t p s c" and a: "if isPointer then original address else older (next_id s) address"
    using assms(1) by (simp_all add: gep_state_def)
  show ?thesis
  proof (cases i)
    case (StructStep ts index)
    let ?offset = "const_int (ptrBits E)
      (unsigned_int (int (element_offset (dataLayout E) ts (nat (unsigned_int (the (constant_value index)))))))"
    from assms(4) StructStep have
      "add_contribution E p (?offset, True) (address, isPointer) c s = Inr (st, s')"
      by (auto simp: gep_step_def build_simps bind_result_eq_Inr Let_def split: if_splits)
    from gep_add_contribution [OF c assms(2) _ _ this] a show ?thesis
      by (auto simp: args_placed_def split: if_splits)
  next
    case (ElementStep ty index)
    show ?thesis
    proof (cases "constant_value index = Some 0")
      case True
      with assms(1,4) ElementStep show ?thesis by (auto simp: gep_step_def build_simps)
    next
      case False
      with assms(4) ElementStep obtain d s1 where
        1: "element_contribution E p ty index c s = Inr (d, s1)" and
        2: "add_contribution E p (last_value d, False) (address, isPointer) d s1 = Inr (st, s')"
        by (auto simp: gep_step_def build_simps bind_result_eq_Inr)
      have d: "gep_placed t p s1 d \<and> next_id s \<le> next_id s1 \<and> inputs d \<noteq> []"
        using gep_element_contribution [OF c assms(2) _ 1] assms(3) ElementStep by simp
      then have "args_placed (next_id s1) [(last_value d, False), (address, isPointer)]"
        using a by (auto simp: args_placed_def intro: older_mono gep_last_value split: if_splits)
      with gep_add_contribution [OF _ assms(2) this _ 2] d show ?thesis by force
    qed
  qed
qed

lemma gep_steps_placed:
  assumes "gep_state t p s st" "bounded t" "list_all (\<lambda>j. original (step_operand j)) js"
    "gep_steps E p js st s = Inr (st', s')"
  shows "gep_state t p s' st' \<and>
    (inputs (fst st) \<noteq> [] \<or> \<not> list_all (\<lambda>j. constant_value (step_operand j) = Some 0) js \<longrightarrow> inputs (fst st') \<noteq> [])"
  using assms
proof (induction js arbitrary: st s)
  case (Cons i js)
  obtain c address isPointer where st: "st = (c, address, isPointer)" by (cases st) auto
  from Cons.prems(4) st obtain st1 s1 where
    1: "gep_step E p i (c, address, isPointer) s = Inr (st1, s1)" "gep_steps E p js st1 s1 = Inr (st', s')"
    by (auto simp: build_simps bind_result_eq_Inr)
  note step = gep_step_placed [OF Cons.prems(1) [unfolded st] Cons.prems(2) _ 1(1)]
  have "gep_state t p s1 st1" using step Cons.prems(3) by simp
  from Cons.IH [OF this Cons.prems(2) _ 1(2)] show ?case
    using step Cons.prems(3) st by auto
qed (simp add: build_simps)

lemma visiting_GetElementPtr:
  assumes "original pointer" "list_all (\<lambda>j. original (step_operand j)) js"
  shows "visiting (here I) n (visitGetElementPtrInst E I pointer js) anything"
  unfolding visiting_def
proof (intro allI impI)
  fix s x s' assume n: "n \<le> next_id s" and s: "visited s" and m: "visitGetElementPtrInst E I pointer js s = Inr (x, s')"
  have b: "bounded s" using s by (rule visited_bounded)
  let ?concrete = "getSymbolicExpression s pointer = None \<and> list_all (\<lambda>j. getSymbolicExpression s (step_operand j) = None) js"
  let ?zero = "list_all (\<lambda>j. constant_value (step_operand j) = Some 0) js"
  consider "?concrete" | "\<not> ?concrete" "?zero" | "\<not> ?concrete" "\<not> ?zero" by blast
  then show "visited s' \<and> next_id s \<le> next_id s' \<and> code_grows s s' \<and> phiNodes s' = phiNodes s \<and> True \<and>
     (\<exists>cs. expressionUses s' = expressionUses s @ cs \<and> list_all (\<lambda>c. place c = here I) cs)"
  proof cases
    case 2
    have "visiting (here I) (next_id s) (set_expression (self I) (getSymbolicExpression s pointer)) anything"
      using bounded_mono(2) [OF b order_refl] by (intro visiting_grow) (simp add: getSymbolicExpression_def)
    moreover have "set_expression (self I) (getSymbolicExpression s pointer) s = Inr (x, s')"
      using m 2 unfolding visitGetElementPtrInst_def by metis
    ultimately show ?thesis using s unfolding visiting_def by blast
  next
    case 3
    then have "bind_build (gep_steps E (here I) js (empty_computation (here I), pointer, True)) (\<lambda>(c, _, _).
           registerSymbolicComputation c (Some (self I))) s = Inr (x, s')"
      using m unfolding visitGetElementPtrInst_def by metis
    then obtain c address isPointer s1 where
      1: "gep_steps E (here I) js (empty_computation (here I), pointer, True) s = Inr ((c, address, isPointer), s1)"
      "registerSymbolicComputation c (Some (self I)) s1 = Inr (x, s')"
      by (auto simp: build_simps bind_result_eq_Inr)
    have "gep_state s (here I) s (empty_computation (here I), pointer, True)"
      using assms(1) b part_ok_empty
      by (auto simp: gep_state_def gep_placed_def empty_computation_def last_value_def intro!: exI [of _ "[]"])
    from gep_steps_placed [OF this b assms(2) 1(1)] 3(2)
    have c: "gep_placed s (here I) s1 c" "inputs c \<noteq> []" by (auto simp: gep_state_def)
    then obtain mid where mid: "inserted s1 = (inserted s)(here I := inserted s (here I) @ mid)" "bounded s1"
      "expressionUses s1 = expressionUses s" "phiNodes s1 = phiNodes s"
      "next_id s \<le> next_id s1" "place c = here I" "part_ok (next_id s) (next_id s) (next_id s1) c mid" "mid \<noteq> []"
      unfolding gep_placed_def by auto
    have "grown s s1" using mid by (simp add: grown_def)
    then show ?thesis
      using visiting_run [OF s _ mid(2) _ b order_refl mid(7) order_refl mid(8) c(2) mid(6,5) 1(2)] mid(1) by simp
  next
    case 1
    then have "s' = s" using m unfolding visitGetElementPtrInst_def by simp
    then show ?thesis using s by simp
  qed
qed

subsection \<open>The visit of an instruction\<close>

lemma visiting_sound_bind: "sound n m R \<Longrightarrow> (\<And>k x. n \<le> k \<Longrightarrow> R k x \<Longrightarrow> visiting p k (f x) Q) \<Longrightarrow> visiting p n (bind_build m f) Q"
  by (rule visiting_bind [OF visiting_sound])

lemma placed_binary [simp]:
  "args_placed n [] = True"
  "args_placed n ((x, b) # args) \<longleftrightarrow> (if b then original x else older n x) \<and> args_placed n args"
  by (simp_all add: args_placed_def)

lemma visiting_copy_expression: "visiting p n (copy_expression I v) anything"
  unfolding copy_expression_def
  by (rule visiting_sound, rule sound_bind [OF sound_get_expression])
    (auto intro!: sound_in_case sound_set_expression)

lemma visiting_push_condition: "original c \<Longrightarrow> visiting (here I) n (push_condition E I c) anything"
  unfolding push_condition_def by (rule visiting_build_and_register) auto

lemma visiting_visitBinaryOperator:
  assumes "original x" "original y"
  shows "visiting (here I) n (visitBinaryOperator E I opc x y) anything"
  unfolding visitBinaryOperator_def
proof (rule visiting_bind [where R = anything])
  show "visiting (here I) n
     (if type_of x = IntegerTy 1 then
          (case opc of
             And \<Rightarrow> return_build (Some (buildBoolAnd (rt E)))
           | Or \<Rightarrow> return_build (Some (buildBoolOr (rt E)))
           | Xor \<Rightarrow> return_build (Some (buildBoolXor (rt E)))
           | _ \<Rightarrow> and_then (warn E ''Can't handle Boolean operator'' (Some (self I)))
                   (fail_build (Unreachable ''Unknown Boolean operator'')))
        else return_build (binaryOperatorHandlers (rt E) opc)) anything"
    by (auto split: binary_operator.split intro!: visiting_intros)
qed (use assms in \<open>auto intro!: visiting_and_then visiting_grow visiting_build_and_register\<close>)

lemma visiting_visitCmpInst: "original x \<Longrightarrow> original y \<Longrightarrow> visiting (here I) n (visitCmpInst E I p x y) anything"
  by (auto simp: visitCmpInst_def Let_def intro!: visiting_and_then visiting_grow visiting_build_and_register)

lemma visiting_visitReturnInst: "visiting p n (visitReturnInst E I r) anything"
  by (auto simp: visitReturnInst_def split: option.split
      intro!: visiting_return visiting_sound_bind [OF sound_get_expression_or_null] visiting_grow)

lemma visiting_copy_intrinsic:
  assumes "original d" "original x" "original z"
  shows "visiting (here I) n (copy_intrinsic E I f (d # x # z # xs)) anything"
  unfolding copy_intrinsic_def memory_length_def
  using assms by (auto intro!: visiting_and_then visiting_try_alternative visiting_grow
      visiting_sound_bind [OF sound_createZExtOrTrunc])

lemma visiting_handleIntrinsicCall:
  "intrinsic_ok i xs \<Longrightarrow> list_all original xs \<Longrightarrow> visiting (here I) n (handleIntrinsicCall E I i xs) anything"
proof (induction i xs rule: intrinsic_ok.induct)
  case (3 d x z xs)
  then show ?case
    by (auto simp: handleIntrinsicCall_def memory_length_def
        intro!: visiting_and_then visiting_try_alternative visiting_grow
          visiting_sound_bind [OF sound_createZExtOrTrunc] visiting_sound_bind [OF sound_get_expression_or_null]
        intro: older_mono)
qed (auto simp: handleIntrinsicCall_def split: intrinsic.split
    intro!: visiting_copy_intrinsic visiting_copy_expression visiting_return visiting_build_and_register visiting_grow)

lemma visiting_set_parameter: "visiting p n (set_parameter E I na) anything"
  by (cases na) (auto simp: set_parameter_def intro!: visiting_sound_bind [OF sound_get_expression_or_null] visiting_grow)

lemma visiting_fetch_result: "visiting p n (fetch_result E I q) anything"
  unfolding fetch_result_def
  by (rule visiting_sound, unfold and_then_def, rule sound_bind [OF sound_createCall], simp,
      rule sound_bind [OF sound_createCall], simp, rule sound_set_expression) simp

lemma visiting_createCall: "list_all (older n) xs \<Longrightarrow> visiting p n (createCall q f xs) anything"
  by (rule visiting_sound, rule sound_weaken, rule sound_createCall) auto

lemma visiting_handleFunctionCall:
  assumes "callee_ok callee args" "list_all original args" "list_all original (callee_operands callee)"
  shows "visiting (here I) n (handleFunctionCall E I callee args q) anything"
  using assms
  by (cases callee)
    (auto simp: handleFunctionCall_def intro!: visiting_handleIntrinsicCall visiting_createCall visiting_and_then
      visiting_for_each visiting_set_parameter visiting_in_case visiting_fetch_result visiting_return visiting_try_alternative)

lemma visiting_visitLoadInst:
  assumes "original a"
  shows "visiting (here I) n (visitLoadInst E I a) anything"
  unfolding visitLoadInst_def Let_def
  using assms
  by (auto intro!: visiting_and_then visiting_try_alternative visiting_sound_bind [OF sound_createCast]
      visiting_sound_bind [OF sound_createCall] visiting_sound_bind [where R = older] sound_createCast sound_createCall sound_return visiting_grow
      intro: older_mono)

lemma visiting_visitStoreInst:
  assumes "original x" "original a"
  shows "visiting (here I) n (visitStoreInst E I x a) anything"
  unfolding visitStoreInst_def Let_def
  using assms
  by (auto intro!: visiting_and_then visiting_try_alternative visiting_sound_bind [OF sound_createCast]
      visiting_sound_bind [OF sound_get_expression_or_null] visiting_sound_bind [where R = older] sound_createCast sound_createCall
      sound_return visiting_grow intro: older_mono)

lemma visiting_visit_cast:
  assumes "original x"
  shows "visiting (here I) n (visit_cast E I c x) anything"
proof -
  have reg: "visiting (here I) n (build_and_register I f ((x, True) # args) v) anything"
    if "args_placed n args" for n f args v
    using assms that by (intro visiting_build_and_register) auto
  show ?thesis
    by (cases c) (auto simp: visit_cast_def visitBitCastInst_def visitTruncInst_def visitIntToPtrInst_def
        visitPtrToIntInst_def visitSIToFPInst_def visitUIToFPInst_def visitFPExtInst_def visitFPTruncInst_def
        visitFPToSI_def visitFPToUI_def visitCastInst_def
      intro!: reg visiting_copy_expression visiting_and_then visiting_grow visiting_sound_bind [OF sound_getIntegerBitWidth])
qed

lemma visiting_visitExtractValueInst: "original x \<Longrightarrow> visiting (here I) n (visitExtractValueInst E I x js) anything"
  by (auto simp: visitExtractValueInst_def intro!: visiting_fail visiting_build_and_register split: option.split)

lemma sound_if_then:
  assumes "older n c" "sound n body R"
  shows "sound n (if_then p c body) R"
  unfolding sound_def
proof (intro allI impI)
  fix s x s2 assume n: "n \<le> next_id s" and b: "bounded s" and m: "if_then p c body s = Inr (x, s2)"
  let ?s = "s\<lparr>inserted := (inserted s)(p := [])\<rparr>"
  obtain s1 where 1: "body ?s = Inr (x, s1)"
    "s2 = s1\<lparr>inserted := (inserted s1)(p := inserted s p @ [Enter True c (inserted s1 p)])\<rparr>"
    using m by (auto simp: if_then_def bind_result_eq_Inr)
  have "bounded ?s" using b by (auto simp: bounded_def)
  note body = soundD [OF assms(2) 1(1) _ this]
  have le: "next_id s \<le> next_id s1" using body(1) n by (simp add: grown_def)
  have grow: "\<exists>code. inserted s1 q = inserted ?s q @ code" for q
  proof -
    have "grown ?s s1" by (rule body(1)) (use n in simp)
    then show ?thesis unfolding grown_def by blast
  qed
  have "bounded s2"
    using body(2) n bounded_mono(1) [OF b le, of p] older_mono [OF assms(1), of "next_id s1"] le 1(2)
    by (auto simp: bounded_def)
  moreover have "\<exists>code. inserted s2 q = inserted s q @ code" for q
    using grow [of q] 1(2) by (cases "q = p") simp_all
  ultimately show "grown s s2 \<and> bounded s2 \<and> R (next_id s2) x"
    using body n 1(2) by (simp add: grown_def)
qed

lemma sound_push_case:
  assumes "older n e" "original c" "original v"
  shows "sound n (push_case E I c e v) anything"
  unfolding push_case_def using assms
  by (auto intro!: sound_bind [OF sound_emit] sound_bind [OF sound_createValueExpression] sound_bind [OF sound_createCall]
      sound_ignore [OF sound_createCall]) (meson older_mono order_trans)+

lemma visiting_visitSwitchInst:
  assumes "original c" "list_all original cs"
  shows "visiting (here I) n (visitSwitchInst E I c cs) anything"
  unfolding visiting_def
proof (intro allI impI)
  fix s x s' assume s: "visited s" and m: "visitSwitchInst E I c cs s = Inr (x, s')"
  let ?cases = "\<lambda>e. bind_build (emit (here I) Not_equal_to (IntegerTy 1) [e, ConstantPointerNull])
    (\<lambda>h. if_then (here I) h (for_each cs (push_case E I c e)))"
  show "visited s' \<and> next_id s \<le> next_id s' \<and> code_grows s s' \<and> phiNodes s' = phiNodes s \<and> True \<and>
     (\<exists>cs. expressionUses s' = expressionUses s @ cs \<and> list_all (\<lambda>c. place c = here I) cs)"
  proof (cases "getSymbolicExpression s c")
    case (Some e)
    then have e: "older (next_id s) e"
      using bounded_mono(2) [OF visited_bounded [OF s] order_refl] by (simp add: getSymbolicExpression_def)
    have "sound (next_id s) (?cases e) anything"
      using assms e
      by (auto intro!: sound_bind [OF sound_emit] sound_if_then sound_for_each sound_push_case
          simp: list_all_iff intro: older_mono)
    then have "visiting (here I) (next_id s) (?cases e) anything" by (rule visiting_sound)
    moreover have "?cases e s = Inr (x, s')" using m Some by (simp add: visitSwitchInst_def)
    ultimately show ?thesis using s unfolding visiting_def by blast
  qed (use s m in \<open>simp add: visitSwitchInst_def\<close>)
qed

lemma visiting_visitInstruction: "visiting p n (visitInstruction E I) anything"
  by (auto simp: visitInstruction_def intro!: visiting_return visiting_grow split: opcode.split)

definition operands_original :: "opcode \<Rightarrow> bool" where
  "operands_original opc \<longleftrightarrow> list_all original (operands opc)"

lemma visiting_visit:
  assumes "operation_ok E I opc" "operands_original opc" "\<not> is_phi opc"
  shows "visiting (here I) n (visit E I opc) anything"
proof (cases opc)
  case (CallInst f xs)
  then show ?thesis
    using assms by (auto simp: operands_original_def visitCallInst_def handleInlineAssembly_def
      intro!: visiting_grow visiting_fail visiting_handleFunctionCall split: option.split)
next
  case (GetElementPtrInst pointer js)
  then show ?thesis
    using assms by (auto simp: operands_original_def list.pred_map comp_def intro!: visiting_GetElementPtr)
qed (use assms in \<open>auto simp: operands_original_def visitSelectInst_def visitBranchInst_def visitIndirectBrInst_def
    visitInvokeInst_def visitAllocaInst_def visitUnreachableInst_def
    intro!: visiting_visitBinaryOperator visiting_visitCmpInst visiting_push_condition visiting_visitReturnInst
      visiting_try_alternative visiting_visitSwitchInst visiting_handleFunctionCall visiting_return visiting_visitLoadInst
      visiting_visitStoreInst visiting_visit_cast visiting_visitExtractValueInst visiting_visitInstruction
    split: option.splits\<close>)

lemma recorded_phiNodes [simp]: "recorded (s\<lparr>phiNodes := js\<rparr>) = recorded s"
  by (simp add: recorded_def fun_eq_iff)

lemma visit_phi:
  assumes "visited s" "visit E I (PHINode xs) s = Inr (x, s')"
  shows "visited s' \<and> code_grows s s' \<and> expressionUses s' = expressionUses s \<and> phiNodes s' = phiNodes s @ [I]"
proof -
  let ?s = "s\<lparr>phiNodes := phiNodes s @ [I]\<rparr>"
  let ?m = "bind_build (emit (here I) (Expr_phi (map snd xs)) PointerTy (map (\<lambda>_. ConstantPointerNull) xs))
    (\<lambda>exprPHI. set_expression (self I) (Some exprPHI))"
  have "visited ?s" using assms(1) by (auto simp: visited_def bounded_def)
  moreover have "?m ?s = Inr (x, s')" using assms(2) by (simp add: visitPHINode_def build_simps)
  moreover have "sound 0 ?m anything"
    by (auto intro!: sound_bind [OF sound_emit] sound_set_expression simp: list_all_iff)
  ultimately have "grown ?s s'" "bounded s'" using soundD [of 0 ?m] visited_bounded by blast+
  with visited_grown [OF \<open>visited ?s\<close>] show ?thesis by (simp add: grown_def code_grows_def)
qed

definition instructions_ok :: "environment \<Rightarrow> instruction list \<Rightarrow> bool" where
  "instructions_ok E Is \<longleftrightarrow> list_all (\<lambda>I. operation_ok E I (iop I) \<and> operands_original (iop I)) Is"

text \<open>What one visit does: it records computations at its own place, or the phi node.\<close>

lemma visit_records:
  assumes "visit E I (iop I) s = Inr (x, s')" "visited s" "operation_ok E I (iop I)" "operands_original (iop I)"
  obtains cs Js where "visited s'" "code_grows s s'" "expressionUses s' = expressionUses s @ cs"
    "\<forall>c\<in>set cs. \<not> is_phi (iop I) \<and> place c = here I" "phiNodes s' = phiNodes s @ Js" "\<forall>J\<in>set Js. J = I \<and> is_phi (iop I)"
proof (cases "is_phi (iop I)")
  case True
  then obtain xs where "iop I = PHINode xs" by (cases "iop I") auto
  then show ?thesis using visit_phi [OF assms(2)] assms(1) that [of "[]" "[I]"] by simp
next
  case False
  have "visiting (here I) 0 (visit E I (iop I)) anything"
    by (rule visiting_visit [OF assms(3,4) False])
  then obtain cs where "visited s'" "code_grows s s'" "phiNodes s' = phiNodes s" "expressionUses s' = expressionUses s @ cs"
    "list_all (\<lambda>c. place c = here I) cs"
    using assms(1,2) unfolding visiting_def by blast
  then show ?thesis using False that [of cs "[]"] by (simp add: list_all_iff)
qed

lemma visit_all_records:
  assumes "for_each Is (\<lambda>I. visit E I (iop I)) s = Inr (x, s')" "visited s" "instructions_ok E Is"
  shows "visited s' \<and>
    (\<forall>c\<in>set (expressionUses s'). c \<in> set (expressionUses s) \<or> (\<exists>I\<in>set Is. \<not> is_phi (iop I) \<and> place c = here I)) \<and>
    (\<forall>J\<in>set (phiNodes s'). J \<in> set (phiNodes s) \<or> J \<in> set Is \<and> is_phi (iop J))"
  using assms
proof (induction Is arbitrary: s)
  case (Cons I Is)
  from Cons.prems(1) obtain y s1 where 1: "visit E I (iop I) s = Inr (y, s1)"
    "for_each Is (\<lambda>I. visit E I (iop I)) s1 = Inr (x, s')"
    by (auto simp: build_simps bind_result_eq_Inr)
  have I: "operation_ok E I (iop I)" "operands_original (iop I)" "instructions_ok E Is"
    using Cons.prems(3) by (auto simp: instructions_ok_def)
  obtain cs Js where s1: "visited s1" "expressionUses s1 = expressionUses s @ cs"
    "\<forall>c\<in>set cs. \<not> is_phi (iop I) \<and> place c = here I" "phiNodes s1 = phiNodes s @ Js"
    "\<forall>J\<in>set Js. J = I \<and> is_phi (iop I)"
    using visit_records [OF 1(1) Cons.prems(2) I(1,2)] by metis
  from Cons.IH [OF 1(2) s1(1) I(3)] s1 show ?case by auto
qed (simp add: build_simps)

text \<open>Before the visits: code is inserted, nothing is recorded.\<close>

lemma sound_symbolizeFunctionArguments: "sound 0 (symbolizeFunctionArguments E) anything"
  unfolding symbolizeFunctionArguments_def parameter_expression_def
  by (auto intro!: sound_in_case sound_for_each sound_bind [OF sound_createCall] sound_set_expression)

lemma insertBasicBlockNotification_bounded:
  assumes "insertBasicBlockNotification E B s = Inr (x, s')" "bounded s"
  shows "bounded s' \<and> expressionUses s' = expressionUses s \<and> phiNodes s' = phiNodes s"
proof -
  let ?p = "front_of B"
  let ?s = "s\<lparr>inserted := (inserted s)(?p := [])\<rparr>"
  obtain y s1 where 1: "createCall ?p (notifyBasicBlock (rt E)) [getTargetPreferredInt E (block_address E (bname B))] ?s = Inr (y, s1)"
    "s' = s1\<lparr>inserted := (inserted s1)(?p := inserted s1 ?p @ inserted s ?p)\<rparr>"
    using assms(1) by (auto simp: insertBasicBlockNotification_def createCall_in_front_def bind_result_eq_Inr)
  have "bounded ?s" using assms(2) by (auto simp: bounded_def)
  from soundD [OF sound_createCall [of "next_id s"] 1(1) _ this] have s1: "grown ?s s1" "bounded s1" by simp_all
  have "next_id s \<le> next_id s1" using s1(1) by (simp add: grown_def)
  from bounded_mono(1) [OF assms(2) this, of ?p] s1 show ?thesis
    by (auto simp: 1(2) bounded_def grown_def)
qed

lemma notifications_bounded:
  "for_each Bs (insertBasicBlockNotification E) s = Inr (x, s') \<Longrightarrow> bounded s \<Longrightarrow>
   bounded s' \<and> expressionUses s' = expressionUses s \<and> phiNodes s' = phiNodes s"
proof (induction Bs arbitrary: s)
  case (Cons B Bs)
  then obtain y s1 where "insertBasicBlockNotification E B s = Inr (y, s1)"
    "for_each Bs (insertBasicBlockNotification E) s1 = Inr (x, s')"
    by (auto simp: build_simps bind_result_eq_Inr)
  with Cons.IH [of s1] insertBasicBlockNotification_bounded [of E B s] Cons.prems(2) show ?case by simp
qed (simp add: build_simps)

end
