(* ===== verification/PassComposition.thy ===== *)
theory PassComposition
  imports VisitRecords
begin

text \<open>
  The phases of the pass together: what the visitor records is what the short-circuiting phase
  needs, the treatment of the phi nodes leaves it alone, and replacing one computation leaves the
  other ones in place.
\<close>

subsection \<open>Replacing uses in recorded computations\<close>

lemma gen_result_replace_uses [simp]: "gen_result (replace_uses x y g) = gen_result g"
  by (cases g) simp_all

lemma result_id_replace_uses [simp]: "result_id (replace_uses x y g) = result_id g"
  by (simp add: result_id_def)

lemma uses_replace_uses: "uses z (replace_uses x y g) \<Longrightarrow> uses z g \<or> z = y"
  by (induction x y g rule: replace_uses.induct) (auto simp: rename_val_def list_ex_iff split: if_splits)

lemma avoids_replace_uses:
  assumes "avoids lo hi g" "\<And>k t. y = Made k t \<Longrightarrow> hi < k"
  shows "avoids lo hi (replace_uses x y g)"
  using assms uses_replace_uses by (fastforce simp: avoids_def)

lemma find_gen_replace_uses:
  "find_gen r (map (replace_uses x y) mid) = map_option (replace_uses x y) (find_gen r mid)"
  by (induction mid) (auto simp: find_gen_def)

lemma operand_replace_uses:
  assumes "operand_exists mid i"
  shows "operand_exists (map (replace_uses x y) mid) i"
    "getSymbolicOperand (map (replace_uses x y) mid) i = rename_val x y (getSymbolicOperand mid i)"
  using assms
  by (auto simp: operand_exists_def getSymbolicOperand_def find_gen_replace_uses split: option.splits gen.splits)

lemma plain_call_replace_uses:
  assumes "plain_call n g" "older m y" "n \<le> m"
  shows "plain_call m (replace_uses x y g)"
proof -
  obtain k t f ys where "g = Gen (Made k t) (Call f) ys" "k < n" "list_all (older n) ys"
    using assms(1) by (rule plain_callE)
  then show ?thesis
    using assms(2,3) by (auto simp: list_all_iff rename_val_def older_mono [OF _ assms(3)])
qed

text \<open>The new value: null, or one with a number that was not given out before.\<close>

definition fresh_value :: "nat \<Rightarrow> nat \<Rightarrow> val \<Rightarrow> bool" where
  "fresh_value n m y \<longleftrightarrow> older m y \<and> (\<forall>k t. y = Made k t \<longrightarrow> n \<le> k)"

lemma run_ok_replace_uses:
  assumes "run_ok n c mid" "fresh_value n m y" "n \<le> m"
  shows "run_ok m c (map (replace_uses x y) mid)"
proof -
  note r = assms(1) [unfolded run_ok_def]
  have y: "older m y" "\<And>k t. y = Made k t \<Longrightarrow> n \<le> k" using assms(2) by (auto simp: fresh_value_def)
  have not_y: "gen_result g \<noteq> Some y" if "g \<in> set mid" for g
    using run_ok_ids(1-4) [OF assms(1) that] y(2) by fastforce
  have "last mid \<in> set mid" using r by simp
  from run_ok_ids(4,5) [OF assms(1) this] obtain t where t: "last_value c = Made (last_id c) t" "last_id c < n" by blast
  have "\<not> uses (last_value c) (replace_uses x y g)" if "g \<in> set mid" for g
    using uses_replace_uses [of "last_value c" x y g] r that t y(2) by (fastforce simp: list_all_iff)
  moreover have "input_placed m (map (replace_uses x y) mid) i" if "i \<in> set (inputs c)" for i
  proof -
    have i: "input_placed n mid i" using r that by (simp add: list_all_iff)
    have "getSymbolicOperand (map (replace_uses x y) mid) i \<in> {getSymbolicOperand mid i, y}"
      using operand_replace_uses(2) [of mid i x y] i by (simp add: input_placed_def rename_val_def)
    moreover have "gen_result ` set (map (replace_uses x y) mid) = gen_result ` set mid" by (simp add: image_image)
    moreover have "Some y \<notin> gen_result ` set mid" using not_y by (metis imageE)
    moreover have "older m (getSymbolicOperand mid i)"
      using i assms(3) older_mono by (auto simp: input_placed_def)
    ultimately show ?thesis
      using i y(1) operand_replace_uses(1) [of mid i x y] unfolding input_placed_def by auto
  qed
  ultimately show ?thesis
    using r plain_call_replace_uses [OF _ y(1) assms(3)]
    by (auto simp: run_ok_def list_all_iff comp_def hd_map last_map)
qed

lemma recorded_replace_uses:
  assumes "recorded s c" "fresh_value (next_id s) (next_id s') y" "next_id s \<le> next_id s'"
    "inserted s' (place c) = map (replace_uses x y) (inserted s (place c))"
  shows "recorded s' c"
proof -
  obtain pre mid post where 1: "inserted s (place c) = pre @ mid @ post"
    "list_all (avoids (first_id c) (last_id c)) pre" "run_ok (next_id s) c mid"
    using assms(1) unfolding recorded_def by blast
  have "last_id c < k" if "y = Made k t" for k t
    using recorded_last_id [OF assms(1)] assms(2) that by (auto simp: fresh_value_def)
  then have "list_all (avoids (first_id c) (last_id c)) (map (replace_uses x y) pre)"
    using 1(2) avoids_replace_uses by (auto simp: list_all_iff)
  moreover have "run_ok (next_id s') c (map (replace_uses x y) mid)"
    by (rule run_ok_replace_uses [OF 1(3) assms(2,3)])
  ultimately show ?thesis unfolding recorded_def using assms(4) 1(1) by auto
qed

subsection \<open>Phi nodes\<close>

lemma recorded_cong:
  "recorded s c \<Longrightarrow> inserted s' (place c) = inserted s (place c) \<Longrightarrow> next_id s' = next_id s \<Longrightarrow> recorded s' c"
  by (simp add: recorded_def)

lemma recorded_finalize_phis:
  "recorded s c \<Longrightarrow> (\<forall>J\<in>set Js. place c \<noteq> here J) \<Longrightarrow> recorded (fold finalize_phi Js s) c"
proof (induction Js arbitrary: s)
  case (Cons J Js)
  have "recorded (finalize_phi J s) c"
    by (rule recorded_cong [OF Cons.prems(1)]) (use Cons.prems(2) in \<open>auto simp: finalize_phi_def\<close>)
  with Cons show ?case by simp
qed simp

lemma recorded_erase_phis:
  "recorded s c \<Longrightarrow> (\<forall>J\<in>set Js. place c \<noteq> here J) \<Longrightarrow> recorded (fold (erase_phi t) Js s) c"
proof (induction Js arbitrary: s)
  case (Cons J Js)
  have "recorded (erase_phi t J s) c"
    by (rule recorded_replace_uses [OF Cons.prems(1), where y = ConstantPointerNull])
      (use Cons.prems(2) in \<open>auto simp: erase_phi_def eraseFromParent_def replaceAllUsesWith_def fresh_value_def\<close>)
  with Cons show ?case by simp
qed simp

lemma recorded_finalizePHINodes:
  assumes "recorded s c" "\<forall>J\<in>set (phiNodes s). place c \<noteq> here J"
  shows "recorded (finalizePHINodes s) c"
proof -
  have "recorded (fold (erase_phi s) (filter (only_concrete s) (phiNodes s)) (fold finalize_phi (phiNodes s) s)) c"
    using assms by (intro recorded_erase_phis recorded_finalize_phis) auto
  then show ?thesis by (simp add: finalizePHINodes_def Let_def recorded_def)
qed

subsection \<open>One computation after the other\<close>

lemma segments_apart:
  assumes "xs @ ys @ zs = xs' @ ys' @ zs'" "ys \<noteq> []" "ys' \<noteq> []" "set ys \<inter> set ys' = {}"
  shows "(\<exists>u. xs = xs' @ ys' @ u) \<or> (\<exists>u. xs' = xs @ ys @ u \<and> zs = u @ ys' @ zs')"
proof -
  obtain w where "xs = xs' @ w \<and> w @ ys @ zs = ys' @ zs' \<or> xs @ w = xs' \<and> ys @ zs = w @ ys' @ zs'"
    using append_eq_append_conv2 [THEN iffD1, OF assms(1)] by blast
  then show ?thesis
  proof (elim disjE conjE)
    assume w: "xs @ w = xs'" "ys @ zs = w @ ys' @ zs'"
    obtain v where "ys = w @ v \<and> v @ zs = ys' @ zs' \<or> ys @ v = w \<and> zs = v @ ys' @ zs'"
      using append_eq_append_conv2 [THEN iffD1, OF w(2)] by blast
    moreover have "v = []" if "ys = w @ v" "v @ zs = ys' @ zs'"
      using that assms(3,4) by (cases v; cases ys') auto
    ultimately show ?thesis using w(1) by auto
  next
    assume w: "xs = xs' @ w" "w @ ys @ zs = ys' @ zs'"
    obtain v where "w = ys' @ v \<and> v @ ys @ zs = zs' \<or> w @ v = ys' \<and> ys @ zs = v @ zs'"
      using append_eq_append_conv2 [THEN iffD1, OF w(2)] by blast
    moreover have "v = []" if "w @ v = ys'" "ys @ zs = v @ zs'"
      using that assms(2,4) by (cases v; cases ys) auto
    ultimately show ?thesis using w(1) by auto
  qed
qed

text \<open>The results at the top level of new code have new numbers.\<close>

definition tops_from :: "nat \<Rightarrow> gen list \<Rightarrow> bool" where
  "tops_from n code \<longleftrightarrow> list_all (\<lambda>g. \<forall>k t. gen_result g = Some (Made k t) \<longrightarrow> n \<le> k) code"

definition tops :: "nat \<Rightarrow> point \<Rightarrow> 'a build \<Rightarrow> bool" where
  "tops n p m \<longleftrightarrow> (\<forall>s x s'. n \<le> next_id s \<longrightarrow> m s = Inr (x, s') \<longrightarrow>
     next_id s \<le> next_id s' \<and> (\<exists>code. inserted s' p = inserted s p @ code \<and> tops_from n code))"

lemma tops_return: "tops n p (return_build x)"
  by (simp add: tops_def return_build_def tops_from_def)

lemma tops_emit: "tops n p (emit p op t xs)"
  by (simp add: tops_def emit_def insert_code_def Let_def tops_from_def)

lemma tops_bind:
  assumes "tops n p m" "\<And>x. tops n p (f x)"
  shows "tops n p (bind_build m f)"
  unfolding tops_def
proof (intro allI impI)
  fix s y s2 assume n: "n \<le> next_id s" and "bind_build m f s = Inr (y, s2)"
  then obtain x s1 where 1: "m s = Inr (x, s1)" "f x s1 = Inr (y, s2)"
    by (auto simp: bind_build_eq bind_result_eq_Inr)
  obtain code where a: "next_id s \<le> next_id s1" "inserted s1 p = inserted s p @ code" "tops_from n code"
    using assms(1) 1(1) n unfolding tops_def by blast
  obtain code' where b: "next_id s1 \<le> next_id s2" "inserted s2 p = inserted s1 p @ code'" "tops_from n code'"
    using assms(2) 1(2) n a(1) unfolding tops_def by (meson order_trans)
  show "next_id s \<le> next_id s2 \<and> (\<exists>code. inserted s2 p = inserted s p @ code \<and> tops_from n code)"
    using a b by (intro conjI exI [of _ "code @ code'"]) (auto simp: tops_from_def)
qed

lemma tops_null_checks: "tops n p (null_checks p mid js)"
  by (induction js) (auto intro!: tops_return tops_bind tops_emit)

lemma tops_conjunction: "tops n p (conjunction p acc cs)"
  by (induction cs arbitrary: acc) (auto intro!: tops_return tops_bind tops_emit)

lemma short_circuit_body_tops:
  assumes "short_circuit_body E c mid s = Inr (x, s')"
  shows "\<exists>code. inserted s' (place c) = inserted s (place c) @ code \<and> tops_from (next_id s) code"
proof -
  let ?p = "place c"
  obtain cs s1 a s2 where 1: "null_checks ?p mid (inputs c) s = Inr (cs, s1)"
    "conjunction ?p (hd cs) (tl cs) s1 = Inr (a, s2)" "if_not ?p a (slow_path E c cs mid) s2 = Inr (x, s')"
    using assms by (auto simp: short_circuit_body_def bind_build_eq bind_result_eq_Inr)
  obtain code1 where c1: "inserted s1 ?p = inserted s ?p @ code1" "tops_from (next_id s) code1" "next_id s \<le> next_id s1"
    using tops_null_checks [of "next_id s" ?p mid "inputs c"] 1(1) unfolding tops_def by blast
  obtain code2 where c2: "inserted s2 ?p = inserted s1 ?p @ code2" "tops_from (next_id s) code2"
    using tops_conjunction [of "next_id s" ?p "hd cs" "tl cs"] 1(2) c1(3) unfolding tops_def by blast
  obtain body where "inserted s' ?p = inserted s2 ?p @ [Enter False a body]"
    using 1(3) by (auto simp: if_not_def bind_result_eq_Inr)
  then show ?thesis
    using c1 c2 by (intro exI [of _ "code1 @ code2 @ [Enter False a body]"]) (simp add: tops_from_def)
qed

text \<open>How short-circuiting one computation changes the code everywhere.\<close>

definition renaming :: "nat \<Rightarrow> nat \<Rightarrow> (gen \<Rightarrow> gen) \<Rightarrow> bool" where
  "renaming n m \<rho> \<longleftrightarrow> \<rho> = id \<or> (\<exists>k t y. \<rho> = replace_uses (Made k t) y \<and> fresh_value n m y)"

lemma shortCircuit_shape:
  assumes code: "inserted s (place c) = pre @ mid @ post"
    and ok: "computation_ok (next_id s) c mid" and ssa: "ssa_context c pre mid"
    and run: "shortCircuit E c s = Inr (x, s')"
  shows "\<exists>new \<rho>. renaming (next_id s) (next_id s') \<rho> \<and> next_id s \<le> next_id s' \<and>
    expressionUses s' = expressionUses s \<and>
    inserted s' (place c) = pre @ new @ map \<rho> post \<and>
    (\<forall>q. q \<noteq> place c \<longrightarrow> inserted s' q = map \<rho> (inserted s q)) \<and>
    tops_from (next_id s) new \<and> uses_from (next_id s) (insert (last_value c) (used_values c mid)) new \<and>
    (if use_empty E s (last_value c) then \<rho> = id
     else \<rho> = replace_uses (last_value c) (Made (next_id s' - 1) PointerTy) \<and> next_id s < next_id s')"
proof -
  let ?p = "place c" and ?L = "last_value c"
  note ok' = ok [unfolded computation_ok_def]
  have places: "code_before c (inserted s ?p) = pre" "computation_code c (inserted s ?p) = mid"
    "code_after c (inserted s ?p) = post"
    using computation_places [OF ok] ssa code by (auto simp: ssa_context_def)
  let ?s0 = "s\<lparr>inserted := (inserted s)(?p := pre)\<rparr>"
  obtain code s1 where
    1: "appends ?p (short_circuit_body E c mid) ?s0 () code s1" "uses_from (next_id s) (used_values c mid) code"
    using short_circuit_body_correct [of ?s0 c mid E "undefined :: (unit, unit) machine"] ok by auto
  have body: "short_circuit_body E c mid ?s0 = Inr ((), s1)" using appends_result(1) [OF 1(1)] .
  from 1(1) have s1: "s1 = ?s0\<lparr>inserted := (inserted ?s0)(?p := pre @ code), next_id := next_id s1\<rparr>"
    "next_id s \<le> next_id s1" by (simp_all add: appends_def)
  have s1': "inserted s1 = (inserted s)(?p := pre @ code)" "expressionUses s1 = expressionUses s"
    by (subst s1(1), simp)+
  have tops: "tops_from (next_id s) code"
    using short_circuit_body_tops [OF body] s1'(1) by simp
  have check: "check (inputs c \<noteq> []) ''Symbolic computation has no inputs'' s = Inr ((), s)"
    using ok' by (simp add: check_eq)
  show ?thesis
  proof (cases "use_empty E s ?L")
    case True
    then have "s' = s1\<lparr>inserted := (inserted s1)(?p := inserted s1 ?p @ post)\<rparr>"
      using run body check by (simp add: shortCircuit_def places Let_def build_simps)
    then show ?thesis
      using s1' s1(2) tops uses_from_mono [OF 1(2) order_refl subset_insertI]
      by (intro exI [of _ code] exI [of _ id]) (simp add: renaming_def True)
  next
    case False
    let ?F = "Made (next_id s1) PointerTy"
    from ok' have last: "lastInstruction c \<in> gen_result ` set mid" "list_all (plain_call (next_id s)) mid"
      by (auto intro: last_in_set)
    then obtain k t where L': "lastInstruction c = Some (Made k t)" "k < next_id s"
      by (fastforce simp: list_all_iff dest: plain_call_result)
    then have L: "?L = Made k t" "k < next_id s" by (simp_all add: last_value_def)
    have "?L \<notin> used_values c mid"
      using ok' ssa L' last(1) by (auto simp: used_values_def ssa_context_def list_all_iff L)
    with 1(2) L(2) have "list_all (\<lambda>g. \<not> uses ?L g) (pre @ code)"
      using ssa by (auto simp: list_all_iff uses_from_def ssa_context_def L(1))
    then have keep: "map (replace_uses ?L ?F) (pre @ code) = pre @ code" by (rule map_replace_uses_unused)
    have "s' = (let s2 = (insert_code ?p (Merge ?F ConstantPointerNull ?L) (replaceAllUsesWith ?L ?F s1))\<lparr>next_id := Suc (next_id s1)\<rparr>
        in s2\<lparr>inserted := (inserted s2)(?p := inserted s2 ?p @ map (replace_uses ?L ?F) post)\<rparr>)"
      using run body check False by (simp add: shortCircuit_def places Let_def build_simps final_expression_def)
    then have "inserted s' ?p = pre @ (code @ [Merge ?F ConstantPointerNull ?L]) @ map (replace_uses ?L ?F) post"
      "\<forall>q. q \<noteq> ?p \<longrightarrow> inserted s' q = map (replace_uses ?L ?F) (inserted s q)" "next_id s' = Suc (next_id s1)"
      "expressionUses s' = expressionUses s"
      using keep s1' by (simp_all add: Let_def insert_code_def replaceAllUsesWith_def)
    moreover have "renaming (next_id s) (Suc (next_id s1)) (replace_uses ?L ?F)"
    proof -
      have "fresh_value (next_id s) (Suc (next_id s1)) ?F" using s1(2) by (simp add: fresh_value_def)
      then show ?thesis unfolding renaming_def L(1) by blast
    qed
    moreover have "tops_from (next_id s) (code @ [Merge ?F ConstantPointerNull ?L])"
      using tops s1(2) by (simp add: tops_from_def)
    moreover have "uses_from (next_id s) (insert ?L (used_values c mid)) (code @ [Merge ?F ConstantPointerNull ?L])"
      using uses_from_mono [OF 1(2) order_refl subset_insertI] by simp
    ultimately show ?thesis using s1(2) False
      by (intro exI [of _ "code @ [Merge ?F ConstantPointerNull ?L]"] exI [of _ "replace_uses ?L ?F"]) simp
  qed
qed

lemma operand_used: "operand_exists mid i \<Longrightarrow> \<exists>g\<in>set mid. uses (getSymbolicOperand mid i) g"
  using find_gen_Some [of "user i" mid]
  by (force simp: operand_exists_def getSymbolicOperand_def split: option.splits gen.splits)

text \<open>Two computations whose numbers do not overlap.\<close>

definition separate :: "symbolic_computation \<Rightarrow> symbolic_computation \<Rightarrow> bool" where
  "separate c d \<longleftrightarrow> last_id c < first_id d \<or> last_id d < first_id c"

text \<open>The code that replaces a computation keeps away from the values of another one behind it.\<close>

lemma new_code_avoids:
  assumes c: "run_ok n c mid" and new: "tops_from n new" "uses_from n (insert (last_value c) (used_values c mid)) new"
    and d: "separate c d" "last_id d < n" "list_all (avoids (first_id d) (last_id d)) mid"
  shows "list_all (avoids (first_id d) (last_id d)) new"
  unfolding list_all_iff avoids_def
proof (intro ballI allI impI conjI notI)
  fix g k t assume g: "g \<in> set new" and k: "first_id d \<le> k" "k \<le> last_id d"
  have kn: "k < n" using k(2) d(2) by simp
  show False if "gen_result g = Some (Made k t)"
    using that new(1) g kn by (auto simp: tops_from_def list_all_iff)
  show False if "uses (Made k t) g"
  proof -
    have "Made k t \<in> insert (last_value c) (used_values c mid)"
      using new(2) that g kn unfolding uses_from_def by blast
    moreover have "last mid \<in> set mid" using c by (simp add: run_ok_def)
    from run_ok_ids(1,2,5) [OF c this] have "Made k t \<noteq> last_value c"
      using k d(1) by (auto simp: separate_def)
    ultimately have "\<exists>h\<in>set mid. uses (Made k t) h"
      using operand_used c by (force simp: used_values_def run_ok_def input_placed_def list_all_iff)
    then show False using d(3) k by (auto simp: avoids_def list_all_iff)
  qed
qed

lemma recorded_after_shortCircuit:
  assumes c: "recorded s c" "computation_typed c" and d: "recorded s d" and cd: "separate c d"
    and run: "shortCircuit E c s = Inr (x, s')"
  shows "recorded s' d"
proof -
  obtain pre mid post where 1: "inserted s (place c) = pre @ mid @ post"
    "list_all (avoids (first_id c) (last_id c)) pre" "run_ok (next_id s) c mid"
    using c(1) unfolding recorded_def by blast
  obtain pre' mid' post' where 2: "inserted s (place d) = pre' @ mid' @ post'"
    "list_all (avoids (first_id d) (last_id d)) pre'" "run_ok (next_id s) d mid'"
    using d unfolding recorded_def by blast
  obtain new \<rho> where shape: "renaming (next_id s) (next_id s') \<rho>" "next_id s \<le> next_id s'"
    "inserted s' (place c) = pre @ new @ map \<rho> post"
    "\<forall>q. q \<noteq> place c \<longrightarrow> inserted s' q = map \<rho> (inserted s q)"
    "tops_from (next_id s) new" "uses_from (next_id s) (insert (last_value c) (used_values c mid)) new"
    using shortCircuit_shape [OF 1(1) run_ok_computation_ok [OF 1(3) c(2)] recorded_context [OF 1(2,3)] run] by blast
  have last_d: "last_id d < next_id s" using recorded_last_id [OF d] .
  have rename_avoids: "list_all (avoids (first_id d) (last_id d)) (map \<rho> code)"
    if "list_all (avoids (first_id d) (last_id d)) code" for code
    using shape(1) that last_d
    by (fastforce simp: renaming_def list_all_iff fresh_value_def intro!: avoids_replace_uses)
  have rename_run: "run_ok (next_id s') d (map \<rho> mid')"
    using shape(1) run_ok_replace_uses [OF 2(3) _ shape(2)] run_ok_mono [OF 2(3) shape(2)]
    by (auto simp: renaming_def)
  show ?thesis
  proof (cases "place d = place c")
    case False
    then have "inserted s' (place d) = map \<rho> pre' @ map \<rho> mid' @ map \<rho> post'" using shape(4) 2(1) by simp
    then show ?thesis using rename_avoids [OF 2(2)] rename_run unfolding recorded_def by blast
  next
    case True
    have "g \<noteq> h" if "g \<in> set mid" "h \<in> set mid'" for g h
      using run_ok_ids(1,2) [OF 1(3) that(1)] run_ok_ids(1,2) [OF 2(3) that(2)] cd by (auto simp: separate_def)
    then have apart: "set mid \<inter> set mid' = {}" by blast
    have "pre @ mid @ post = pre' @ mid' @ post'" using 1(1) 2(1) True by simp
    moreover have "mid \<noteq> []" "mid' \<noteq> []" using 1(3) 2(3) by (simp_all add: run_ok_def)
    ultimately consider u where "pre = pre' @ mid' @ u" | u where "pre' = pre @ mid @ u" "post = u @ mid' @ post'"
      using segments_apart [of pre mid post pre' mid' post'] apart by blast
    then show ?thesis
    proof cases
      case 1
      then have "inserted s' (place d) = pre' @ mid' @ (u @ new @ map \<rho> post)" using shape(3) True by simp
      then show ?thesis using 2(2) run_ok_mono [OF 2(3) shape(2)] unfolding recorded_def by blast
    next
      case 2
      note u = this
      have outer: "list_all (avoids (first_id d) (last_id d)) (pre @ mid @ u)" using \<open>list_all _ pre'\<close> u(1) by simp
      then have "list_all (avoids (first_id d) (last_id d)) new"
        using new_code_avoids [OF \<open>run_ok (next_id s) c mid\<close> shape(5,6) cd last_d] by simp
      then have "list_all (avoids (first_id d) (last_id d)) (pre @ new @ map \<rho> u)"
        using outer rename_avoids [of u] by (auto simp: list_all_iff)
      moreover have "inserted s' (place d) = (pre @ new @ map \<rho> u) @ map \<rho> mid' @ map \<rho> post'"
        using shape(3) True u(2) by simp
      ultimately show ?thesis using rename_run unfolding recorded_def by blast
    qed
  qed
qed

text \<open>The state before short-circuiting: the phases of \<open>runOnFunction\<close> up to the phi nodes.\<close>

definition analysed :: "environment \<Rightarrow> int \<Rightarrow> compile_error + unit \<times> symbolizer" where
  "analysed E random =
     and_then (symbolizeFunctionArguments E) (
     and_then (for_each (blocks (func E)) (insertBasicBlockNotification E)) (
     and_then (visit_all E) (modify finalizePHINodes))) (initial_symbolizer random)"

lemma symbolize_function_analysed:
  "symbolize_function E pure (initial_symbolizer random) =
     bind_result (analysed E random) (\<lambda>(_, s). and_then (shortCircuitExpressionUses E)
       (in_case pure (for_each (blocks (func E)) (insertCovs E))) s)"
  by (simp add: symbolize_function_def analysed_def build_simps bind_result_assoc split_def)

text \<open>What LLVM guarantees of a function: well-typed instructions, distinct, on values of the function.\<close>

definition pass_input_ok :: "environment \<Rightarrow> bool" where
  "pass_input_ok E \<longleftrightarrow> function_ok E \<and> distinct (map iid (all_instructions (func E))) \<and>
     list_all (\<lambda>I. operands_original (iop I)) (all_instructions (func E))"

lemma pass_input_okD:
  assumes "pass_input_ok E"
  shows "function_ok E" "distinct (map iid (all_instructions (func E)))" "instructions_ok E (all_instructions (func E))"
  using assms by (auto simp: pass_input_ok_def function_ok_def instructions_ok_def list_all_iff)

lemma fine_run: "fine m \<Longrightarrow> well_typed s \<Longrightarrow> m s = Inr (x, s') \<Longrightarrow> well_typed s'"
  by (auto simp: ok_def)

text \<open>Up to the visits nothing is recorded; behind them come the phi nodes.\<close>

lemma analysed_parts:
  assumes "pass_input_ok E"
  obtains s1 s2 s3 where "symbolizeFunctionArguments E (initial_symbolizer random) = Inr ((), s1)"
    "for_each (blocks (func E)) (insertBasicBlockNotification E) s1 = Inr ((), s2)"
    "analysed E random = Inr ((), finalizePHINodes s3)" "visited s2" "expressionUses s2 = []" "phiNodes s2 = []"
    "for_each (all_instructions (func E)) (\<lambda>I. visit E I (iop I)) s2 = Inr ((), s3)" "well_typed s3"
proof -
  let ?Is = "all_instructions (func E)"
  let ?front = "and_then (symbolizeFunctionArguments E) (
     and_then (for_each (blocks (func E)) (insertBasicBlockNotification E)) (visit_all E))"
  note ok = pass_input_okD [OF assms]
  have "fine ?front"
    unfolding visit_all_def
    using ok(1) by (intro fine_and_then fine_symbolizeFunctionArguments fine_for_each fine_insertBasicBlockNotification
      fine_visit) (simp add: function_ok_def list_all_iff)
  then obtain s3 where s3: "?front (initial_symbolizer random) = Inr ((), s3)" "well_typed s3"
    using well_typed_initial [of random] unfolding ok_def by (metis old.unit.exhaust)
  then obtain s1 s2 where
    1: "symbolizeFunctionArguments E (initial_symbolizer random) = Inr ((), s1)" and
    2: "for_each (blocks (func E)) (insertBasicBlockNotification E) s1 = Inr ((), s2)" and
    3: "for_each ?Is (\<lambda>I. visit E I (iop I)) s2 = Inr ((), s3)"
    by (auto simp: visit_all_def build_simps bind_result_eq_Inr)
  have "bounded (initial_symbolizer random)" by (simp add: bounded_def initial_symbolizer_def)
  from soundD [OF sound_symbolizeFunctionArguments 1 _ this] have "bounded s1" "expressionUses s1 = []" "phiNodes s1 = []"
    by (simp_all add: grown_def initial_symbolizer_def)
  with notifications_bounded [OF 2] have "visited s2" "expressionUses s2 = []" "phiNodes s2 = []"
    by (simp_all add: visited_def in_order_def)
  moreover have "analysed E random = Inr ((), finalizePHINodes s3)"
    using 1 2 3 by (simp add: analysed_def visit_all_def build_simps)
  ultimately show thesis using that 1 2 3 s3(2) by blast
qed

lemma analysed_visits:
  assumes "pass_input_ok E"
  obtains s2 s3 where "analysed E random = Inr ((), finalizePHINodes s3)" "visited s2" "expressionUses s2 = []" "phiNodes s2 = []"
    "for_each (all_instructions (func E)) (\<lambda>I. visit E I (iop I)) s2 = Inr ((), s3)" "well_typed s3"
  using analysed_parts [OF assms] by metis

lemma same_instruction:
  assumes "pass_input_ok E" "I \<in> set (all_instructions (func E))" "J \<in> set (all_instructions (func E))" "here I = here J"
  shows "I = J"
  using assms pass_input_okD(2) [OF assms(1)] by (auto simp: here_def distinct_map dest: inj_onD)

lemma analysed_records:
  assumes "pass_input_ok E"
  obtains s where "analysed E random = Inr ((), s)" "well_typed s" "list_all (recorded s) (expressionUses s)"
    "in_order (expressionUses s)"
proof -
  obtain s2 s3 where s: "analysed E random = Inr ((), finalizePHINodes s3)" and
    s2: "visited s2" "expressionUses s2 = []" "phiNodes s2 = []" and
    3: "for_each (all_instructions (func E)) (\<lambda>I. visit E I (iop I)) s2 = Inr ((), s3)" and typed: "well_typed s3"
    using analysed_visits [OF assms] .
  note s3 = visit_all_records [OF 3 s2(1) pass_input_okD(3) [OF assms]]
  have "place c \<noteq> here J" if "c \<in> set (expressionUses s3)" "J \<in> set (phiNodes s3)" for c J
    using s3 that s2(2,3) same_instruction [OF assms, of _ J] by fastforce
  then have "recorded (finalizePHINodes s3) c" if "c \<in> set (expressionUses s3)" for c
    using recorded_finalizePHINodes [of s3 c] s3 that by (auto simp: visited_def list_all_iff)
  then show thesis
    using that [OF s] s3 fine_run [OF fine_finalizePHINodes typed] by (simp add: list_all_iff visited_def modify_eq)
qed

lemma in_order_separate: "in_order (c # ds) \<Longrightarrow> d \<in> set ds \<Longrightarrow> separate c d"
  by (auto simp: in_order_def separate_def)

lemma short_circuits_keep_records:
  assumes "list_all (recorded s) (cs @ ds)" "in_order (cs @ ds)" "list_all computation_typed (cs @ ds)" "well_typed s"
  shows "\<exists>t. for_each cs (shortCircuit E) s = Inr ((), t) \<and> list_all (recorded t) ds \<and> well_typed t"
  using assms
proof (induction cs arbitrary: s)
  case (Cons c cs)
  have typed: "computation_typed c" using Cons.prems(3) by simp
  obtain s1 where s1: "shortCircuit E c s = Inr ((), s1)" "well_typed s1"
    using fine_shortCircuit [OF typed] Cons.prems(4) unfolding ok_def by (metis old.unit.exhaust)
  have "recorded s1 d" if "d \<in> set (cs @ ds)" for d
  proof (rule recorded_after_shortCircuit [OF _ typed _ _ s1(1)])
    show "separate c d" using in_order_separate [of c "cs @ ds" d] Cons.prems(2) that by simp
  qed (use Cons.prems(1) that in \<open>auto simp: list_all_iff\<close>)
  moreover have "in_order (cs @ ds)" using Cons.prems(2) by (simp add: in_order_def)
  ultimately obtain t where "for_each cs (shortCircuit E) s1 = Inr ((), t)" "list_all (recorded t) ds" "well_typed t"
    using Cons.IH [of s1] Cons.prems(3) s1(2) by (auto simp: list_all_iff)
  with s1(1) show ?case by (simp add: build_simps)
qed (simp add: build_simps)

text \<open>C2: On every well-formed function the visitor and the short-circuiting phase fit together. The
  phases before short-circuiting succeed. When the turn of a recorded computation comes, whatever
  has been done to the others before, its calls still stand in one piece in the inserted code, and
  the phase replaces them by code that equals the reference from every state of the registers: if
  the expressions of all inputs are null, no run-time function is called, the state is as it was
  and the result is null; otherwise the result is what the calls return for the expressions of the
  symbolic inputs and expressions built from the values of the concrete ones. Later uses of the
  result are redirected, and values that existed before are the same as in the reference.\<close>

lemma pass_short_circuits_correctly:
  fixes M :: "('e, 's) machine"
  assumes "pass_input_ok E"
  shows "\<exists>s. analysed E random = Inr ((), s) \<and>
    (\<forall>cs c ds. expressionUses s = cs @ c # ds \<longrightarrow>
      (\<exists>t t' pre mid post new final. for_each cs (shortCircuit E) s = Inr ((), t)
        \<and> inserted t (place c) = pre @ mid @ post
        \<and> firstInstruction c = gen_result (hd mid) \<and> lastInstruction c = gen_result (last mid)
        \<and> shortCircuit E c t = Inr ((), t')
        \<and> inserted t' (place c) = pre @ new
             @ (if use_empty E t (last_value c) then post else map (replace_uses (last_value c) final) post)
        \<and> (\<forall>fr :: ('e, 's) frame.
            same_below (next_id t) (reference E M c mid fr) (exec_code M new fr)
            \<and> rts (exec_code M new fr) = rts (reference E M c mid fr)
            \<and> (\<not> use_empty E t (last_value c) \<longrightarrow> look (exec_code M new fr) final =
                (if all_concrete c mid fr then Expr None else look (reference E M c mid fr) (last_value c))))))"
proof -
  obtain s where s: "analysed E random = Inr ((), s)" "well_typed s" "list_all (recorded s) (expressionUses s)"
    "in_order (expressionUses s)"
    using analysed_records [OF assms] .
  have "\<exists>t t' pre mid post new final. for_each cs (shortCircuit E) s = Inr ((), t)
        \<and> inserted t (place c) = pre @ mid @ post
        \<and> firstInstruction c = gen_result (hd mid) \<and> lastInstruction c = gen_result (last mid)
        \<and> shortCircuit E c t = Inr ((), t')
        \<and> inserted t' (place c) = pre @ new
             @ (if use_empty E t (last_value c) then post else map (replace_uses (last_value c) final) post)
        \<and> (\<forall>fr :: ('e, 's) frame.
            same_below (next_id t) (reference E M c mid fr) (exec_code M new fr)
            \<and> rts (exec_code M new fr) = rts (reference E M c mid fr)
            \<and> (\<not> use_empty E t (last_value c) \<longrightarrow> look (exec_code M new fr) final =
                (if all_concrete c mid fr then Expr None else look (reference E M c mid fr) (last_value c))))"
    if c: "expressionUses s = cs @ c # ds" for cs c ds
  proof -
    have typed: "list_all computation_typed (cs @ c # ds)" using s(2) c by (simp add: well_typed_def)
    obtain t where t: "for_each cs (shortCircuit E) s = Inr ((), t)" "list_all (recorded t) (c # ds)"
      using short_circuits_keep_records [of s cs "c # ds" E] s(2-4) typed unfolding c by blast
    then obtain pre mid post where 1: "inserted t (place c) = pre @ mid @ post"
      "list_all (avoids (first_id c) (last_id c)) pre" "run_ok (next_id t) c mid"
      by (auto simp: recorded_def)
    have "computation_ok (next_id t) c mid" using run_ok_computation_ok [OF 1(3)] typed by simp
    from short_circuit_correct [OF 1(1) this recorded_context [OF 1(2,3)], of E M] t(1) 1(1,3)
    show ?thesis unfolding run_ok_def by blast
  qed
  with s(1) show ?thesis by blast
qed

text \<open>The pass on the function of the example: the addition is recorded.\<close>

definition demo_add :: symbolic_computation where
  "demo_add = \<lparr>place = Before 0, firstInstruction = Some (Made 3 PointerTy), lastInstruction = Some (Made 3 PointerTy),
     inputs = [\<lparr>concreteValue = Argument 0 (IntegerTy 32), operandIndex = 0, user = Made 3 PointerTy\<rparr>,
               \<lparr>concreteValue = Argument 1 (IntegerTy 32), operandIndex = 1, user = Made 3 PointerTy\<rparr>]\<rparr>"

lemma demo_add_analysed:
  "\<exists>s pre. analysed demo_env 1 = Inr ((), s) \<and> expressionUses s = [demo_add] \<and> list_all (\<lambda>g. gen_result g \<noteq> Some (Made 3 PointerTy)) pre \<and>
     inserted s (Before 0) = pre @ [Gen (Made 3 PointerTy) (Call (import ''_sym_build_add'' PointerTy [PointerTy, PointerTy])) [Made 0 PointerTy, Made 1 PointerTy]]"
  by (simp add: analysed_def symbolizeFunctionArguments_def build_simps demo_defs parameter_expression_def
      all_instructions_def user_empty_def initial_symbolizer_def createCall_def emit_def insert_code_def
      set_expression_def entry_point_def first_non_phi_def const_int_def visitBinaryOperator_def visit_all_def visitReturnInst_def get_expression_or_null_def ignore_result_def
      build_and_register_def buildRuntimeCall_def forceBuildRuntimeCall_def getSymbolicExpression_def
      getSymbolicExpressionOrNull_def argument_value_def register_if_built_def registerSymbolicComputation_def
      Let_def load_handler_def here_def self_def insertBasicBlockNotification_def createCall_in_front_def
      front_of_def first_insertion_point_def getTargetPreferredInt_def finalizePHINodes_def demo_add_def)

lemma pass_short_circuits_correctly_witness:
  "\<exists>s c t' mid new final. analysed demo_env 1 = Inr ((), s) \<and> expressionUses s = [c] \<and>
    shortCircuit demo_env c s = Inr ((), t') \<and>
    (\<forall>fr. rts (exec_code demo_machine new fr) = rts (reference demo_env demo_machine c mid fr) \<and>
      (\<not> use_empty demo_env s (last_value c) \<longrightarrow> look (exec_code demo_machine new fr) final =
        (if all_concrete c mid fr then Expr None else look (reference demo_env demo_machine c mid fr) (last_value c))))"
proof -
  obtain s c where s: "analysed demo_env 1 = Inr ((), s)" "expressionUses s = [] @ c # []"
    using demo_add_analysed by auto
  have "pass_input_ok demo_env"
    by (simp add: pass_input_ok_def function_ok_def operands_original_def demo_defs all_instructions_def)
  from pass_short_circuits_correctly [OF this, of 1 demo_machine] obtain s0 where
    "analysed demo_env 1 = Inr ((), s0)" and
    all: "\<forall>cs c ds. expressionUses s0 = cs @ c # ds \<longrightarrow>
      (\<exists>t t' pre mid post new final. for_each cs (shortCircuit demo_env) s0 = Inr ((), t)
        \<and> inserted t (place c) = pre @ mid @ post
        \<and> firstInstruction c = gen_result (hd mid) \<and> lastInstruction c = gen_result (last mid)
        \<and> shortCircuit demo_env c t = Inr ((), t')
        \<and> inserted t' (place c) = pre @ new
             @ (if use_empty demo_env t (last_value c) then post else map (replace_uses (last_value c) final) post)
        \<and> (\<forall>fr. same_below (next_id t) (reference demo_env demo_machine c mid fr) (exec_code demo_machine new fr)
            \<and> rts (exec_code demo_machine new fr) = rts (reference demo_env demo_machine c mid fr)
            \<and> (\<not> use_empty demo_env t (last_value c) \<longrightarrow> look (exec_code demo_machine new fr) final =
                (if all_concrete c mid fr then Expr None else look (reference demo_env demo_machine c mid fr) (last_value c)))))"
    by blast
  moreover from this s have "s0 = s" by simp
  ultimately obtain t t' mid new final where "for_each [] (shortCircuit demo_env) s = Inr ((), t)"
    "shortCircuit demo_env c t = Inr ((), t')"
    "\<forall>fr. rts (exec_code demo_machine new fr) = rts (reference demo_env demo_machine c mid fr)
            \<and> (\<not> use_empty demo_env t (last_value c) \<longrightarrow> look (exec_code demo_machine new fr) final =
                (if all_concrete c mid fr then Expr None else look (reference demo_env demo_machine c mid fr) (last_value c)))"
    using s(2) by (metis (no_types, lifting))
  moreover from this(1) have "t = s" by (simp add: build_simps)
  ultimately show ?thesis using s unfolding append_Nil by blast
qed

end
