(* ===== verification/BitVectors.thy ===== *)
theory BitVectors
  imports SimpleBackend IR "HOL-Library.Signed_Division"
begin

text \<open>
  The two meanings that integer operations have: what LLVM's instructions compute
  (\<open>llvm_binary\<close>, \<open>llvm_compare\<close>; \<open>None\<close> where the result is undefined or poison) and what the
  bit-vector functions of SMT-LIB, and so Z3, denote (\<open>smt_binary\<close>, \<open>smt_compare\<close>, which are total
  and define the signed functions by cases on the top bits). Values are the natural numbers below
  \<open>2 ^ w\<close>. The lemmas show that the second agrees with the first wherever the first is defined.
\<close>

subsection \<open>LLVM\<close>

definition as_signed :: "nat \<Rightarrow> nat \<Rightarrow> int" where
  "as_signed w n = (if n < 2 ^ (w - 1) then int n else int n - 2 ^ w)"

definition of_signed :: "nat \<Rightarrow> int \<Rightarrow> nat" where
  "of_signed w i = nat (i mod 2 ^ w)"

definition division_defined :: "nat \<Rightarrow> nat \<Rightarrow> nat \<Rightarrow> bool" where
  "division_defined w a b \<longleftrightarrow> b \<noteq> 0 \<and> \<not> (as_signed w a = - (2 ^ (w - 1)) \<and> as_signed w b = - 1)"

fun llvm_binary :: "binary_operator \<Rightarrow> nat \<Rightarrow> nat \<Rightarrow> nat \<Rightarrow> nat option" where
  "llvm_binary Add w a b = Some ((a + b) mod 2 ^ w)"
| "llvm_binary Sub w a b = Some (of_signed w (int a - int b))"
| "llvm_binary Mul w a b = Some (a * b mod 2 ^ w)"
| "llvm_binary UDiv w a b = (if b = 0 then None else Some (a div b))"
| "llvm_binary URem w a b = (if b = 0 then None else Some (a mod b))"
| "llvm_binary SDiv w a b =
     (if division_defined w a b then Some (of_signed w (as_signed w a sdiv as_signed w b)) else None)"
| "llvm_binary SRem w a b =
     (if division_defined w a b then Some (of_signed w (as_signed w a smod as_signed w b)) else None)"
| "llvm_binary Shl w a b = (if b < w then Some (a * 2 ^ b mod 2 ^ w) else None)"
| "llvm_binary LShr w a b = (if b < w then Some (a div 2 ^ b) else None)"
| "llvm_binary AShr w a b = (if b < w then Some (of_signed w (as_signed w a div 2 ^ b)) else None)"
| "llvm_binary And w a b = Some (a AND b)"
| "llvm_binary Or w a b = Some (a OR b)"
| "llvm_binary Xor w a b = Some (a XOR b)"
| "llvm_binary _ w a b = None"

fun llvm_compare :: "predicate \<Rightarrow> nat \<Rightarrow> nat \<Rightarrow> nat \<Rightarrow> bool option" where
  "llvm_compare ICMP_EQ w a b = Some (a = b)"
| "llvm_compare ICMP_NE w a b = Some (a \<noteq> b)"
| "llvm_compare ICMP_UGT w a b = Some (a > b)"
| "llvm_compare ICMP_UGE w a b = Some (a \<ge> b)"
| "llvm_compare ICMP_ULT w a b = Some (a < b)"
| "llvm_compare ICMP_ULE w a b = Some (a \<le> b)"
| "llvm_compare ICMP_SGT w a b = Some (as_signed w a > as_signed w b)"
| "llvm_compare ICMP_SGE w a b = Some (as_signed w a \<ge> as_signed w b)"
| "llvm_compare ICMP_SLT w a b = Some (as_signed w a < as_signed w b)"
| "llvm_compare ICMP_SLE w a b = Some (as_signed w a \<le> as_signed w b)"
| "llvm_compare _ w a b = None"

subsection \<open>SMT-LIB\<close>

definition top_bit :: "nat \<Rightarrow> nat \<Rightarrow> bool" where
  "top_bit w n \<longleftrightarrow> 2 ^ (w - 1) \<le> n"

definition smt_neg :: "nat \<Rightarrow> nat \<Rightarrow> nat" where
  "smt_neg w a = (2 ^ w - a) mod 2 ^ w"

definition smt_not :: "nat \<Rightarrow> nat \<Rightarrow> nat" where
  "smt_not w a = 2 ^ w - 1 - a"

definition smt_udiv :: "nat \<Rightarrow> nat \<Rightarrow> nat \<Rightarrow> nat" where
  "smt_udiv w a b = (if b = 0 then 2 ^ w - 1 else a div b)"

definition smt_urem :: "nat \<Rightarrow> nat \<Rightarrow> nat \<Rightarrow> nat" where
  "smt_urem w a b = (if b = 0 then a else a mod b)"

definition magnitude :: "nat \<Rightarrow> nat \<Rightarrow> nat" where
  "magnitude w a = (if top_bit w a then smt_neg w a else a)"

fun smt_binary :: "z3_binary \<Rightarrow> nat \<Rightarrow> nat \<Rightarrow> nat \<Rightarrow> nat" where
  "smt_binary Bvadd w a b = (a + b) mod 2 ^ w"
| "smt_binary Bvsub w a b = (a + smt_neg w b) mod 2 ^ w"
| "smt_binary Bvmul w a b = a * b mod 2 ^ w"
| "smt_binary Bvudiv w a b = smt_udiv w a b"
| "smt_binary Bvurem w a b = smt_urem w a b"
| "smt_binary Bvsdiv w a b =
     (if top_bit w a = top_bit w b then smt_udiv w (magnitude w a) (magnitude w b)
      else smt_neg w (smt_udiv w (magnitude w a) (magnitude w b)))"
| "smt_binary Bvsrem w a b =
     (if top_bit w a then smt_neg w (smt_urem w (magnitude w a) (magnitude w b))
      else smt_urem w (magnitude w a) (magnitude w b))"
| "smt_binary Bvshl w a b = a * 2 ^ b mod 2 ^ w"
| "smt_binary Bvlshr w a b = a div 2 ^ b"
| "smt_binary Bvashr w a b = (if top_bit w a then smt_not w (smt_not w a div 2 ^ b) else a div 2 ^ b)"
| "smt_binary Bvand w a b = a AND b"
| "smt_binary Bvor w a b = a OR b"
| "smt_binary Bvxor w a b = a XOR b"
| "smt_binary _ w a b = 0"

fun smt_compare :: "z3_binary \<Rightarrow> nat \<Rightarrow> nat \<Rightarrow> nat \<Rightarrow> bool" where
  "smt_compare Bvult w a b \<longleftrightarrow> a < b"
| "smt_compare Bvule w a b \<longleftrightarrow> a \<le> b"
| "smt_compare Bvugt w a b \<longleftrightarrow> a > b"
| "smt_compare Bvuge w a b \<longleftrightarrow> a \<ge> b"
| "smt_compare Bvslt w a b \<longleftrightarrow> (top_bit w a \<and> \<not> top_bit w b) \<or> (top_bit w a = top_bit w b \<and> a < b)"
| "smt_compare Bvsle w a b \<longleftrightarrow> (top_bit w a \<and> \<not> top_bit w b) \<or> (top_bit w a = top_bit w b \<and> a \<le> b)"
| "smt_compare Bvsgt w a b \<longleftrightarrow> (top_bit w b \<and> \<not> top_bit w a) \<or> (top_bit w b = top_bit w a \<and> b < a)"
| "smt_compare Bvsge w a b \<longleftrightarrow> (top_bit w b \<and> \<not> top_bit w a) \<or> (top_bit w b = top_bit w a \<and> b \<le> a)"
| "smt_compare Z3_eq w a b \<longleftrightarrow> a = b"
| "smt_compare _ w a b \<longleftrightarrow> False"

text \<open>The extensions by \<open>k\<close> bits.\<close>

fun smt_extend :: "z3_extend \<Rightarrow> nat \<Rightarrow> nat \<Rightarrow> nat \<Rightarrow> nat" where
  "smt_extend Zero_ext k w a = a"
| "smt_extend Sign_ext k w a = (if top_bit w a then (2 ^ k - 1) * 2 ^ w + a else a)"

subsection \<open>Agreement\<close>

lemma as_signed_bounds:
  assumes "0 < w" "a < 2 ^ w"
  shows "- (2 ^ (w - 1)) \<le> as_signed w a" "as_signed w a < 2 ^ (w - 1)"
proof -
  have "(2 :: int) ^ w = 2 * 2 ^ (w - 1)" using assms(1) by (metis power_eq_if not_less_zero)
  moreover have "int a < 2 ^ w" using assms(2) by (metis of_nat_less_iff of_nat_numeral of_nat_power)
  moreover have "\<not> a < 2 ^ (w - 1) \<Longrightarrow> 2 ^ (w - 1) \<le> int a"
    by (metis linorder_not_less of_nat_le_iff of_nat_numeral of_nat_power)
  moreover have "a < 2 ^ (w - 1) \<Longrightarrow> int a < 2 ^ (w - 1)" by (metis of_nat_less_iff of_nat_numeral of_nat_power)
  ultimately show "- (2 ^ (w - 1)) \<le> as_signed w a" "as_signed w a < 2 ^ (w - 1)"
    by (auto simp: as_signed_def)
qed

lemma as_signed_top_bit: "as_signed w a = (if top_bit w a then int a - 2 ^ w else int a)"
  by (simp add: as_signed_def top_bit_def)

lemma smt_neg_small: "a < 2 ^ w \<Longrightarrow> smt_neg w a = (if a = 0 then 0 else 2 ^ w - a)"
  by (simp add: smt_neg_def)

lemma int_smt_neg: "a < 2 ^ w \<Longrightarrow> int (smt_neg w a) = (- int a) mod 2 ^ w"
proof -
  assume a: "a < 2 ^ w"
  have "(- int a) mod 2 ^ w = (2 ^ w - int a) mod 2 ^ w" by (metis minus_mod_self1 mod_minus_eq uminus_add_conv_diff add.commute mod_add_self2 diff_conv_add_uminus)
  also have "2 ^ w - int a = int (2 ^ w - a)" using a by (simp add: of_nat_diff)
  finally show ?thesis by (simp add: smt_neg_def zmod_int)
qed

lemma of_signed_int: "n < 2 ^ w \<Longrightarrow> of_signed w (int n) = n"
  by (simp add: of_signed_def flip: of_nat_mod)

lemma of_signed_minus: "n < 2 ^ w \<Longrightarrow> of_signed w (- int n) = smt_neg w n"
  by (metis int_smt_neg nat_int of_signed_def)

lemma of_signed_add: "of_signed w (int a + int b) = (a + b) mod 2 ^ w"
  by (metis nat_int of_nat_add of_nat_mod of_nat_numeral of_nat_power of_signed_def)

lemma magnitude_abs:
  assumes "a < 2 ^ w"
  shows "int (magnitude w a) = \<bar>as_signed w a\<bar>"
proof (cases "top_bit w a")
  case True
  then have "0 < a" by (auto simp: top_bit_def intro: gr0I)
  then have "magnitude w a = 2 ^ w - a" using True assms by (simp add: magnitude_def smt_neg_small)
  moreover have "as_signed w a = int a - 2 ^ w" using True by (simp add: as_signed_top_bit)
  moreover have "int (2 ^ w - a) = 2 ^ w - int a" using assms by (simp add: of_nat_diff)
  moreover have "int a < 2 ^ w" using assms by (metis of_nat_less_iff of_nat_numeral of_nat_power)
  ultimately show ?thesis by simp
qed (simp add: magnitude_def as_signed_top_bit)

lemma magnitude_bound: "a < 2 ^ w \<Longrightarrow> magnitude w a < 2 ^ w"
  by (simp add: magnitude_def smt_neg_def)

lemma magnitude_zero: "a < 2 ^ w \<Longrightarrow> magnitude w a = 0 \<longleftrightarrow> a = 0"
  by (auto simp: magnitude_def smt_neg_small top_bit_def)

lemma signed_sign:
  assumes "a < 2 ^ w" "a \<noteq> 0"
  shows "sgn (as_signed w a) = (if top_bit w a then - 1 else 1)"
proof -
  have "int a < 2 ^ w" using assms(1) by (metis of_nat_less_iff of_nat_numeral of_nat_power)
  then show ?thesis using assms(2) by (simp add: as_signed_top_bit)
qed

lemma sdiv_agrees:
  assumes "a < 2 ^ w" "b < 2 ^ w" "b \<noteq> 0"
  shows "of_signed w (as_signed w a sdiv as_signed w b) = smt_binary Bvsdiv w a b"
proof -
  let ?q = "magnitude w a div magnitude w b"
  have b: "magnitude w b \<noteq> 0" using assms(2,3) by (simp add: magnitude_zero)
  have q: "?q < 2 ^ w" using magnitude_bound [OF assms(1)] by (rule le_less_trans [OF div_le_dividend])
  have "as_signed w a sdiv as_signed w b = sgn (as_signed w a) * sgn (as_signed w b) * int ?q"
    by (simp add: signed_divide_int_def zdiv_int magnitude_abs assms(1,2))
  also have "\<dots> = (if top_bit w a = top_bit w b then int ?q else - int ?q)"
  proof (cases "a = 0")
    case True
    then show ?thesis by (simp add: magnitude_def smt_neg_def)
  next
    case False
    then show ?thesis using assms by (simp add: signed_sign)
  qed
  finally show ?thesis
    using b q by (simp add: smt_udiv_def of_signed_int of_signed_minus)
qed

lemma smod_agrees:
  assumes "a < 2 ^ w" "b < 2 ^ w" "b \<noteq> 0"
  shows "of_signed w (as_signed w a smod as_signed w b) = smt_binary Bvsrem w a b"
proof -
  let ?p = "as_signed w a" and ?q = "as_signed w b" and ?r = "magnitude w a mod magnitude w b"
  have b: "magnitude w b \<noteq> 0" using assms(2,3) by (simp add: magnitude_zero)
  have r: "?r < 2 ^ w" using magnitude_bound [OF assms(1)] by (rule le_less_trans [OF mod_less_eq_dividend])
  have "?p smod ?q = sgn ?p * (\<bar>?p\<bar> mod \<bar>?q\<bar>)" by (rule signed_modulo_int_def)
  also have "\<dots> = sgn ?p * int ?r" by (simp add: zmod_int magnitude_abs assms(1,2))
  also have "\<dots> = (if top_bit w a then - int ?r else int ?r)"
  proof (cases "a = 0")
    case True
    then show ?thesis by (simp add: magnitude_def smt_neg_def)
  next
    case False
    then show ?thesis using assms by (simp add: signed_sign)
  qed
  finally show ?thesis
    using b r by (simp add: smt_urem_def of_signed_int of_signed_minus)
qed

lemma div_pow_less: "a div 2 ^ k < 2 ^ w" if "a < 2 ^ w" for a :: nat
  using that by (rule le_less_trans [OF div_le_dividend])

lemma complement_div: "(- 1 - m) div d = - 1 - m div d" if "0 < d" for m d :: int
proof (rule int_div_pos_eq)
  show "- 1 - m = d * (- 1 - m div d) + (d - 1 - m mod d)"
    by (simp add: algebra_simps)
  show "0 \<le> d - 1 - m mod d" "d - 1 - m mod d < d"
    using that pos_mod_bound [of d m] pos_mod_sign [of d m] by linarith+
qed

lemma ashr_agrees:
  assumes "0 < w" "a < 2 ^ w"
  shows "of_signed w (as_signed w a div 2 ^ b) = smt_binary Bvashr w a b"
proof (cases "top_bit w a")
  case True
  define m where "m = smt_not w a"
  have m: "m < 2 ^ w" "int m = - as_signed w a - 1"
    using assms(2) True by (simp_all add: m_def smt_not_def as_signed_top_bit of_nat_diff)
  then have "as_signed w a div 2 ^ b = (- 1 - int m) div 2 ^ b" by simp
  also have "\<dots> = - 1 - int m div 2 ^ b" by (rule complement_div) simp
  also have "\<dots> = int (smt_not w (m div 2 ^ b)) - 2 ^ w"
    using div_pow_less [OF m(1), of b] by (simp add: smt_not_def of_nat_diff zdiv_int)
  finally have "of_signed w (as_signed w a div 2 ^ b) = of_signed w (int (smt_not w (m div 2 ^ b)))"
    by (simp add: of_signed_def)
  moreover have "smt_not w k < 2 ^ w" for k by (simp add: smt_not_def less_imp_diff_less)
  ultimately show ?thesis using True by (simp add: of_signed_int m_def)
next
  case False
  have "as_signed w a div 2 ^ b = int (a div 2 ^ b)" using False by (simp add: as_signed_top_bit zdiv_int)
  then show ?thesis using False div_pow_less [OF assms(2)] by (simp add: of_signed_int)
qed

lemma compare_agrees:
  assumes "a < 2 ^ w" "b < 2 ^ w"
  shows "as_signed w a < as_signed w b \<longleftrightarrow> smt_compare Bvslt w a b"
    "as_signed w a \<le> as_signed w b \<longleftrightarrow> smt_compare Bvsle w a b"
proof -
  define M where "M = (2 :: int) ^ w"
  have "int a < M" "int b < M" using assms by (simp_all add: M_def)
  then show "as_signed w a < as_signed w b \<longleftrightarrow> smt_compare Bvslt w a b"
    "as_signed w a \<le> as_signed w b \<longleftrightarrow> smt_compare Bvsle w a b"
    by (auto simp: as_signed_top_bit M_def [symmetric])
qed

text \<open>The handler tables pair each operator with an SMT-LIB function that agrees with it.\<close>

fun smt_of_binary :: "binary_operator \<Rightarrow> binary_builder option" where
  "smt_of_binary Add = Some Build_add"
| "smt_of_binary Sub = Some Build_sub"
| "smt_of_binary Mul = Some Build_mul"
| "smt_of_binary UDiv = Some Build_unsigned_div"
| "smt_of_binary SDiv = Some Build_signed_div"
| "smt_of_binary URem = Some Build_unsigned_rem"
| "smt_of_binary SRem = Some Build_signed_rem"
| "smt_of_binary Shl = Some Build_shift_left"
| "smt_of_binary LShr = Some Build_logical_shift_right"
| "smt_of_binary AShr = Some Build_arithmetic_shift_right"
| "smt_of_binary And = Some Build_and"
| "smt_of_binary Or = Some Build_or"
| "smt_of_binary Xor = Some Build_xor"
| "smt_of_binary _ = None"

fun smt_of_predicate :: "predicate \<Rightarrow> binary_builder option" where
  "smt_of_predicate ICMP_EQ = Some Build_equal"
| "smt_of_predicate ICMP_UGT = Some Build_unsigned_greater_than"
| "smt_of_predicate ICMP_UGE = Some Build_unsigned_greater_equal"
| "smt_of_predicate ICMP_ULT = Some Build_unsigned_less_than"
| "smt_of_predicate ICMP_ULE = Some Build_unsigned_less_equal"
| "smt_of_predicate ICMP_SGT = Some Build_signed_greater_than"
| "smt_of_predicate ICMP_SGE = Some Build_signed_greater_equal"
| "smt_of_predicate ICMP_SLT = Some Build_signed_less_than"
| "smt_of_predicate ICMP_SLE = Some Build_signed_less_equal"
| "smt_of_predicate _ = None"

lemma binary_agrees:
  assumes "0 < w" "a < 2 ^ w" "b < 2 ^ w" "llvm_binary opc w a b = Some n" "smt_of_binary opc = Some f"
  shows "smt_binary (z3_of_builder f) w a b = n"
proof -
  have sub: "of_signed w (int a - int b) = (a + smt_neg w b) mod 2 ^ w"
    using of_signed_add [of w a "smt_neg w b"] int_smt_neg [OF assms(3)]
    by (simp add: of_signed_def mod_simps)
  show ?thesis
    using assms sub sdiv_agrees [OF assms(2,3)] smod_agrees [OF assms(2,3)] ashr_agrees [OF assms(1,2), of b]
    by (cases opc) (auto simp: smt_udiv_def smt_urem_def division_defined_def simp del: smt_binary.simps(6,7,10) split: if_splits)
qed

lemma predicate_agrees:
  assumes "a < 2 ^ w" "b < 2 ^ w" "llvm_compare p w a b = Some t" "smt_of_predicate p = Some f"
  shows "smt_compare (z3_of_builder f) w a b = t"
  using assms compare_agrees [of a w b] compare_agrees [of b w a]
  by (cases p) auto

lemma llvm_binary_bound:
  assumes "0 < w" "a < 2 ^ w" "b < 2 ^ w" "llvm_binary opc w a b = Some n"
  shows "n < 2 ^ w"
proof -
  have s: "of_signed w i < 2 ^ w" for i
  proof -
    have "0 \<le> i mod 2 ^ w" "i mod 2 ^ w < 2 ^ w" by simp_all
    then show ?thesis unfolding of_signed_def by (simp add: nat_less_iff)
  qed
  have bits: "a AND b < 2 ^ w" "a OR b < 2 ^ w" "a XOR b < 2 ^ w"
    using assms(2,3) by (simp_all flip: take_bit_nat_eq_self_iff)
  show ?thesis
    using assms s bits div_pow_less [OF assms(2)] le_less_trans [OF div_le_dividend assms(2)]
      le_less_trans [OF mod_less_eq_dividend assms(2)]
    by (cases opc) (auto split: if_splits)
qed

end
