(* ===== verification/RuntimeLink.thy ===== *)
theory RuntimeLink
  imports SimpleInit GenSemantics
begin

text \<open>
  The library as inserted code sees it: \<open>simple_exports\<close> has the definitions that the library with
  the simple backend has behind the names that the pass imports, and \<open>simple_machine\<close> runs inserted
  code with them. A failed assertion of the library stops the program: the state of the machine is
  then its fault.
\<close>

subsection \<open>The definitions\<close>

type_synonym ('e, 't, 's) simple_runtime = "('e, ('e, 't, 's) simple_state) runtime"

text \<open>
  A function of the library on the values that registers hold: expressions may be null, data
  pointers, lengths and flags are numbers. A null expression where the library needs one is the
  error of the Z3 call that gets it. Functions without a result leave null in their register.
\<close>

definition on_backend ::
    "('b \<Rightarrow> ('e \<times> 'b) result) \<Rightarrow> ('e, 'b) runtime \<Rightarrow> ('e rv \<times> ('e, 'b) runtime) result" where
  "on_backend f r = bind_result (f (backend_state r)) (\<lambda>(e, b). Inr (Expr (Some e), r\<lparr>backend_state := b\<rparr>))"

definition on_backend_or_null ::
    "('b \<Rightarrow> ('e option \<times> 'b) result) \<Rightarrow> ('e, 'b) runtime \<Rightarrow> ('e rv \<times> ('e, 'b) runtime) result" where
  "on_backend_or_null f r = bind_result (f (backend_state r)) (\<lambda>(e, b). Inr (Expr e, r\<lparr>backend_state := b\<rparr>))"

definition constant_of :: "('b \<Rightarrow> 'e option) \<Rightarrow> ('e, 'b) runtime \<Rightarrow> ('e rv \<times> ('e, 'b) runtime) result" where
  "constant_of f r = Inr (Expr (f (backend_state r)), r)"

definition no_result :: "'r result \<Rightarrow> ('e rv \<times> 'r) result" where
  "no_result x = bind_result x (\<lambda>r. Inr (Expr None, r))"

type_synonym ('e, 'r) entry = "'e rv list \<Rightarrow> 'r \<Rightarrow> ('e rv \<times> 'r) result"

fun entry_e :: "('e \<Rightarrow> 'b \<Rightarrow> ('e \<times> 'b) result) \<Rightarrow> ('e, ('e, 'b) runtime) entry" where
  "entry_e f [Expr (Some a)] r = on_backend (f a) r"
| "entry_e f _ r = Inl Null_expression"

fun entry_ee :: "('e \<Rightarrow> 'e \<Rightarrow> 'b \<Rightarrow> ('e \<times> 'b) result) \<Rightarrow> ('e, ('e, 'b) runtime) entry" where
  "entry_ee f [Expr (Some a), Expr (Some b)] r = on_backend (f a b) r"
| "entry_ee f _ r = Inl Null_expression"

fun entry_ei :: "('e \<Rightarrow> int \<Rightarrow> 'b \<Rightarrow> ('e \<times> 'b) result) \<Rightarrow> ('e, ('e, 'b) runtime) entry" where
  "entry_ei f [Expr (Some a), Num k] r = on_backend (f a k) r"
| "entry_ei f _ r = Inl Null_expression"

fun entry_eii :: "('e \<Rightarrow> int \<Rightarrow> int \<Rightarrow> 'b \<Rightarrow> ('e \<times> 'b) result) \<Rightarrow> ('e, ('e, 'b) runtime) entry" where
  "entry_eii f [Expr (Some a), Num j, Num k] r = on_backend (f a j k) r"
| "entry_eii f _ r = Inl Null_expression"

fun entry_ii :: "(int \<Rightarrow> int \<Rightarrow> 'b \<Rightarrow> ('e \<times> 'b) result) \<Rightarrow> ('e, ('e, 'b) runtime) entry" where
  "entry_ii f [Num j, Num k] r = on_backend (f j k) r"
| "entry_ii f _ r = Inl Null_expression"

fun entry_bool :: "(bool \<Rightarrow> 'b \<Rightarrow> 'e option) \<Rightarrow> ('e, ('e, 'b) runtime) entry" where
  "entry_bool f [Num k] r = constant_of (f (k \<noteq> 0)) r"
| "entry_bool f _ r = Inl Null_expression"

fun entry_optional :: "('e option \<Rightarrow> 'b \<Rightarrow> ('e option \<times> 'b) result) \<Rightarrow> ('e, ('e, 'b) runtime) entry" where
  "entry_optional f (Expr e # _) r = on_backend_or_null (f e) r"
| "entry_optional f _ r = Inl Null_expression"

text \<open>The functions on memory, parameters and the path.\<close>

fun entry_set_parameter :: "('e, ('e, 'b) runtime) entry" where
  "entry_set_parameter [Num k, Expr e] r = no_result (Inr (sym_set_parameter_expression (word_of_int k) e r))"
| "entry_set_parameter _ r = Inl Null_expression"

fun entry_get_parameter :: "('e, ('e, 'b) runtime) entry" where
  "entry_get_parameter [Num k] r = Inr (Expr (sym_get_parameter_expression (word_of_int k) r), r)"
| "entry_get_parameter _ r = Inl Null_expression"

fun entry_set_return :: "('e, ('e, 'b) runtime) entry" where
  "entry_set_return [Expr e] r = no_result (Inr (sym_set_return_expression e r))"
| "entry_set_return _ r = Inl Null_expression"

definition entry_get_return :: "('e, ('e, 'b) runtime) entry" where
  "entry_get_return vs r = (let (e, r') = sym_get_return_expression r in Inr (Expr e, r'))"

fun entry_push :: "('e, 'b) backend \<Rightarrow> ('e, ('e, 'b) runtime) entry" where
  "entry_push B [Expr e, Num taken, Num site_id] r =
     no_result (bind_result (sym_push_path_constraint B e (taken \<noteq> 0) (word_of_int site_id) (backend_state r))
       (\<lambda>b. Inr (r\<lparr>backend_state := b\<rparr>)))"
| "entry_push B _ r = Inl Null_expression"

fun entry_read :: "('e, 'b) backend \<Rightarrow> ('e, ('e, 'b) runtime) entry" where
  "entry_read B [Num a, Num n, Num le] r =
     bind_result (sym_read_memory B (word_of_int a) (word_of_int n) (le \<noteq> 0) r) (\<lambda>(e, r'). Inr (Expr e, r'))"
| "entry_read B _ r = Inl Null_expression"

fun entry_write :: "('e, 'b) backend \<Rightarrow> ('e, ('e, 'b) runtime) entry" where
  "entry_write B [Num a, Num n, Expr e, Num le] r =
     no_result (sym_write_memory B (word_of_int a) (word_of_int n) e (le \<noteq> 0) r)"
| "entry_write B _ r = Inl Null_expression"

fun entry_copy ::
    "(addr \<Rightarrow> addr \<Rightarrow> addr \<Rightarrow> ('e, 'b) runtime \<Rightarrow> ('e, 'b) runtime result) \<Rightarrow> ('e, ('e, 'b) runtime) entry" where
  "entry_copy f [Num a, Num b, Num n] r = no_result (f (word_of_int a) (word_of_int b) (word_of_int n) r)"
| "entry_copy f _ r = Inl Null_expression"

fun entry_memset :: "('e, 'b) backend \<Rightarrow> ('e, ('e, 'b) runtime) entry" where
  "entry_memset B [Num a, Expr e, Num n] r = no_result (sym_memset B (word_of_int a) e (word_of_int n) r)"
| "entry_memset B _ r = Inl Null_expression"

fun entry_extract :: "('e, 'b) backend \<Rightarrow> ('e, ('e, 'b) runtime) entry" where
  "entry_extract B [Expr (Some e), Num off, Num n, Num le] r =
     on_backend (sym_build_extract B e (word_of_int off) (word_of_int n) (le \<noteq> 0)) r"
| "entry_extract B _ r = Inl Null_expression"

fun entry_trace :: "(addr \<Rightarrow> 'b \<Rightarrow> 'b) \<Rightarrow> ('e, ('e, 'b) runtime) entry" where
  "entry_trace f [Num k] r = no_result (Inr (r\<lparr>backend_state := f (word_of_int k) (backend_state r)\<rparr>))"
| "entry_trace f _ r = Inl Null_expression"

definition simple_exports ::
    "('e, 't, 's) z3 \<Rightarrow> (string \<times> ('e, ('e, 't, 's) simple_runtime) entry) list" where
  "simple_exports Z =
     [(''_sym_build_integer'', entry_ii (\<lambda>v k. simple_build_integer Z (word_of_int v) (word_of_int k))),
      (''_sym_build_null_pointer'', \<lambda>vs. constant_of simple_build_null_pointer),
      (''_sym_build_bool'', entry_bool simple_build_bool),
      (''_sym_build_add'', entry_ee (simple_build_binary Z Build_add)),
      (''_sym_build_sub'', entry_ee (simple_build_binary Z Build_sub)),
      (''_sym_build_mul'', entry_ee (simple_build_binary Z Build_mul)),
      (''_sym_build_unsigned_div'', entry_ee (simple_build_binary Z Build_unsigned_div)),
      (''_sym_build_signed_div'', entry_ee (simple_build_binary Z Build_signed_div)),
      (''_sym_build_unsigned_rem'', entry_ee (simple_build_binary Z Build_unsigned_rem)),
      (''_sym_build_signed_rem'', entry_ee (simple_build_binary Z Build_signed_rem)),
      (''_sym_build_shift_left'', entry_ee (simple_build_binary Z Build_shift_left)),
      (''_sym_build_logical_shift_right'', entry_ee (simple_build_binary Z Build_logical_shift_right)),
      (''_sym_build_arithmetic_shift_right'', entry_ee (simple_build_binary Z Build_arithmetic_shift_right)),
      (''_sym_build_and'', entry_ee (simple_build_binary Z Build_and)),
      (''_sym_build_or'', entry_ee (simple_build_binary Z Build_or)),
      (''_sym_build_xor'', entry_ee (simple_build_binary Z Build_xor)),
      (''_sym_build_bool_and'', entry_ee (simple_build_bool_and Z)),
      (''_sym_build_bool_or'', entry_ee (simple_build_bool_or Z)),
      (''_sym_build_bool_xor'', entry_ee (simple_build_binary Z Build_bool_xor)),
      (''_sym_build_equal'', entry_ee (simple_build_binary Z Build_equal)),
      (''_sym_build_not_equal'', entry_ee (simple_build_not_equal Z)),
      (''_sym_build_signed_less_than'', entry_ee (simple_build_binary Z Build_signed_less_than)),
      (''_sym_build_signed_less_equal'', entry_ee (simple_build_binary Z Build_signed_less_equal)),
      (''_sym_build_signed_greater_than'', entry_ee (simple_build_binary Z Build_signed_greater_than)),
      (''_sym_build_signed_greater_equal'', entry_ee (simple_build_binary Z Build_signed_greater_equal)),
      (''_sym_build_unsigned_less_than'', entry_ee (simple_build_binary Z Build_unsigned_less_than)),
      (''_sym_build_unsigned_less_equal'', entry_ee (simple_build_binary Z Build_unsigned_less_equal)),
      (''_sym_build_unsigned_greater_than'', entry_ee (simple_build_binary Z Build_unsigned_greater_than)),
      (''_sym_build_unsigned_greater_equal'', entry_ee (simple_build_binary Z Build_unsigned_greater_equal)),
      (''_sym_build_sext'', entry_ei (\<lambda>e k. simple_build_sext Z e (word_of_int k))),
      (''_sym_build_zext'', entry_ei (\<lambda>e k. simple_build_zext Z e (word_of_int k))),
      (''_sym_build_trunc'', entry_ei (\<lambda>e k. simple_build_trunc Z e (word_of_int k))),
      (''_sym_build_bool_to_bits'', entry_ei (\<lambda>e k. simple_build_bool_to_bits Z e (word_of_int k))),
      (''_sym_push_path_constraint'', entry_push (simple_backend Z)),
      (''_sym_set_parameter_expression'', entry_set_parameter),
      (''_sym_get_parameter_expression'', entry_get_parameter),
      (''_sym_set_return_expression'', entry_set_return),
      (''_sym_get_return_expression'', entry_get_return),
      (''_sym_read_memory'', entry_read (simple_backend Z)),
      (''_sym_write_memory'', entry_write (simple_backend Z)),
      (''_sym_memcpy'', entry_copy (sym_memcpy (simple_backend Z))),
      (''_sym_memset'', entry_memset (simple_backend Z)),
      (''_sym_memmove'', entry_copy (sym_memmove (simple_backend Z))),
      (''_sym_build_bswap'', entry_e (sym_build_bswap (simple_backend Z))),
      (''_sym_build_extract'', entry_extract (simple_backend Z)),
      (''_sym_build_integer128'', entry_ii (\<lambda>h l. simple_build_integer128 Z (word_of_int h) (word_of_int l))),
      (''_sym_build_true'', \<lambda>vs. constant_of simple_build_true),
      (''_sym_build_false'', \<lambda>vs. constant_of simple_build_false),
      (''_sym_build_neg'', entry_e (simple_build_neg Z)),
      (''_sym_build_not'', entry_e (simple_build_not Z)),
      (''_sym_build_float'', entry_ii (\<lambda>v k. simple_build_float Z (word_of_int v) k)),
      (''_sym_build_fp_add'', entry_ee (simple_build_fp_add Z)),
      (''_sym_build_fp_sub'', entry_ee (simple_build_fp_sub Z)),
      (''_sym_build_fp_mul'', entry_ee (simple_build_fp_mul Z)),
      (''_sym_build_fp_div'', entry_ee (simple_build_fp_div Z)),
      (''_sym_build_fp_rem'', entry_ee (simple_build_fp_rem Z)),
      (''_sym_build_fp_abs'', entry_e (simple_build_fp_abs Z)),
      (''_sym_build_float_ordered_greater_than'', entry_ee (simple_build_binary Z Build_float_ordered_greater_than)),
      (''_sym_build_float_ordered_greater_equal'', entry_ee (simple_build_binary Z Build_float_ordered_greater_equal)),
      (''_sym_build_float_ordered_less_than'', entry_ee (simple_build_binary Z Build_float_ordered_less_than)),
      (''_sym_build_float_ordered_less_equal'', entry_ee (simple_build_binary Z Build_float_ordered_less_equal)),
      (''_sym_build_float_ordered_equal'', entry_ee (simple_build_binary Z Build_float_ordered_equal)),
      (''_sym_build_float_ordered_not_equal'', entry_ee (simple_build_float_ordered_not_equal Z)),
      (''_sym_build_float_ordered'', entry_ee (simple_build_float_ordered Z)),
      (''_sym_build_float_unordered'', entry_ee (simple_build_float_unordered Z)),
      (''_sym_build_float_unordered_greater_than'', entry_ee (simple_build_float_unordered_greater_than Z)),
      (''_sym_build_float_unordered_greater_equal'', entry_ee (simple_build_float_unordered_greater_equal Z)),
      (''_sym_build_float_unordered_less_than'', entry_ee (simple_build_float_unordered_less_than Z)),
      (''_sym_build_float_unordered_less_equal'', entry_ee (simple_build_float_unordered_less_equal Z)),
      (''_sym_build_float_unordered_equal'', entry_ee (simple_build_float_unordered_equal Z)),
      (''_sym_build_float_unordered_not_equal'', entry_ee (simple_build_float_unordered_not_equal Z)),
      (''_sym_build_int_to_float'', entry_eii (simple_build_int_to_float Z)),
      (''_sym_build_float_to_float'', entry_ei (simple_build_float_to_float Z)),
      (''_sym_build_bits_to_float'', \<lambda>vs. case vs of [e, Num k] \<Rightarrow> entry_optional (\<lambda>e. simple_build_bits_to_float Z e k) vs
          | _ \<Rightarrow> (\<lambda>r. Inl Null_expression)),
      (''_sym_build_float_to_bits'', entry_optional (simple_build_float_to_bits Z)),
      (''_sym_build_float_to_signed_integer'', entry_ei (\<lambda>e k. simple_build_float_to_signed_integer Z e (word_of_int k))),
      (''_sym_build_float_to_unsigned_integer'', entry_ei (\<lambda>e k. simple_build_float_to_unsigned_integer Z e (word_of_int k))),
      (''_sym_notify_call'', entry_trace simple_notify_call),
      (''_sym_notify_ret'', entry_trace simple_notify_ret),
      (''_sym_notify_basic_block'', entry_trace simple_notify_basic_block),
      (''_symcc_cov_cb'', entry_trace (\<lambda>k. simple_cov_cb (ucast k)))]"

text \<open>A call of a name that is not there is an error of the linker; it cannot happen.\<close>

definition simple_call :: "('e, 't, 's) z3 \<Rightarrow> string \<Rightarrow> ('e, ('e, 't, 's) simple_runtime) entry" where
  "simple_call Z f = (case map_of (simple_exports Z) f of None \<Rightarrow> (\<lambda>vs r. Inl Out_of_range) | Some g \<Rightarrow> g)"

subsection \<open>The machine\<close>

text \<open>Integer casts and shifts on the numbers in registers, with LLVM's meaning.\<close>

fun integer_primitive :: "gop \<Rightarrow> ty \<Rightarrow> 'e rv list \<Rightarrow> 'e rv option" where
  "integer_primitive (Cast ZExt) t [Num n] = Some (Num n)"
| "integer_primitive (Cast Trunc) (IntegerTy w) [Num n] = Some (Num (n mod 2 ^ w))"
| "integer_primitive (Cast PtrToInt) (IntegerTy w) [Num n] = Some (Num (n mod 2 ^ w))"
| "integer_primitive Shift_right t [Num n, Num k] = Some (Num (n div 2 ^ nat k))"
| "integer_primitive _ t vs = None"

text \<open>
  A stopped program stays stopped. The primitives that this semantics leaves out (storing a
  struct in a stack slot, floating-point casts) are a parameter.
\<close>

definition unless_stopped ::
    "('r \<Rightarrow> ('e rv \<times> 'r) result) \<Rightarrow> 'r result \<Rightarrow> 'e rv \<times> 'r result" where
  "unless_stopped f s = (case bind_result s f of Inl x \<Rightarrow> (Expr None, Inl x) | Inr (v, r) \<Rightarrow> (v, Inr r))"

definition simple_machine ::
    "('e, 't, 's) z3 \<Rightarrow> (gop \<Rightarrow> ty \<Rightarrow> 'e rv list \<Rightarrow> ('e, 't, 's) simple_runtime \<Rightarrow> ('e rv \<times> ('e, 't, 's) simple_runtime) result) \<Rightarrow>
     ('e, ('e, 't, 's) simple_runtime result) machine" where
  "simple_machine Z other =
     \<lparr>call_runtime = (\<lambda>f vs. unless_stopped (simple_call Z f vs)),
      primitive = (\<lambda>op t vs. unless_stopped (case integer_primitive op t vs of
          Some v \<Rightarrow> (\<lambda>r. Inr (v, r)) | None \<Rightarrow> other op t vs))\<rparr>"

lemma unless_stopped_simps [simp]:
  "unless_stopped f (Inl x) = (Expr None, Inl x)"
  "f r = Inr (v, r') \<Longrightarrow> unless_stopped f (Inr r) = (v, Inr r')"
  "f r = Inl x \<Longrightarrow> unless_stopped f (Inr r) = (Expr None, Inl x)"
  by (simp_all add: unless_stopped_def)

lemma machine_simps [simp]:
  "call_runtime (simple_machine Z other) f vs = unless_stopped (simple_call Z f vs)"
  "integer_primitive op t vs = Some v \<Longrightarrow>
     primitive (simple_machine Z other) op t vs = unless_stopped (\<lambda>r. Inr (v, r))"
  by (simp_all add: simple_machine_def)

text \<open>The definitions behind the names that integer code calls.\<close>

lemma simple_call_values [simp]:
  "simple_call Z ''_sym_build_integer'' = entry_ii (\<lambda>v k. simple_build_integer Z (word_of_int v) (word_of_int k))"
  "simple_call Z ''_sym_build_null_pointer'' = (\<lambda>vs. constant_of simple_build_null_pointer)"
  "simple_call Z ''_sym_build_bool'' = entry_bool simple_build_bool"
  by (simp_all add: simple_call_def simple_exports_def)

lemma simple_call_arithmetic [simp]:
  "simple_call Z ''_sym_build_add'' = entry_ee (simple_build_binary Z Build_add)"
  "simple_call Z ''_sym_build_sub'' = entry_ee (simple_build_binary Z Build_sub)"
  "simple_call Z ''_sym_build_mul'' = entry_ee (simple_build_binary Z Build_mul)"
  "simple_call Z ''_sym_build_unsigned_div'' = entry_ee (simple_build_binary Z Build_unsigned_div)"
  "simple_call Z ''_sym_build_signed_div'' = entry_ee (simple_build_binary Z Build_signed_div)"
  "simple_call Z ''_sym_build_unsigned_rem'' = entry_ee (simple_build_binary Z Build_unsigned_rem)"
  "simple_call Z ''_sym_build_signed_rem'' = entry_ee (simple_build_binary Z Build_signed_rem)"
  "simple_call Z ''_sym_build_shift_left'' = entry_ee (simple_build_binary Z Build_shift_left)"
  "simple_call Z ''_sym_build_logical_shift_right'' = entry_ee (simple_build_binary Z Build_logical_shift_right)"
  "simple_call Z ''_sym_build_arithmetic_shift_right'' = entry_ee (simple_build_binary Z Build_arithmetic_shift_right)"
  by (simp_all add: simple_call_def simple_exports_def)

lemma simple_call_bitwise [simp]:
  "simple_call Z ''_sym_build_and'' = entry_ee (simple_build_binary Z Build_and)"
  "simple_call Z ''_sym_build_or'' = entry_ee (simple_build_binary Z Build_or)"
  "simple_call Z ''_sym_build_xor'' = entry_ee (simple_build_binary Z Build_xor)"
  "simple_call Z ''_sym_build_bool_and'' = entry_ee (simple_build_bool_and Z)"
  "simple_call Z ''_sym_build_bool_or'' = entry_ee (simple_build_bool_or Z)"
  "simple_call Z ''_sym_build_bool_xor'' = entry_ee (simple_build_binary Z Build_bool_xor)"
  by (simp_all add: simple_call_def simple_exports_def)

lemma simple_call_comparison [simp]:
  "simple_call Z ''_sym_build_equal'' = entry_ee (simple_build_binary Z Build_equal)"
  "simple_call Z ''_sym_build_not_equal'' = entry_ee (simple_build_not_equal Z)"
  "simple_call Z ''_sym_build_signed_less_than'' = entry_ee (simple_build_binary Z Build_signed_less_than)"
  "simple_call Z ''_sym_build_signed_less_equal'' = entry_ee (simple_build_binary Z Build_signed_less_equal)"
  "simple_call Z ''_sym_build_signed_greater_than'' = entry_ee (simple_build_binary Z Build_signed_greater_than)"
  "simple_call Z ''_sym_build_signed_greater_equal'' = entry_ee (simple_build_binary Z Build_signed_greater_equal)"
  "simple_call Z ''_sym_build_unsigned_less_than'' = entry_ee (simple_build_binary Z Build_unsigned_less_than)"
  "simple_call Z ''_sym_build_unsigned_less_equal'' = entry_ee (simple_build_binary Z Build_unsigned_less_equal)"
  "simple_call Z ''_sym_build_unsigned_greater_than'' = entry_ee (simple_build_binary Z Build_unsigned_greater_than)"
  "simple_call Z ''_sym_build_unsigned_greater_equal'' = entry_ee (simple_build_binary Z Build_unsigned_greater_equal)"
  by (simp_all add: simple_call_def simple_exports_def)

lemma simple_call_casts [simp]:
  "simple_call Z ''_sym_build_sext'' = entry_ei (\<lambda>e k. simple_build_sext Z e (word_of_int k))"
  "simple_call Z ''_sym_build_zext'' = entry_ei (\<lambda>e k. simple_build_zext Z e (word_of_int k))"
  "simple_call Z ''_sym_build_trunc'' = entry_ei (\<lambda>e k. simple_build_trunc Z e (word_of_int k))"
  "simple_call Z ''_sym_build_bool_to_bits'' = entry_ei (\<lambda>e k. simple_build_bool_to_bits Z e (word_of_int k))"
  "simple_call Z ''_sym_push_path_constraint'' = entry_push (simple_backend Z)"
  by (simp_all add: simple_call_def simple_exports_def)

end
