(* ===== verification/IntegerRuns.thy ===== *)
theory IntegerRuns
  imports PassComposition BitVectors RuntimeLink
begin

text \<open>
  What an inserted call computes for integers and pointers, from the registers of the program down
  to the meaning of the expressions in Z3: \<open>z3_int_laws\<close> states the documented behaviour of Z3's
  bit-vector and Boolean functions, \<open>denotes\<close> that an expression stands for a value of an LLVM
  type, \<open>llvm_eval\<close> the result of an integer instruction. The main lemma, \<open>reference_denotes\<close>, is
  about the reference of a single call: on operands whose expressions denote their values, the call
  builds an expression that denotes the result of the instruction.
\<close>

subsection \<open>Z3 on bit vectors and Booleans\<close>

definition bv_functions :: "z3_binary set" where
  "bv_functions = {Bvadd, Bvsub, Bvmul, Bvudiv, Bvsdiv, Bvurem, Bvsrem, Bvshl, Bvlshr, Bvashr, Bvand, Bvor, Bvxor}"

definition bv_comparisons :: "z3_binary set" where
  "bv_comparisons = {Bvult, Bvule, Bvugt, Bvuge, Bvslt, Bvsle, Bvsgt, Bvsge, Z3_eq}"

definition z3_int_laws :: "('e, 't, 's) z3 \<Rightarrow> ('e \<Rightarrow> bool) \<Rightarrow> ('e \<Rightarrow> bool) \<Rightarrow> ('e \<Rightarrow> nat) \<Rightarrow> bool" where
  "z3_int_laws Z isbv isbool val \<longleftrightarrow>
     z3_bv_laws Z isbv val \<and>
     (\<forall>k t i. 0 < k \<longrightarrow> z3_mk_bv_sort Z k = Some t \<longrightarrow>
        (\<forall>e. z3_mk_int Z i t = Some e \<longrightarrow> isbv e \<and> z3_width Z e = unat k \<and> val e = nat (i mod 2 ^ unat k))) \<and>
     (\<forall>f\<in>bv_functions. \<forall>x y. isbv x \<longrightarrow> isbv y \<longrightarrow> z3_width Z y = z3_width Z x \<longrightarrow>
        (\<exists>e. z3_mk_binary Z f x y = Some e \<and> isbv e \<and> z3_width Z e = z3_width Z x \<and>
           val e = smt_binary f (z3_width Z x) (val x) (val y))) \<and>
     (\<forall>f\<in>bv_comparisons. \<forall>x y. isbv x \<longrightarrow> isbv y \<longrightarrow> z3_width Z y = z3_width Z x \<longrightarrow>
        (\<exists>e. z3_mk_binary Z f x y = Some e \<and> isbool e \<and>
           val e = of_bool (smt_compare f (z3_width Z x) (val x) (val y)))) \<and>
     (\<forall>d k x. isbv x \<longrightarrow> z3_width Z x + unat k < 2 ^ 32 \<longrightarrow>
        (\<exists>e. z3_mk_extend Z d k x = Some e \<and> isbv e \<and> z3_width Z e = z3_width Z x + unat k \<and>
           val e = smt_extend d (unat k) (z3_width Z x) (val x))) \<and>
     (\<forall>x. isbool x \<longrightarrow> val x < 2) \<and>
     isbool (z3_mk_true Z) \<and> val (z3_mk_true Z) = 1 \<and> isbool (z3_mk_false Z) \<and> val (z3_mk_false Z) = 0 \<and>
     (\<forall>x. isbool x \<longrightarrow> (\<exists>e. z3_mk_unary Z Z3_not x = Some e \<and> isbool e \<and> val e = 1 - val x)) \<and>
     (\<forall>x y. isbool x \<longrightarrow> isbool y \<longrightarrow>
        (\<exists>e. z3_mk_binary Z Z3_eq x y = Some e \<and> isbool e \<and> val e = of_bool (val x = val y)) \<and>
        (\<exists>e. z3_mk_binary Z Z3_xor x y = Some e \<and> isbool e \<and> val e = of_bool (val x \<noteq> val y)) \<and>
        (\<exists>e. z3_mk_nary Z Z3_and [x, y] = Some e \<and> isbool e \<and> val e = val x * val y) \<and>
        (\<exists>e. z3_mk_nary Z Z3_or [x, y] = Some e \<and> isbool e \<and> val e = max (val x) (val y))) \<and>
     (\<forall>c x y. isbool c \<longrightarrow> isbv x \<longrightarrow> isbv y \<longrightarrow> z3_width Z y = z3_width Z x \<longrightarrow>
        (\<exists>e. z3_mk_ite Z c x y = Some e \<and> isbv e \<and> z3_width Z e = z3_width Z x \<and>
           val e = (if val c = 1 then val x else val y)))"

lemma z3_int_lawsD:
  assumes "z3_int_laws Z isbv isbool val"
  shows "z3_bv_laws Z isbv val"
    and "0 < k \<Longrightarrow> z3_mk_bv_sort Z k = Some t \<Longrightarrow> z3_mk_int Z i t = Some e \<Longrightarrow>
      isbv e \<and> z3_width Z e = unat k \<and> val e = nat (i mod 2 ^ unat k)"
    and "f \<in> bv_functions \<Longrightarrow> isbv x \<Longrightarrow> isbv y \<Longrightarrow> z3_width Z y = z3_width Z x \<Longrightarrow>
      \<exists>e. z3_mk_binary Z f x y = Some e \<and> isbv e \<and> z3_width Z e = z3_width Z x \<and>
         val e = smt_binary f (z3_width Z x) (val x) (val y)"
    and "f \<in> bv_comparisons \<Longrightarrow> isbv x \<Longrightarrow> isbv y \<Longrightarrow> z3_width Z y = z3_width Z x \<Longrightarrow>
      \<exists>e. z3_mk_binary Z f x y = Some e \<and> isbool e \<and> val e = of_bool (smt_compare f (z3_width Z x) (val x) (val y))"
    and "isbv x \<Longrightarrow> z3_width Z x + unat k < 2 ^ 32 \<Longrightarrow>
      \<exists>e. z3_mk_extend Z d k x = Some e \<and> isbv e \<and> z3_width Z e = z3_width Z x + unat k \<and>
         val e = smt_extend d (unat k) (z3_width Z x) (val x)"
    and "isbool x \<Longrightarrow> val x < 2"
    and "isbool (z3_mk_true Z)" "val (z3_mk_true Z) = 1" "isbool (z3_mk_false Z)" "val (z3_mk_false Z) = 0"
    and "isbool x \<Longrightarrow> \<exists>e. z3_mk_unary Z Z3_not x = Some e \<and> isbool e \<and> val e = 1 - val x"
    and "isbool x \<Longrightarrow> isbool y \<Longrightarrow> \<exists>e. z3_mk_binary Z Z3_eq x y = Some e \<and> isbool e \<and> val e = of_bool (val x = val y)"
    and "isbool x \<Longrightarrow> isbool y \<Longrightarrow> \<exists>e. z3_mk_binary Z Z3_xor x y = Some e \<and> isbool e \<and> val e = of_bool (val x \<noteq> val y)"
    and "isbool x \<Longrightarrow> isbool y \<Longrightarrow> \<exists>e. z3_mk_nary Z Z3_and [x, y] = Some e \<and> isbool e \<and> val e = val x * val y"
    and "isbool x \<Longrightarrow> isbool y \<Longrightarrow> \<exists>e. z3_mk_nary Z Z3_or [x, y] = Some e \<and> isbool e \<and> val e = max (val x) (val y)"
    and "isbool c \<Longrightarrow> isbv x \<Longrightarrow> isbv y \<Longrightarrow> z3_width Z y = z3_width Z x \<Longrightarrow>
      \<exists>e. z3_mk_ite Z c x y = Some e \<and> isbv e \<and> z3_width Z e = z3_width Z x \<and> val e = (if val c = 1 then val x else val y)"
  using assms [unfolded z3_int_laws_def] by simp_all

subsection \<open>Values and the expressions that denote them\<close>

fun bits_of :: "ty \<Rightarrow> nat" where
  "bits_of (IntegerTy w) = w"
| "bits_of PointerTy = 64"
| "bits_of _ = 0"

definition denotes ::
    "('e, 't, 's) z3 \<Rightarrow> ('e \<Rightarrow> bool) \<Rightarrow> ('e \<Rightarrow> bool) \<Rightarrow> ('e \<Rightarrow> nat) \<Rightarrow> 'e \<Rightarrow> ty \<Rightarrow> nat \<Rightarrow> bool" where
  "denotes Z isbv isbool val e t n \<longleftrightarrow>
     (if t = IntegerTy 1 then isbool e else isbv e \<and> z3_width Z e = bits_of t) \<and> val e = n"

text \<open>The number in a register; the null pointer constant is the address 0.\<close>

definition number :: "('e, 's) frame \<Rightarrow> val \<Rightarrow> nat" where
  "number fr v = (case look fr v of Num i \<Rightarrow> nat i | Expr e \<Rightarrow> 0)"

definition machine_type :: "ty \<Rightarrow> bool" where
  "machine_type t \<longleftrightarrow> t = PointerTy \<or> (\<exists>w. t = IntegerTy w \<and> 0 < w \<and> w \<le> 64)"

definition in_register :: "('e, 's) frame \<Rightarrow> val \<Rightarrow> bool" where
  "in_register fr v \<longleftrightarrow> v = ConstantPointerNull \<or>
     (look fr v = Num (int (number fr v)) \<and> number fr v < 2 ^ bits_of (type_of v))"

text \<open>The register \<open>x\<close> holds null or an expression that denotes the value of \<open>v\<close>.\<close>

definition tracks ::
    "('e, 't, 's) z3 \<Rightarrow> ('e \<Rightarrow> bool) \<Rightarrow> ('e \<Rightarrow> bool) \<Rightarrow> ('e \<Rightarrow> nat) \<Rightarrow> ('e, 'r) frame \<Rightarrow> val \<Rightarrow> val \<Rightarrow> bool" where
  "tracks Z isbv isbool val fr v x \<longleftrightarrow> in_register fr v \<and>
     (look fr x = Expr None \<or>
      (\<exists>e. look fr x = Expr (Some e) \<and> denotes Z isbv isbool val e (type_of v) (number fr v)))"

text \<open>What building expressions does to the state of the backend.\<close>

definition steady :: "('e, 't, 's) simple_state \<Rightarrow> ('e, 't, 's) simple_state \<Rightarrow> bool" where
  "steady st st' \<longleftrightarrow> grows st st' \<and> sort_refs st' = sort_refs st \<and> g_rounding_mode st' = g_rounding_mode st \<and>
     g_null_pointer st' = g_null_pointer st \<and> g_true st' = g_true st \<and> g_false st' = g_false st"

lemma steady_refl [simp]: "steady st st"
  by (simp add: steady_def)

lemma steady_trans: "steady st st1 \<Longrightarrow> steady st1 st2 \<Longrightarrow> steady st st2"
  by (auto simp: steady_def intro: grows_trans)

lemma steady_register: "steady st (registerExpression e st)"
  by (simp add: steady_def grows_register) (simp add: registerExpression_def inc_ref_def)

lemma steady_ready:
  assumes "constants_ready Z st" "steady st st'"
  shows "constants_ready Z st'"
proof -
  have "ast_refs st x \<le> ast_refs st' x" for x using assms(2) by (simp add: steady_def grows_def)
  then have "0 < ast_refs st x \<Longrightarrow> 0 < ast_refs st' x" for x by (meson less_le_trans)
  with assms show ?thesis by (auto simp: constants_ready_def steady_def grows_def)
qed

lemma steady_allocated: "steady st st' \<Longrightarrow> e \<in> allocatedExpressions st \<Longrightarrow> e \<in> allocatedExpressions st'"
  by (auto simp: steady_def grows_def)

text \<open>\<open>makes f st e\<close>: the builder \<open>f\<close> returns \<open>e\<close>, keeps the constants and registers the result.\<close>

definition makes ::
    "(('e, 't, 's) simple_state \<Rightarrow> ('e \<times> ('e, 't, 's) simple_state) result) \<Rightarrow> ('e, 't, 's) simple_state \<Rightarrow> 'e \<Rightarrow> bool" where
  "makes f st e \<longleftrightarrow> (\<exists>st'. f st = Inr (e, st') \<and> steady st st' \<and> e \<in> allocatedExpressions st')"

lemma makes_register: "makes (register_result (Some e)) st e"
  by (simp add: makes_def register_result_def steady_register)

lemma makes_integer:
  assumes "z3_mk_bv_sort Z (ucast k) = Some t" "z3_mk_unsigned_int64 Z v t = Some e"
  shows "makes (simple_build_integer Z v k) st e"
proof -
  let ?st = "dec_ref_sort t (registerExpression e (inc_ref_sort t st))"
  have "simple_build_integer Z v k st = Inr (e, ?st)"
    by (simp add: simple_build_integer_def with_sort_def register_result_def assms)
  moreover have "steady st ?st"
    by (auto simp: steady_def grows_def refs_ok_def registerExpression_def inc_ref_def inc_ref_sort_def dec_ref_sort_def
        add_pos_nonneg add_nonneg_pos fun_eq_iff)
  ultimately show ?thesis by (auto simp: makes_def)
qed

lemma on_backend_makes:
  assumes "makes f (backend_state r) e"
  shows "\<exists>b. on_backend f r = Inr (Expr (Some e), r\<lparr>backend_state := b\<rparr>) \<and> steady (backend_state r) b \<and>
    e \<in> allocatedExpressions b"
  using assms by (auto simp: makes_def on_backend_def)

subsection \<open>Expressions of concrete values\<close>

lemma small_byte: "0 < w \<Longrightarrow> w \<le> 64 \<Longrightarrow> unat (ucast (word_of_int (int w mod 256) :: byte) :: u32) = w"
  by (simp add: unsigned_ucast_eq unsigned_of_int take_bit_nat_eq_self take_bit_int_eq_self unsigned_of_nat
      flip: of_nat_mod)

lemma small_double_word: "n < 2 ^ w \<Longrightarrow> w \<le> 64 \<Longrightarrow> unat (word_of_int (int n) :: u64) = n"
proof -
  assume n: "n < 2 ^ w" and w: "w \<le> 64"
  have "n < 2 ^ 64" by (rule less_le_trans [OF n power_increasing]) (use w in simp_all)
  then show ?thesis by (simp add: unsigned_of_nat take_bit_nat_eq_self)
qed

lemma built_integer:
  assumes laws: "z3_int_laws Z isbv isbool val" and w: "0 < w" "w \<le> 64" and n: "n < 2 ^ w"
  shows "\<exists>e. (\<forall>st. makes (simple_build_integer Z (word_of_int (int n)) (word_of_int (int w mod 256))) st e) \<and>
    isbv e \<and> z3_width Z e = w \<and> val e = n"
proof -
  have k: "unat (ucast (word_of_int (int w mod 256) :: byte) :: u32) = w" by (rule small_byte [OF w])
  then have "0 < (ucast (word_of_int (int w mod 256) :: byte) :: u32)" using w(1) by (metis unat_gt_0 word_neq_0_conv)
  from z3_bv_lawsD(2) [OF z3_int_lawsD(1) [OF laws] this, of "word_of_int (int n)"] obtain t e where
    "z3_mk_bv_sort Z (ucast (word_of_int (int w mod 256) :: byte)) = Some t"
    "z3_mk_unsigned_int64 Z (word_of_int (int n)) t = Some e" "isbv e" "z3_width Z e = w" "val e = n"
    unfolding k using small_double_word [OF n w(2)] n by auto
  then show ?thesis using makes_integer by metis
qed

lemma value_expression_denotes:
  assumes laws: "z3_int_laws Z isbv isbool val" and ready: "constants_ready Z (backend_state r)"
    and t: "machine_type (type_of v)" "ptrBits E = 64" and v: "in_register fr v"
  shows "\<exists>e b. value_expression E (simple_machine Z other) v (look fr v) (Inr r) =
      (Expr (Some e), Inr (r\<lparr>backend_state := b\<rparr>)) \<and>
    denotes Z isbv isbool val e (type_of v) (number fr v) \<and> steady (backend_state r) b"
proof (cases "v = ConstantPointerNull")
  case True
  obtain t n where "z3_mk_bv_sort Z 64 = Some t" "z3_mk_int Z 0 t = Some n" "g_null_pointer (backend_state r) = Some n"
    using ready by (auto simp: constants_ready_def)
  then show ?thesis
    using z3_int_lawsD(2) [OF laws, of 64 t 0 n] True
    by (intro exI [of _ n] exI [of _ "backend_state r"])
      (simp add: value_expression_def constant_of_def simple_build_null_pointer_def denotes_def number_def)
next
  case False
  let ?n = "number fr v"
  have n: "look fr v = Num (int ?n)" "?n < 2 ^ bits_of (type_of v)"
    using v False by (auto simp: in_register_def)
  from t(1) consider "type_of v = IntegerTy 1" | w where "type_of v = IntegerTy w" "1 < w" "w \<le> 64" | "type_of v = PointerTy"
    by (force simp: machine_type_def)
  then show ?thesis
  proof cases
    case 1
    then have "?n < 2" using n(2) by simp
    then have "g_true (backend_state r) = Some (z3_mk_true Z)" "g_false (backend_state r) = Some (z3_mk_false Z)" "?n = 0 \<or> ?n = 1"
      using ready by (auto simp: constants_ready_def)
    then show ?thesis
      using 1 False n(1) z3_int_lawsD(7-10) [OF laws]
      by (intro exI [of _ "if ?n = 0 then z3_mk_false Z else z3_mk_true Z"] exI [of _ "backend_state r"])
        (auto simp: value_expression_def constant_of_def simple_build_bool_def denotes_def)
  next
    case (2 w)
    then have "?n < 2 ^ w" using n(2) by simp
    from built_integer [OF laws _ 2(3) this] 2(2) obtain e where
      e: "makes (simple_build_integer Z (word_of_int (int ?n)) (word_of_int (int w mod 256))) (backend_state r) e"
      "isbv e" "z3_width Z e = w" "val e = ?n" by fastforce
    from on_backend_makes [OF e(1)] obtain b where
      "on_backend (simple_build_integer Z (word_of_int (int ?n)) (word_of_int (int w mod 256))) r =
        Inr (Expr (Some e), r\<lparr>backend_state := b\<rparr>)" "steady (backend_state r) b" by blast
    then show ?thesis
      using 2 False n(1) e(2-4)
      by (intro exI [of _ e] exI [of _ b])
        (cases "w = 64"; simp add: value_expression_def cast_value_def denotes_def Let_def)
  next
    case 3
    then have "?n < 2 ^ 64" using n(2) by simp
    from built_integer [OF laws _ _ this] obtain e where
      e: "makes (simple_build_integer Z (word_of_int (int ?n)) (word_of_int (int 64 mod 256))) (backend_state r) e"
      "isbv e" "z3_width Z e = 64" "val e = ?n" by fastforce
    from on_backend_makes [OF e(1)] obtain b where
      "on_backend (simple_build_integer Z (word_of_int (int ?n)) (word_of_int (int 64 mod 256))) r =
        Inr (Expr (Some e), r\<lparr>backend_state := b\<rparr>)" "steady (backend_state r) b" by blast
    moreover have "int ?n mod 2 ^ 64 = int ?n" using \<open>?n < 2 ^ 64\<close> by simp
    ultimately show ?thesis
      using 3 False n(1) e(2-4) t(2)
      by (intro exI [of _ e] exI [of _ b]) (simp add: value_expression_def denotes_def Let_def)
  qed
qed

subsection \<open>Instructions on integers and pointers\<close>

text \<open>
  The instructions whose results are integers: arithmetic, comparisons and integer casts, on up to
  64 bits. Left out are the truncation to one bit and the sign extension of a Boolean (whose
  expressions do not denote their results), and comparisons of Booleans other than for equality.
\<close>

fun integer_instruction :: "opcode \<Rightarrow> ty \<Rightarrow> bool" where
  "integer_instruction (BinaryOperator opc x y) t \<longleftrightarrow> type_of x = t \<and> type_of y = t \<and> machine_type t \<and> t \<noteq> PointerTy \<and>
     (if t = IntegerTy 1 then opc \<in> {And, Or, Xor} else smt_of_binary opc \<noteq> None)"
| "integer_instruction (CmpInst p x y) t \<longleftrightarrow> t = IntegerTy 1 \<and> type_of y = type_of x \<and> machine_type (type_of x) \<and>
     (if type_of x = IntegerTy 1 then p \<in> {ICMP_EQ, ICMP_NE} else p = ICMP_NE \<or> smt_of_predicate p \<noteq> None)"
| "integer_instruction (CastInst Trunc x) t \<longleftrightarrow> machine_type (type_of x) \<and> isIntegerTy (type_of x) \<and> isIntegerTy t \<and>
     1 < bits_of t \<and> bits_of t < bits_of (type_of x)"
| "integer_instruction (CastInst ZExt x) t \<longleftrightarrow> machine_type (type_of x) \<and> machine_type t \<and> isIntegerTy (type_of x) \<and>
     isIntegerTy t \<and> bits_of (type_of x) < bits_of t"
| "integer_instruction (CastInst SExt x) t \<longleftrightarrow> machine_type (type_of x) \<and> machine_type t \<and> isIntegerTy (type_of x) \<and>
     isIntegerTy t \<and> 1 < bits_of (type_of x) \<and> bits_of (type_of x) < bits_of t"
| "integer_instruction _ t \<longleftrightarrow> False"

text \<open>The result of the instruction on the numbers of its operands.\<close>

fun llvm_eval :: "opcode \<Rightarrow> ty \<Rightarrow> (val \<Rightarrow> nat) \<Rightarrow> nat option" where
  "llvm_eval (BinaryOperator opc x y) t num = llvm_binary opc (bits_of t) (num x) (num y)"
| "llvm_eval (CmpInst p x y) t num = map_option of_bool (llvm_compare p (bits_of (type_of x)) (num x) (num y))"
| "llvm_eval (CastInst Trunc x) t num = Some (num x mod 2 ^ bits_of t)"
| "llvm_eval (CastInst ZExt x) t num = Some (num x)"
| "llvm_eval (CastInst SExt x) t num = Some (of_signed (bits_of t) (as_signed (bits_of (type_of x)) (num x)))"
| "llvm_eval _ t num = None"

text \<open>The call that the visitor makes for the instruction.\<close>

fun runtime_call :: "environment \<Rightarrow> opcode \<Rightarrow> ty \<Rightarrow> sym_fn \<times> (val \<times> bool) list" where
  "runtime_call E (BinaryOperator opc x y) t =
     (if type_of x = IntegerTy 1
      then (case opc of And \<Rightarrow> buildBoolAnd (rt E) | Or \<Rightarrow> buildBoolOr (rt E) | _ \<Rightarrow> buildBoolXor (rt E))
      else the (binaryOperatorHandlers (rt E) opc), [(x, True), (y, True)])"
| "runtime_call E (CmpInst p x y) t = (the (comparisonHandlers (rt E) p), [(x, True), (y, True)])"
| "runtime_call E (CastInst Trunc x) t = (buildTrunc (rt E), [(x, True), (const_int 8 (int (bits_of t)), False)])"
| "runtime_call E (CastInst c x) t =
     (if bits_of (type_of x) = 1 then (buildBoolToBits (rt E), [(x, True), (const_int 8 (int (bits_of t)), False)])
      else (if c = SExt then buildSExt (rt E) else buildZExt (rt E),
        [(x, True), (const_int 8 (int (bits_of t) - int (bits_of (type_of x))), False)]))"
| "runtime_call E _ t = (buildNullPointer (rt E), [])"

text \<open>The visitor does make this call.\<close>

lemma isIntegerTy_bits: "isIntegerTy t \<Longrightarrow> t = IntegerTy (bits_of t)"
  by (cases t) auto

lemma getIntegerBitWidth_eq: "isIntegerTy t \<Longrightarrow> getIntegerBitWidth t s = Inr (bits_of t, s)"
  by (cases t) (auto simp: getIntegerBitWidth_def build_simps bit_width_def)

lemma visit_integer_instruction:
  assumes "integer_instruction opc (ity I)"
  shows "visit E I opc s =
    build_and_register I (fst (runtime_call E opc (ity I))) (snd (runtime_call E opc (ity I))) (Some (self I)) s"
  using assms
proof (cases "(opc, ity I)" rule: integer_instruction.cases)
  case (1 opc' x y t)
  then have "t = IntegerTy 1 \<Longrightarrow> opc' \<in> {And, Or, Xor}" "binary_operator_handlers opc' \<noteq> None"
    using assms binary_handler_total by (auto split: if_splits)
  with 1 assms show ?thesis
    by (auto simp: visitBinaryOperator_def build_simps split: binary_operator.splits)
next
  case (2 p x y t)
  then have "comparison_handlers p \<noteq> None"
    using assms unfolding comparison_handler_None by (auto split: if_splits)
  with 2 show ?thesis by (auto simp: visitCmpInst_def Let_def build_simps)
qed (use assms in \<open>auto simp: visit_cast_def visitTruncInst_def visitCastInst_def bind_build_eq getIntegerBitWidth_eq\<close>)

subsection \<open>The calls compute the results\<close>

text \<open>The values a call is to get: expressions that denote the values of the symbolic arguments.\<close>

definition argument_ok ::
    "('e, 't, 's) z3 \<Rightarrow> ('e \<Rightarrow> bool) \<Rightarrow> ('e \<Rightarrow> bool) \<Rightarrow> ('e \<Rightarrow> nat) \<Rightarrow> (val \<Rightarrow> nat) \<Rightarrow> val \<times> bool \<Rightarrow> 'e rv \<Rightarrow> bool" where
  "argument_ok Z isbv isbool val num = (\<lambda>(arg, symbolic) v.
     if symbolic then \<exists>e. v = Expr (Some e) \<and> denotes Z isbv isbool val e (type_of arg) (num arg)
     else \<exists>w k. arg = ConstantInt w k \<and> v = Num k)"

definition call_result ::
    "('e, 't, 's) z3 \<Rightarrow> ('e \<Rightarrow> bool) \<Rightarrow> ('e \<Rightarrow> bool) \<Rightarrow> ('e \<Rightarrow> nat) \<Rightarrow> ('e, 't, 's) simple_runtime \<Rightarrow>
     ('e rv \<times> ('e, 't, 's) simple_runtime) result \<Rightarrow> ty \<Rightarrow> nat \<Rightarrow> bool" where
  "call_result Z isbv isbool val r result t n \<longleftrightarrow>
     (\<exists>e b. result = Inr (Expr (Some e), r\<lparr>backend_state := b\<rparr>) \<and> steady (backend_state r) b \<and>
        e \<in> allocatedExpressions b \<and> denotes Z isbv isbool val e t n)"

lemma call_resultI:
  assumes "makes f (backend_state r) e" "denotes Z isbv isbool val e t n"
  shows "call_result Z isbv isbool val r (on_backend f r) t n"
  using on_backend_makes [OF assms(1)] assms(2) by (auto simp: call_result_def)

lemma binary_call_result:
  assumes "z3_mk_binary Z (z3_of_builder f) a b = Some e" "denotes Z isbv isbool val e t n"
  shows "call_result Z isbv isbool val r (on_backend (simple_build_binary Z f a b) r) t n"
  by (rule call_resultI [where e = e]) (simp_all add: simple_build_binary_def assms makes_register)

lemma smt_of_binary_function: "smt_of_binary opc = Some f \<Longrightarrow> z3_of_builder f \<in> bv_functions"
  by (cases opc) (auto simp: bv_functions_def)

lemma smt_of_predicate_comparison: "smt_of_predicate p = Some f \<Longrightarrow> z3_of_builder f \<in> bv_comparisons"
  by (cases p) (auto simp: bv_comparisons_def)

lemma denotes_bv:
  "t \<noteq> IntegerTy 1 \<Longrightarrow> denotes Z isbv isbool val e t n \<longleftrightarrow> isbv e \<and> z3_width Z e = bits_of t \<and> val e = n"
  "denotes Z isbv isbool val e (IntegerTy 1) n \<longleftrightarrow> isbool e \<and> val e = n"
  "denotes Z isbv isbool val e (IntegerTy (Suc 0)) n \<longleftrightarrow> isbool e \<and> val e = n"
  by (auto simp: denotes_def)

lemma machine_bits: "machine_type t \<Longrightarrow> 0 < bits_of t \<and> bits_of t \<le> 64"
  by (auto simp: machine_type_def)

lemma denotes_bound:
  "z3_int_laws Z isbv isbool val \<Longrightarrow> denotes Z isbv isbool val e t n \<Longrightarrow> n < 2 ^ bits_of t"
  using z3_int_lawsD(6) [of Z isbv isbool val e] z3_bv_lawsD(1) [OF z3_int_lawsD(1), of Z isbv isbool val e]
  by (auto simp: denotes_def split: if_splits)

lemma binary_handler_builder:
  "smt_of_binary opc = Some f \<Longrightarrow>
   simple_call Z (sym_name (the (binary_operator_handlers opc))) = entry_ee (simple_build_binary Z f)"
  by (cases opc) (auto simp: load_handler_def)

lemma predicate_handler_builder:
  "smt_of_predicate p = Some f \<Longrightarrow>
   simple_call Z (sym_name (the (comparison_handlers p))) = entry_ee (simple_build_binary Z f)"
  by (cases p) (auto simp: load_handler_def)

lemma binary_denotes:
  assumes laws: "z3_int_laws Z isbv isbool val" and t: "machine_type t" "t \<noteq> IntegerTy 1"
    and f: "smt_of_binary opc = Some f" and n: "llvm_binary opc (bits_of t) x y = Some n"
    and a: "denotes Z isbv isbool val a t x" and b: "denotes Z isbv isbool val b t y"
  shows "call_result Z isbv isbool val r (on_backend (simple_build_binary Z f a b) r) t n"
proof -
  note ab = a [unfolded denotes_bv(1) [OF t(2)]] b [unfolded denotes_bv(1) [OF t(2)]]
  from ab z3_int_lawsD(3) [OF laws smt_of_binary_function [OF f], of a b] obtain e where
    "z3_mk_binary Z (z3_of_builder f) a b = Some e" "isbv e" "z3_width Z e = bits_of t"
    "val e = smt_binary (z3_of_builder f) (bits_of t) x y" by auto
  moreover have "smt_binary (z3_of_builder f) (bits_of t) x y = n"
    using binary_agrees [OF _ _ _ n f] machine_bits [OF t(1)] denotes_bound [OF laws a] denotes_bound [OF laws b] by simp
  ultimately show ?thesis
    by (intro binary_call_result [where e = e]) (simp_all add: denotes_bv(1) [OF t(2)])
qed

lemma compare_denotes:
  assumes laws: "z3_int_laws Z isbv isbool val" and t: "machine_type t" "t \<noteq> IntegerTy 1"
    and f: "smt_of_predicate p = Some f" and c: "llvm_compare p (bits_of t) x y = Some c"
    and a: "denotes Z isbv isbool val a t x" and b: "denotes Z isbv isbool val b t y"
  shows "\<exists>e. z3_mk_binary Z (z3_of_builder f) a b = Some e \<and> denotes Z isbv isbool val e (IntegerTy 1) (of_bool c)"
proof -
  note ab = a [unfolded denotes_bv(1) [OF t(2)]] b [unfolded denotes_bv(1) [OF t(2)]]
  from ab z3_int_lawsD(4) [OF laws smt_of_predicate_comparison [OF f], of a b] obtain e where
    "z3_mk_binary Z (z3_of_builder f) a b = Some e" "isbool e"
    "val e = of_bool (smt_compare (z3_of_builder f) (bits_of t) x y)" by auto
  moreover have "smt_compare (z3_of_builder f) (bits_of t) x y = c"
    using predicate_agrees [OF _ _ c f] denotes_bound [OF laws a] denotes_bound [OF laws b] by simp
  ultimately show ?thesis by (auto simp: denotes_bv(2,3))
qed

lemma not_equal_denotes:
  assumes laws: "z3_int_laws Z isbv isbool val"
    and e: "z3_mk_binary Z Z3_eq a b = Some e" "denotes Z isbv isbool val e (IntegerTy 1) (of_bool c)"
  shows "call_result Z isbv isbool val r (on_backend (simple_build_not_equal Z a b) r) (IntegerTy 1) (of_bool (\<not> c))"
proof -
  from e(2) z3_int_lawsD(11) [OF laws, of e] obtain d where
    "z3_mk_unary Z Z3_not e = Some d" "isbool d" "val d = 1 - of_bool c" by (auto simp: denotes_bv(2,3))
  then show ?thesis
    by (intro call_resultI [where e = d]) (auto simp: simple_build_not_equal_def e(1) makes_register denotes_bv(2,3))
qed

text \<open>Operations on Booleans.\<close>

lemma bool_operation_denotes:
  assumes laws: "z3_int_laws Z isbv isbool val" and opc: "opc \<in> {And, Or, Xor}"
    and n: "llvm_binary opc 1 x y = Some n"
    and a: "denotes Z isbv isbool val a (IntegerTy 1) x" and b: "denotes Z isbv isbool val b (IntegerTy 1) y"
  shows "call_result Z isbv isbool val r (simple_call Z (sym_name (case opc of And \<Rightarrow> buildBoolAnd (rt E) |
      Or \<Rightarrow> buildBoolOr (rt E) | _ \<Rightarrow> buildBoolXor (rt E))) [Expr (Some a), Expr (Some b)] r) (IntegerTy 1) n"
proof -
  have ab: "isbool a" "val a = x" "isbool b" "val b = y" using a b by (simp_all add: denotes_bv(2,3))
  have "x < 2" "y < 2" using z3_int_lawsD(6) [OF laws] ab by auto
  then have xy: "x = 0 \<or> x = 1" "y = 0 \<or> y = 1" by auto
  from opc consider "opc = And" | "opc = Or" | "opc = Xor" by blast
  then show ?thesis
  proof cases
    case 1
    from z3_int_lawsD(14) [OF laws ab(1,3)] obtain e where
      "z3_mk_nary Z Z3_and [a, b] = Some e" "isbool e" "val e = x * y" using ab by auto
    then show ?thesis using 1 n xy
      by (auto intro!: call_resultI [where e = e] simp: simple_build_bool_and_def makes_register denotes_bv(2,3))
  next
    case 2
    from z3_int_lawsD(15) [OF laws ab(1,3)] obtain e where
      "z3_mk_nary Z Z3_or [a, b] = Some e" "isbool e" "val e = max x y" using ab by auto
    then show ?thesis using 2 n xy
      by (auto intro!: call_resultI [where e = e] simp: simple_build_bool_or_def makes_register denotes_bv(2,3))
  next
    case 3
    from z3_int_lawsD(13) [OF laws ab(1,3)] obtain e where
      "z3_mk_binary Z Z3_xor a b = Some e" "isbool e" "val e = of_bool (x \<noteq> y)" using ab by auto
    then show ?thesis using 3 n xy
      by (auto intro!: binary_call_result [where e = e] simp: denotes_bv(2,3))
  qed
qed

text \<open>Casts.\<close>

lemma small_word32: "w \<le> 64 \<Longrightarrow> unat (ucast (word_of_int (int w mod 256) :: byte) :: u32) = w"
  using small_byte [of w] by (cases "w = 0") auto

lemma trunc_extracts:
  assumes laws: "z3_int_laws Z isbv isbool val" and w: "0 < w" "w < v" "v \<le> 64"
    and a: "denotes Z isbv isbool val a (IntegerTy v) x"
  shows "\<exists>e. (\<forall>st. makes (simple_build_trunc Z a (word_of_int (int w mod 256))) st e) \<and>
    isbv e \<and> z3_width Z e = w \<and> val e = x mod 2 ^ w"
proof -
  let ?k = "ucast (word_of_int (int w mod 256) :: byte) :: u32"
  have k: "unat ?k = w" using small_word32 w by simp
  then have k1: "unat (?k - 1) = w - 1" using w(1) by (simp add: unat_sub word_le_nat_alt)
  from a w have "isbv a" "z3_width Z a = v" "val a = x" by (simp_all add: denotes_def)
  moreover have "w - 1 - unat (0 :: u32) + 1 = w" "w - 1 < v" using w by simp_all
  ultimately obtain e where "z3_mk_extract Z (?k - 1) 0 a = Some e" "isbv e" "z3_width Z e = w" "val e = x mod 2 ^ w"
    using z3_bv_lawsD(4) [OF z3_int_lawsD(1) [OF laws], of a 0 "?k - 1", unfolded k1] by auto
  then show ?thesis by (intro exI [of _ e]) (simp add: simple_build_trunc_def makes_register)
qed

lemma trunc_denotes:
  assumes laws: "z3_int_laws Z isbv isbool val" and w: "1 < w" "w < v" "v \<le> 64"
    and a: "denotes Z isbv isbool val a (IntegerTy v) x"
  shows "call_result Z isbv isbool val r
    (on_backend (simple_build_trunc Z a (word_of_int (int w mod 256))) r) (IntegerTy w) (x mod 2 ^ w)"
  using trunc_extracts [OF laws _ w(2,3) a] w(1) by (force simp: denotes_def intro: call_resultI)

lemma sign_extension:
  assumes "0 < v" "v < w" "x < 2 ^ v"
  shows "smt_extend Sign_ext (w - v) v x = of_signed w (as_signed v x)"
proof -
  have w: "(2 :: nat) ^ w = 2 ^ (w - v) * 2 ^ v" using assms(2) by (simp flip: power_add)
  have le: "(2 :: nat) ^ v \<le> 2 ^ w" using assms(2) by (simp add: power_increasing)
  show ?thesis
  proof (cases "top_bit v x")
    case True
    have "int x - 2 ^ v = - int (2 ^ v - x)" using assms(3) by (simp add: of_nat_diff)
    moreover have "0 < x" using True by (auto simp: top_bit_def intro: gr0I)
    then have small: "2 ^ v - x < 2 ^ w" using le assms(3) by linarith
    then have "of_signed w (- int (2 ^ v - x)) = smt_neg w (2 ^ v - x)" by (rule of_signed_minus)
    moreover have "smt_neg w (2 ^ v - x) = 2 ^ w - (2 ^ v - x)"
      using assms(3) small by (simp add: smt_neg_small)
    moreover have "2 ^ w - (2 ^ v - x) = (2 ^ (w - v) - 1) * 2 ^ v + x"
      using assms(3) le by (simp add: w diff_mult_distrib)
    ultimately show ?thesis using True by (simp add: as_signed_top_bit)
  next
    case False
    then show ?thesis using less_le_trans [OF assms(3) le] by (simp add: as_signed_top_bit of_signed_int)
  qed
qed

lemma extension_denotes:
  assumes laws: "z3_int_laws Z isbv isbool val" and w: "1 < v" "v < w" "w \<le> 64"
    and a: "denotes Z isbv isbool val a (IntegerTy v) x"
  shows "call_result Z isbv isbool val r
    (on_backend (register_result (z3_mk_extend Z d (ucast (word_of_int ((int w - int v) mod 256) :: byte)) a)) r)
    (IntegerTy w) (smt_extend d (w - v) v x)"
proof -
  let ?k = "ucast (word_of_int ((int w - int v) mod 256) :: byte) :: u32"
  have "int w - int v = int (w - v)" using w by simp
  then have k: "unat ?k = w - v" using small_word32 [of "w - v"] w by simp
  from a w have "isbv a" "z3_width Z a = v" "val a = x" by (simp_all add: denotes_def)
  moreover have "v + (w - v) < 2 ^ 32" using w by simp
  ultimately obtain e where "z3_mk_extend Z d ?k a = Some e" "isbv e" "z3_width Z e = v + (w - v)"
    "val e = smt_extend d (w - v) v x"
    using z3_int_lawsD(5) [OF laws, of a ?k d, unfolded k] by auto
  then show ?thesis
    using w by (intro call_resultI [where e = e]) (simp_all add: makes_register denotes_def)
qed

lemma bool_to_bits_denotes:
  assumes laws: "z3_int_laws Z isbv isbool val" and w: "1 < w" "w \<le> 64"
    and a: "denotes Z isbv isbool val a (IntegerTy 1) x"
  shows "call_result Z isbv isbool val r
    (on_backend (simple_build_bool_to_bits Z a (word_of_int (int w mod 256))) r) (IntegerTy w) x"
proof -
  let ?k = "word_of_int (int w mod 256) :: byte"
  have ab: "isbool a" "val a = x" using a by (simp_all add: denotes_bv(2,3))
  then have "x < 2" using z3_int_lawsD(6) [OF laws] by auto
  have "makes (simple_build_bool_to_bits Z a ?k) (backend_state r) e" if e: "z3_mk_ite Z a one zero = Some e"
    and one: "\<And>st. makes (simple_build_integer Z 1 ?k) st one" and zero: "\<And>st. makes (simple_build_integer Z 0 ?k) st zero"
    for e one zero
  proof -
    let ?st = "backend_state r"
    obtain st1 where 1: "simple_build_integer Z 1 ?k ?st = Inr (one, st1)" "steady ?st st1"
      using one unfolding makes_def by blast
    obtain st2 where 2: "simple_build_integer Z 0 ?k st1 = Inr (zero, st2)" "steady st1 st2"
      using zero unfolding makes_def by blast
    obtain st3 where 3: "register_result (Some e) st2 = Inr (e, st3)" "steady st2 st3" "e \<in> allocatedExpressions st3"
      using makes_register [of e st2] unfolding makes_def by blast
    have "simple_build_bool_to_bits Z a ?k ?st = Inr (e, st3)"
      by (simp only: simple_build_bool_to_bits_def 1(1) 2(1) e 3(1) bind_result_simps prod.case)
    then show ?thesis using steady_trans [OF steady_trans [OF 1(2) 2(2)] 3(2)] 3(3) by (auto simp: makes_def)
  qed
  moreover obtain one where one: "\<And>st. makes (simple_build_integer Z 1 ?k) st one" "isbv one" "z3_width Z one = w" "val one = 1"
    using built_integer [OF laws _ w(2), of 1] w(1) one_less_power [of "2 :: nat" w] by auto
  moreover obtain zero where zero: "\<And>st. makes (simple_build_integer Z 0 ?k) st zero" "isbv zero" "z3_width Z zero = w" "val zero = 0"
    using built_integer [OF laws _ w(2), of 0] w(1) by auto
  moreover obtain e where "z3_mk_ite Z a one zero = Some e" "isbv e" "z3_width Z e = w" "val e = x"
    using z3_int_lawsD(16) [OF laws ab(1) one(2) zero(2)] one(3,4) zero(3,4) ab(2) \<open>x < 2\<close> by (auto simp: less_2_cases_iff)
  ultimately show ?thesis using w by (intro call_resultI [where e = e]) (auto simp: denotes_def)
qed

lemma two_arguments:
  assumes "list_all2 (argument_ok Z isbv isbool val num) [(x, True), (y, True)] vs"
  obtains a b where "vs = [Expr (Some a), Expr (Some b)]" "denotes Z isbv isbool val a (type_of x) (num x)"
    "denotes Z isbv isbool val b (type_of y) (num y)"
  using assms by (auto simp: list_all2_Cons1 argument_ok_def)

lemma argument_and_constant:
  assumes "list_all2 (argument_ok Z isbv isbool val num) [(x, True), (const_int w k, False)] vs"
  obtains a where "vs = [Expr (Some a), Num (k mod 2 ^ w)]" "denotes Z isbv isbool val a (type_of x) (num x)"
  using assms by (auto simp: list_all2_Cons1 argument_ok_def const_int_def)

lemma binary_call_denotes:
  assumes laws: "z3_int_laws Z isbv isbool val"
    and I: "integer_instruction (BinaryOperator opc x y) t"
    and n: "llvm_binary opc (bits_of t) (num x) (num y) = Some n"
    and a: "denotes Z isbv isbool val a (type_of x) (num x)" and b: "denotes Z isbv isbool val b (type_of y) (num y)"
  shows "call_result Z isbv isbool val r
    (simple_call Z (sym_name (fst (runtime_call E (BinaryOperator opc x y) t))) [Expr (Some a), Expr (Some b)] r) t n"
proof -
  have t: "type_of x = t" "type_of y = t" "machine_type t" using I by auto
  show ?thesis
  proof (cases "t = IntegerTy 1")
    case True
    then have "opc \<in> {And, Or, Xor}" using I by simp
    from bool_operation_denotes [OF laws this _ a [unfolded t True] b [unfolded t True], of n r E] n
    show ?thesis by (simp only: runtime_call.simps t True simp_thms if_True fst_conv bits_of.simps)
  next
    case False
    then obtain f where f: "smt_of_binary opc = Some f" using I by auto
    from binary_denotes [OF laws t(3) False f n a [unfolded t] b [unfolded t], of r] False
    show ?thesis by (simp add: t(1) binary_handler_builder [OF f])
  qed
qed

lemma compare_call_denotes:
  assumes laws: "z3_int_laws Z isbv isbool val"
    and I: "integer_instruction (CmpInst p x y) t"
    and c: "llvm_compare p (bits_of (type_of x)) (num x) (num y) = Some c"
    and a: "denotes Z isbv isbool val a (type_of x) (num x)" and b: "denotes Z isbv isbool val b (type_of y) (num y)"
  shows "call_result Z isbv isbool val r
    (simple_call Z (sym_name (fst (runtime_call E (CmpInst p x y) t))) [Expr (Some a), Expr (Some b)] r) t (of_bool c)"
proof -
  have t: "type_of y = type_of x" "machine_type (type_of x)" "t = IntegerTy 1" using I by auto
  have equal: "\<exists>e. z3_mk_binary Z Z3_eq a b = Some e \<and>
      denotes Z isbv isbool val e (IntegerTy 1) (of_bool (num x = num y))"
  proof (cases "type_of x = IntegerTy 1")
    case True
    then show ?thesis
      using z3_int_lawsD(12) [OF laws, of a b] a b t(1) by (auto simp: denotes_bv(2,3))
  next
    case False
    from compare_denotes [OF laws t(2) False, of ICMP_EQ Build_equal "num x" "num y" "num x = num y" a b] a b
    show ?thesis by (simp add: t(1))
  qed
  show ?thesis
  proof (cases "p = ICMP_NE")
    case True
    obtain e where "z3_mk_binary Z Z3_eq a b = Some e" "denotes Z isbv isbool val e (IntegerTy 1) (of_bool (num x = num y))"
      using equal by blast
    from not_equal_denotes [OF laws this, of r] True c show ?thesis
      by (simp add: t(3) load_handler_def)
  next
    case False
    then obtain f where f: "smt_of_predicate p = Some f" using I by (auto split: if_splits)
    have "\<exists>e. z3_mk_binary Z (z3_of_builder f) a b = Some e \<and> denotes Z isbv isbool val e (IntegerTy 1) (of_bool c)"
    proof (cases "type_of x = IntegerTy 1")
      case True
      then have "p = ICMP_EQ" using I False by auto
      with equal f c show ?thesis by simp
    next
      case False
      from compare_denotes [OF laws t(2) False f c a] b show ?thesis by (simp add: t(1))
    qed
    then show ?thesis using binary_call_result by (auto simp: predicate_handler_builder [OF f] t(3))
  qed
qed

lemma integer_call_denotes:
  assumes laws: "z3_int_laws Z isbv isbool val"
    and I: "integer_instruction opc t" and n: "llvm_eval opc t num = Some n"
    and vs: "list_all2 (argument_ok Z isbv isbool val num) (snd (runtime_call E opc t)) vs"
  shows "call_result Z isbv isbool val r (simple_call Z (sym_name (fst (runtime_call E opc t))) vs r) t n"
  using I
proof (cases "(opc, t)" rule: integer_instruction.cases)
  case (1 opc' x y t')
  then have opc: "opc = BinaryOperator opc' x y" by simp
  from two_arguments [OF vs [unfolded opc runtime_call.simps snd_conv]] obtain a b where
    ab: "vs = [Expr (Some a), Expr (Some b)]" "denotes Z isbv isbool val a (type_of x) (num x)"
    "denotes Z isbv isbool val b (type_of y) (num y)" .
  show ?thesis unfolding opc ab(1)
    by (rule binary_call_denotes [OF laws I [unfolded opc] _ ab(2,3)]) (use n opc in simp)
next
  case (2 p x y t')
  then have opc: "opc = CmpInst p x y" by simp
  from two_arguments [OF vs [unfolded opc runtime_call.simps snd_conv]] obtain a b where
    ab: "vs = [Expr (Some a), Expr (Some b)]" "denotes Z isbv isbool val a (type_of x) (num x)"
    "denotes Z isbv isbool val b (type_of y) (num y)" .
  obtain c where c: "llvm_compare p (bits_of (type_of x)) (num x) (num y) = Some c" "n = of_bool c"
    using n opc by auto
  show ?thesis unfolding opc ab(1) c(2) by (rule compare_call_denotes [OF laws I [unfolded opc] c(1) ab(2,3)])
next
  case (3 x t')
  then have opc: "opc = CastInst Trunc x" "t' = t" by simp_all
  with I have ty: "type_of x = IntegerTy (bits_of (type_of x))" "t = IntegerTy (bits_of t)"
    "1 < bits_of t" "bits_of t < bits_of (type_of x)" "bits_of (type_of x) \<le> 64"
    using isIntegerTy_bits machine_bits by auto
  from argument_and_constant [OF vs [unfolded opc(1) runtime_call.simps snd_conv]] obtain a where
    "vs = [Expr (Some a), Num (int (bits_of t) mod 2 ^ 8)]" "denotes Z isbv isbool val a (type_of x) (num x)" .
  then show ?thesis using trunc_denotes [OF laws ty(3-5), of a "num x" r] n opc ty(1,2) by simp
next
  case (4 x t')
  then have opc: "opc = CastInst ZExt x" by simp
  with I have ty: "type_of x = IntegerTy (bits_of (type_of x))" "t = IntegerTy (bits_of t)"
    "bits_of (type_of x) \<noteq> 1 \<longrightarrow> 1 < bits_of (type_of x)" "0 < bits_of (type_of x)"
    "bits_of (type_of x) < bits_of t" "bits_of t \<le> 64"
    using isIntegerTy_bits machine_bits [of "type_of x"] machine_bits [of t] by auto
  show ?thesis
  proof (cases "bits_of (type_of x) = 1")
    case True
    then have call: "runtime_call E opc t = (buildBoolToBits (rt E), [(x, True), (const_int 8 (int (bits_of t)), False)])"
      by (simp add: opc)
    from argument_and_constant [OF vs [unfolded call snd_conv]] obtain a where
      "vs = [Expr (Some a), Num (int (bits_of t) mod 2 ^ 8)]" "denotes Z isbv isbool val a (type_of x) (num x)" .
    then show ?thesis
      using bool_to_bits_denotes [OF laws _ ty(6), of a "num x" r] n opc ty True unfolding call by simp
  next
    case False
    then have call: "runtime_call E opc t = (buildZExt (rt E),
        [(x, True), (const_int 8 (int (bits_of t) - int (bits_of (type_of x))), False)])"
      by (simp add: opc)
    from argument_and_constant [OF vs [unfolded call snd_conv]] obtain a where
      a: "vs = [Expr (Some a), Num ((int (bits_of t) - int (bits_of (type_of x))) mod 2 ^ 8)]"
      "denotes Z isbv isbool val a (type_of x) (num x)" .
    show ?thesis
      using extension_denotes [OF laws _ ty(5,6), of a "num x" r Zero_ext] n opc ty False a unfolding call
      by (simp add: simple_build_zext_def)
  qed
next
  case (5 x t')
  then have opc: "opc = CastInst SExt x" by simp
  with I have ty: "type_of x = IntegerTy (bits_of (type_of x))" "t = IntegerTy (bits_of t)"
    "1 < bits_of (type_of x)" "bits_of (type_of x) < bits_of t" "bits_of t \<le> 64"
    using isIntegerTy_bits machine_bits [of t] by auto
  then have call: "runtime_call E opc t = (buildSExt (rt E),
      [(x, True), (const_int 8 (int (bits_of t) - int (bits_of (type_of x))), False)])"
    by (simp add: opc)
  from argument_and_constant [OF vs [unfolded call snd_conv]] obtain a where
    a: "vs = [Expr (Some a), Num ((int (bits_of t) - int (bits_of (type_of x))) mod 2 ^ 8)]"
    "denotes Z isbv isbool val a (type_of x) (num x)" .
  then have "num x < 2 ^ bits_of (type_of x)" using denotes_bound [OF laws] by blast
  then have "smt_extend Sign_ext (bits_of t - bits_of (type_of x)) (bits_of (type_of x)) (num x) = n"
    using sign_extension [of "bits_of (type_of x)" "bits_of t" "num x"] n opc ty by simp
  then show ?thesis
    using extension_denotes [OF laws ty(3-5), of a "num x" r Sign_ext] opc ty(1,2) a unfolding call
    by (simp add: simple_build_sext_def)
qed auto

subsection \<open>The reference of a call\<close>

lemma fill_inputs_denote:
  assumes laws: "z3_int_laws Z isbv isbool val" and E: "ptrBits E = 64"
    and js: "\<forall>i\<in>set js. machine_type (type_of (concreteValue i))
      \<and> tracks Z isbv isbool val fr (concreteValue i) (getSymbolicOperand mid i)"
    and ready: "constants_ready Z (backend_state r)"
  shows "\<exists>vs b. fill_inputs E (simple_machine Z other) mid js fr (Inr r) = (vs, Inr (r\<lparr>backend_state := b\<rparr>)) \<and>
    list_all2 (\<lambda>i v. argument_ok Z isbv isbool val (number fr) (concreteValue i, True) v) js vs \<and>
    steady (backend_state r) b"
  using js ready
proof (induction js arbitrary: r)
  case Nil
  then show ?case by (intro exI [of _ "[]"] exI [of _ "backend_state r"]) simp
next
  case (Cons i js)
  let ?v = "concreteValue i" and ?x = "getSymbolicOperand mid i"
  have i: "machine_type (type_of ?v)" "tracks Z isbv isbool val fr ?v ?x" using Cons.prems by simp_all
  obtain e b where first: "(if look fr ?x = Expr None
        then value_expression E (simple_machine Z other) ?v (look fr ?v) (Inr r) else (look fr ?x, Inr r)) =
      (Expr (Some e), Inr (r\<lparr>backend_state := b\<rparr>))"
    "denotes Z isbv isbool val e (type_of ?v) (number fr ?v)" "steady (backend_state r) b"
  proof (cases "look fr ?x = Expr None")
    case True
    then show ?thesis
      using value_expression_denotes [OF laws Cons.prems(2) i(1) E, of fr other] i(2) that
      by (auto simp: tracks_def)
  next
    case False
    then show ?thesis using i(2) that [of _ "backend_state r"] by (auto simp: tracks_def)
  qed
  have "constants_ready Z (backend_state (r\<lparr>backend_state := b\<rparr>))" using steady_ready [OF Cons.prems(2) first(3)] by simp
  from Cons.IH [OF _ this] Cons.prems(1) obtain vs b' where
    "fill_inputs E (simple_machine Z other) mid js fr (Inr (r\<lparr>backend_state := b\<rparr>)) = (vs, Inr (r\<lparr>backend_state := b'\<rparr>))"
    "list_all2 (\<lambda>i v. argument_ok Z isbv isbool val (number fr) (concreteValue i, True) v) js vs" "steady b b'"
    by auto
  with first show ?case
    by (intro exI [of _ "Expr (Some e) # vs"] exI [of _ b']) (auto simp: argument_ok_def intro: steady_trans)
qed

text \<open>The inputs of a call override the operands at the symbolic positions and no others.\<close>

lemma override_arguments:
  assumes "list_all2 (\<lambda>i v. P (concreteValue i) v) (computation_inputs r k args) vs" "j < length args"
  shows "if snd (args ! j) then \<exists>v. override (computation_inputs r k args) vs r (k + j) = Some v \<and> P (fst (args ! j)) v
    else override (computation_inputs r k args) vs r (k + j) = None"
  using assms
proof (induction r k args arbitrary: vs j rule: computation_inputs.induct)
  case (2 call i arg symbolic args)
  have later: "override (computation_inputs call (Suc i) args) ws call i = None" for ws :: "'a list"
    by (rule override_None) (auto simp: input_key_def dest: computation_inputs_sound)
  show ?case
  proof (cases symbolic)
    case True
    with "2.prems" obtain v ws where vs: "vs = v # ws" "P arg v"
      "list_all2 (\<lambda>i v. P (concreteValue i) v) (computation_inputs call (Suc i) args) ws"
      by (auto simp: list_all2_Cons1)
    show ?thesis using "2.IH" [OF vs(3), of "j - 1"] "2.prems"(2) vs True by (cases j) auto
  next
    case False
    with "2.IH" [of vs "j - 1"] "2.prems" later show ?thesis by (cases j) auto
  qed
qed simp

lemma runtime_call_arguments:
  assumes "integer_instruction opc t" "a \<in> set (snd (runtime_call E opc t))"
  shows "if snd a then machine_type (type_of (fst a)) \<and> fst a \<in> set (operands opc) else \<exists>w k. fst a = ConstantInt w k"
  using assms
  by (cases "(opc, t)" rule: integer_instruction.cases)
    (auto simp: const_int_def split: if_splits)

text \<open>A call for the instruction: its function, its inputs and its constant arguments.\<close>

definition call_shape :: "environment \<Rightarrow> opcode \<Rightarrow> ty \<Rightarrow> symbolic_computation \<Rightarrow> gen \<Rightarrow> bool" where
  "call_shape E opc t c g \<longleftrightarrow> (\<exists>k u ys. g = Gen (Made k u) (Call (fst (runtime_call E opc t))) ys \<and>
     firstInstruction c = Some (Made k u) \<and> lastInstruction c = Some (Made k u) \<and>
     inputs c = computation_inputs (Made k u) 0 (snd (runtime_call E opc t)) \<and>
     list_all2 (\<lambda>a y. snd a \<or> y = fst a) (snd (runtime_call E opc t)) ys)"

lemma reference_denotes:
  fixes other :: "gop \<Rightarrow> ty \<Rightarrow> 'e rv list \<Rightarrow> ('e, 't, 's) simple_runtime \<Rightarrow> ('e rv \<times> ('e, 't, 's) simple_runtime) result"
  assumes laws: "z3_int_laws Z isbv isbool val" and E: "ptrBits E = 64"
    and I: "integer_instruction opc t" and shape: "call_shape E opc t c g"
    and fr: "rts fr = Inr r" "constants_ready Z (backend_state r)" "\<not> all_concrete c [g] fr"
      "\<forall>i\<in>set (inputs c). tracks Z isbv isbool val fr (concreteValue i) (getSymbolicOperand [g] i)"
    and n: "llvm_eval opc t (number fr) = Some n"
  defines "fr' \<equiv> reference E (simple_machine Z other) c [g] fr"
  shows "\<exists>e b. rts fr' = Inr (r\<lparr>backend_state := b\<rparr>) \<and> look fr' (last_value c) = Expr (Some e) \<and>
    steady (backend_state r) b \<and> e \<in> allocatedExpressions b \<and> denotes Z isbv isbool val e t n"
proof -
  let ?M = "simple_machine Z other"
  define f args where fa: "f = fst (runtime_call E opc t)" "args = snd (runtime_call E opc t)"
  obtain k u ys where g: "g = Gen (Made k u) (Call f) ys" "lastInstruction c = Some (Made k u)"
    "inputs c = computation_inputs (Made k u) 0 args" "list_all2 (\<lambda>a y. snd a \<or> y = fst a) args ys"
    using shape unfolding call_shape_def fa by blast
  have "machine_type (type_of (concreteValue i))" if "i \<in> set (inputs c)" for i
  proof -
    have "(concreteValue i, True) \<in> set args"
      using computation_inputs_sound [OF that [unfolded g(3)]] by (metis add_0 diff_zero nth_mem)
    then show ?thesis using runtime_call_arguments [OF I, of "(concreteValue i, True)" E] by (simp add: fa)
  qed
  with fr(4) have "\<forall>i\<in>set (inputs c). machine_type (type_of (concreteValue i)) \<and>
      tracks Z isbv isbool val fr (concreteValue i) (getSymbolicOperand [g] i)" by blast
  from fill_inputs_denote [OF laws E this fr(2), of other] obtain vs b where
    fill: "fill_inputs E ?M [g] (inputs c) fr (Inr r) = (vs, Inr (r\<lparr>backend_state := b\<rparr>))" and
    vs: "list_all2 (\<lambda>i v. argument_ok Z isbv isbool val (number fr) (concreteValue i, True) v) (inputs c) vs" and
    b: "steady (backend_state r) b" by blast
  define ws where "ws = map (\<lambda>j. case override (inputs c) vs (Made k u) j of Some v \<Rightarrow> v
      | None \<Rightarrow> look (fr\<lparr>rts := Inr (r\<lparr>backend_state := b\<rparr>)\<rparr>) (ys ! j)) [0..<length ys]"
  have len: "length ys = length args" using g(4) by (simp add: list_all2_lengthD)
  have "argument_ok Z isbv isbool val (number fr) (args ! j) (ws ! j)" if j: "j < length args" for j
  proof (cases "snd (args ! j)")
    case True
    with override_arguments [OF vs [unfolded g(3)] j] show ?thesis
      by (cases "args ! j") (auto simp: ws_def g(3) len j)
  next
    case False
    moreover obtain w m where "fst (args ! j) = ConstantInt w m"
      using runtime_call_arguments [OF I, of "args ! j" E] False j by (auto simp: fa)
    moreover have "ys ! j = fst (args ! j)" using list_all2_nthD [OF g(4) j] False by simp
    ultimately show ?thesis
      using override_arguments [OF vs [unfolded g(3)] j]
      by (cases "args ! j") (simp add: ws_def g(3) len j argument_ok_def)
  qed
  then have "list_all2 (argument_ok Z isbv isbool val (number fr)) args ws"
    by (simp add: list_all2_conv_all_nth ws_def len)
  from integer_call_denotes [OF laws I n, of E ws "r\<lparr>backend_state := b\<rparr>", folded fa, OF this] obtain e b' where
    call: "simple_call Z (sym_name f) ws (r\<lparr>backend_state := b\<rparr>) = Inr (Expr (Some e), r\<lparr>backend_state := b'\<rparr>)"
    "steady b b'" "e \<in> allocatedExpressions b'" "denotes Z isbv isbool val e t n"
    by (auto simp: call_result_def)
  have "fr' = set_reg (Made k u) (Expr (Some e)) (fr\<lparr>rts := Inr (r\<lparr>backend_state := b'\<rparr>)\<rparr>)"
    using fr(3) call(1)
    by (simp add: fr'_def reference_def fr(1) fill [unfolded g(1)] g(1) ws_def [symmetric])
  then show ?thesis
    using call(2-4) b g(2) by (intro exI [of _ e] exI [of _ b']) (auto simp: last_value_def intro: steady_trans)
qed

end
