(* ===== verification/Calculator.thy ===== *)
theory Calculator
  imports IntegerRuns
begin

text \<open>
  An instance of Z3 that calculates: on constants, every bit-vector and Boolean function returns the
  constant that it denotes in SMT-LIB. It satisfies \<open>z3_int_laws\<close>, so these laws can hold together.
\<close>

lemma smt_neg_bound: "smt_neg w a < 2 ^ w"
  by (simp add: smt_neg_def)

lemma smt_not_bound: "smt_not w a < 2 ^ w"
  by (simp add: smt_not_def less_imp_diff_less)

lemma smt_udiv_bound: "a < 2 ^ w \<Longrightarrow> smt_udiv w a b < 2 ^ w"
  by (simp add: smt_udiv_def le_less_trans [OF div_le_dividend])

lemma smt_urem_bound: "a < 2 ^ w \<Longrightarrow> smt_urem w a b < 2 ^ w"
  by (simp add: smt_urem_def le_less_trans [OF mod_less_eq_dividend])

lemmas smt_bounds = smt_neg_bound smt_not_bound smt_udiv_bound smt_urem_bound magnitude_bound div_pow_less

lemma smt_binary_bound:
  assumes "a < 2 ^ w" "b < 2 ^ w"
  shows "smt_binary f w a b < 2 ^ w"
proof -
  have "a AND b < 2 ^ w" "a OR b < 2 ^ w" "a XOR b < 2 ^ w"
    using assms by (simp_all flip: take_bit_nat_eq_self_iff)
  then show ?thesis using assms by (cases f) (simp_all add: smt_bounds)
qed

lemma smt_extend_bound:
  assumes "a < 2 ^ w"
  shows "smt_extend d k w a < 2 ^ (w + k)"
proof -
  have le: "(2 :: nat) ^ w \<le> 2 ^ (w + k)" by (simp add: power_increasing)
  have "(2 ^ k - 1) * 2 ^ w + a < (2 ^ k - 1) * 2 ^ w + 2 ^ w" using assms by simp
  also have "\<dots> = Suc (2 ^ k - 1) * 2 ^ w" by (simp only: mult_Suc add.commute)
  also have "\<dots> = 2 ^ (w + k)" by (simp add: power_add mult.commute del: mult_Suc mult_Suc_right)
  finally show ?thesis using less_le_trans [OF assms le] by (cases d) simp_all
qed

fun calc_binary :: "z3_binary \<Rightarrow> demo_term \<Rightarrow> demo_term \<Rightarrow> demo_term option" where
  "calc_binary f (Bv w a) (Bv v b) =
     (if f = Concat then demo_concat (Bv w a) (Bv v b)
      else if w \<noteq> v then None
      else if f \<in> bv_comparisons then Some (Truth (smt_compare f w a b))
      else if f \<in> bv_functions then Some (Bv w (smt_binary f w a b)) else None)"
| "calc_binary f (Truth p) (Truth q) =
     (case f of Z3_eq \<Rightarrow> Some (Truth (p = q)) | Z3_xor \<Rightarrow> Some (Truth (p \<noteq> q)) | _ \<Rightarrow> None)"
| "calc_binary _ _ _ = None"

fun calc_unary :: "z3_unary \<Rightarrow> demo_term \<Rightarrow> demo_term option" where
  "calc_unary Z3_not (Truth b) = Some (Truth (\<not> b))"
| "calc_unary _ _ = None"

fun calc_nary :: "z3_nary \<Rightarrow> demo_term list \<Rightarrow> demo_term option" where
  "calc_nary Z3_and [Truth p, Truth q] = Some (Truth (p \<and> q))"
| "calc_nary Z3_or [Truth p, Truth q] = Some (Truth (p \<or> q))"
| "calc_nary _ _ = None"

fun calc_ite :: "demo_term \<Rightarrow> demo_term \<Rightarrow> demo_term \<Rightarrow> demo_term option" where
  "calc_ite (Truth c) x y = Some (if c then x else y)"
| "calc_ite _ _ _ = None"

fun calc_extend :: "z3_extend \<Rightarrow> u32 \<Rightarrow> demo_term \<Rightarrow> demo_term option" where
  "calc_extend d k (Bv w a) = Some (Bv (w + unat k) (smt_extend d (unat k) w a))"
| "calc_extend _ _ _ = None"

definition calc_z3 :: "(demo_term, nat, demo_term list list) z3" where
  "calc_z3 = demo_z3\<lparr>z3_mk_unary := calc_unary, z3_mk_binary := calc_binary, z3_mk_nary := calc_nary, z3_mk_ite := calc_ite, z3_mk_extend := calc_extend\<rparr>"

fun calc_isbool :: "demo_term \<Rightarrow> bool" where
  "calc_isbool (Truth b) = True"
| "calc_isbool _ = False"

fun calc_val :: "demo_term \<Rightarrow> nat" where
  "calc_val (Bv w v) = v"
| "calc_val (Truth b) = of_bool b"
| "calc_val _ = 0"

lemma calc_z3_simps [simp]:
  "z3_mk_binary calc_z3 = calc_binary" "z3_mk_nary calc_z3 = calc_nary" "z3_mk_ite calc_z3 = calc_ite"
  "z3_mk_extend calc_z3 = calc_extend" "z3_mk_extract calc_z3 = z3_mk_extract demo_z3"
  "z3_mk_bv_sort calc_z3 = z3_mk_bv_sort demo_z3" "z3_mk_unsigned_int64 calc_z3 = z3_mk_unsigned_int64 demo_z3"
  "z3_mk_int calc_z3 = z3_mk_int demo_z3" "z3_mk_unary calc_z3 = calc_unary"
  "z3_mk_true calc_z3 = Truth True" "z3_mk_false calc_z3 = Truth False" "z3_width calc_z3 = z3_width demo_z3"
  "z3_mk_fpa_round_nearest_ties_to_even calc_z3 = Atom 0"
  by (simp_all add: calc_z3_def z3_width_def fun_eq_iff)

lemma calc_val_bv: "demo_isbv e \<Longrightarrow> calc_val e = demo_val e"
  by (cases e) simp_all

lemma calc_isboolE: "calc_isbool e \<Longrightarrow> (\<And>b. e = Truth b \<Longrightarrow> P) \<Longrightarrow> P"
  by (cases e) simp_all

lemma calc_bv_laws: "z3_bv_laws calc_z3 demo_isbv calc_val"
  unfolding z3_bv_laws_def
proof (intro conjI allI impI)
  fix e assume "demo_isbv e" then show "calc_val e < 2 ^ z3_width calc_z3 e"
    using z3_bv_lawsD(1) [OF demo_bv_laws, of e] by (simp add: calc_val_bv)
next
  fix k :: u32 and v :: u64 assume "0 < k"
  from z3_bv_lawsD(2) [OF demo_bv_laws this, of v]
  show "\<exists>t e. z3_mk_bv_sort calc_z3 k = Some t \<and> z3_mk_unsigned_int64 calc_z3 v t = Some e \<and>
      demo_isbv e \<and> z3_width calc_z3 e = unat k \<and> calc_val e = unat v mod 2 ^ unat k"
    using calc_val_bv by simp
next
  fix x y assume xy: "demo_isbv x" "demo_isbv y" "z3_width calc_z3 x + z3_width calc_z3 y < 2 ^ 32"
  then have "calc_binary Concat x y = demo_concat x y" by (auto elim!: demo_isbvE)
  with z3_bv_lawsD(3) [OF demo_bv_laws xy(1,2)] xy
  show "\<exists>e. z3_mk_binary calc_z3 Concat x y = Some e \<and> demo_isbv e \<and>
      z3_width calc_z3 e = z3_width calc_z3 x + z3_width calc_z3 y \<and>
      calc_val e = calc_val x * 2 ^ z3_width calc_z3 y + calc_val y"
    by (auto simp: calc_val_bv)
next
  fix x and hi lo :: u32 assume x: "demo_isbv x" "lo \<le> hi" "unat hi < z3_width calc_z3 x"
  with z3_bv_lawsD(4) [OF demo_bv_laws x(1,2)]
  show "\<exists>e. z3_mk_extract calc_z3 hi lo x = Some e \<and> demo_isbv e \<and>
      z3_width calc_z3 e = unat hi - unat lo + 1 \<and>
      calc_val e = calc_val x div 2 ^ unat lo mod 2 ^ (unat hi - unat lo + 1)"
    using calc_val_bv by fastforce
qed

lemma calc_function:
  assumes f: "f \<in> bv_functions" and xy: "demo_isbv x" "demo_isbv y" "z3_width calc_z3 y = z3_width calc_z3 x"
  shows "\<exists>e. z3_mk_binary calc_z3 f x y = Some e \<and> demo_isbv e \<and> z3_width calc_z3 e = z3_width calc_z3 x \<and>
    calc_val e = smt_binary f (z3_width calc_z3 x) (calc_val x) (calc_val y)"
proof -
  obtain w a b where "x = Bv w a" "y = Bv w b" "0 < w" "w < 2 ^ 32" "a < 2 ^ w" "b < 2 ^ w"
    using xy by (auto elim!: demo_isbvE)
  moreover have "f \<notin> bv_comparisons" "f \<noteq> Concat" using f by (auto simp: bv_functions_def bv_comparisons_def)
  ultimately show ?thesis using f by (simp add: smt_binary_bound)
qed

lemma calc_comparison:
  assumes f: "f \<in> bv_comparisons" and xy: "demo_isbv x" "demo_isbv y" "z3_width calc_z3 y = z3_width calc_z3 x"
  shows "\<exists>e. z3_mk_binary calc_z3 f x y = Some e \<and> calc_isbool e \<and>
    calc_val e = of_bool (smt_compare f (z3_width calc_z3 x) (calc_val x) (calc_val y))"
proof -
  obtain w a b where "x = Bv w a" "y = Bv w b" "0 < w" "w < 2 ^ 32" using xy by (auto elim!: demo_isbvE)
  moreover have "f \<noteq> Concat" using f by (auto simp: bv_comparisons_def)
  ultimately show ?thesis using f by simp
qed

lemma calc_extension:
  assumes "demo_isbv x" "z3_width calc_z3 x + unat k < 2 ^ 32"
  shows "\<exists>e. z3_mk_extend calc_z3 d k x = Some e \<and> demo_isbv e \<and> z3_width calc_z3 e = z3_width calc_z3 x + unat k \<and>
    calc_val e = smt_extend d (unat k) (z3_width calc_z3 x) (calc_val x)"
proof -
  obtain w a where "x = Bv w a" "0 < w" "w < 2 ^ 32" "a < 2 ^ w" using assms by (auto elim!: demo_isbvE)
  then show ?thesis using assms(2) by (simp add: smt_extend_bound)
qed

lemma calc_laws: "z3_int_laws calc_z3 demo_isbv calc_isbool calc_val"
  unfolding z3_int_laws_def
proof (intro conjI calc_bv_laws ballI allI impI)
  fix k :: u32 and t i e
  assume k: "0 < k" "z3_mk_bv_sort calc_z3 k = Some t" "z3_mk_int calc_z3 i t = Some e"
  have "unat k < 2 ^ LENGTH(32)" by (rule unsigned_less)
  moreover have "k \<noteq> 0" using k(1) by auto
  ultimately show "demo_isbv e" "z3_width calc_z3 e = unat k" "calc_val e = nat (i mod 2 ^ unat k)"
    using k by (auto simp: unat_gt_0 nat_less_iff)
qed ((rule calc_function calc_comparison calc_extension; assumption) | auto simp: of_bool_def elim!: calc_isboolE split: if_splits)+

text \<open>A run-time library that has been initialised.\<close>

definition calc_rt :: "(demo_term, nat, demo_term list list) simple_runtime" where
  "calc_rt = \<lparr>g_return_value = None, g_function_arguments = (\<lambda>_. None), g_shadow_pages = [],
     expressionRegions = [], expr_memory = (\<lambda>_. None), memory = (\<lambda>_. 0),
     backend_state = simple_start\<lparr>g_solver := Some [[]], g_rounding_mode := Some (Atom 0), g_true := Some (Truth True),
       g_false := Some (Truth False), g_null_pointer := Some (Bv 64 0), ast_refs := (\<lambda>_. 1)\<rparr>\<rparr>"

lemma calc_ready: "constants_ready calc_z3 (backend_state calc_rt)"
  by (simp add: constants_ready_def calc_rt_def)

end
