(* ===== verification/IntegerPass.thy ===== *)
theory IntegerPass
  imports Calculator
begin

text \<open>
  The pass on integer instructions, from the visit to the code that runs: the visitor inserts a
  call of the right run-time function (\<open>call_found\<close>), no later phase changes it until its
  computation is short-circuited, and the code that replaces it computes, in the simple backend, an
  expression that denotes the result of the instruction.
\<close>

subsection \<open>The call of an instruction, from the visit to its turn\<close>

definition call_found :: "environment \<Rightarrow> symbolizer \<Rightarrow> symbolic_computation \<Rightarrow> instruction \<Rightarrow> bool" where
  "call_found E s c I \<longleftrightarrow>
     (\<exists>g. find_gen (last_value c) (inserted s (place c)) = Some g \<and> call_shape E (iop I) (ity I) c g)"

definition calls_found :: "environment \<Rightarrow> instruction list \<Rightarrow> symbolizer \<Rightarrow> bool" where
  "calls_found E Is s \<longleftrightarrow> (\<forall>c\<in>set (expressionUses s). \<forall>I\<in>set Is.
     place c = here I \<longrightarrow> integer_instruction (iop I) (ity I) \<longrightarrow> call_found E s c I)"

lemma call_found_grows: "call_found E s c I \<Longrightarrow> code_grows s s' \<Longrightarrow> call_found E s' c I"
  unfolding call_found_def code_grows_def by (metis find_gen_append option.simps(5))

lemma visit_call_found:
  assumes I: "integer_instruction (iop I) (ity I)" and s: "bounded s" and run: "visit E I (iop I) s = Inr (x, s')"
    and c: "c \<in> set (expressionUses s')" "c \<notin> set (expressionUses s)"
  shows "call_found E s' c I"
proof -
  define f args where fa: "f = fst (runtime_call E (iop I) (ity I))" "args = snd (runtime_call E (iop I) (ity I))"
  let ?r = "Made (next_id s) (sym_ret f)" and ?g = "Gen (Made (next_id s) (sym_ret f)) (Call f) (map (argument_value s) args)"
  let ?c = "\<lparr>place = here I, firstInstruction = Some ?r, lastInstruction = Some ?r, inputs = computation_inputs ?r 0 args\<rparr>"
  from run have "build_and_register I f args (Some (self I)) s = Inr (x, s')"
    by (simp add: visit_integer_instruction [OF I] fa)
  with c have here: "c = ?c" "inserted s' (here I) = inserted s (here I) @ [?g]"
    by (auto simp: build_and_register_def buildRuntimeCall_def forceBuildRuntimeCall_def createCall_def emit_def
        insert_code_def register_if_built_def registerSymbolicComputation_def set_expression_def Let_def build_simps
        bind_result_eq_Inr split: if_splits)
  have "gen_result g \<noteq> Some ?r" if "g \<in> set (inserted s (here I))" for g
    using s that below_result by (fastforce simp: bounded_def list_all_iff)
  then have "find_gen ?r (inserted s' (here I)) = Some ?g"
    by (simp add: here(2) find_gen_append find_gen_None) (simp add: find_gen_def)
  moreover have "call_shape E (iop I) (ity I) c ?g"
    by (auto simp: call_shape_def here(1) fa list_all2_conv_all_nth argument_value_def split: prod.split)
  ultimately show ?thesis by (auto simp: call_found_def here(1) last_value_def)
qed

lemma visit_calls_found:
  assumes "calls_found E Is s" "visited s" "instructions_ok E Is" "inj_on here (set Is)" "I \<in> set Is"
    and run: "visit E I (iop I) s = Inr (x, s')"
  shows "calls_found E Is s'"
proof -
  have "operation_ok E I (iop I)" "operands_original (iop I)"
    using assms(3,5) by (auto simp: instructions_ok_def list_all_iff)
  from visit_records [OF run assms(2) this] obtain cs where
    cs: "code_grows s s'" "expressionUses s' = expressionUses s @ cs" "\<forall>c\<in>set cs. place c = here I" by metis
  have "call_found E s' c J" if c: "c \<in> set (expressionUses s')" and J: "J \<in> set Is" "place c = here J"
    "integer_instruction (iop J) (ity J)" for c J
  proof (cases "c \<in> set (expressionUses s)")
    case True
    then show ?thesis using assms(1) J call_found_grows [OF _ cs(1)] by (auto simp: calls_found_def)
  next
    case False
    then have "here J = here I" using c cs(2,3) J(2) by auto
    then have "J = I" using assms(4,5) J(1) by (auto dest: inj_onD)
    then show ?thesis using visit_call_found [OF _ visited_bounded [OF assms(2)] run c False] J(3) by simp
  qed
  then show ?thesis by (simp add: calls_found_def)
qed

lemma visit_all_calls_found:
  assumes "for_each Js (\<lambda>I. visit E I (iop I)) s = Inr (x, s')" "set Js \<subseteq> set Is"
    "calls_found E Is s" "visited s" "instructions_ok E Is" "inj_on here (set Is)"
  shows "calls_found E Is s'"
  using assms(1-4)
proof (induction Js arbitrary: s)
  case (Cons J Js)
  from Cons.prems(1) obtain y s1 where 1: "visit E J (iop J) s = Inr (y, s1)"
    "for_each Js (\<lambda>I. visit E I (iop I)) s1 = Inr (x, s')"
    by (auto simp: build_simps bind_result_eq_Inr)
  have J: "J \<in> set Is" "operation_ok E J (iop J)" "operands_original (iop J)"
    using Cons.prems(2) assms(5) by (auto simp: instructions_ok_def list_all_iff)
  have "calls_found E Is s1" by (rule visit_calls_found [OF Cons.prems(3,4) assms(5,6) J(1) 1(1)])
  moreover have "visited s1" using visit_records [OF 1(1) Cons.prems(4) J(2,3)] by metis
  ultimately show ?case using Cons.IH [OF 1(2)] Cons.prems(2) by simp
qed (simp add: build_simps)

text \<open>Replacing uses of a value that is no constant leaves the call a call for the instruction.\<close>

lemma call_shape_replace_uses:
  assumes "integer_instruction opc t" "call_shape E opc t c g" "\<And>w k. x \<noteq> ConstantInt w k"
  shows "call_shape E opc t c (replace_uses x y g)"
proof -
  obtain k u ys where g: "g = Gen (Made k u) (Call (fst (runtime_call E opc t))) ys"
    "list_all2 (\<lambda>a y. snd a \<or> y = fst a) (snd (runtime_call E opc t)) ys"
    and rest: "firstInstruction c = Some (Made k u)" "lastInstruction c = Some (Made k u)"
      "inputs c = computation_inputs (Made k u) 0 (snd (runtime_call E opc t))"
    using assms(2) unfolding call_shape_def by blast
  have "snd a \<or> rename_val x y z = fst a" if "a \<in> set (snd (runtime_call E opc t))" "snd a \<or> z = fst a" for a z
    using runtime_call_arguments [OF assms(1) that(1)] that(2) assms(3) by (auto simp: rename_val_def split: if_splits)
  with g(2) have "list_all2 (\<lambda>a y. snd a \<or> y = fst a) (snd (runtime_call E opc t)) (map (rename_val x y) ys)"
    by (auto simp: list_all2_conv_all_nth)
  then show ?thesis using g(1) rest by (simp add: call_shape_def)
qed

lemma call_found_rename:
  assumes "integer_instruction (iop I) (ity I)" "call_found E s c I" "\<And>w k. x \<noteq> ConstantInt w k"
    "inserted s' (place c) = map (replace_uses x y) (inserted s (place c))"
  shows "call_found E s' c I"
  using assms(2,4) call_shape_replace_uses [OF assms(1) _ assms(3)]
  by (auto simp: call_found_def find_gen_replace_uses)

lemma call_found_cong: "call_found E s c I \<Longrightarrow> inserted s' (place c) = inserted s (place c) \<Longrightarrow> call_found E s' c I"
  by (simp add: call_found_def)

lemma call_found_finalize_phis:
  "call_found E s c I \<Longrightarrow> (\<forall>J\<in>set Js. place c \<noteq> here J) \<Longrightarrow> call_found E (fold finalize_phi Js s) c I"
proof (induction Js arbitrary: s)
  case (Cons J Js)
  have "call_found E (finalize_phi J s) c I"
    by (rule call_found_cong [OF Cons.prems(1)]) (use Cons.prems(2) in \<open>auto simp: finalize_phi_def\<close>)
  with Cons show ?case by simp
qed simp

lemma call_found_erase_phis:
  assumes "integer_instruction (iop I) (ity I)" "well_typed t"
  shows "call_found E s c I \<Longrightarrow> (\<forall>J\<in>set Js. place c \<noteq> here J) \<Longrightarrow> call_found E (fold (erase_phi t) Js s) c I"
proof (induction Js arbitrary: s)
  case (Cons J Js)
  have "symbolic_phi t J \<noteq> ConstantInt w k" for w k
    using type_of_expression_or_null [OF assms(2), of "self J"] by (auto simp: symbolic_phi_def)
  then have "call_found E (erase_phi t J s) c I"
    by (rule call_found_rename [OF assms(1) Cons.prems(1), where y = ConstantPointerNull])
      (use Cons.prems(2) in \<open>auto simp: erase_phi_def eraseFromParent_def replaceAllUsesWith_def\<close>)
  with Cons show ?case by simp
qed simp

lemma analysed_calls_found:
  assumes ok: "pass_input_ok E" and "analysed E random = Inr ((), s)"
  shows "calls_found E (all_instructions (func E)) s"
proof -
  let ?Is = "all_instructions (func E)"
  obtain s2 s3 where s: "s = finalizePHINodes s3" and
    s2: "visited s2" "expressionUses s2 = []" "phiNodes s2 = []" and
    3: "for_each ?Is (\<lambda>I. visit E I (iop I)) s2 = Inr ((), s3)" and typed: "well_typed s3"
    using analysed_visits [OF ok, of random] assms(2) by (metis Inr_inject prod.inject)
  have inj: "inj_on here (set ?Is)" using same_instruction [OF ok] by (auto intro: inj_onI)
  have found: "calls_found E ?Is s3"
    by (rule visit_all_calls_found [OF 3 subset_refl _ s2(1) pass_input_okD(3) [OF ok] inj])
      (simp add: calls_found_def s2(2))
  note s3 = visit_all_records [OF 3 s2(1) pass_input_okD(3) [OF ok]]
  have "call_found E s c I" if c: "c \<in> set (expressionUses s3)" and I: "I \<in> set ?Is" "place c = here I"
    "integer_instruction (iop I) (ity I)" for c I
  proof -
    have "\<forall>J\<in>set (phiNodes s3). J \<in> set ?Is \<and> is_phi (iop J)" using s3 s2(3) by auto
    moreover have "\<not> is_phi (iop I)" using I(3) by (cases "iop I") auto
    ultimately have "\<forall>J\<in>set (phiNodes s3). place c \<noteq> here J"
      using I(1,2) same_instruction [OF ok, of I] by metis
    moreover have "call_found E s3 c I" using found c I by (simp add: calls_found_def)
    ultimately have "call_found E (fold (erase_phi s3) (filter (only_concrete s3) (phiNodes s3))
        (fold finalize_phi (phiNodes s3) s3)) c I"
      using I(3) typed by (intro call_found_erase_phis call_found_finalize_phis) auto
    then show ?thesis by (simp add: s finalizePHINodes_def Let_def call_found_def)
  qed
  then show ?thesis by (simp add: calls_found_def s)
qed

subsection \<open>The other computations\<close>

lemma call_found_after_shortCircuit:
  assumes I: "integer_instruction (iop I) (ity I)" and found: "call_found E s d I"
    and c: "recorded s c" "computation_typed c" and d: "recorded s d" and cd: "separate c d"
    and run: "shortCircuit E c s = Inr (x, s')"
  shows "call_found E s' d I"
proof -
  obtain pre mid post where 1: "inserted s (place c) = pre @ mid @ post"
    "list_all (avoids (first_id c) (last_id c)) pre" "run_ok (next_id s) c mid"
    using c(1) unfolding recorded_def by blast
  obtain new \<rho> where shape: "renaming (next_id s) (next_id s') \<rho>"
    "inserted s' (place c) = pre @ new @ map \<rho> post"
    "\<forall>q. q \<noteq> place c \<longrightarrow> inserted s' q = map \<rho> (inserted s q)" "tops_from (next_id s) new"
    using shortCircuit_shape [OF 1(1) run_ok_computation_ok [OF 1(3) c(2)] recorded_context [OF 1(2,3)] run] by blast
  obtain g where g: "find_gen (last_value d) (inserted s (place d)) = Some g" "call_shape E (iop I) (ity I) d g"
    using found by (auto simp: call_found_def)
  have keep: "call_shape E (iop I) (ity I) d (\<rho> g) \<and> find_gen x (map \<rho> code) = map_option \<rho> (find_gen x code)" for x code
    using shape(1) call_shape_replace_uses [OF I g(2)] g(2)
    by (auto simp: renaming_def find_gen_replace_uses option.map_id)
  show ?thesis
  proof (cases "place d = place c")
    case False
    then have "find_gen (last_value d) (inserted s' (place d)) = Some (\<rho> g)" using shape(3) keep g(1) by simp
    then show ?thesis using keep by (auto simp: call_found_def)
  next
    case True
    obtain mid' where mid': "run_ok (next_id s) d mid'" using d by (auto simp: recorded_def)
    then have "last mid' \<in> set mid'" by (simp add: run_ok_def)
    from run_ok_ids(1,2,4,5) [OF mid' this] obtain t where
      last: "last_value d = Made (last_id d) t" "first_id d \<le> last_id d" "last_id d < next_id s" by (metis order_trans)
    have "gen_result h \<noteq> Some (last_value d)" if "h \<in> set mid" for h
      using run_ok_ids(1-3) [OF 1(3) that] cd last(1,2) by (auto simp: separate_def)
    then have mid: "find_gen (last_value d) mid = None" by (rule find_gen_None)
    have "gen_result h \<noteq> Some (last_value d)" if "h \<in> set new" for h
      using shape(4) that last(1,3) by (fastforce simp: tops_from_def list_all_iff)
    then have new: "find_gen (last_value d) new = None" by (rule find_gen_None)
    from g(1) mid new keep True have "find_gen (last_value d) (inserted s' (place d)) \<in> {Some g, Some (\<rho> g)}"
      by (auto simp: 1(1) shape(2) find_gen_append split: option.splits)
    then show ?thesis using keep g(2) by (auto simp: call_found_def)
  qed
qed

lemma short_circuits_keep_calls:
  assumes "integer_instruction (iop I) (ity I)"
    "list_all (recorded s) (cs @ [d])" "in_order (cs @ [d])" "list_all computation_typed (cs @ [d])" "well_typed s"
    "for_each cs (shortCircuit E) s = Inr ((), t)" "call_found E s d I"
  shows "call_found E t d I"
  using assms(2-)
proof (induction cs arbitrary: s)
  case (Cons c cs)
  have order: "in_order ((c # []) @ cs @ [d])" using Cons.prems(2) by simp
  obtain s1 where s1: "shortCircuit E c s = Inr ((), s1)" "for_each cs (shortCircuit E) s1 = Inr ((), t)"
    using Cons.prems(5) by (auto simp: build_simps bind_result_eq_Inr)
  moreover obtain s1' where "for_each (c # []) (shortCircuit E) s = Inr ((), s1')" "list_all (recorded s1') (cs @ [d])" "well_typed s1'"
    using short_circuits_keep_records [of s "c # []" "cs @ [d]" E] Cons.prems(1-4) by auto
  ultimately have "list_all (recorded s1) (cs @ [d])" "well_typed s1"
    by (auto simp: build_simps)
  moreover have "separate c d" using in_order_separate [of c "cs @ [d]" d] Cons.prems(2) by simp
  then have "call_found E s1 d I"
    using call_found_after_shortCircuit [OF assms(1) Cons.prems(6) _ _ _ _ s1(1)] Cons.prems(1,3) by simp
  moreover have "in_order (cs @ [d])" using order by (simp add: in_order_def)
  ultimately show ?case using Cons.IH [of s1] s1(2) Cons.prems(3) by simp
qed (simp add: build_simps)

text \<open>A recorded computation with this call consists of the call alone.\<close>

lemma recorded_call:
  assumes "call_found E t c I" "inserted t (place c) = pre @ mid @ post"
    "list_all (avoids (first_id c) (last_id c)) pre" "run_ok n c mid"
  obtains g where "mid = [g]" "call_shape E (iop I) (ity I) c g"
proof -
  obtain g where g: "find_gen (last_value c) (inserted t (place c)) = Some g" "call_shape E (iop I) (ity I) c g"
    using assms(1) by (auto simp: call_found_def)
  then obtain k u where ku: "firstInstruction c = Some (Made k u)" "lastInstruction c = Some (Made k u)"
    by (auto simp: call_shape_def)
  note r = assms(4) [unfolded run_ok_def]
  have "length mid = 1"
  proof (cases mid)
    case (Cons h hs)
    then show ?thesis using r ku by (cases hs rule: rev_cases) (auto simp: result_id_def)
  qed (use r in simp)
  then obtain h where h: "mid = [h]" by (auto simp: length_Suc_conv)
  then have res: "gen_result h = Some (Made k u)" using r ku by simp
  have ids: "first_id c = k" "last_id c = k" by (simp_all add: first_id_def last_id_def ku)
  have "gen_result g' \<noteq> Some (Made k u)" if "g' \<in> set pre" for g'
    using assms(3) that by (auto simp: avoids_def list_all_iff ids)
  then have "find_gen (Made k u) pre = None" by (rule find_gen_None)
  with g(1) res h have "g = h" by (simp add: assms(2) last_value_def ku find_gen_append) (simp add: find_gen_def)
  then show thesis using that h g(2) by blast
qed

subsection \<open>Soundness\<close>

lemma rename_val_same [simp]: "rename_val x x = id"
  by (auto simp: rename_val_def)

lemma replace_uses_same [simp]: "replace_uses x x g = g"
  by (induction x x g rule: replace_uses.induct) (simp_all add: map_idI)

text \<open>
  What code that replaces the call \<open>g\<close> of the computation \<open>c\<close> does for the instruction \<open>I\<close>: it goes
  from the frame \<open>fr\<close>, whose run-time library is in the state \<open>r\<close>, to \<open>fr'\<close> with the result in
  \<open>result\<close>, which is read if \<open>used\<close>.
\<close>

definition computes_instruction ::
    "('e, 't, 's) z3 \<Rightarrow> ('e \<Rightarrow> bool) \<Rightarrow> ('e \<Rightarrow> bool) \<Rightarrow> ('e \<Rightarrow> nat) \<Rightarrow> symbolic_computation \<Rightarrow> gen \<Rightarrow> instruction \<Rightarrow>
     bool \<Rightarrow> val \<Rightarrow> ('e, 't, 's) simple_runtime \<Rightarrow> ('e, ('e, 't, 's) simple_runtime result) frame \<Rightarrow>
     ('e, ('e, 't, 's) simple_runtime result) frame \<Rightarrow> bool" where
  "computes_instruction Z isbv isbool val c g I used result r fr fr' \<longleftrightarrow>
     (if \<forall>i\<in>set (inputs c). look fr (getSymbolicOperand [g] i) = Expr None
      then rts fr' = Inr r \<and> (used \<longrightarrow> look fr' result = Expr None)
      else \<forall>n. llvm_eval (iop I) (ity I) (number fr) = Some n \<longrightarrow>
        (\<exists>e b. rts fr' = Inr (r\<lparr>backend_state := b\<rparr>) \<and> look fr' result = Expr (Some e) \<and>
           e \<in> allocatedExpressions b \<and> constants_ready Z b \<and> denotes Z isbv isbool val e (ity I) n))"

lemma reference_computes:
  fixes other :: "gop \<Rightarrow> ty \<Rightarrow> 'e rv list \<Rightarrow> ('e, 't, 's) simple_runtime \<Rightarrow> ('e rv \<times> ('e, 't, 's) simple_runtime) result"
  assumes laws: "z3_int_laws Z isbv isbool val" and E: "ptrBits E = 64"
    and I: "integer_instruction (iop I) (ity I)" and shape: "call_shape E (iop I) (ity I) c g"
    and fr: "rts fr = Inr r" "constants_ready Z (backend_state r)"
      "\<forall>i\<in>set (inputs c). tracks Z isbv isbool val fr (concreteValue i) (getSymbolicOperand [g] i)"
    and ran: "rts fr' = rts (reference E (simple_machine Z other) c [g] fr)"
      "\<not> all_concrete c [g] fr \<longrightarrow> look fr' result = look (reference E (simple_machine Z other) c [g] fr) (last_value c)"
      "all_concrete c [g] fr \<longrightarrow> used \<longrightarrow> look fr' result = Expr None"
  shows "computes_instruction Z isbv isbool val c g I used result r fr fr'"
proof (cases "all_concrete c [g] fr")
  case True
  then have "rts fr' = Inr r" using ran(1) fr(1) by (simp add: reference_def)
  then show ?thesis using True ran(3) by (simp add: computes_instruction_def all_concrete_def list_all_iff)
next
  case False
  have "\<exists>e b. rts fr' = Inr (r\<lparr>backend_state := b\<rparr>) \<and> look fr' result = Expr (Some e) \<and>
      e \<in> allocatedExpressions b \<and> constants_ready Z b \<and> denotes Z isbv isbool val e (ity I) n"
    if "llvm_eval (iop I) (ity I) (number fr) = Some n" for n
    using reference_denotes [OF laws E I shape fr(1,2) False fr(3) that, of other] ran(1,2) False
      steady_ready [OF fr(2)] by metis
  then show ?thesis using False by (auto simp: computes_instruction_def all_concrete_def list_all_iff)
qed

text \<open>The turn of a computation of an integer instruction.\<close>

lemma call_at_its_turn:
  assumes ok: "pass_input_ok E" and s: "analysed E random = Inr ((), s)" "expressionUses s = cs @ c # ds"
    and I: "I \<in> set (all_instructions (func E))" "place c = here I" "integer_instruction (iop I) (ity I)"
  obtains t pre g post where "for_each cs (shortCircuit E) s = Inr ((), t)" "inserted t (place c) = pre @ g # post"
    "list_all (avoids (first_id c) (last_id c)) pre" "run_ok (next_id t) c [g]" "computation_typed c"
    "call_shape E (iop I) (ity I) c g"
proof -
  have s': "well_typed s" "list_all (recorded s) (expressionUses s)" "in_order (expressionUses s)"
    using analysed_records [OF ok, of random] s(1) by auto
  have typed: "list_all computation_typed (cs @ c # ds)" using s'(1) s(2) by (simp add: well_typed_def)
  obtain t where t: "for_each cs (shortCircuit E) s = Inr ((), t)" "list_all (recorded t) (c # ds)"
    using short_circuits_keep_records [of s cs "c # ds" E] s' typed unfolding s(2) by blast
  obtain pre mid post where 1: "inserted t (place c) = pre @ mid @ post"
    "list_all (avoids (first_id c) (last_id c)) pre" "run_ok (next_id t) c mid"
    using t(2) by (auto simp: recorded_def)
  have "call_found E s c I"
    using analysed_calls_found [OF ok s(1)] I s(2) by (auto simp: calls_found_def)
  moreover have "list_all (recorded s) (cs @ [c])" "in_order (cs @ [c])" "list_all computation_typed (cs @ [c])"
    using s'(2,3) typed s(2) by (auto simp: in_order_def sorted_wrt_append)
  ultimately have "call_found E t c I"
    using short_circuits_keep_calls [OF I(3) _ _ _ s'(1) t(1)] by blast
  from recorded_call [OF this 1] obtain g where "mid = [g]" "call_shape E (iop I) (ity I) c g" .
  then show thesis using that [OF t(1) _ 1(2)] 1(1,3) typed by simp
qed

text \<open>C1: The instrumentation of integer instructions is sound from the IR down to the meaning of
  the expressions in Z3. Take any well-formed function for a 64-bit target, and any instance of Z3 that
  computes bit vectors and Booleans as documented. The pass succeeds, and for every recorded
  computation of an arithmetic, comparison or cast instruction on integers or pointers of at most
  64 bits, when its turn comes, a single call is replaced by code with the following behaviour in the
  run-time library of the simple backend. Run it from registers in which the operands' expressions are
  null or denote the operands' values. If all are null, no run-time function is called and the
  result is null. Otherwise no call fails, only the backend's state changes, and the result is an
  expression, registered with the garbage collector, that denotes what LLVM's semantics gives
  for the instruction, whenever it is defined. Later uses of the call's result are
  redirected to that result.\<close>

lemma integer_instructions_sound:
  fixes Z :: "('e, 't, 's) z3"
    and other :: "gop \<Rightarrow> ty \<Rightarrow> 'e rv list \<Rightarrow> ('e, 't, 's) simple_runtime \<Rightarrow> ('e rv \<times> ('e, 't, 's) simple_runtime) result"
  assumes "pass_input_ok E" "ptrBits E = 64" "z3_int_laws Z isbv isbool val"
  shows "\<exists>s. analysed E random = Inr ((), s) \<and>
    (\<forall>cs c ds I. expressionUses s = cs @ c # ds \<longrightarrow> I \<in> set (all_instructions (func E)) \<longrightarrow> place c = here I \<longrightarrow>
       integer_instruction (iop I) (ity I) \<longrightarrow>
      (\<exists>t t' pre g post new result. for_each cs (shortCircuit E) s = Inr ((), t)
        \<and> inserted t (place c) = pre @ g # post \<and> gen_result g = Some (last_value c)
        \<and> shortCircuit E c t = Inr ((), t')
        \<and> inserted t' (place c) = pre @ new @ map (replace_uses (last_value c) result) post
        \<and> (\<forall>fr r. rts fr = Inr r \<longrightarrow> constants_ready Z (backend_state r) \<longrightarrow>
            (\<forall>i\<in>set (inputs c). tracks Z isbv isbool val fr (concreteValue i) (getSymbolicOperand [g] i)) \<longrightarrow>
            computes_instruction Z isbv isbool val c g I (\<not> use_empty E t (last_value c)) result r fr
              (exec_code (simple_machine Z other) new fr))))"
proof -
  obtain s where s: "analysed E random = Inr ((), s)" using analysed_records [OF assms(1)] by metis
  have "\<exists>t t' pre g post new result. for_each cs (shortCircuit E) s = Inr ((), t)
        \<and> inserted t (place c) = pre @ g # post \<and> gen_result g = Some (last_value c)
        \<and> shortCircuit E c t = Inr ((), t')
        \<and> inserted t' (place c) = pre @ new @ map (replace_uses (last_value c) result) post
        \<and> (\<forall>fr r. rts fr = Inr r \<longrightarrow> constants_ready Z (backend_state r) \<longrightarrow>
            (\<forall>i\<in>set (inputs c). tracks Z isbv isbool val fr (concreteValue i) (getSymbolicOperand [g] i)) \<longrightarrow>
            computes_instruction Z isbv isbool val c g I (\<not> use_empty E t (last_value c)) result r fr
              (exec_code (simple_machine Z other) new fr))"
    if c: "expressionUses s = cs @ c # ds" and I: "I \<in> set (all_instructions (func E))" "place c = here I"
      "integer_instruction (iop I) (ity I)" for cs c ds I
  proof -
    let ?M = "simple_machine Z other" and ?L = "last_value c"
    obtain t pre g post where t: "for_each cs (shortCircuit E) s = Inr ((), t)" "inserted t (place c) = pre @ [g] @ post"
      "list_all (avoids (first_id c) (last_id c)) pre" "run_ok (next_id t) c [g]" "computation_typed c"
      "call_shape E (iop I) (ity I) c g"
      using call_at_its_turn [OF assms(1) s c I] by (metis append_Cons append_Nil)
    from short_circuit_correct [OF t(2) run_ok_computation_ok [OF t(4,5)] recorded_context [OF t(3,4)], of E ?M]
    obtain t' new final where sc: "shortCircuit E c t = Inr ((), t')"
      "inserted t' (place c) = pre @ new @ (if use_empty E t ?L then post else map (replace_uses ?L final) post)"
      "\<And>fr. same_below (next_id t) (reference E ?M c [g] fr) (exec_code ?M new fr)"
      "\<And>fr. rts (exec_code ?M new fr) = rts (reference E ?M c [g] fr)"
      "\<And>fr. \<not> use_empty E t ?L \<longrightarrow> look (exec_code ?M new fr) final =
        (if all_concrete c [g] fr then Expr None else look (reference E ?M c [g] fr) ?L)"
      by blast
    let ?result = "if use_empty E t ?L then ?L else final"
    have L: "gen_result g = Some ?L" using t(6) by (auto simp: call_shape_def last_value_def)
    have "older (next_id t) ?L" using run_ok_ids(4,5) [OF t(4), of g] by auto
    then have keep: "look (exec_code ?M new fr) ?L = look (reference E ?M c [g] fr) ?L" for fr
      by (rule same_below_look [OF sc(3)])
    have "computes_instruction Z isbv isbool val c g I (\<not> use_empty E t ?L) ?result r fr (exec_code ?M new fr)"
      if "rts fr = Inr r" "constants_ready Z (backend_state r)"
        "\<forall>i\<in>set (inputs c). tracks Z isbv isbool val fr (concreteValue i) (getSymbolicOperand [g] i)" for fr r
      by (rule reference_computes [OF assms(3,2) I(3) t(6) that sc(4)]) (use keep sc(5) in auto)
    moreover have "inserted t' (place c) = pre @ new @ map (replace_uses ?L ?result) post"
      using sc(2) by (auto simp: map_idI)
    ultimately show ?thesis using t(1,2) sc(1) L by (metis append_Cons append_Nil)
  qed
  with s show ?thesis by blast
qed

text \<open>The addition of 5, which is symbolic, and 7, which is not.\<close>

definition calc_frame :: "(demo_term, (demo_term, nat, demo_term list list) simple_runtime result) frame" where
  "calc_frame = \<lparr>regs = (\<lambda>_. Expr None)(Argument 0 (IntegerTy 32) := Num 5, Argument 1 (IntegerTy 32) := Num 7,
     Made 0 PointerTy := Expr (Some (Bv 32 5))), rts = Inr calc_rt, came_through = False\<rparr>"

lemma calc_tracks:
  assumes "i \<in> set (inputs demo_add)"
  shows "tracks calc_z3 demo_isbv calc_isbool calc_val calc_frame (concreteValue i)
    (getSymbolicOperand [Gen (Made 3 PointerTy) op [Made 0 PointerTy, Made 1 PointerTy]] i)"
  using assms
  by (auto simp: demo_add_def getSymbolicOperand_def find_gen_def calc_frame_def tracks_def in_register_def number_def
      denotes_def)

lemma integer_instructions_sound_witness:
  "\<exists>s t' new result e. analysed demo_env 1 = Inr ((), s) \<and> expressionUses s = [demo_add] \<and>
    shortCircuit demo_env demo_add s = Inr ((), t') \<and>
    look (exec_code (simple_machine calc_z3 (\<lambda>_ _ _ r. Inr (Num 0, r))) new calc_frame) result = Expr (Some e) \<and>
    denotes calc_z3 demo_isbv calc_isbool calc_val e (IntegerTy 32) 12"
proof -
  obtain s pre where s: "analysed demo_env 1 = Inr ((), s)" "expressionUses s = [demo_add]"
    "inserted s (Before 0) = pre @ [Gen (Made 3 PointerTy) (Call (import ''_sym_build_add'' PointerTy [PointerTy, PointerTy]))
       [Made 0 PointerTy, Made 1 PointerTy]]" (is "_ = _ @ [?g]")
    and pre: "list_all (\<lambda>g. gen_result g \<noteq> Some (Made 3 PointerTy)) pre"
    using demo_add_analysed by blast
  have ok: "pass_input_ok demo_env" "ptrBits demo_env = 64" "demo_sum \<in> set (all_instructions (func demo_env))"
    "integer_instruction (iop demo_sum) (ity demo_sum)"
    by (simp_all add: pass_input_ok_def function_ok_def operands_original_def demo_defs all_instructions_def machine_type_def)
  have place: "place demo_add = here demo_sum" "place demo_add = Before 0" "last_value demo_add = Made 3 PointerTy"
    by (simp_all add: demo_add_def here_def demo_sum_def last_value_def)
  let ?other = "\<lambda>_ _ _ r. Inr (Num 0, r)"
  note sound = integer_instructions_sound [OF ok(1,2) calc_laws, of 1 ?other, unfolded s(1) sum.inject prod.inject,
      simplified simp_thms]
  have "expressionUses s = [] @ demo_add # []" using s(2) by simp
  from sound [rule_format, OF this ok(3) place(1) ok(4)]
  obtain t t' pre' g post new result where t: "for_each [] (shortCircuit demo_env) s = Inr ((), t)"
      "inserted t (place demo_add) = pre' @ g # post" "gen_result g = Some (last_value demo_add)"
      "shortCircuit demo_env demo_add t = Inr ((), t')" and
    run: "\<forall>fr r. rts fr = Inr r \<longrightarrow> constants_ready calc_z3 (backend_state r) \<longrightarrow>
            (\<forall>i\<in>set (inputs demo_add). tracks calc_z3 demo_isbv calc_isbool calc_val fr (concreteValue i) (getSymbolicOperand [g] i)) \<longrightarrow>
            computes_instruction calc_z3 demo_isbv calc_isbool calc_val demo_add g demo_sum
              (\<not> use_empty demo_env t (last_value demo_add)) result r fr (exec_code (simple_machine calc_z3 ?other) new fr)"
    by blast
  from t(1) have "t = s" by (simp add: build_simps)
  then have "pre @ [?g] = pre' @ g # post" using s(3) t(2) place(2) by simp
  then have g: "g = ?g"
    using pre t(3) by (auto simp: place(3) append_eq_append_conv2 append_eq_Cons_conv Cons_eq_append_conv)
  have "computes_instruction calc_z3 demo_isbv calc_isbool calc_val demo_add g demo_sum
      (\<not> use_empty demo_env t (last_value demo_add)) result calc_rt calc_frame (exec_code (simple_machine calc_z3 ?other) new calc_frame)"
    using run calc_ready calc_tracks g by (simp add: calc_frame_def)
  moreover have "llvm_eval (iop demo_sum) (ity demo_sum) (number calc_frame) = Some 12"
    by (simp add: demo_sum_def number_def calc_frame_def)
  ultimately have "\<exists>e. look (exec_code (simple_machine calc_z3 ?other) new calc_frame) result = Expr (Some e) \<and>
      denotes calc_z3 demo_isbv calc_isbool calc_val e (IntegerTy 32) 12"
    by (auto simp: computes_instruction_def g demo_add_def getSymbolicOperand_def find_gen_def calc_frame_def demo_sum_def)
  then show ?thesis using s(1,2) t(4) \<open>t = s\<close> by blast
qed

end
