(* ===== verification/BooleanCasts.thy ===== *)
theory BooleanCasts
  imports Calculator
begin

text \<open>
  Two casts between Booleans and bit vectors for which the instrumentation is wrong. They are left
  out of \<open>integer_instruction\<close>.
\<close>

text \<open>C29: Sign extension of a Boolean goes wrong. For \<open>sext i1 x to iw\<close> the visitor emits the call for
  zero extension, which turns the expression of true into one that denotes 1; the
  instruction gives all ones.\<close>

lemma boolean_sign_extension_wrong:
  fixes r :: "('e, 't, 's) simple_runtime"
  assumes laws: "z3_int_laws Z isbv isbool val" and w: "1 < w" "w \<le> 64"
    and I: "type_of x = IntegerTy 1" "ity I = IntegerTy w"
    and a: "denotes Z isbv isbool val a (IntegerTy 1) 1"
  shows "visit E I (CastInst SExt x) s = visit E I (CastInst ZExt x) s \<and>
    visit E I (CastInst SExt x) s =
      build_and_register I (buildBoolToBits (rt E)) [(x, True), (ConstantInt 8 (int w), False)] (Some (self I)) s \<and>
    (\<exists>e b. simple_call Z (sym_name (buildBoolToBits (rt E))) [Expr (Some a), Num (int w)] r =
        Inr (Expr (Some e), r\<lparr>backend_state := b\<rparr>) \<and> denotes Z isbv isbool val e (ity I) 1) \<and>
    llvm_eval (CastInst SExt x) (ity I) (\<lambda>_. 1) = Some (2 ^ w - 1) \<and> (2 :: nat) ^ w - 1 \<noteq> 1"
proof (intro conjI)
  have k: "int w mod 256 = int w" using w by simp
  show "\<exists>e b. simple_call Z (sym_name (buildBoolToBits (rt E))) [Expr (Some a), Num (int w)] r =
      Inr (Expr (Some e), r\<lparr>backend_state := b\<rparr>) \<and> denotes Z isbv isbool val e (ity I) 1"
    using bool_to_bits_denotes [OF laws w a, of r] I(2) by (auto simp: call_result_def k)
  have "(2 :: int) ^ w - 1 < 2 ^ w" "0 \<le> (2 :: int) ^ w - 1" by simp_all
  then have "(- 1) mod (2 :: int) ^ w = 2 ^ w - 1" by (simp add: zmod_minus1)
  then show "llvm_eval (CastInst SExt x) (ity I) (\<lambda>_. 1) = Some (2 ^ w - 1)"
    by (simp add: I as_signed_def of_signed_def nat_diff_distrib nat_power_eq)
  have "(2 :: nat) ^ 2 \<le> 2 ^ w" using w by (intro power_increasing) simp_all
  then show "(2 :: nat) ^ w - 1 \<noteq> 1" by simp
qed (use w in \<open>simp_all add: visit_cast_def visitCastInst_def I bind_build_eq getIntegerBitWidth_eq const_int_def\<close>)

lemma boolean_sign_extension_wrong_witness:
  "\<exists>e b. simple_call calc_z3 (sym_name (buildBoolToBits (rt demo_env))) [Expr (Some (Truth True)), Num 8] calc_rt =
      Inr (Expr (Some e), calc_rt\<lparr>backend_state := b\<rparr>) \<and> calc_val e = 1 \<and>
    llvm_eval (CastInst SExt (Argument 0 (IntegerTy 1))) (IntegerTy 8) (\<lambda>_. 1) = Some 255"
proof -
  let ?I = "\<lparr>iid = 0, ity = IntegerTy 8, iop = CastInst SExt (Argument 0 (IntegerTy 1))\<rparr>"
  have "denotes calc_z3 demo_isbv calc_isbool calc_val (Truth True) (IntegerTy 1) 1" by (simp add: denotes_def)
  from boolean_sign_extension_wrong [OF calc_laws _ _ _ _ this, of 8 "Argument 0 (IntegerTy 1)" ?I demo_env "initial_symbolizer 1" calc_rt]
  show ?thesis by (auto simp: denotes_def)
qed

text \<open>Z3 on values of the wrong sort: there is no negation of a bit vector, which simplifies to a bit vector.\<close>

definition z3_sorted :: "('e, 't, 's) z3 \<Rightarrow> ('e \<Rightarrow> bool) \<Rightarrow> bool" where
  "z3_sorted Z isbv \<longleftrightarrow> (\<forall>e. isbv e \<longrightarrow> z3_mk_unary Z Z3_not e = None \<and> (\<exists>c. z3_simplify Z e = Some c \<and> isbv c) \<and>
     \<not> z3_is_eq_ast Z e (z3_mk_true Z) \<and> \<not> z3_is_eq_ast Z e (z3_mk_false Z))"

text \<open>C28: Branching on a truncated value stops the program. For \<open>trunc iv x to i1\<close> the visitor emits the
  call for truncation to one bit, whose result is a bit vector of width 1 and not a Boolean. A branch on this
  value passes it to \<open>_sym_push_path_constraint\<close>, where Z3 cannot negate it: whichever way the branch
  goes, the error handler's assertion fails.\<close>

lemma branch_on_truncation_stops:
  fixes r :: "('e, 't, 's) simple_runtime"
  assumes laws: "z3_int_laws Z isbv isbool val" "z3_sorted Z isbv" and v: "1 < v" "v \<le> 64"
    and I: "ity I = IntegerTy 1"
    and a: "denotes Z isbv isbool val a (IntegerTy v) n"
  shows "visit E I (CastInst Trunc x) s =
      build_and_register I (buildTrunc (rt E)) [(x, True), (ConstantInt 8 1, False)] (Some (self I)) s \<and>
    visit E J (BranchInst (Some (self I)) bs) s =
      build_and_register J (pushPathConstraint (rt E)) [(self I, True), (self I, False), (site E (self J), False)] None s \<and>
    (\<exists>e b. simple_call Z (sym_name (buildTrunc (rt E))) [Expr (Some a), Num 1] r =
        Inr (Expr (Some e), r\<lparr>backend_state := b\<rparr>) \<and> isbv e \<and> z3_width Z e = 1 \<and>
      simple_call Z (sym_name (pushPathConstraint (rt E))) [Expr (Some e), Num taken, Num site_id]
        (r\<lparr>backend_state := b\<rparr>) = Inl Assert_failed)"
proof (intro conjI)
  obtain e where e: "\<And>st. makes (simple_build_trunc Z a (word_of_int (int 1 mod 256))) st e" "isbv e" "z3_width Z e = 1"
    using trunc_extracts [OF laws(1) zero_less_one v a] by blast
  from on_backend_makes [OF e(1)] obtain b where
    "on_backend (simple_build_trunc Z a (word_of_int (int 1 mod 256))) r = Inr (Expr (Some e), r\<lparr>backend_state := b\<rparr>)" by blast
  moreover obtain c where "z3_simplify Z e = Some c" "isbv c" using laws(2) e(2) by (auto simp: z3_sorted_def)
  moreover from this(2) have "z3_mk_unary Z Z3_not c = None" "\<not> z3_is_eq_ast Z c (z3_mk_true Z)" "\<not> z3_is_eq_ast Z c (z3_mk_false Z)"
    using laws(2) by (auto simp: z3_sorted_def)
  ultimately show "\<exists>e b. simple_call Z (sym_name (buildTrunc (rt E))) [Expr (Some a), Num 1] r =
        Inr (Expr (Some e), r\<lparr>backend_state := b\<rparr>) \<and> isbv e \<and> z3_width Z e = 1 \<and>
      simple_call Z (sym_name (pushPathConstraint (rt E))) [Expr (Some e), Num taken, Num site_id]
        (r\<lparr>backend_state := b\<rparr>) = Inl Assert_failed"
    using e(2,3) by (intro exI [of _ e] exI [of _ b])
      (simp add: simple_push_path_constraint_def handle_z3_error_def no_result_def Let_def)
qed (simp_all add: visit_cast_def visitTruncInst_def I bind_build_eq getIntegerBitWidth_eq const_int_def
    visitBranchInst_def push_condition_def)

lemma branch_on_truncation_stops_witness:
  "\<exists>e b. simple_call calc_z3 (sym_name (buildTrunc (rt demo_env))) [Expr (Some (Bv 8 3)), Num 1] calc_rt =
      Inr (Expr (Some e), calc_rt\<lparr>backend_state := b\<rparr>) \<and>
    simple_call calc_z3 (sym_name (pushPathConstraint (rt demo_env))) [Expr (Some e), Num 1, Num 0]
      (calc_rt\<lparr>backend_state := b\<rparr>) = Inl Assert_failed"
proof -
  let ?I = "\<lparr>iid = 0, ity = IntegerTy 1, iop = CastInst Trunc (Argument 0 (IntegerTy 8))\<rparr>"
  have sorted: "z3_sorted calc_z3 demo_isbv"
    by (auto simp: z3_sorted_def calc_z3_def elim: demo_isbvE)
  have "denotes calc_z3 demo_isbv calc_isbool calc_val (Bv 8 3) (IntegerTy 8) 3" by (simp add: denotes_def)
  from branch_on_truncation_stops [OF calc_laws sorted _ _ _ this, of ?I demo_env "Argument 0 (IntegerTy 8)" "initial_symbolizer 1" ?I
      "[]" calc_rt 1 0]
  show ?thesis by auto
qed

end
