(* ===== verification/Spec2Isabelle.thy ===== *)
theory Spec2Isabelle
  imports SimpleInit CompilerProps FilePosition QsymState CorpusRuns KleeLibc CoverageGuards Linkage
    IntegerPass BooleanCasts
begin

text \<open>
  SymCC: a compiler pass that embeds symbolic execution into a program, and the run-time library
  that the instrumented program calls.

  \<^bold>\<open>The program.\<close> The pass (compiler/) visits every instruction of a function and inserts calls
  \<open>_sym_*\<close> that build, next to each value, an expression of the symbolic input (null for a
  concrete value). The shared part of the run-time library (runtime/) keeps the expressions of
  memory in shadow pages, passes those of arguments and results between functions, reads the
  options, wraps the functions of the C library that read input or move memory, and finds out
  which expressions are still reachable. It calls one of two backends, which build expressions,
  collect the constraints of the path and ask a solver for inputs that take the other branch:
  the simple backend (Z3) and the QSYM backend, which also has the pure concolic mode, where
  block counters and branch memories in files decide for which branches inputs are saved. The
  models of C library functions (models/klee-libc/) are compiled with the pass.

  \<^bold>\<open>Theories and sources.\<close> Definitions have the names of the code, with a prefix or suffix where
  a name exists twice.
  \<^item> Foundations: \<open>Prelude\<close> (words, results with failed assertions and exceptions as \<open>Inl\<close>,
    ranges of addresses), \<open>CText\<close> (printing and parsing of numbers as in C and C++), \<open>StdMap\<close>
    (\<open>std::map\<close> and \<open>std::set\<close> as sorted lists; locale \<open>map_interface\<close>).
  \<^item> Run-time library: \<open>Shadow\<close> (Shadow.h, Shadow.cpp), \<open>Backend\<close> (the interface of
    RuntimeCommon.h), \<open>RuntimeCommon\<close> and \<open>CoverageGuards\<close> (RuntimeCommon.cpp),
    \<open>GarbageCollection\<close> (GarbageCollection.cpp), \<open>Config\<close> (Config.h, Config.cpp),
    \<open>LibcWrappers\<close> (LibcWrappers.cpp). Their state is the record \<open>runtime\<close> (shadow pages,
    memory of the program, registers for arguments and results, registered regions), extended by
    the backend's state and, in \<open>program\<close>, by the wrappers' globals and the outside world.
  \<^item> Simple backend (simple_backend/Runtime.cpp): \<open>SimpleBackend\<close> and \<open>SimpleInit\<close>.
  \<^item> QSYM backend (qsym_backend/Runtime.cpp): \<open>PureConcolic\<close> (counters, branch memories,
    files) and \<open>Qsym\<close> (everything else).
  \<^item> Pass (compiler/): \<open>IR\<close> (the part of LLVM's IR that is read and written),
    \<open>CompilerRuntime\<close> (Runtime.h, Runtime.cpp), \<open>Symbolizer\<close> (construction of calls),
    \<open>Visits\<close> (the visitor), \<open>ShortCircuit\<close> (start and end of a function, phi nodes,
    short-circuiting, \<open>runOnFunction\<close>, \<open>doInitialization\<close>, registration of the pass). The
    state is the record \<open>symbolizer\<close>, whose inserted code is kept apart from the original
    instructions, by place of insertion.
  \<^item> C library models: \<open>KleeLibc\<close>.

  \<^bold>\<open>Interfaces.\<close> The shared code is written over the record \<open>backend\<close>. The locale
  \<open>symbolic_backend\<close> states what it needs of the expression builders (widths and values of
  results, growth of the set of usable expressions, references kept); it is interpreted on both
  backends (\<open>simple\<close>, \<open>qsym\<close>), so that the round trip through memory is proved once. The locale
  \<open>registering_backend\<close> states that results are registered; its interpretations
  \<open>simple_registering\<close> and \<open>qsym_registering\<close> give that memory only holds live expressions.
  \<open>map_interface\<close> is interpreted on the sorted lists (\<open>sorted_map\<close>).

  \<^bold>\<open>What is shown.\<close>
  \<^item> \<open>SimpleLaws\<close>, \<open>Z3Instance\<close>, \<open>SimpleProps\<close>, \<open>QsymProps\<close>: reading, writing, moving, byte
    swapping and extraction of expressions compute what the bytes of memory denote.
  \<^item> \<open>SimpleSolver\<close>: the solver holds exactly the constraints of the path (a refinement of the
    list of branch conditions), when it is queried, and that real executions never fail.
  \<^item> \<open>SimpleState\<close>, \<open>LiveShadow\<close>, \<open>QsymState\<close>, \<open>SimpleInit\<close>: invariants of the reachable
    states (reference counts, live expressions, constants) over step relations, and what
    initialisation and garbage collection do to them.
  \<^item> \<open>CorpusRuns\<close>: the pure concolic corpus over the calls of one run and over many runs.
  \<^item> \<open>WrapperProps\<close>, \<open>Config\<close>: what is read gets the input expressions of its offsets, error paths,
    the outcome of reading the options. \<open>FilePosition\<close>: a step relation over the wrappers that read
    or seek, on descriptors and on streams, in which the input offset is the position of the
    input file, and the cases in which it is not.
  \<^item> \<open>PassTotal\<close>, \<open>VisitRecords\<close>, \<open>PassComposition\<close>, \<open>GenSemantics\<close>, \<open>ShortCircuitCorrect\<close>,
    \<open>CompilerProps\<close>: the outcome of the pass on every function that the verifier of LLVM accepts
    (\<open>verified\<close>): it returns if the visitor has a case for each instruction (\<open>handled\<close>) and stops at the
    first one without; what it records and where; running the inserted code on any machine, with the
    short-circuited code equal to the code it replaces; arguments and results across calls.
  \<^item> \<open>Linkage\<close>: what the pass imports against the declarations of RuntimeCommon.h. \<open>RuntimeLink\<close>:
    the library with the simple backend as the machine that inserted code runs on.
  \<^item> \<open>BitVectors\<close>, \<open>IntegerRuns\<close>, \<open>IntegerPass\<close>: integer instructions through the whole system.
    \<open>BitVectors\<close> has the meaning of LLVM's integer operations and that of the functions of SMT-LIB;
    \<open>IntegerRuns\<close> shows that a call of the library, on expressions that denote the operands, makes
    an expression that denotes the result; \<open>IntegerPass\<close> that the code which the pass leaves in the
    function does so. \<open>BooleanCasts\<close> has the casts for which this fails, \<open>Calculator\<close> an instance of
    Z3 that satisfies the laws.
  \<^item> \<open>KleeLibc\<close>: the loops end on terminated strings with the specified results (the searches with
    the first and the last occurrence), and number parsing agrees with the C and
    C++ library functions in base 10.

  Several theorems state what the code does although it is not what it means to do (memset with
  a symbolic value, fgets at the end of the file, items read in part, the overflow check of the
  32-bit lseek, instructions without a case, structs in registers, skipped input bytes,
  undecided branches, concrete runs in pure concolic mode, silent runs, large timeouts, casts
  between Booleans and bit vectors).

  \<^bold>\<open>Loops.\<close> Loops over address ranges are total functions; addresses have 64 bits and wrap, and
  a range is measured by the distance to its end modulo \<open>2 ^ 64\<close>. The loops of the C library
  models have no bound of their own: they are \<open>partial_function\<close>s into options, \<open>None\<close> means
  that the loop does not end, and that they end is proved for terminated strings. There is no
  fuel.

  \<^bold>\<open>Parameters.\<close> Code outside the repository is an argument: \<open>z3\<close> (the Z3 C API), \<open>qsym\<close> (the
  QSYM library, a submodule), \<open>libc\<close> (files, streams, allocation), \<open>data_layout\<close> (LLVM's sizes
  and offsets), the addresses of compiler objects that become site identifiers, and the
  environment variables. What is relied on are named predicates (\<open>z3_bv_laws\<close>,
  \<open>z3_int_laws\<close>, \<open>z3_solver_laws\<close>, \<open>qsym_bv_laws\<close> and others), satisfied by concrete instances in the
  witnesses.

  \<^bold>\<open>Assumptions.\<close> Assertions are enabled (no NDEBUG); the target has 64 bits, little endian;
  arguments of a call are evaluated from left to right; shadow pages are allocated and files are
  written without failure; LLVM's functions behave as documented, without the constant folding
  of \<open>IRBuilder\<close>; the verification of a function at the end of the pass succeeds; the address of
  an expression is not used again while it is registered.

  \<^bold>\<open>Not modelled.\<close> Messages, logs and timing output; the streaming of a computation to a debug
  stream; the random number in site identifiers (a parameter); the stub header pin.H; the
  disabled calloc.c and the forwarding atexit.c; the fuzzing helper (Rust); scripts, tests and
  example programs. Vector types and the other instructions the pass does not support fail as
  they do in the source.
\<close>

end
